(* ===== verification/Prelude.thy ===== *)
theory Prelude imports Main "HOL-Library.Word" begin

text \<open>
  Shared vocabulary of the development: the integer widths of the C sources, the two ways a C
  function can fail to return (\<open>Fatal\<close>: the process is stopped by \<open>ERROR\<close> or \<open>ASSERT\<close>;
  \<open>UB\<close>: the behaviour is undefined, an out-of-bounds or null access), sequencing of fallible
  operations, the keyed list (an insertion-ordered dictionary with string keys) together with the
  contract its clients rely on, decimal text, and little-endian bytes.
\<close>

unbundle bit_operations_syntax

named_theorems res_simps \<open>rewrite rules for sequenced fallible operations\<close>
named_theorems kl_simps \<open>rewrite rules for keyed lists\<close>

subsection \<open>Widths\<close>

type_synonym byte = "8 word"
type_synonym u16 = "16 word"
type_synonym u32 = "32 word"
type_synonym i8 = "8 word"
type_synonym i32 = "32 word"
type_synonym f64 = "64 word"

lemma sint_eq_iff: "sint (a :: 'a :: len word) = sint b \<longleftrightarrow> a = b"
  by (auto intro: signed_word_eqI)

subsection \<open>Fallible operations\<close>

datatype fault = Fatal string | UB string

type_synonym 'a res = "fault + 'a"

definition andThen :: "'a res \<Rightarrow> ('a \<Rightarrow> 'b res) \<Rightarrow> 'b res" where
  "andThen m f = (case m of Inl e \<Rightarrow> Inl e | Inr x \<Rightarrow> f x)"

definition returns :: "'a res \<Rightarrow> bool" where
  "returns m = (case m of Inl e \<Rightarrow> False | Inr x \<Rightarrow> True)"

definition assert_that :: "bool \<Rightarrow> string \<Rightarrow> 'a res \<Rightarrow> 'a res" where
  "assert_that b msg m = (if b then m else Inl (Fatal msg))"

lemma andThen_Inr [simp, res_simps]: "andThen (Inr x) f = f x"
  by (simp add: andThen_def)

lemma andThen_Inl [simp, res_simps]: "andThen (Inl e) f = Inl e"
  by (simp add: andThen_def)

lemma andThen_eq_Inr [res_simps]:
  "andThen m f = Inr y \<longleftrightarrow> (\<exists>x. m = Inr x \<and> f x = Inr y)"
  by (cases m) auto

lemma andThen_eq_Inl [res_simps]:
  "andThen m f = Inl e \<longleftrightarrow> m = Inl e \<or> (\<exists>x. m = Inr x \<and> f x = Inl e)"
  by (cases m) auto

lemma andThen_assoc: "andThen (andThen m f) g = andThen m (\<lambda>x. andThen (f x) g)"
  by (cases m) auto

lemma andThen_return [simp]: "andThen m Inr = m"
  by (cases m) auto

lemma returns_Inr [simp]: "returns (Inr x)"
  by (simp add: returns_def)

lemma returns_Inl [simp]: "\<not> returns (Inl e)"
  by (simp add: returns_def)

lemma returns_iff: "returns m \<longleftrightarrow> (\<exists>x. m = Inr x)"
  by (cases m) auto

lemma assert_that_True [simp, res_simps]: "assert_that True msg m = m"
  by (simp add: assert_that_def)

lemma assert_that_eq_Inr [res_simps]: "assert_that b msg m = Inr y \<longleftrightarrow> b \<and> m = Inr y"
  by (simp add: assert_that_def)

text \<open>A loop over a list whose body may fail.\<close>

fun foldRes :: "('a \<Rightarrow> 's \<Rightarrow> 's res) \<Rightarrow> 'a list \<Rightarrow> 's \<Rightarrow> 's res" where
  "foldRes f [] s = Inr s"
| "foldRes f (x # xs) s = andThen (f x s) (foldRes f xs)"

lemma foldRes_append: "foldRes f (xs @ ys) s = andThen (foldRes f xs s) (foldRes f ys)"
proof (induction xs arbitrary: s)
  case Nil
  then show ?case by simp
next
  case (Cons x xs)
  then show ?case by (cases "f x s") simp_all
qed

lemma foldRes_invariant:
  assumes "foldRes f xs s = Inr t" and "P s"
    and "\<And>x s t. x \<in> set xs \<Longrightarrow> P s \<Longrightarrow> f x s = Inr t \<Longrightarrow> P t"
  shows "P t"
  using assms by (induction xs arbitrary: s) (auto simp: andThen_eq_Inr)

subsection \<open>Keyed lists\<close>

text \<open>
  \<open>KeyedList\<close>: the entries in insertion order, looked up by key. Inserting under a key that
  is present hands the caller the existing entry (which every caller then overwrites in place);
  inserting under a new key appends an entry.
\<close>

type_synonym 'a klist = "(string \<times> 'a) list"

definition kl_lookup :: "'a klist \<Rightarrow> string \<Rightarrow> 'a option" where
  "kl_lookup kl k = map_of kl k"

fun kl_put :: "string \<Rightarrow> 'a \<Rightarrow> 'a klist \<Rightarrow> 'a klist" where
  "kl_put k v [] = [(k, v)]"
| "kl_put k v ((k', v') # kl) = (if k = k' then (k, v) # kl else (k', v') # kl_put k v kl)"

definition kl_keys :: "'a klist \<Rightarrow> string list" where
  "kl_keys kl = List.map fst kl"

definition kl_values :: "'a klist \<Rightarrow> 'a list" where
  "kl_values kl = List.map snd kl"

lemma kl_lookup_Nil [simp, kl_simps]: "kl_lookup [] k = None"
  by (simp add: kl_lookup_def)

lemma kl_lookup_Cons [simp, kl_simps]:
  "kl_lookup ((k', v) # kl) k = (if k = k' then Some v else kl_lookup kl k)"
  by (simp add: kl_lookup_def)

lemma kl_lookup_put [simp, kl_simps]:
  "kl_lookup (kl_put k v kl) k' = (if k = k' then Some v else kl_lookup kl k')"
  by (induction k v kl rule: kl_put.induct) auto

lemma kl_lookup_None_iff: "kl_lookup kl k = None \<longleftrightarrow> k \<notin> set (kl_keys kl)"
  by (simp add: kl_lookup_def kl_keys_def map_of_eq_None_iff)

lemma kl_keys_Nil [simp]: "kl_keys [] = []"
  by (simp add: kl_keys_def)

lemma kl_keys_Cons [simp]: "kl_keys ((k, v) # kl) = k # kl_keys kl"
  by (simp add: kl_keys_def)

lemma kl_values_Nil [simp]: "kl_values [] = []"
  by (simp add: kl_values_def)

lemma kl_values_Cons [simp]: "kl_values ((k, v) # kl) = v # kl_values kl"
  by (simp add: kl_values_def)

lemma kl_put_new: "k \<notin> set (kl_keys kl) \<Longrightarrow> kl_put k v kl = kl @ [(k, v)]"
  by (induction k v kl rule: kl_put.induct) auto

lemma kl_keys_put:
  "kl_keys (kl_put k v kl) = (if k \<in> set (kl_keys kl) then kl_keys kl else kl_keys kl @ [k])"
  by (induction k v kl rule: kl_put.induct) auto

lemma distinct_kl_keys_put [simp, kl_simps]:
  "distinct (kl_keys (kl_put k v kl)) \<longleftrightarrow> distinct (kl_keys kl)"
  by (simp add: kl_keys_put)

lemma length_kl_put:
  "length (kl_put k v kl) = (if k \<in> set (kl_keys kl) then length kl else Suc (length kl))"
  by (induction k v kl rule: kl_put.induct) auto

lemma kl_lookup_in_set: "kl_lookup kl k = Some v \<Longrightarrow> (k, v) \<in> set kl"
  by (simp add: kl_lookup_def map_of_SomeD)

lemma kl_lookup_eq_Some_iff:
  "distinct (kl_keys kl) \<Longrightarrow> kl_lookup kl k = Some v \<longleftrightarrow> (k, v) \<in> set kl"
  by (simp add: kl_lookup_def kl_keys_def)

text \<open>
  The contract of a dictionary with string keys, as its clients use it, and the facts that follow
  from it alone.
\<close>

locale keyed_store =
  fixes empty_store :: "'m"
    and look :: "'m \<Rightarrow> string \<Rightarrow> 'v option"
    and store :: "string \<Rightarrow> 'v \<Rightarrow> 'm \<Rightarrow> 'm"
  assumes look_empty: "look empty_store k = None"
    and look_store: "look (store k v m) k' = (if k = k' then Some v else look m k')"
begin

lemma look_store_same: "look (store k v m) k = Some v"
  by (simp add: look_store)

lemma look_store_other: "k \<noteq> k' \<Longrightarrow> look (store k v m) k' = look m k'"
  by (simp add: look_store)

lemma look_store_twice: "look (store k v (store k w m)) = look (store k v m)"
  by (auto simp: look_store)

lemma look_store_commute:
  "k \<noteq> k' \<Longrightarrow> look (store k v (store k' w m)) = look (store k' w (store k v m))"
  by (auto simp: look_store)

lemma look_fold_store:
  "look (fold (\<lambda>(k, v). store k v) kvs m) k =
     (case map_of (rev kvs) k of Some v \<Rightarrow> Some v | None \<Rightarrow> look m k)"
proof (induction kvs arbitrary: m)
  case Nil
  then show ?case by simp
next
  case (Cons kv kvs)
  then show ?case
    by (cases kv) (auto simp: look_store map_add_def split: option.splits)
qed

end

interpretation kl: keyed_store "[]" kl_lookup kl_put
  by unfold_locales (auto simp: kl_simps)

subsection \<open>Lists\<close>

lemma nth_append_first [simp]: "i < length xs \<Longrightarrow> (xs @ ys) ! i = xs ! i"
  by (simp add: nth_append)

lemma length_dropWhile_less: "dropWhile P xs = c # r \<Longrightarrow> length r < length xs"
  by (metis length_dropWhile_le length_Cons less_eq_Suc_le)

subsection \<open>Decimal text\<close>

text \<open>What \<open>printf("%d")\<close> writes and what \<open>strtoll(_, NULL, 10)\<close> reads.\<close>

definition digit_char :: "nat \<Rightarrow> char" where
  "digit_char d = char_of (48 + d)"

fun dec_of_nat :: "nat \<Rightarrow> string" where
  "dec_of_nat n = (if n < 10 then [digit_char n]
                   else dec_of_nat (n div 10) @ [digit_char (n mod 10)])"

declare dec_of_nat.simps [simp del]

definition dec_of_int :: "int \<Rightarrow> string" where
  "dec_of_int i = (if i < 0 then ''-'' @ dec_of_nat (nat (- i)) else dec_of_nat (nat i))"

definition is_digit :: "char \<Rightarrow> bool" where
  "is_digit c = (48 \<le> (of_char c :: nat) \<and> (of_char c :: nat) \<le> 57)"

definition digit_val :: "char \<Rightarrow> nat" where
  "digit_val c = of_char c - 48"

definition nat_of_dec :: "string \<Rightarrow> nat" where
  "nat_of_dec s = foldl (\<lambda>n c. 10 * n + digit_val c) 0 (takeWhile is_digit s)"

lemma is_digit_digit_char [simp]: "d < 10 \<Longrightarrow> is_digit (digit_char d)"
  by (simp add: is_digit_def digit_char_def)

lemma digit_val_digit_char [simp]: "d < 10 \<Longrightarrow> digit_val (digit_char d) = d"
  by (simp add: digit_val_def digit_char_def)

lemma dec_of_nat_digits: "\<forall>c \<in> set (dec_of_nat n). is_digit c"
proof (induction n rule: dec_of_nat.induct)
  case (1 n)
  then show ?case by (subst dec_of_nat.simps) auto
qed

lemma dec_of_nat_nonempty [simp]: "dec_of_nat n \<noteq> []"
  by (subst dec_of_nat.simps) simp

lemma foldl_dec_of_nat: "foldl (\<lambda>n c. 10 * n + digit_val c) 0 (dec_of_nat n) = n"
proof (induction n rule: dec_of_nat.induct)
  case (1 n)
  show ?case
  proof (cases "n < 10")
    case True
    then show ?thesis by (subst dec_of_nat.simps) simp
  next
    case False
    with 1 have "foldl (\<lambda>n c. 10 * n + digit_val c) 0 (dec_of_nat (n div 10)) = n div 10"
      by simp
    with False show ?thesis by (subst dec_of_nat.simps) simp
  qed
qed

lemma nat_of_dec_of_nat: "nat_of_dec (dec_of_nat n) = n"
  using dec_of_nat_digits [of n] foldl_dec_of_nat [of n]
  by (simp add: nat_of_dec_def takeWhile_eq_all_conv [THEN iffD2])

subsection \<open>Little-endian bytes\<close>

definition u16_bytes :: "u16 \<Rightarrow> byte list" where
  "u16_bytes w = [ucast w, ucast (drop_bit 8 w)]"

definition u16_of_bytes :: "byte \<Rightarrow> byte \<Rightarrow> u16" where
  "u16_of_bytes a b = ucast a OR push_bit 8 (ucast b)"

definition u32_bytes :: "u32 \<Rightarrow> byte list" where
  "u32_bytes w = [ucast w, ucast (drop_bit 8 w), ucast (drop_bit 16 w), ucast (drop_bit 24 w)]"

definition u32_of_bytes :: "byte \<Rightarrow> byte \<Rightarrow> byte \<Rightarrow> byte \<Rightarrow> u32" where
  "u32_of_bytes a b c d =
     ucast a OR push_bit 8 (ucast b) OR push_bit 16 (ucast c) OR push_bit 24 (ucast d)"

lemma u16_of_bytes_inverse [simp]: "u16_of_bytes (ucast w) (ucast (drop_bit 8 w)) = w"
  by (rule bit_eqI) (auto simp: u16_of_bytes_def bit_simps not_less)

lemma u32_of_bytes_inverse [simp]:
  "u32_of_bytes (ucast w) (ucast (drop_bit 8 w)) (ucast (drop_bit 16 w)) (ucast (drop_bit 24 w)) = w"
proof (rule bit_eqI)
  fix n
  assume "possible_bit TYPE(32 word) n"
  then have "n < 32" by simp
  consider "n < 8" | "8 \<le> n" "n < 16" | "16 \<le> n" "n < 24" | "24 \<le> n"
    by linarith
  then show "bit (u32_of_bytes (ucast w) (ucast (drop_bit 8 w)) (ucast (drop_bit 16 w))
      (ucast (drop_bit 24 w))) n \<longleftrightarrow> bit w n"
    using \<open>n < 32\<close> by cases (auto simp: u32_of_bytes_def bit_simps)
qed

lemma length_u16_bytes [simp]: "length (u16_bytes w) = 2"
  by (simp add: u16_bytes_def)

lemma length_u32_bytes [simp]: "length (u32_bytes w) = 4"
  by (simp add: u32_bytes_def)

end
