(* ===== verification/Primitives.thy ===== *)
theory Primitives imports Prelude begin

text \<open>
  \<open>entity/primitive.[ch]\<close>: the tagged union of the three primitive types, its accessors and
  conversions. \<open>char\<close> and \<open>int\<close> are the 8 and 32 bit two's complement words; a \<open>double\<close> is
  its 64 bit pattern. C's floating point arithmetic, its conversions and its text format belong to
  the platform: they are the record \<open>fops\<close>, an argument of every definition that uses them.
\<close>

record fops =
  fadd :: "f64 \<Rightarrow> f64 \<Rightarrow> f64"
  fsub :: "f64 \<Rightarrow> f64 \<Rightarrow> f64"
  fmul :: "f64 \<Rightarrow> f64 \<Rightarrow> f64"
  fdiv :: "f64 \<Rightarrow> f64 \<Rightarrow> f64"
  feq :: "f64 \<Rightarrow> f64 \<Rightarrow> bool"
  flt :: "f64 \<Rightarrow> f64 \<Rightarrow> bool"
  fle :: "f64 \<Rightarrow> f64 \<Rightarrow> bool"
  f_of_i32 :: "i32 \<Rightarrow> f64"
  i32_of_f :: "f64 \<Rightarrow> i32"
  i8_of_f :: "f64 \<Rightarrow> i8"
  single_of_f :: "f64 \<Rightarrow> u32"
  f_of_single :: "u32 \<Rightarrow> f64"
  f_parse :: "string \<Rightarrow> f64"
  f_print :: "f64 \<Rightarrow> string"

text \<open>
  A concrete instance, for evaluating closed examples: a platform whose doubles are 64 bit signed
  integers. No theorem assumes it.
\<close>

definition int_fops :: fops where
  "int_fops = \<lparr>fadd = (+), fsub = (-), fmul = (*),
     fdiv = (\<lambda>x y. word_of_int (sint x div sint y)), feq = (=), flt = (\<lambda>x y. sint x < sint y),
     fle = (\<lambda>x y. sint x \<le> sint y), f_of_i32 = scast, i32_of_f = ucast, i8_of_f = ucast,
     single_of_f = ucast, f_of_single = scast, f_parse = (\<lambda>s. of_nat (nat_of_dec s)),
     f_print = (\<lambda>x. dec_of_int (sint x))\<rparr>"

(* src/entity/primitive.h [16-16] PrimitiveType *)
datatype prim_type = PT_CHAR | PT_INT | PT_FLOAT

(* src/entity/primitive.h [18-25] Primitive *)
datatype primitive = PChar i8 | PInt i32 | PFloat f64

(* src/entity/primitive.c ptype *)
fun ptype :: "primitive \<Rightarrow> prim_type" where
  "ptype (PChar c) = PT_CHAR"
| "ptype (PInt i) = PT_INT"
| "ptype (PFloat d) = PT_FLOAT"

(* src/entity/primitive.c pchar *)
definition pchar :: "primitive \<Rightarrow> i8 res" where
  "pchar p = (case p of PChar c \<Rightarrow> Inr c | _ \<Rightarrow> Inl (Fatal ''pchar: p->_type == CHAR''))"

(* src/entity/primitive.c pint *)
definition pint :: "primitive \<Rightarrow> i32 res" where
  "pint p = (case p of PInt i \<Rightarrow> Inr i | _ \<Rightarrow> Inl (Fatal ''pint: p->_type == INT''))"

(* src/entity/primitive.c pfloat *)
definition pfloat :: "primitive \<Rightarrow> f64 res" where
  "pfloat p = (case p of PFloat d \<Rightarrow> Inr d | _ \<Rightarrow> Inl (Fatal ''pfloat: p->_type == FLOAT''))"

(* src/entity/primitive.c pset_char *)
definition pset_char :: "primitive \<Rightarrow> i8 \<Rightarrow> primitive" where
  "pset_char p v = PChar v"

(* src/entity/primitive.c pset_int *)
definition pset_int :: "primitive \<Rightarrow> i32 \<Rightarrow> primitive" where
  "pset_int p v = PInt v"

(* src/entity/primitive.c pset_float *)
definition pset_float :: "primitive \<Rightarrow> f64 \<Rightarrow> primitive" where
  "pset_float p v = PFloat v"

(* src/entity/primitive.c primitive_int *)
definition primitive_int :: "i32 \<Rightarrow> primitive" where
  "primitive_int v = PInt v"

(* src/entity/primitive.c primitive_char *)
definition primitive_char :: "i8 \<Rightarrow> primitive" where
  "primitive_char v = PChar v"

(* src/entity/primitive.c primitive_float *)
definition primitive_float :: "f64 \<Rightarrow> primitive" where
  "primitive_float v = PFloat v"

(* src/entity/primitive.c float_of *)
definition float_of :: "fops \<Rightarrow> primitive \<Rightarrow> f64" where
  "float_of fo p = (case p of
     PInt i \<Rightarrow> f_of_i32 fo i
   | PChar c \<Rightarrow> f_of_i32 fo (scast c)
   | PFloat d \<Rightarrow> d)"

(* src/entity/primitive.c int_of *)
definition int_of :: "fops \<Rightarrow> primitive \<Rightarrow> i32" where
  "int_of fo p = (case p of
     PInt i \<Rightarrow> i
   | PChar c \<Rightarrow> scast c
   | PFloat d \<Rightarrow> i32_of_f fo d)"

(* src/entity/primitive.c char_of *)
definition char_of_prim :: "fops \<Rightarrow> primitive \<Rightarrow> i8" where
  "char_of_prim fo p = (case p of
     PInt i \<Rightarrow> ucast i
   | PChar c \<Rightarrow> c
   | PFloat d \<Rightarrow> i8_of_f fo d)"

(* src/entity/primitive.c primitive_equals *)
definition primitive_equals :: "fops \<Rightarrow> primitive \<Rightarrow> primitive \<Rightarrow> bool" where
  "primitive_equals fo p1 p2 =
     (if PT_FLOAT = ptype p1 \<or> PT_FLOAT = ptype p2
      then feq fo (float_of fo p1) (float_of fo p2)
      else if PT_INT = ptype p1 \<or> PT_INT = ptype p2
      then int_of fo p1 = int_of fo p2
      else char_of_prim fo p1 = char_of_prim fo p2)"

text \<open>The integer a non-floating primitive denotes.\<close>

definition integral :: "primitive \<Rightarrow> bool" where
  "integral p = (ptype p \<noteq> PT_FLOAT)"

fun prim_value :: "primitive \<Rightarrow> int" where
  "prim_value (PChar c) = sint c"
| "prim_value (PInt i) = sint i"
| "prim_value (PFloat d) = 0"

lemma sint_scast_i8 [simp]: "sint (scast (c :: i8) :: i32) = sint c"
  by (rule sint_up_scast) (simp add: is_up)

lemma sint_int_of: "integral p \<Longrightarrow> sint (int_of fo p) = prim_value p"
  by (cases p) (auto simp: integral_def int_of_def)

lemma integral_simps [simp]:
  "integral (PChar c)" "integral (PInt i)" "\<not> integral (PFloat d)"
  by (auto simp: integral_def)

lemma pint_simps [simp]: "pint (PInt i) = Inr i" "pint p = Inr i \<longleftrightarrow> p = PInt i"
  by (cases p; auto simp: pint_def)+

lemma scast_i8_eq_iff [simp]: "(scast (c :: i8) :: i32) = scast d \<longleftrightarrow> c = d"
  by (metis sint_scast_i8 sint_eq_iff)

text \<open>On char and int primitives, \<open>primitive_equals\<close> (entity/primitive.c) is equality of the
  integers the two primitives denote, whatever the mixture of their types; the promotion from char
  to int never identifies different values.\<close>

theorem primitive_equals_integral:
  assumes "integral p" and "integral q"
  shows "primitive_equals fo p q \<longleftrightarrow> prim_value p = prim_value q"
  using assms
  by (cases p; cases q)
     (auto simp: primitive_equals_def int_of_def char_of_prim_def
           simp flip: sint_eq_iff)

theorem primitive_equals_integral_witness:
  "primitive_equals int_fops (PChar 65) (PInt 65) \<longleftrightarrow> prim_value (PChar 65) = prim_value (PInt 65)"
  by (rule primitive_equals_integral [of "PChar 65" "PInt 65" int_fops]) simp_all

end
