(* ===== verification/Tokens.thy ===== *)
theory Tokens imports Primitives begin

text \<open>
  \<open>lang/lexer/token.[ch]\<close>: token kinds, the keyword table, the character classes of the lexer,
  character unescaping, and the conversion of a numeric token to a primitive.
\<close>

(* src/lang/lexer/token.h [18-105] TokenType *)
datatype (plugins only: code) token_type =
    WORD | INTEGER | FLOATING | STR_T
  | LPAREN | RPAREN | LBRCE | RBRCE | LBRAC | RBRAC
  | PLUS | MINUS | STAR | FSLASH | BSLASH | PERCENT
  | AMPER | PIPE | CARET | TILDE
  | EXCLAIM | QUESTION | AT | POUND
  | LTHAN | GTHAN | EQUALS
  | ENDLINE | SEMICOLON | COMMA | COLON | PERIOD
  | LARROW | RARROW | INCREMENT | DECREMENT | LTHANEQ | GTHANEQ | EQUIV | NEQUIV
  | IF_T | THEN_T | ELSE | DEF | NEW | FIELD | METHOD | CLASS | WHILE | FOR | BREAK | CONTINUE
  | RETURN | AS | IS_T | TRY | CATCH | RAISE | IMPORT | MODULE_T | EXIT_T | IN | NOTIN | CONST_T
  | AND_T | OR_T | ASYNC | AWAIT

text \<open>The token: \<open>len\<close> is always \<open>strlen(text)\<close> and is not stored.\<close>

(* src/lang/lexer/token.h [107-112] Token *)
record token =
  tok_type :: token_type
  tok_line :: int
  tok_col :: int
  tok_text :: string

text \<open>\<open>keyword_to_type\<close>, and the enumerators from \<open>KEYWORD_TOKEN_OFFSET\<close> on, in their order.\<close>

(* src/lang/lexer/token.c [17-22] keyword_to_type *)
definition keyword_to_type :: "string list" where
  "keyword_to_type =
     [''if'', ''then'', ''else'', ''def'', ''new'', ''field'', ''method'',
      ''class'', ''while'', ''for'', ''break'', ''continue'', ''return'', ''as'',
      ''is'', ''try'', ''catch'', ''raise'', ''import'', ''module'', ''exit'',
      ''in'', ''notin'', ''const'', ''and'', ''or'', ''async'', ''await'']"

(* src/lang/lexer/token.h [77-104] KEYWORD_TOKEN_OFFSET *)
definition keyword_tokens :: "token_type list" where
  "keyword_tokens =
     [IF_T, THEN_T, ELSE, DEF, NEW, FIELD, METHOD, CLASS, WHILE, FOR, BREAK, CONTINUE, RETURN, AS,
      IS_T, TRY, CATCH, RAISE, IMPORT, MODULE_T, EXIT_T, IN, NOTIN, CONST_T, AND_T, OR_T,
      ASYNC, AWAIT]"

(* src/lang/lexer/token.c keyword *)
definition keyword :: "token_type \<Rightarrow> string res" where
  "keyword t = (case map_of (zip keyword_tokens keyword_to_type) t of
     Some w \<Rightarrow> Inr w
   | None \<Rightarrow> Inl (UB ''keyword_to_type read out of bounds''))"

(* src/lang/lexer/token.c word_type *)
definition word_type :: "string \<Rightarrow> token_type" where
  "word_type word = (case map_of (zip keyword_to_type keyword_tokens) word of
     Some t \<Rightarrow> t
   | None \<Rightarrow> WORD)"

(* src/lang/lexer/token.c token_fill *)
definition token_fill :: "token_type \<Rightarrow> int \<Rightarrow> int \<Rightarrow> string \<Rightarrow> token" where
  "token_fill type line col text =
     \<lparr>tok_type = type, tok_line = line, tok_col = col, tok_text = text\<rparr>"

(* src/lang/lexer/token.c token_create *)
definition token_create :: "token_type \<Rightarrow> int \<Rightarrow> int \<Rightarrow> string \<Rightarrow> token" where
  "token_create type line col text = token_fill type line col text"

(* src/lang/lexer/token.c token_copy *)
definition token_copy :: "token \<Rightarrow> token" where
  "token_copy tok = token_create (tok_type tok) (tok_line tok) (tok_col tok) (tok_text tok)"

subsection \<open>Character classes\<close>

(* src/lang/lexer/token.c is_special_char *)
definition is_special_char :: "char \<Rightarrow> bool" where
  "is_special_char c \<longleftrightarrow>
     c \<in> {CHR ''('', CHR '')'', CHR ''{'', CHR ''}'', CHR ''['', CHR '']'', CHR ''+'', CHR ''-'',
          CHR ''*'', CHR ''/'', CHR 0x5C, CHR ''%'', CHR ''&'', CHR ''|'', CHR ''^'', CHR ''~'',
          CHR ''!'', CHR ''?'', CHR ''@'', CHR ''#'', CHR ''<'', CHR ''>'', CHR ''='', CHR '','',
          CHR '':'', CHR ''.'', CHR 0x27}"

text \<open>\<open>is_numeric\<close> is \<open>is_digit\<close> of the prelude: \<open>'0' <= c && '9' >= c\<close>.\<close>

(* src/lang/lexer/token.c is_numeric *)
definition is_numeric :: "char \<Rightarrow> bool" where
  "is_numeric c = is_digit c"

(* src/lang/lexer/token.c is_number *)
definition is_number :: "char \<Rightarrow> bool" where
  "is_number c = (is_numeric c \<or> c = CHR ''.'')"

(* src/lang/lexer/token.c is_alphabetic *)
definition is_alphabetic :: "char \<Rightarrow> bool" where
  "is_alphabetic c =
     ((65 \<le> (of_char c :: nat) \<and> (of_char c :: nat) \<le> 90) \<or>
      (97 \<le> (of_char c :: nat) \<and> (of_char c :: nat) \<le> 122))"

(* src/lang/lexer/token.c is_alphanumeric *)
definition is_alphanumeric :: "char \<Rightarrow> bool" where
  "is_alphanumeric c = (is_numeric c \<or> is_alphabetic c \<or> c = CHR ''_'' \<or> c = CHR ''$'')"

(* src/lang/lexer/token.c is_any_space *)
definition is_any_space :: "char \<Rightarrow> bool" where
  "is_any_space c \<longleftrightarrow> c \<in> {CHR '' '', CHR 0x09, CHR 0x0A, CHR 0x0D}"

(* src/lang/lexer/token.c is_whitespace *)
definition is_whitespace :: "char \<Rightarrow> bool" where
  "is_whitespace c \<longleftrightarrow> c = CHR '' '' \<or> c = CHR 0x09 \<or> c = CHR 0x0D"

(* src/lang/lexer/token.c char_unesc *)
definition char_unesc :: "char \<Rightarrow> char" where
  "char_unesc u =
     (if u = CHR ''a'' then CHR 0x07
      else if u = CHR ''b'' then CHR 0x08
      else if u = CHR ''f'' then CHR 0x0C
      else if u = CHR ''n'' then CHR 0x0A
      else if u = CHR ''r'' then CHR 0x0D
      else if u = CHR ''t'' then CHR 0x09
      else if u = CHR ''v'' then CHR 0x0B
      else u)"

subsection \<open>Numeric tokens\<close>

text \<open>\<open>strtoll(text, NULL, 10)\<close>: leading space, a sign, digits, clamped to 64 bits.\<close>

definition is_c_space :: "char \<Rightarrow> bool" where
  "is_c_space c \<longleftrightarrow> c = CHR '' '' \<or> (9 \<le> (of_char c :: nat) \<and> (of_char c :: nat) \<le> 13)"

definition clamp64 :: "int \<Rightarrow> int" where
  "clamp64 i = max (- (2 ^ 63)) (min i (2 ^ 63 - 1))"

definition strtoll :: "string \<Rightarrow> int" where
  "strtoll s = (case dropWhile is_c_space s of
     [] \<Rightarrow> 0
   | c # r \<Rightarrow>
       if c = CHR ''-'' then clamp64 (- int (nat_of_dec r))
       else if c = CHR ''+'' then clamp64 (int (nat_of_dec r))
       else clamp64 (int (nat_of_dec (c # r))))"

(* src/lang/lexer/token.c token_to_primitive *)
definition token_to_primitive :: "fops \<Rightarrow> token \<Rightarrow> primitive res" where
  "token_to_primitive fo tok =
     (if tok_type tok = INTEGER then Inr (PInt (word_of_int (strtoll (tok_text tok))))
      else if tok_type tok = FLOATING then Inr (PFloat (f_parse fo (tok_text tok)))
      else Inl (Fatal ''Attempted to create a Value from a non-number''))"

subsection \<open>Facts\<close>

lemma keyword_word_type_table:
  "list_all (\<lambda>t. case keyword t of Inr w \<Rightarrow> word_type w = t | Inl e \<Rightarrow> False) keyword_tokens"
  by code_simp

lemma word_type_keyword_table:
  "list_all (\<lambda>w. keyword (word_type w) = Inr w) keyword_to_type"
  by code_simp

lemma keyword_dom: "keyword t = Inr w \<Longrightarrow> t \<in> set keyword_tokens"
  by (auto simp: keyword_def split: option.splits dest!: map_of_SomeD dest: set_zip_leftD)

lemma word_type_dom: "word_type w = t \<Longrightarrow> t \<noteq> WORD \<Longrightarrow> w \<in> set keyword_to_type"
  by (auto simp: word_type_def split: option.splits dest!: map_of_SomeD dest: set_zip_leftD)

lemma WORD_not_keyword: "WORD \<notin> set keyword_tokens"
  by (simp add: keyword_tokens_def)

text \<open>The keyword table is a bijection: \<open>word_type\<close> resolves a word to a keyword token exactly
  when \<open>keyword\<close> prints that token as that word, so printing a keyword and resolving it again is
  the identity, and every other word resolves to \<open>WORD\<close>.\<close>

theorem word_type_inverts_keyword:
  assumes "t \<noteq> WORD"
  shows "word_type w = t \<longleftrightarrow> keyword t = Inr w"
proof
  assume w: "word_type w = t"
  then have "w \<in> set keyword_to_type" using assms by (rule word_type_dom)
  with word_type_keyword_table w show "keyword t = Inr w"
    by (auto simp: list_all_iff)
next
  assume k: "keyword t = Inr w"
  then have "t \<in> set keyword_tokens" by (rule keyword_dom)
  with keyword_word_type_table k show "word_type w = t"
    by (auto simp: list_all_iff)
qed

theorem word_type_inverts_keyword_witness:
  "word_type ''while'' = WHILE \<longleftrightarrow> keyword WHILE = Inr ''while''"
  by (rule word_type_inverts_keyword) simp

text \<open>An identifier starts with a letter, an underscore or a dollar sign and goes on with those
  and digits.\<close>

definition is_identifier :: "string \<Rightarrow> bool" where
  "is_identifier w = (case w of [] \<Rightarrow> False
     | c # r \<Rightarrow> is_alphanumeric c \<and> \<not> is_numeric c \<and> list_all is_alphanumeric r)"

lemma alphanumeric_not_special: "is_alphanumeric c \<Longrightarrow> \<not> is_special_char c"
  by (auto simp: is_alphanumeric_def is_special_char_def is_numeric_def is_digit_def is_alphabetic_def)

lemma alphanumeric_not_space: "is_alphanumeric c \<Longrightarrow> \<not> is_whitespace c"
  by (auto simp: is_alphanumeric_def is_whitespace_def is_numeric_def is_digit_def is_alphabetic_def)

lemma alphanumeric_not_comment: "is_alphanumeric c \<Longrightarrow> c \<noteq> CHR '';''"
  by (auto simp: is_alphanumeric_def is_numeric_def is_digit_def is_alphabetic_def)

lemma alphanumeric_not_newline: "is_alphanumeric c \<Longrightarrow> c \<noteq> CHR 0x0A"
  by (auto simp: is_alphanumeric_def is_numeric_def is_digit_def is_alphabetic_def)

lemma space_not_alphanumeric: "\<not> is_alphanumeric (CHR '' '')"
  by (simp add: is_alphanumeric_def is_numeric_def is_digit_def is_alphabetic_def)

lemma newline_not_alphanumeric: "\<not> is_alphanumeric (CHR 0x0A)"
  by (simp add: is_alphanumeric_def is_numeric_def is_digit_def is_alphabetic_def)

end
