(* ===== verification/Lexer.thy ===== *)
theory Lexer imports Tokens begin

text \<open>
  \<open>lang/lexer/lexer.c\<close>. A line is the list of its characters; reading at its end gives the
  terminating NUL, reading past that is undefined. The lexer's queue is a token list with its first
  token at the front. Three functions of the container and string libraries the lexer calls are the
  record \<open>lexlib\<close>: \<open>ends_with\<close>, \<open>contains_char\<close> and \<open>Q_dequeue\<close> (the queue after it).
\<close>

record lexlib =
  ends_with :: "string \<Rightarrow> string \<Rightarrow> bool"
  contains_char :: "string \<Rightarrow> char \<Rightarrow> bool"
  q_dequeue :: "token list \<Rightarrow> token list"

text \<open>An instance, for evaluating closed examples.\<close>

definition std_lexlib :: lexlib where
  "std_lexlib = \<lparr>ends_with = (\<lambda>s t. drop (length s - length t) s = t),
     contains_char = (\<lambda>s c. c \<in> set s), q_dequeue = tl\<rparr>"

text \<open>What is documented of \<open>Q_dequeue\<close>: it takes one element off an end of the queue.\<close>

definition dequeues :: "(token list \<Rightarrow> token list) \<Rightarrow> bool" where
  "dequeues f \<longleftrightarrow> (\<forall>q. f q = tl q \<or> f q = butlast q)"

definition MAX_LINE_LEN :: nat where
  "MAX_LINE_LEN = 1000"

definition char_at :: "string \<Rightarrow> nat \<Rightarrow> char" where
  "char_at s i = (if i < length s then s ! i else CHR 0x00)"

subsection \<open>Words\<close>

text \<open>The \<open>switch\<close> of \<open>_resolve_type\<close>, with its two-character symbols; \<open>None\<close> is its default.\<close>

(* src/lang/lexer/lexer.c [27-112] _resolve_type *)
definition symbol_type :: "char \<Rightarrow> char \<Rightarrow> token_type option" where
  "symbol_type c d =
     (if c = CHR ''('' then Some LPAREN
      else if c = CHR '')'' then Some RPAREN
      else if c = CHR ''{'' then Some LBRCE
      else if c = CHR ''}'' then Some RBRCE
      else if c = CHR ''['' then Some LBRAC
      else if c = CHR '']'' then Some RBRAC
      else if c = CHR ''+'' then Some (if d = CHR ''+'' then INCREMENT else PLUS)
      else if c = CHR ''-'' then Some (if d = CHR ''>'' then RARROW
                                       else if d = CHR ''-'' then DECREMENT else MINUS)
      else if c = CHR ''*'' then Some STAR
      else if c = CHR ''/'' then Some FSLASH
      else if c = CHR 0x5C then Some BSLASH
      else if c = CHR ''%'' then Some PERCENT
      else if c = CHR ''&'' then Some AMPER
      else if c = CHR ''|'' then Some PIPE
      else if c = CHR ''^'' then Some CARET
      else if c = CHR ''~'' then Some TILDE
      else if c = CHR ''!'' then Some (if d = CHR ''='' then NEQUIV else EXCLAIM)
      else if c = CHR ''?'' then Some QUESTION
      else if c = CHR ''@'' then Some AT
      else if c = CHR ''#'' then Some POUND
      else if c = CHR ''<'' then Some (if d = CHR ''-'' then LARROW
                                       else if d = CHR ''='' then LTHANEQ else LTHAN)
      else if c = CHR ''>'' then Some (if d = CHR ''='' then GTHANEQ else GTHAN)
      else if c = CHR ''='' then Some (if d = CHR ''='' then EQUIV else EQUALS)
      else if c = CHR '','' then Some COMMA
      else if c = CHR '':'' then Some COLON
      else if c = CHR ''.'' then Some PERIOD
      else if c = CHR 0x27 then Some STR_T
      else if c = CHR '';'' then Some SEMICOLON
      else None)"

text \<open>The token type of a word and the new value of the comment flag.\<close>

(* src/lang/lexer/lexer.c _resolve_type *)
definition resolve_type :: "lexlib \<Rightarrow> string \<Rightarrow> bool \<Rightarrow> token_type \<times> bool" where
  "resolve_type lib word in_comment =
     (if word = [] then (ENDLINE, False)
      else case symbol_type (char_at word 0) (char_at word 1) of
        Some t \<Rightarrow> (t, if char_at word 0 = CHR '';'' then True else in_comment)
      | None \<Rightarrow>
          (if is_number (char_at word 0)
           then (if ends_with lib word ''f'' \<or> contains_char lib word (CHR ''.'')
                 then FLOATING else INTEGER)
           else word_type word, in_comment))"

(* src/lang/lexer/lexer.c is_complex *)
definition is_complex :: "string \<Rightarrow> bool" where
  "is_complex seq =
     (let c = char_at seq 0; sec = char_at seq 1 in
      if c = CHR ''+'' then sec = CHR ''+'' \<or> sec = CHR ''=''
      else if c = CHR ''-'' then sec = CHR ''-'' \<or> sec = CHR ''='' \<or> sec = CHR ''>''
      else if c = CHR ''<'' then sec = CHR ''-'' \<or> sec = CHR ''='' \<or> sec = CHR ''<'' \<or> sec = CHR ''>''
      else if c = CHR ''>'' then sec = CHR ''='' \<or> sec = CHR ''>''
      else if c = CHR ''='' then sec = CHR ''=''
      else if c = CHR ''!'' then sec = CHR ''=''
      else False)"

text \<open>
  \<open>_read_word\<close> from the position whose remaining text is \<open>s\<close>: the word and the text after it.
  Trailing blanks with nothing after them make it step over the terminating NUL, and a word of
  \<open>MAX_LINE_LEN\<close> characters overflows the caller's buffer.
\<close>

definition number_tail :: "char \<Rightarrow> bool" where
  "number_tail c = (is_number c \<or> c = CHR ''f'')"

(* src/lang/lexer/lexer.c [169-200] _read_word *)
definition scan_word :: "string \<Rightarrow> string \<times> string" where
  "scan_word s = (case s of
     [] \<Rightarrow> ([], [])
   | c # r \<Rightarrow>
       if is_special_char c \<or> c = CHR '';''
       then (if is_complex s then (take 2 s, drop 2 s) else ([c], r))
       else if c = CHR 0x0A then ([], s)
       else if \<not> is_alphanumeric c then ([c], r)
       else if is_number c then (c # takeWhile number_tail r, dropWhile number_tail r)
       else (c # takeWhile is_alphanumeric r, dropWhile is_alphanumeric r))"

(* src/lang/lexer/lexer.c _read_word *)
definition read_word :: "string \<Rightarrow> (string \<times> string) res" where
  "read_word s =
     (if s = [] then Inr ([], [])
      else if dropWhile is_whitespace s = [] then Inl (UB ''read past the end of the line'')
      else if length (fst (scan_word (dropWhile is_whitespace s))) < MAX_LINE_LEN
      then Inr (scan_word (dropWhile is_whitespace s))
      else Inl (UB ''word buffer overflow''))"

text \<open>
  \<open>_read_string\<close> after the opening quote: the characters up to the closing quote (which is
  copied), with escapes replaced. An unterminated literal runs off the end of the line.
\<close>

(* src/lang/lexer/lexer.c [208-219] _read_string *)
fun read_string_chars :: "bool \<Rightarrow> string \<Rightarrow> (string \<times> string) res" where
  "read_string_chars esc [] = Inl (UB ''unterminated string literal'')"
| "read_string_chars esc (c # cs) =
     (if c = CHR 0x27 then Inr ([], cs)
      else if c = CHR 0x5C \<and> esc
      then (case cs of
              [] \<Rightarrow> Inl (UB ''unterminated string literal'')
            | d # ds \<Rightarrow> andThen (read_string_chars esc ds)
                        (\<lambda>(w, rest). Inr (char_unesc d # w, rest)))
      else andThen (read_string_chars esc cs) (\<lambda>(w, rest). Inr (c # w, rest)))"

(* src/lang/lexer/lexer.c _read_string *)
definition read_string :: "bool \<Rightarrow> string \<Rightarrow> (string \<times> string) res" where
  "read_string esc s = andThen (read_string_chars esc s) (\<lambda>(w, rest).
     if length w + 2 < MAX_LINE_LEN then Inr (CHR 0x27 # w @ [CHR 0x27], rest)
     else Inl (UB ''word buffer overflow''))"

subsection \<open>Lines\<close>

text \<open>
  One turn of the loop of \<open>lex_line\<close> up to the queue: the number of characters \<open>_read_word\<close>
  consumed, the type, the comment flag, the text of the token and the text left on the line.
\<close>

(* src/lang/lexer/lexer.c [262-270] lex_line *)
definition lex_step ::
  "lexlib \<Rightarrow> bool \<Rightarrow> string \<Rightarrow> bool \<Rightarrow> (nat \<times> token_type \<times> bool \<times> string \<times> string) res" where
  "lex_step lib esc s in_comment =
     andThen (read_word s) (\<lambda>(word, rest).
       let consumed = length s - length rest; (t, ic) = resolve_type lib word in_comment in
       if ic then Inr (consumed, t, ic, word, rest)
       else if t = STR_T
       then andThen (read_string esc rest) (\<lambda>(text, rest'). Inr (consumed, t, ic, text, rest'))
       else Inr (consumed, t, ic, word, rest))"

definition ends_in :: "token_type \<Rightarrow> token list \<Rightarrow> bool" where
  "ends_in t q = (q \<noteq> [] \<and> tok_type (last q) = t)"

(* src/lang/lexer/lexer.c [277-282] lex_line *)
definition enqueue_token :: "token_type \<Rightarrow> int \<Rightarrow> int \<Rightarrow> string \<Rightarrow> token list \<Rightarrow> token list" where
  "enqueue_token t line col text q =
     (if t \<noteq> ENDLINE \<or> (q \<noteq> [] \<and> \<not> ends_in ENDLINE q)
      then q @ [token_create t line (col - int (length text)) text] else q)"

lemma length_read_string_chars:
  "read_string_chars esc s = Inr (w, rest) \<Longrightarrow> length rest < length s"
proof (induction esc s arbitrary: w rest rule: read_string_chars.induct)
  case (1 esc)
  then show ?case by simp
next
  case (2 esc c cs)
  consider "c = CHR 0x27" | "c \<noteq> CHR 0x27" "c = CHR 0x5C \<and> esc"
    | "c \<noteq> CHR 0x27" "\<not> (c = CHR 0x5C \<and> esc)" by blast
  then show ?case
  proof cases
    case 1
    with "2.prems" show ?thesis by simp
  next
    case 2
    with "2.prems" obtain d ds w' where "cs = d # ds"
      and "read_string_chars esc ds = Inr (w', rest)"
      by (auto simp: andThen_eq_Inr split: list.splits)
    with "2.IH"(1) 2 show ?thesis by fastforce
  next
    case 3
    with "2.prems" obtain w' where "read_string_chars esc cs = Inr (w', rest)"
      by (auto simp: andThen_eq_Inr)
    with "2.IH"(2) 3 show ?thesis by fastforce
  qed
qed

lemma length_read_string: "read_string esc s = Inr (w, rest) \<Longrightarrow> length rest < length s"
  by (auto simp: read_string_def andThen_eq_Inr split: if_splits dest!: length_read_string_chars)

lemma scan_word_append: "fst (scan_word s) @ snd (scan_word s) = s"
  by (cases s) (auto simp: scan_word_def)

lemma read_word_Inr:
  assumes "read_word s = Inr (word, rest)"
  shows "word @ rest = dropWhile is_whitespace s"
proof -
  from assms have "s = [] \<and> word = [] \<and> rest = [] \<or>
      (word, rest) = scan_word (dropWhile is_whitespace s)"
    by (auto simp: read_word_def split: if_splits)
  then show ?thesis using scan_word_append [of "dropWhile is_whitespace s"]
    by (metis append_Nil dropWhile.simps(1) fst_conv snd_conv)
qed

lemma read_word_rest:
  assumes "read_word s = Inr (word, rest)"
  shows "length word + length rest \<le> length s"
  using read_word_Inr [OF assms] length_dropWhile_le [of is_whitespace s]
  by (metis length_append)

lemma lex_step_cases:
  assumes "lex_step lib esc s ic = Inr (consumed, t, ic', text, rest)"
  obtains word rest0 where "read_word s = Inr (word, rest0)"
    and "consumed = length s - length rest0"
    and "resolve_type lib word ic = (t, ic')"
    and "(ic' \<or> t \<noteq> STR_T) \<and> text = word \<and> rest = rest0 \<or>
         \<not> ic' \<and> t = STR_T \<and> read_string esc rest0 = Inr (text, rest)"
proof -
  from assms obtain wr where wr: "read_word s = Inr wr"
    by (cases "read_word s") (auto simp: lex_step_def Let_def)
  obtain word rest0 where p: "wr = (word, rest0)" by (cases wr)
  obtain t0 c0 where r: "resolve_type lib word ic = (t0, c0)"
    by (cases "resolve_type lib word ic")
  show ?thesis
  proof (cases "\<not> c0 \<and> t0 = STR_T")
    case True
    then obtain text' rest' where rs: "read_string esc rest0 = Inr (text', rest')"
      using assms wr p r by (cases "read_string esc rest0") (auto simp: lex_step_def Let_def)
    show ?thesis
      by (rule that [of word rest0]) (use assms wr p r rs True in \<open>simp_all add: lex_step_def Let_def\<close>)
  next
    case False
    show ?thesis
      by (rule that [of word rest0])
         (use assms wr p r False in \<open>auto simp: lex_step_def Let_def split: if_splits\<close>)
  qed
qed

lemma lex_step_shorter:
  assumes "lex_step lib esc s ic = Inr (consumed, t, ic', text, rest)" and "consumed \<noteq> 0"
  shows "length rest < length s"
  using assms by (auto elim!: lex_step_cases dest!: length_read_string)

lemma resolve_type_comment: "resolve_type lib word ic = (t, True) \<Longrightarrow> word \<noteq> []"
  by (auto simp: resolve_type_def)

lemma lex_step_comment_consumes:
  assumes "lex_step lib esc s ic = Inr (consumed, t, True, text, rest)"
  shows "consumed \<noteq> 0"
proof -
  from assms obtain word rest' where "read_word s = Inr (word, rest')"
    and "consumed = length s - length rest'" and "word \<noteq> []"
    by (auto elim!: lex_step_cases dest: resolve_type_comment)
  then show ?thesis using read_word_rest [of s word rest'] by (cases word) auto
qed

text \<open>
  The loop of \<open>lex_line\<close> over the rest \<open>s\<close> of line \<open>ln\<close>, with the unread lines after it. A
  backslash before the end of the line removes a token from the queue and lexes the next line
  before it goes on; the result counts the lines that took.
\<close>

(* src/lang/lexer/lexer.c [258-287] lex_line *)
function lex_chars ::
  "lexlib \<Rightarrow> bool \<Rightarrow> int \<Rightarrow> (int \<times> string) list \<Rightarrow> string \<Rightarrow> bool \<Rightarrow> int \<Rightarrow> token list
   \<Rightarrow> (nat \<times> token list) res" where
  "lex_chars lib esc ln lines s in_comment col q =
     (case lex_step lib esc s in_comment of
        Inl e \<Rightarrow> Inl e
      | Inr (consumed, t, ic, text, rest) \<Rightarrow>
          (if ic then lex_chars lib esc ln lines rest ic (col + int consumed) q
           else if t = ENDLINE \<and> ends_in BSLASH q
           then (case lines of
                   [] \<Rightarrow> (if consumed = 0 then Inr (0, q_dequeue lib q)
                          else lex_chars lib esc ln [] rest ic (col + int consumed) (q_dequeue lib q))
                 | (n, l) # ls \<Rightarrow>
                     (case lex_chars lib esc n ls l False 0 (q_dequeue lib q) of
                        Inl e \<Rightarrow> Inl e
                      | Inr (k, q') \<Rightarrow>
                          (if consumed = 0 then Inr (Suc k, q')
                           else (case lex_chars lib esc ln (drop k ls) rest ic (col + int consumed) q' of
                                   Inl e \<Rightarrow> Inl e
                                 | Inr (k', q'') \<Rightarrow> Inr (Suc k + k', q'')))))
           else if consumed = 0 then Inr (0, enqueue_token t ln col text q)
           else lex_chars lib esc ln lines rest ic (col + int consumed)
                  (enqueue_token t ln (col + int consumed) text q)))"
  by pat_completeness auto
termination
  by (relation "measures [\<lambda>(lib, esc, ln, lines, s, ic, col, q). length lines,
                          \<lambda>(lib, esc, ln, lines, s, ic, col, q). length s]")
     (auto dest: lex_step_shorter lex_step_comment_consumes
        simp: le_imp_less_Suc)

declare lex_chars.simps [simp del]

text \<open>The lexer: its file (the unread lines, each with its number) and its queue.\<close>

(* src/lang/lexer/lexer.h [20-24] Lexer *)
record lexer =
  lx_escape :: bool
  lx_lines :: "(int \<times> string) list"
  lx_q :: "token list"

(* src/lang/lexer/lexer.c lexer_init *)
definition lexer_init :: "(int \<times> string) list \<Rightarrow> bool \<Rightarrow> lexer" where
  "lexer_init fi escape_characters =
     \<lparr>lx_escape = escape_characters, lx_lines = fi, lx_q = []\<rparr>"

(* src/lang/lexer/lexer.c lex_line *)
definition lex_line :: "lexlib \<Rightarrow> lexer \<Rightarrow> (bool \<times> lexer) res" where
  "lex_line lib lx = (case lx_lines lx of
     [] \<Rightarrow> Inr (False, lx)
   | (n, l) # ls \<Rightarrow>
       andThen (lex_chars lib (lx_escape lx) n ls l False 0 (lx_q lx)) (\<lambda>(k, q).
         Inr (True, lx\<lparr>lx_lines := drop k ls, lx_q := q\<rparr>)))"

lemma lex_line_shorter:
  "lex_line lib lx = Inr (True, lx') \<Longrightarrow> length (lx_lines lx') < length (lx_lines lx)"
  by (auto simp: lex_line_def andThen_eq_Inr split: list.splits)

(* src/lang/lexer/lexer.c lex *)
function lex :: "lexlib \<Rightarrow> lexer \<Rightarrow> token list res" where
  "lex lib lx = (case lex_line lib lx of
     Inl e \<Rightarrow> Inl e
   | Inr (again, lx') \<Rightarrow> (if again then lex lib lx' else Inr (lx_q lx')))"
  by pat_completeness auto
termination
  by (relation "measure (\<lambda>(lib, lx). length (lx_lines lx))") (auto dest: lex_line_shorter)

declare lex.simps [simp del]

end
