(* ===== verification/Grammar.thy ===== *)
theory Grammar imports Lexer begin

text \<open>
  The grammar of \<open>lang/parser/parser.c\<close> as data: each \<open>ImplSyntax\<close> is a nonterminal with its rule, built from
  the macros \<open>Or\<close>, \<open>And\<close>, \<open>Type\<close>, \<open>Opt\<close> and \<open>Epsilon\<close>. The nonterminals are grouped as in the file.
\<close>

subsection \<open>Nonterminals\<close>

text \<open>Primary, postfix, unary and binary expressions up to \<open>|\<close>.\<close>

datatype (plugins only: code) expr_nt =
    identifier_nt | new_expression | constant_nt | string_literal | array_declaration |
    map_declaration_entry | map_declaration_entry1 | map_declaration_list | map_declaration |
    length_expression | primary_expression | primary_expression_no_constants | postfix_expression1 |
    postfix_expression | range_expression | unary_expression | binary_and_expression1 |
    binary_and_expression | binary_xor_expression1 | binary_xor_expression | binary_or_expression1 |
    binary_or_expression

text \<open>Arithmetic, comparison, logic, conditional expressions.\<close>

datatype (plugins only: code) bool_nt =
    multiplicative_expression1 | multiplicative_expression | additive_expression1 | additive_expression
    | in_expression1 | in_expression | relational_expression1 | relational_expression |
    equality_expression1 | equality_expression | and_expression1 | and_expression | or_expression1 |
    or_expression | is_expression | conditional_expression

text \<open>Left-hand sides, assignments, tuples.\<close>

datatype (plugins only: code) assign_nt =
    const_assignment_expression | array_index_assignment | function_call_args | field_extension |
    field_set_value | field_suffix | field_next | field_expression1 | field_expression |
    assignment_lhs_single | assignment_tuple_list1 | assignment_tuple_list | assignment_tuple |
    assignment_array | assignment_lhs | assignment_expression | tuple_expression1 | tuple_expression

text \<open>Statements.\<close>

datatype (plugins only: code) stmt_nt =
    expression_statement | foreach_statement | for_statement | while_statement | iteration_statement |
    compound_statement | selection_statement | exit_statement | raise_statement | catch_assign |
    try_statement | jump_statement | break_statement | default_value_expression | const_expression

text \<open>Functions and methods.\<close>

datatype (plugins only: code) fun_nt =
    function_arg_default_value | function_arg_elt_with_default | function_arg_elt |
    const_function_argument | function_argument | function_argument_list1 | function_argument_list |
    function_arguments_present | function_arguments_no_args | function_arguments | def_identifier |
    function_signature_no_qualifier | function_qualifier | function_qualifier_list1 |
    function_qualifier_list | function_signature_with_qualifier | function_signature |
    function_definition | method_identifier | method_signature_no_qualifier |
    method_signature_with_qualifier | method_signature | method_definition

text \<open>Constructors and anonymous functions.\<close>

datatype (plugins only: code) new_nt =
    new_arg_var | new_field_arg | new_arg_default_value | new_arg_elt_with_default | new_arg_elt |
    const_new_argument | new_argument | new_argument_list1 | new_argument_list | new_arguments_present
    | new_arguments_no_args | new_arguments | new_identifier | new_signature_nonconst |
    new_signature_const | new_signature | new_definition | anon_signature_no_qualifier |
    anon_signature_with_qualifier | anon_signature | anon_function_lambda_lhs |
    anon_function_lambda_rhs | anon_function_definition

text \<open>Classes, imports, and the levels of a file.\<close>

datatype (plugins only: code) class_nt =
    identifier_list1 | identifier_list | field_statement | class_statement | class_statement_list1 |
    class_statement_list | parent_class_list1 | parent_class_list | parent_classes |
    class_compound_statement | class_name_and_inheritance | class_definition_no_annotation |
    annotation_not_called | annotation_no_arguments | annotation_with_arguments | annotation |
    class_definition_with_annotation | class_definition | import_statement | module_statement |
    statement | file_level_statement | file_level_statement_list1 | file_level_statement_list |
    statement_list1 | statement_list

datatype nonterm =
    Expr expr_nt | Bool bool_nt | Assign assign_nt | Stmt stmt_nt | Func fun_nt | Newf new_nt | Clas class_nt

subsection \<open>Rules\<close>

(* src/lang/parser/parser.h [16-16] ParseExpression *)
datatype parse_expression =
    Type token_type | Or parse_expression parse_expression |
    And parse_expression parse_expression | Opt parse_expression | Epsilon | NT nonterm

abbreviation expr :: "expr_nt \<Rightarrow> parse_expression" where "expr x \<equiv> NT (Expr x)"

abbreviation bool :: "bool_nt \<Rightarrow> parse_expression" where "bool x \<equiv> NT (Bool x)"

abbreviation assign :: "assign_nt \<Rightarrow> parse_expression" where "assign x \<equiv> NT (Assign x)"

abbreviation stmt :: "stmt_nt \<Rightarrow> parse_expression" where "stmt x \<equiv> NT (Stmt x)"

abbreviation func :: "fun_nt \<Rightarrow> parse_expression" where "func x \<equiv> NT (Func x)"

abbreviation newf :: "new_nt \<Rightarrow> parse_expression" where "newf x \<equiv> NT (Newf x)"

abbreviation clas :: "class_nt \<Rightarrow> parse_expression" where "clas x \<equiv> NT (Clas x)"

text \<open>\<open>Or3\<close> to \<open>Or9\<close> and \<open>And3\<close> to \<open>And9\<close> nest to the right.\<close>

(* src/lang/parser/parser.c [309-321] Or *)
fun Ors :: "parse_expression list \<Rightarrow> parse_expression" where
  "Ors [] = Epsilon"
| "Ors [a] = a"
| "Ors (a # b # cs) = Or a (Ors (b # cs))"

(* src/lang/parser/parser.c [333-347] And *)
fun Ands :: "parse_expression list \<Rightarrow> parse_expression" where
  "Ands [] = Epsilon"
| "Ands [a] = a"
| "Ands (a # b # cs) = And a (Ands (b # cs))"

(* src/lang/parser/parser.c Ln *)
definition Ln :: "parse_expression \<Rightarrow> parse_expression" where
  "Ln e = And e (Opt (Type ENDLINE))"

(* src/lang/parser/parser.c TypeLn *)
definition TypeLn :: "token_type \<Rightarrow> parse_expression" where
  "TypeLn t = Ln (Type t)"

(* src/lang/parser/parser.c [380-502] ImplSyntax *)
primrec expression_rule :: "expr_nt \<Rightarrow> parse_expression" where
  "expression_rule identifier_nt = Ors [Type WORD, Type CLASS, Type MODULE_T, Type ASYNC, Type
     THEN_T]"
| "expression_rule new_expression = Type NEW"
| "expression_rule constant_nt = Ors [Type INTEGER, Type FLOATING]"
| "expression_rule string_literal = Type STR_T"
| "expression_rule array_declaration = Ors [Ands [Type LBRAC, Type RBRAC], Ands [Type LBRAC, assign
     tuple_expression, Type RBRAC]]"
| "expression_rule map_declaration_entry = Ands [expr postfix_expression, TypeLn COLON, Ln (expr
     postfix_expression)]"
| "expression_rule map_declaration_entry1 = Ors [Ands [Ands [TypeLn COMMA, Ln (expr
     map_declaration_entry)], expr map_declaration_entry1], Epsilon]"
| "expression_rule map_declaration_list = Ands [expr map_declaration_entry, expr
     map_declaration_entry1]"
| "expression_rule map_declaration = Ors [Ands [TypeLn LBRCE, TypeLn RBRCE], Ands [TypeLn LBRCE, Ln
     (expr map_declaration_list), TypeLn RBRCE]]"
| "expression_rule length_expression = Ands [Type PIPE, assign tuple_expression, Type PIPE]"
| "expression_rule primary_expression = Ors [newf anon_function_definition, expr identifier_nt, expr
     new_expression, expr constant_nt, expr string_literal, expr array_declaration, expr
     map_declaration, expr length_expression, Ands [Type LPAREN, assign tuple_expression, Type
     RPAREN]]"
| "expression_rule primary_expression_no_constants = Ors [newf anon_function_definition, expr
     identifier_nt, expr string_literal, expr array_declaration, expr map_declaration, Ands [Type
     LPAREN, assign tuple_expression, Type RPAREN]]"
| "expression_rule postfix_expression1 = Ors [Ands [Type LBRAC, assign tuple_expression, Type RBRAC,
     expr postfix_expression1], Ands [TypeLn LPAREN, TypeLn RPAREN, expr postfix_expression1], Ands
     [TypeLn LPAREN, assign tuple_expression, TypeLn RPAREN, expr postfix_expression1], Ands [Opt
     (Type ENDLINE), Type PERIOD, Ors [expr identifier_nt, expr new_expression], expr
     postfix_expression1], Epsilon]"
| "expression_rule postfix_expression = Ors [Ands [expr primary_expression_no_constants, expr
     postfix_expression1], expr primary_expression]"
| "expression_rule range_expression = Ands [expr postfix_expression, Opt (Ands [Type COLON, expr
     postfix_expression, Opt (Ands [Type COLON, expr postfix_expression])])]"
| "expression_rule unary_expression = Ors [Ands [Type TILDE, expr unary_expression], Ands [Type
     EXCLAIM, expr unary_expression], Ands [Type MINUS, expr unary_expression], Ands [Type CONST_T,
     expr unary_expression], Ands [Type AWAIT, expr unary_expression], expr range_expression]"
| "expression_rule binary_and_expression1 = Ors [Ands [Type AMPER, expr binary_and_expression],
     Epsilon]"
| "expression_rule binary_and_expression = Ands [expr unary_expression, expr binary_and_expression1]"
| "expression_rule binary_xor_expression1 = Ors [Ands [Type CARET, expr binary_xor_expression],
     Epsilon]"
| "expression_rule binary_xor_expression = Ands [expr binary_and_expression, expr
     binary_xor_expression1]"
| "expression_rule binary_or_expression1 = Ors [Ands [Type PIPE, expr binary_or_expression],
     Epsilon]"
| "expression_rule binary_or_expression = Ands [expr binary_xor_expression, expr
     binary_or_expression1]"

(* src/lang/parser/parser.c [509-601] ImplSyntax *)
primrec condition_rule :: "bool_nt \<Rightarrow> parse_expression" where
  "condition_rule multiplicative_expression1 = Ors [Ands [Type STAR, bool
     multiplicative_expression], Ands [Type FSLASH, bool multiplicative_expression], Ands [Type
     PERCENT, bool multiplicative_expression], Epsilon]"
| "condition_rule multiplicative_expression = Ands [expr binary_or_expression, bool
     multiplicative_expression1]"
| "condition_rule additive_expression1 = Ors [Ands [Type PLUS, bool additive_expression], Ands [Type
     MINUS, bool additive_expression], Epsilon]"
| "condition_rule additive_expression = Ands [bool multiplicative_expression, bool
     additive_expression1]"
| "condition_rule in_expression1 = Ors [Ands [Ors [Type IN, Type NOTIN], bool additive_expression,
     bool in_expression1], Epsilon]"
| "condition_rule in_expression = Ands [bool additive_expression, bool in_expression1]"
| "condition_rule relational_expression1 = Ors [Ands [Type LTHAN, bool relational_expression], Ands
     [Type GTHAN, bool relational_expression], Ands [Type LTHANEQ, bool relational_expression], Ands
     [Type GTHANEQ, bool relational_expression], Epsilon]"
| "condition_rule relational_expression = Ands [bool in_expression, bool relational_expression1]"
| "condition_rule equality_expression1 = Ors [Ands [Type EQUIV, bool equality_expression], Ands
     [Type NEQUIV, bool equality_expression], Epsilon]"
| "condition_rule equality_expression = Ands [bool relational_expression, bool equality_expression1]"
| "condition_rule and_expression1 = Ors [Ands [Type AND_T, bool and_expression], Epsilon]"
| "condition_rule and_expression = Ands [bool equality_expression, bool and_expression1]"
| "condition_rule or_expression1 = Ors [Ands [Type OR_T, bool or_expression], Epsilon]"
| "condition_rule or_expression = Ands [bool and_expression, bool or_expression1]"
| "condition_rule is_expression = Ors [Ands [bool or_expression, TypeLn IS_T, bool or_expression],
     bool or_expression]"
| "condition_rule conditional_expression = Ors [Ands [TypeLn IF_T, Ln (bool is_expression), Opt
     (TypeLn THEN_T), Ln (bool conditional_expression), TypeLn ELSE, bool conditional_expression],
     Ands [TypeLn IF_T, Ln (bool is_expression), Opt (TypeLn THEN_T), bool conditional_expression],
     bool is_expression]"

(* src/lang/parser/parser.c [603-680] ImplSyntax *)
primrec assignment_rule :: "assign_nt \<Rightarrow> parse_expression" where
  "assignment_rule const_assignment_expression = Ands [TypeLn CONST_T, expr identifier_nt]"
| "assignment_rule array_index_assignment = Ands [TypeLn LBRAC, assign tuple_expression, TypeLn
     RBRAC]"
| "assignment_rule function_call_args = Ors [Ands [TypeLn LPAREN, TypeLn RPAREN], Ands [TypeLn
     LPAREN, assign tuple_expression, TypeLn RPAREN]]"
| "assignment_rule field_extension = Ors [assign array_index_assignment, assign function_call_args,
     Epsilon]"
| "assignment_rule field_set_value = Ands [Type PERIOD, expr identifier_nt]"
| "assignment_rule field_suffix = Ors [assign field_set_value, assign array_index_assignment]"
| "assignment_rule field_next = Ands [assign field_suffix, assign field_expression1]"
| "assignment_rule field_expression1 = Ors [Ands [assign field_extension, assign field_next], assign
     field_next, Epsilon]"
| "assignment_rule field_expression = Ands [expr identifier_nt, assign field_expression1]"
| "assignment_rule assignment_lhs_single = Ors [assign const_assignment_expression, assign
     field_expression]"
| "assignment_rule assignment_tuple_list1 = Ors [Ands [Ands [TypeLn COMMA, assign assignment_lhs],
     assign assignment_tuple_list1], Epsilon]"
| "assignment_rule assignment_tuple_list = Ands [assign assignment_lhs, assign
     assignment_tuple_list1]"
| "assignment_rule assignment_tuple = Ands [TypeLn LPAREN, assign assignment_tuple_list, TypeLn
     RPAREN]"
| "assignment_rule assignment_array = Ands [TypeLn LBRAC, assign assignment_tuple_list, TypeLn
     RBRAC]"
| "assignment_rule assignment_lhs = Ors [assign assignment_tuple, assign assignment_array, assign
     assignment_lhs_single]"
| "assignment_rule assignment_expression = Ors [Ands [assign assignment_lhs, TypeLn EQUALS, bool
     conditional_expression], bool conditional_expression]"
| "assignment_rule tuple_expression1 = Ors [Ands [TypeLn COMMA, assign assignment_expression, assign
     tuple_expression1], Epsilon]"
| "assignment_rule tuple_expression = Ands [assign assignment_expression, assign tuple_expression1]"

(* src/lang/parser/parser.c [685-779] ImplSyntax *)
primrec statement_rule :: "stmt_nt \<Rightarrow> parse_expression" where
  "statement_rule expression_statement = Ln (assign tuple_expression)"
| "statement_rule foreach_statement = Ands [Ands [TypeLn FOR, Ors [Ands [TypeLn LPAREN, Ands [assign
     assignment_lhs, TypeLn IN, bool conditional_expression], TypeLn RPAREN], Ands [assign
     assignment_lhs, TypeLn IN, bool conditional_expression]]], clas statement]"
| "statement_rule for_statement = Ands [Ands [TypeLn FOR, Ors [Ands [TypeLn LPAREN, Ands [assign
     assignment_expression, TypeLn COMMA, bool conditional_expression, TypeLn COMMA, Ln (assign
     assignment_expression)], TypeLn RPAREN], Ands [assign assignment_expression, TypeLn COMMA, bool
     conditional_expression, TypeLn COMMA, Ln (assign assignment_expression)]]], clas statement]"
| "statement_rule while_statement = Ands [Ands [TypeLn WHILE, Ln (bool conditional_expression)],
     clas statement]"
| "statement_rule iteration_statement = Ors [stmt while_statement, stmt foreach_statement, stmt
     for_statement]"
| "statement_rule compound_statement = Ors [Ands [TypeLn LBRCE, TypeLn RBRCE], Ands [TypeLn LBRCE,
     Ln (clas statement_list), TypeLn RBRCE]]"
| "statement_rule selection_statement = Ands [Type IF_T, Ln (assign tuple_expression), Ln (clas
     statement), Opt (Ands [TypeLn ELSE, clas statement])]"
| "statement_rule exit_statement = TypeLn EXIT_T"
| "statement_rule raise_statement = Ands [TypeLn RAISE, Ln (assign assignment_expression)]"
| "statement_rule catch_assign = Ors [Ands [TypeLn LPAREN, assign assignment_lhs, TypeLn RPAREN],
     assign assignment_lhs]"
| "statement_rule try_statement = Ors [Ands [Ands [TypeLn TRY, Ln (clas statement), Ands [TypeLn
     CATCH, stmt catch_assign]], Ln (clas statement)], Ands [Ands [TypeLn TRY, Ln (clas statement),
     Ands [TypeLn CATCH, stmt catch_assign]], Ln (clas statement)]]"
| "statement_rule jump_statement = Ors [Ands [Type RETURN, TypeLn LPAREN, assign tuple_expression,
     TypeLn RPAREN], Ands [Type RETURN, assign tuple_expression], Type RETURN]"
| "statement_rule break_statement = Ands [Ors [Type BREAK, Type CONTINUE], Type ENDLINE]"
| "statement_rule default_value_expression = Ands [Type EQUALS, bool conditional_expression]"
| "statement_rule const_expression = Ands [Opt (TypeLn CONST_T), Ors [Ands [TypeLn LPAREN, func
     function_argument_list, TypeLn RPAREN], expr identifier_nt], Opt (stmt
     default_value_expression)]"

(* src/lang/parser/parser.c [781-861] ImplSyntax *)
primrec function_rule :: "fun_nt \<Rightarrow> parse_expression" where
  "function_rule function_arg_default_value = Ands [TypeLn EQUALS, bool conditional_expression]"
| "function_rule function_arg_elt_with_default = Ands [expr identifier_nt, func
     function_arg_default_value]"
| "function_rule function_arg_elt = Ors [func function_arg_elt_with_default, expr identifier_nt]"
| "function_rule const_function_argument = Ands [TypeLn CONST_T, func function_arg_elt]"
| "function_rule function_argument = Ors [func const_function_argument, func function_arg_elt]"
| "function_rule function_argument_list1 = Ors [Ands [Ands [TypeLn COMMA, func function_argument],
     func function_argument_list1], Epsilon]"
| "function_rule function_argument_list = Ands [func function_argument, func
     function_argument_list1]"
| "function_rule function_arguments_present = Ands [TypeLn LPAREN, func function_argument_list,
     TypeLn RPAREN]"
| "function_rule function_arguments_no_args = Ands [TypeLn LPAREN, TypeLn RPAREN]"
| "function_rule function_arguments = Ors [func function_arguments_present, func
     function_arguments_no_args]"
| "function_rule def_identifier = Ands [Type DEF, expr identifier_nt]"
| "function_rule function_signature_no_qualifier = Ands [func def_identifier, func
     function_arguments]"
| "function_rule function_qualifier = Ors [TypeLn ASYNC, TypeLn CONST_T]"
| "function_rule function_qualifier_list1 = Ors [Ands [func function_qualifier, func
     function_qualifier_list1], Epsilon]"
| "function_rule function_qualifier_list = Ands [func function_qualifier, func
     function_qualifier_list1]"
| "function_rule function_signature_with_qualifier = Ands [func function_signature_no_qualifier,
     func function_qualifier_list]"
| "function_rule function_signature = Ors [func function_signature_with_qualifier, func
     function_signature_no_qualifier]"
| "function_rule function_definition = Ands [func function_signature, clas statement]"
| "function_rule method_identifier = Ands [Type METHOD, Ors [expr identifier_nt, Type EQUIV, Type
     NEQUIV, Ands [Type LBRAC, Type RBRAC, Type EQUALS], Ands [Type LBRAC, Type RBRAC]]]"
| "function_rule method_signature_no_qualifier = Ands [func method_identifier, func
     function_arguments]"
| "function_rule method_signature_with_qualifier = Ands [func method_signature_no_qualifier, func
     function_qualifier_list]"
| "function_rule method_signature = Ors [func method_signature_with_qualifier, func
     method_signature_no_qualifier]"
| "function_rule method_definition = Ands [func method_signature, clas statement]"

(* src/lang/parser/parser.c [863-942] ImplSyntax *)
primrec constructor_rule :: "new_nt \<Rightarrow> parse_expression" where
  "constructor_rule new_arg_var = Ors [newf new_field_arg, expr identifier_nt]"
| "constructor_rule new_field_arg = Ands [TypeLn FIELD, expr identifier_nt]"
| "constructor_rule new_arg_default_value = Ands [TypeLn EQUALS, bool conditional_expression]"
| "constructor_rule new_arg_elt_with_default = Ands [newf new_arg_var, newf new_arg_default_value]"
| "constructor_rule new_arg_elt = Ors [newf new_arg_elt_with_default, newf new_arg_var]"
| "constructor_rule const_new_argument = Ands [TypeLn CONST_T, newf new_arg_elt]"
| "constructor_rule new_argument = Ors [newf const_new_argument, newf new_arg_elt]"
| "constructor_rule new_argument_list1 = Ors [Ands [Ands [TypeLn COMMA, newf new_argument], newf
     new_argument_list1], Epsilon]"
| "constructor_rule new_argument_list = Ands [newf new_argument, newf new_argument_list1]"
| "constructor_rule new_arguments_present = Ands [TypeLn LPAREN, newf new_argument_list, TypeLn
     RPAREN]"
| "constructor_rule new_arguments_no_args = Ands [TypeLn LPAREN, TypeLn RPAREN]"
| "constructor_rule new_arguments = Ors [newf new_arguments_present, newf new_arguments_no_args]"
| "constructor_rule new_identifier = expr new_expression"
| "constructor_rule new_signature_nonconst = Ands [newf new_identifier, newf new_arguments]"
| "constructor_rule new_signature_const = Ands [newf new_signature_nonconst, TypeLn CONST_T]"
| "constructor_rule new_signature = Ors [newf new_signature_const, newf new_signature_nonconst]"
| "constructor_rule new_definition = Ands [newf new_signature, clas statement]"
| "constructor_rule anon_signature_no_qualifier = func function_arguments"
| "constructor_rule anon_signature_with_qualifier = Ands [newf anon_signature_no_qualifier, func
     function_qualifier_list]"
| "constructor_rule anon_signature = Ors [newf anon_signature_with_qualifier, newf
     anon_signature_no_qualifier]"
| "constructor_rule anon_function_lambda_lhs = Ors [newf anon_signature, expr identifier_nt]"
| "constructor_rule anon_function_lambda_rhs = Ands [TypeLn RARROW, assign assignment_expression]"
| "constructor_rule anon_function_definition = Ors [Ands [newf anon_function_lambda_lhs, newf
     anon_function_lambda_rhs], Ands [newf anon_signature, stmt compound_statement]]"

(* src/lang/parser/parser.c [944-1086] ImplSyntax *)
primrec class_rule :: "class_nt \<Rightarrow> parse_expression" where
  "class_rule identifier_list1 = Ors [Ands [Ands [TypeLn COMMA, expr identifier_nt], clas
     identifier_list1], Epsilon]"
| "class_rule identifier_list = Ands [expr identifier_nt, clas identifier_list1]"
| "class_rule field_statement = Ands [TypeLn FIELD, clas identifier_list]"
| "class_rule class_statement = Ln (Ors [newf new_definition, clas field_statement, func
     method_definition])"
| "class_rule class_statement_list1 = Ors [Ands [Ln (clas class_statement), clas
     class_statement_list1], Epsilon]"
| "class_rule class_statement_list = Ands [Ln (clas class_statement), clas class_statement_list1]"
| "class_rule parent_class_list1 = Ors [Ands [Ands [TypeLn COMMA, Ln (expr identifier_nt)], clas
     parent_class_list1], Epsilon]"
| "class_rule parent_class_list = Ands [Ln (expr identifier_nt), clas parent_class_list1]"
| "class_rule parent_classes = Ands [TypeLn COLON, clas parent_class_list]"
| "class_rule class_compound_statement = Ors [Ands [TypeLn LBRCE, TypeLn RBRCE], Ands [TypeLn LBRCE,
     Ln (clas class_statement_list), TypeLn RBRCE]]"
| "class_rule class_name_and_inheritance = Ands [Ln (expr identifier_nt), Opt (clas parent_classes)]"
| "class_rule class_definition_no_annotation = Ands [Ands [Type CLASS, clas
     class_name_and_inheritance], Ors [clas class_compound_statement, Ln (clas class_statement)]]"
| "class_rule annotation_not_called = Ors [Ands [expr identifier_nt, Type PERIOD, expr
     identifier_nt], expr identifier_nt]"
| "class_rule annotation_no_arguments = Ands [clas annotation_not_called, Type LPAREN, Type RPAREN]"
| "class_rule annotation_with_arguments = Ands [clas annotation_not_called, Type LPAREN, assign
     tuple_expression, Type RPAREN]"
| "class_rule annotation = Ands [Type AT, Ors [clas annotation_with_arguments, clas
     annotation_no_arguments, clas annotation_not_called]]"
| "class_rule class_definition_with_annotation = Ands [Ln (clas annotation), clas
     class_definition_no_annotation]"
| "class_rule class_definition = Ors [clas class_definition_with_annotation, clas
     class_definition_no_annotation]"
| "class_rule import_statement = Ors [Ands [Type IMPORT, expr identifier_nt, Type AS, expr
     identifier_nt, Type ENDLINE], Ands [Type IMPORT, expr identifier_nt, Type ENDLINE]]"
| "class_rule module_statement = Ands [Type MODULE_T, expr identifier_nt, Type ENDLINE]"
| "class_rule statement = Ors [stmt exit_statement, stmt raise_statement, stmt try_statement, stmt
     selection_statement, stmt compound_statement, stmt iteration_statement, stmt jump_statement,
     stmt break_statement, stmt expression_statement]"
| "class_rule file_level_statement = Ors [clas module_statement, clas import_statement, clas
     class_definition, func function_definition, clas statement]"
| "class_rule file_level_statement_list1 = Ors [Ands [clas file_level_statement, clas
     file_level_statement_list1], Epsilon]"
| "class_rule file_level_statement_list = Ands [clas file_level_statement, clas
     file_level_statement_list1]"
| "class_rule statement_list1 = Ors [Ands [clas statement, clas statement_list1], Epsilon]"
| "class_rule statement_list = Ands [clas statement, clas statement_list1]"

fun rule_of :: "nonterm \<Rightarrow> parse_expression" where
  "rule_of (Expr x) = expression_rule x"
| "rule_of (Bool x) = condition_rule x"
| "rule_of (Assign x) = assignment_rule x"
| "rule_of (Stmt x) = statement_rule x"
| "rule_of (Func x) = function_rule x"
| "rule_of (Newf x) = constructor_rule x"
| "rule_of (Clas x) = class_rule x"

end
