(* ===== verification/Parser.thy ===== *)
theory Parser imports Grammar begin

text \<open>
  \<open>lang/parser/parser.c\<close>: the parser that the macros of the grammar expand to. It tries alternatives in
  order, pushes the tokens of a failed alternative back into the queue of the lexer, and lexes a line
  when the queue is empty. A tree that did not match is \<open>None\<close>. \<open>Q_pop\<close> and \<open>Q_push\<close> belong to the
  container library.
\<close>

record parselib =
  pl_lex :: lexlib
  q_pop :: "token list \<Rightarrow> token \<times> token list"
  q_push :: "token \<Rightarrow> token list \<Rightarrow> token list"

definition std_parselib :: parselib where
  "std_parselib = \<lparr>pl_lex = std_lexlib, q_pop = (\<lambda>q. (hd q, tl q)), q_push = (#)\<rparr>"

subsection \<open>Trees\<close>

text \<open>A match is empty, one token, or two subtrees; and it may carry the nonterminal it was made for.\<close>

(* src/lang/parser/parser.h [18-24] SyntaxTree *)
datatype syntax_tree =
    EpsTree "nonterm option"
  | TokTree token "nonterm option"
  | NodeTree syntax_tree syntax_tree "nonterm option"

fun expression_of :: "syntax_tree \<Rightarrow> nonterm option" where
  "expression_of (EpsTree x) = x"
| "expression_of (TokTree t x) = x"
| "expression_of (NodeTree a b x) = x"

fun set_expression :: "nonterm \<Rightarrow> syntax_tree \<Rightarrow> syntax_tree" where
  "set_expression x (EpsTree y) = EpsTree (Some x)"
| "set_expression x (TokTree t y) = TokTree t (Some x)"
| "set_expression x (NodeTree a b y) = NodeTree a b (Some x)"

text \<open>The end of \<open>ImplSyntax\<close>: a tree without a name gets one.\<close>

(* src/lang/parser/parser.c [292-295] ImplSyntax *)
definition name_tree :: "nonterm \<Rightarrow> syntax_tree \<Rightarrow> syntax_tree" where
  "name_tree x t = (if expression_of t = None then set_expression x t else t)"

(* src/lang/parser/parser.c _match_epsilon *)
definition match_epsilon :: syntax_tree where
  "match_epsilon = EpsTree None"

(* src/lang/parser/parser.c _is_epsilon *)
fun is_epsilon :: "syntax_tree \<Rightarrow> bool" where
  "is_epsilon (EpsTree x) = True"
| "is_epsilon t = False"

(* src/lang/parser/parser.c _is_newline *)
fun is_newline :: "syntax_tree \<Rightarrow> bool" where
  "is_newline (TokTree t x) = (tok_type t = ENDLINE)"
| "is_newline t = False"

subsection \<open>The queue of tokens\<close>

text \<open>Lines are lexed until there is a token, or no line.\<close>

(* src/lang/parser/parser.c _parser_next *)
function parser_next :: "parselib \<Rightarrow> lexer \<Rightarrow> lexer res" where
  "parser_next lib lx =
     (if lx_q lx \<noteq> [] then Inr lx
      else case lex_line (pl_lex lib) lx of
        Inl e \<Rightarrow> Inl e
      | Inr (again, lx') \<Rightarrow> if again then parser_next lib lx' else Inr lx')"
  by pat_completeness auto
termination
  by (relation "measure (\<lambda>(lib, lx). length (lx_lines lx))") (auto dest: lex_line_shorter)

declare parser_next.simps [simp del]

(* src/lang/parser/parser.c _match *)
definition match_token :: "parselib \<Rightarrow> lexer \<Rightarrow> syntax_tree \<times> lexer" where
  "match_token lib lx = (let (t, q) = q_pop lib (lx_q lx) in (TokTree t None, lx\<lparr>lx_q := q\<rparr>))"

(* src/lang/parser/parser.c _match_rollback *)
fun match_rollback :: "parselib \<Rightarrow> syntax_tree \<Rightarrow> token list \<Rightarrow> token list" where
  "match_rollback lib (EpsTree x) q = q"
| "match_rollback lib (TokTree t x) q = q_push lib t q"
| "match_rollback lib (NodeTree a b x) q = match_rollback lib a (match_rollback lib b q)"

definition rollback :: "parselib \<Rightarrow> syntax_tree \<Rightarrow> lexer \<Rightarrow> syntax_tree option \<times> lexer" where
  "rollback lib t lx = (None, lx\<lparr>lx_q := match_rollback lib t (lx_q lx)\<rparr>)"

text \<open>Of a line end and another tree, the other tree is kept: the token of the line end is dropped.\<close>

(* src/lang/parser/parser.c _match_merge *)
fun match_merge ::
    "parselib \<Rightarrow> syntax_tree option \<Rightarrow> syntax_tree option \<Rightarrow> lexer \<Rightarrow> (syntax_tree option \<times> lexer) res" where
  "match_merge lib None None lx = Inl (Fatal ''exp_match.matched'')"
| "match_merge lib None (Some child) lx = Inr (rollback lib child lx)"
| "match_merge lib (Some parent) None lx = Inr (rollback lib parent lx)"
| "match_merge lib (Some parent) (Some child) lx = Inr (Some
     (if is_epsilon child then parent
      else if is_epsilon parent then child
      else if is_newline child then parent
      else if is_newline parent then child
      else NodeTree parent child None), lx)"

subsection \<open>Parsing\<close>

text \<open>
  The first argument bounds the depth of nonterminals within nonterminals; the outer \<open>None\<close> says that it
  was not enough. The answer is a tree, or none, and the lexer afterwards.
\<close>

type_synonym parsed = "(syntax_tree option \<times> lexer) res option"

definition bindP :: "parsed \<Rightarrow> (syntax_tree option \<Rightarrow> lexer \<Rightarrow> parsed) \<Rightarrow> parsed" where
  "bindP p f = (case p of None \<Rightarrow> None | Some (Inl e) \<Rightarrow> Some (Inl e) | Some (Inr (r, lx)) \<Rightarrow> f r lx)"

text \<open>Unfolded for evaluation, which then does not look at a continuation before its tree is known.\<close>

declare bindP_def [code_unfold] andThen_def [code_unfold]

(* src/lang/parser/parser.c [349-358] Type *)
definition parse_type :: "parselib \<Rightarrow> token_type \<Rightarrow> lexer \<Rightarrow> (syntax_tree option \<times> lexer) res" where
  "parse_type lib t lx = andThen (parser_next lib lx) (\<lambda>lx.
     case lx_q lx of
       [] \<Rightarrow> Inr (None, lx)
     | tok # _ \<Rightarrow> if tok_type tok \<noteq> t then Inr (None, lx)
                  else let (m, lx') = match_token lib lx in Inr (Some m, lx'))"

(* src/lang/parser/parser.c [286-375] ImplSyntax *)
function parse :: "parselib \<Rightarrow> nat \<Rightarrow> parse_expression \<Rightarrow> lexer \<Rightarrow> parsed" where
  "parse lib n (Type t) lx = Some (parse_type lib t lx)"
| "parse lib n (Or a b) lx = bindP (parse lib n a lx) (\<lambda>m1 lx.
     case m1 of Some _ \<Rightarrow> Some (Inr (m1, lx)) | None \<Rightarrow> parse lib n b lx)"
| "parse lib n (And a b) lx = bindP (parse lib n a lx) (\<lambda>m1 lx.
     case m1 of
       None \<Rightarrow> Some (Inr (None, lx))
     | Some _ \<Rightarrow> bindP (parse lib n b lx) (\<lambda>m2 lx. Some (match_merge lib m1 m2 lx)))"
| "parse lib n (Opt a) lx = bindP (parse lib n a lx) (\<lambda>m lx.
     case m of Some _ \<Rightarrow> Some (Inr (m, lx)) | None \<Rightarrow> Some (Inr (Some match_epsilon, lx)))"
| "parse lib n Epsilon lx = Some (Inr (Some match_epsilon, lx))"
| "parse lib 0 (NT x) lx = None"
| "parse lib (Suc n) (NT x) lx = bindP (parse lib n (rule_of x) lx) (\<lambda>m lx.
     Some (Inr (map_option (name_tree x) m, lx)))"
  by pat_completeness auto
termination
  by (relation "measures [\<lambda>(lib, n, s, lx). n, \<lambda>(lib, n, s, lx). size s]") auto

declare parse.simps [simp del]

subsection \<open>A file\<close>

(* src/lang/parser/parser.c parser_init *)
definition parser_init :: "(int \<times> string) list \<Rightarrow> lexer" where
  "parser_init src = lexer_init src True"

text \<open>Whether tokens are left; they are printed.\<close>

(* src/lang/parser/parser.c parser_finalize *)
definition parser_finalize :: "lexer \<Rightarrow> bool" where
  "parser_finalize lx = (lx_q lx \<noteq> [])"

(* src/lang/parser/parser.c parse_file *)
definition parse_file :: "parselib \<Rightarrow> nat \<Rightarrow> (int \<times> string) list \<Rightarrow> syntax_tree option res option" where
  "parse_file lib n src =
     map_option (\<lambda>r. andThen r (\<lambda>(m, lx).
         if parser_finalize lx then Inl (Fatal ''Cannot finish parsing.'') else Inr m))
       (parse lib n (clas file_level_statement_list) (parser_init src))"

end
