(* ===== verification/LexerFacts.thy ===== *)
theory LexerFacts imports Lexer begin

text \<open>
  What the lexer promises: lines of identifiers and keywords lex to exactly their words with their
  positions; a comment contributes no token; the queue never holds two adjacent line ends; and
  lexing a well formed file never leaves the line or overflows the word buffer.
\<close>

subsection \<open>Reading one word\<close>

lemma symbol_type_None: "\<not> is_special_char c \<Longrightarrow> c \<noteq> CHR '';'' \<Longrightarrow> symbol_type c d = None"
  by (simp add: symbol_type_def is_special_char_def)

lemma alphanumeric_no_symbol: "is_alphanumeric c \<Longrightarrow> symbol_type c d = None"
  by (simp add: symbol_type_None alphanumeric_not_special alphanumeric_not_comment)

lemma word_type_range: "word_type w \<in> insert WORD (set keyword_tokens)"
  by (auto simp: word_type_def split: option.splits dest!: map_of_SomeD dest: set_zip_rightD)

lemma mem_neq: "x \<in> A \<Longrightarrow> y \<notin> A \<Longrightarrow> x \<noteq> y"
  by blast

lemma not_word_types:
  "ENDLINE \<notin> insert WORD (set keyword_tokens)" "STR_T \<notin> insert WORD (set keyword_tokens)"
  "BSLASH \<notin> insert WORD (set keyword_tokens)"
  by (simp_all add: keyword_tokens_def)

lemma word_type_neq [simp]: "word_type w \<noteq> ENDLINE" "word_type w \<noteq> STR_T" "word_type w \<noteq> BSLASH"
  by (rule mem_neq [OF word_type_range not_word_types(1)], rule mem_neq [OF word_type_range not_word_types(2)],
      rule mem_neq [OF word_type_range not_word_types(3)])

lemma alphanumeric_not_dot: "is_alphanumeric c \<Longrightarrow> c \<noteq> CHR ''.''"
  by (auto simp: is_alphanumeric_def is_numeric_def is_digit_def is_alphabetic_def)

lemma is_identifier_Cons:
  "is_identifier w \<longleftrightarrow> (\<exists>c cs. w = c # cs \<and> is_alphanumeric c \<and> \<not> is_number c \<and>
     list_all is_alphanumeric cs)"
  by (cases w) (auto simp: is_identifier_def is_number_def dest: alphanumeric_not_dot)

lemma resolve_identifier:
  assumes "is_identifier w"
  shows "resolve_type lib w False = (word_type w, False)"
proof -
  from assms obtain c cs where "w = c # cs" "is_alphanumeric c" "\<not> is_number c"
    by (auto simp: is_identifier_Cons)
  then show ?thesis
    by (simp add: resolve_type_def char_at_def alphanumeric_no_symbol)
qed

text \<open>A text that ends the word before it.\<close>

definition stops_word :: "string \<Rightarrow> bool" where
  "stops_word s = (s \<noteq> [] \<and> \<not> is_alphanumeric (hd s))"

lemma takeWhile_stop:
  "list_all P xs \<Longrightarrow> ys = [] \<or> \<not> P (hd ys) \<Longrightarrow> takeWhile P (xs @ ys) = xs"
  by (induction xs) (auto simp: takeWhile_eq_Nil_iff)

lemma dropWhile_stop:
  "list_all P xs \<Longrightarrow> ys = [] \<or> \<not> P (hd ys) \<Longrightarrow> dropWhile P (xs @ ys) = ys"
  by (induction xs) (auto simp: dropWhile_eq_self_iff)

lemma scan_identifier:
  assumes "is_identifier w" and "stops_word s"
  shows "scan_word (w @ s) = (w, s)"
proof -
  from assms(1) obtain c cs where w: "w = c # cs" "is_alphanumeric c" "\<not> is_number c"
    "list_all is_alphanumeric cs"
    by (auto simp: is_identifier_Cons)
  with assms(2) show ?thesis
    by (simp add: scan_word_def alphanumeric_not_special alphanumeric_not_comment
        alphanumeric_not_newline takeWhile_stop dropWhile_stop stops_word_def)
qed

lemma dropWhile_blanks:
  "dropWhile is_whitespace (replicate k (CHR '' '') @ s) = dropWhile is_whitespace s"
  by (induction k) (auto simp: is_whitespace_def)

lemma read_identifier:
  assumes "is_identifier w" and "stops_word s" and "length w < MAX_LINE_LEN"
  shows "read_word (replicate k (CHR '' '') @ w @ s) = Inr (w, s)"
proof -
  from assms(1) obtain c cs where "w = c # cs" "is_alphanumeric c"
    by (auto simp: is_identifier_Cons)
  then have "dropWhile is_whitespace (w @ s) = w @ s" and "w \<noteq> []"
    by (auto simp: alphanumeric_not_space)
  then show ?thesis
    using assms by (simp add: read_word_def dropWhile_blanks scan_identifier)
qed

lemma read_newline: "read_word [CHR 0x0A] = Inr ([], [CHR 0x0A])"
  by (simp add: read_word_def scan_word_def is_whitespace_def is_special_char_def MAX_LINE_LEN_def)

subsection \<open>A line of words\<close>

text \<open>Words separated by blanks: each word with the number of blanks before it, less one.\<close>

fun line_of :: "(nat \<times> string) list \<Rightarrow> string" where
  "line_of [] = [CHR 0x0A]"
| "line_of ((k, w) # ws) = replicate (Suc k) (CHR '' '') @ w @ line_of ws"

fun word_tokens :: "int \<Rightarrow> int \<Rightarrow> (nat \<times> string) list \<Rightarrow> token list" where
  "word_tokens ln col [] = [token_create ENDLINE ln col []]"
| "word_tokens ln col ((k, w) # ws) =
     token_create (word_type w) ln (col + int (Suc k)) w
       # word_tokens ln (col + int (Suc k) + int (length w)) ws"

definition plain_words :: "(nat \<times> string) list \<Rightarrow> bool" where
  "plain_words ws = list_all (\<lambda>(k, w). is_identifier w \<and> length w < MAX_LINE_LEN) ws"

lemma stops_line_of: "stops_word (line_of ws)"
  by (cases ws rule: line_of.cases)
     (auto simp: stops_word_def newline_not_alphanumeric space_not_alphanumeric)

lemma lex_step_word:
  assumes "is_identifier w" and "length w < MAX_LINE_LEN"
  shows "lex_step lib esc (line_of ((k, w) # ws)) False =
     Inr (Suc k + length w, word_type w, False, w, line_of ws)"
  using read_identifier [OF assms(1) stops_line_of assms(2), of "Suc k"]
  by (simp add: lex_step_def resolve_identifier assms)

lemma lex_step_newline:
  "lex_step lib esc (line_of []) ic = Inr (0, ENDLINE, False, [], line_of [])"
  by (simp add: lex_step_def read_newline resolve_type_def)

lemma ends_in_snoc [simp]: "ends_in t (q @ [x]) \<longleftrightarrow> tok_type x = t"
  by (simp add: ends_in_def)

lemma tok_type_token_create [simp]: "tok_type (token_create t ln col text) = t"
  by (simp add: token_create_def token_fill_def)

lemma tok_text_token_create [simp]: "tok_text (token_create t ln col text) = text"
  by (simp add: token_create_def token_fill_def)

lemma lex_chars_words_nonempty:
  assumes "plain_words ws" and "q \<noteq> []" and "\<not> ends_in ENDLINE q" and "\<not> ends_in BSLASH q"
  shows "lex_chars lib esc ln lines (line_of ws) False col q = Inr (0, q @ word_tokens ln col ws)"
  using assms
proof (induction ws arbitrary: col q)
  case Nil
  then show ?case
    by (subst lex_chars.simps) (simp add: lex_step_newline [simplified] enqueue_token_def)
next
  case (Cons kw ws)
  obtain k w where kw: "kw = (k, w)" by (cases kw)
  with Cons.prems have w: "is_identifier w" "length w < MAX_LINE_LEN" "plain_words ws"
    by (auto simp: plain_words_def)
  have "lex_chars lib esc ln lines (line_of ws) False (col + int (Suc k + length w))
      (q @ [token_create (word_type w) ln (col + int (Suc k)) w]) =
    Inr (0, q @ word_tokens ln col ((k, w) # ws))"
    using Cons.IH [OF w(3), of "q @ [token_create (word_type w) ln (col + int (Suc k)) w]"
        "col + int (Suc k + length w)"]
    by (simp add: ac_simps)
  then show ?case
    unfolding kw
    by (subst lex_chars.simps)
       (simp add: lex_step_word [OF w(1,2), simplified] enqueue_token_def ac_simps)
qed

lemma lex_chars_words:
  assumes "plain_words ws" and "ws \<noteq> []"
  shows "lex_chars lib esc ln lines (line_of ws) False 0 q = Inr (0, q @ word_tokens ln 0 ws)"
proof -
  obtain k w ws' where ws: "ws = (k, w) # ws'"
    using assms(2) by (cases ws) auto
  with assms(1) have w: "is_identifier w" "length w < MAX_LINE_LEN" "plain_words ws'"
    by (auto simp: plain_words_def)
  have "lex_chars lib esc ln lines (line_of ws') False (int (Suc k + length w))
      (q @ [token_create (word_type w) ln (int (Suc k)) w]) =
    Inr (0, q @ word_tokens ln 0 ((k, w) # ws'))"
    by (simp add: lex_chars_words_nonempty w ac_simps)
  then show ?thesis
    unfolding ws
    by (subst lex_chars.simps)
       (simp add: lex_step_word [OF w(1,2), simplified] enqueue_token_def ac_simps)
qed

subsection \<open>Whole files\<close>

lemma lex_Nil [simp]: "lex lib \<lparr>lx_escape = esc, lx_lines = [], lx_q = q\<rparr> = Inr q"
  by (subst lex.simps) (simp add: lex_line_def)

lemma lex_words_queue:
  assumes "\<forall>(n, ws) \<in> set ls. plain_words ws \<and> ws \<noteq> []"
  shows "lex lib \<lparr>lx_escape = esc, lx_lines = List.map (\<lambda>(n, ws). (n, line_of ws)) ls, lx_q = q\<rparr>
     = Inr (q @ concat (List.map (\<lambda>(n, ws). word_tokens n 0 ws) ls))"
  using assms
proof (induction ls arbitrary: q)
  case Nil
  then show ?case by simp
next
  case (Cons l ls)
  obtain n ws where l: "l = (n, ws)" by (cases l)
  with Cons.prems have "plain_words ws" "ws \<noteq> []" by auto
  with Cons show ?case
    unfolding l by (subst lex.simps) (simp add: lex_line_def lex_chars_words)
qed



subsection \<open>Line ends\<close>

definition no_double_end :: "token list \<Rightarrow> bool" where
  "no_double_end q = successively (\<lambda>a b. \<not> (tok_type a = ENDLINE \<and> tok_type b = ENDLINE)) q"

lemma no_double_end_enqueue:
  "no_double_end q \<Longrightarrow> no_double_end (enqueue_token t ln col text q)"
  by (auto simp: no_double_end_def enqueue_token_def ends_in_def successively_append_iff)

lemma no_double_end_dequeue:
  assumes "dequeues f" and "no_double_end q"
  shows "no_double_end (f q)"
proof -
  have "no_double_end (tl q)"
    using assms(2) by (cases q) (auto simp: no_double_end_def successively_Cons)
  moreover have "no_double_end (butlast q)"
    using assms(2) by (cases q rule: rev_cases) (auto simp: no_double_end_def successively_append_iff)
  ultimately show ?thesis using assms(1) by (metis dequeues_def)
qed

lemma lex_chars_Inr_step:
  assumes "lex_chars lib esc ln lines s ic col q = Inr r"
  obtains consumed t ic' tx rest where "lex_step lib esc s ic = Inr (consumed, t, ic', tx, rest)"
  using assms by (subst (asm) lex_chars.simps) (auto split: sum.splits)

lemma lex_chars_no_double_end:
  "dequeues (q_dequeue lib) \<Longrightarrow> no_double_end q \<Longrightarrow>
   lex_chars lib esc ln lines s ic col q = Inr (k, q') \<Longrightarrow> no_double_end q'"
proof (induction lib esc ln lines s ic col q arbitrary: k q' rule: lex_chars.induct)
  case (1 lib esc ln lines s ic col q)
  obtain consumed t ic' tx rest where
    st: "lex_step lib esc s ic = Inr (consumed, t, ic', tx, rest)"
    by (rule lex_chars_Inr_step [OF "1.prems"(3)])
  note eq = "1.prems"(3) [unfolded lex_chars.simps [of lib esc ln lines s ic col q] st, simplified]
  have dq: "no_double_end (q_dequeue lib q)"
    using "1.prems"(1,2) by (rule no_double_end_dequeue)
  show ?case
  proof (cases "ic'")
    case True
    with eq have "lex_chars lib esc ln lines rest True (col + int consumed) q = Inr (k, q')" by simp
    then show ?thesis using "1.IH"(1) [OF st refl refl refl refl True] True "1.prems"(1,2) by simp
  next
    case no_ic: False
    show ?thesis
    proof (cases "t = ENDLINE \<and> ends_in BSLASH q")
      case joined: True
      show ?thesis
      proof (cases lines)
        case Nil
        then show ?thesis
          using eq no_ic joined "1.IH"(2) [OF st refl refl refl refl no_ic joined Nil] dq "1.prems"(1)
          by (auto split: if_splits)
      next
        case (Cons nl ls)
        then obtain n l where lns: "lines = (n, l) # ls" by (cases nl) auto
        from eq no_ic joined lns obtain k1 q1 where
          inner: "lex_chars lib esc n ls l False 0 (q_dequeue lib q) = Inr (k1, q1)"
          by (auto split: sum.splits)
        have q1: "no_double_end q1"
          using "1.IH"(3) [OF st refl refl refl refl no_ic joined lns refl] inner dq "1.prems"(1) by blast
        show ?thesis
        proof (cases "consumed = 0")
          case True
          with eq no_ic joined lns inner q1 show ?thesis by simp
        next
          case False
          with eq no_ic joined lns inner obtain k2 where
            "lex_chars lib esc ln (drop k1 ls) rest ic' (col + int consumed) q1 = Inr (k2, q')"
            by (auto split: sum.splits)
          then show ?thesis
            using "1.IH"(4) [OF st refl refl refl refl no_ic joined lns refl inner refl False] q1 "1.prems"(1)
            by blast
        qed
      qed
    next
      case plain: False
      show ?thesis
      proof (cases "consumed = 0")
        case True
        with eq no_ic plain "1.prems"(2) show ?thesis
          by (auto simp: no_double_end_enqueue)
      next
        case False
        with eq no_ic plain have "lex_chars lib esc ln lines rest ic' (col + int consumed)
          (enqueue_token t ln (col + int consumed) tx q) = Inr (k, q')"
          by auto
        then show ?thesis
          using "1.IH"(5) [OF st refl refl refl refl no_ic plain False] "1.prems"(1,2)
            no_double_end_enqueue by blast
      qed
    qed
  qed
qed

text \<open>The queue \<open>lex\<close> returns never holds two adjacent line-end tokens, for any file, any
  comments, blank lines and continuation lines, as long as \<open>Q_dequeue\<close> takes one element off an end
  of the queue: the parser sees at most one separator between two tokens.\<close>

theorem lex_no_double_end:
  assumes "dequeues (q_dequeue lib)" and "lex lib lx = Inr q" and "no_double_end (lx_q lx)"
  shows "no_double_end q"
  using assms
proof (induction lib lx rule: lex.induct)
  case (1 lib lx)
  from "1.prems"(2) obtain again lx' where line: "lex_line lib lx = Inr (again, lx')"
    by (subst (asm) lex.simps) (auto split: sum.splits)
  note eq = "1.prems"(2) [unfolded lex.simps [of lib lx] line, simplified]
  have lx': "no_double_end (lx_q lx')"
    using line "1.prems"(1,3)
    by (auto simp: lex_line_def andThen_eq_Inr lex_chars_no_double_end split: list.splits)
  show ?case
  proof (cases again)
    case True
    with eq "1.IH" [OF line refl True] lx' "1.prems"(1) show ?thesis by simp
  next
    case False
    with eq lx' show ?thesis by simp
  qed
qed

theorem lex_no_double_end_witness:
  "no_double_end [token_create WORD 1 1 ''x'', token_create ENDLINE 1 2 []]"
proof -
  have d: "dequeues (q_dequeue std_lexlib)"
    by (simp add: dequeues_def std_lexlib_def)
  have l: "lex std_lexlib (lexer_init [(1, '' x'' @ [CHR 0x0A]), (2, [CHR 0x0A])] True) =
      Inr [token_create WORD 1 1 ''x'', token_create ENDLINE 1 2 []]"
    by code_simp
  have n: "no_double_end (lx_q (lexer_init [(1, '' x'' @ [CHR 0x0A]), (2, [CHR 0x0A])] True))"
    by (simp add: lexer_init_def no_double_end_def)
  show ?thesis by (rule lex_no_double_end [OF d l n])
qed

subsection \<open>Well formed lines never fault\<close>

text \<open>
  A line that ends with its line feed and in which every string literal outside a comment is
  closed; the flag says whether the position is inside a literal.
\<close>

definition comment_tail :: "string \<Rightarrow> bool" where
  "comment_tail s \<longleftrightarrow> s \<noteq> [] \<and> last s = CHR 0x0A \<and> CHR 0x0A \<notin> set (butlast s)"

fun closed_line :: "bool \<Rightarrow> bool \<Rightarrow> string \<Rightarrow> bool" where
  "closed_line esc instr [] = False"
| "closed_line esc True (c # cs) =
     (if c = CHR 0x27 then closed_line esc False cs
      else if c = CHR 0x5C \<and> esc
      then (case cs of [] \<Rightarrow> False | d # ds \<Rightarrow> closed_line esc True ds)
      else closed_line esc True cs)"
| "closed_line esc False (c # cs) =
     (if c = CHR 0x0A then cs = []
      else if c = CHR '';'' then comment_tail cs
      else if c = CHR 0x27 then closed_line esc True cs
      else closed_line esc False cs)"

definition in_reach :: "bool \<Rightarrow> bool \<Rightarrow> string \<Rightarrow> bool" where
  "in_reach esc ic s \<longleftrightarrow> length s < MAX_LINE_LEN \<and>
     (if ic then comment_tail s else closed_line esc False s)"

lemma read_string_closed:
  "closed_line esc True s \<Longrightarrow>
   \<exists>w rest. read_string_chars esc s = Inr (w, rest) \<and> closed_line esc False rest \<and>
     length w + length rest < length s"
proof (induction esc s rule: read_string_chars.induct)
  case (1 esc)
  then show ?case by simp
next
  case (2 esc c cs)
  consider "c = CHR 0x27" | "c \<noteq> CHR 0x27" "c = CHR 0x5C \<and> esc"
    | "c \<noteq> CHR 0x27" "\<not> (c = CHR 0x5C \<and> esc)" by blast
  then show ?case
  proof cases
    case 1
    with "2.prems" show ?thesis by simp
  next
    case 2
    with "2.prems" obtain d ds where "cs = d # ds" "closed_line esc True ds"
      by (auto split: list.splits)
    with "2.IH"(1) [OF 2 \<open>cs = d # ds\<close>] 2 show ?thesis by force
  next
    case 3
    with "2.prems" have "closed_line esc True cs" by auto
    with "2.IH"(2) [OF 3] 3 show ?thesis by force
  qed
qed

lemma closed_line_drop:
  "closed_line esc False (w @ s) \<Longrightarrow> \<forall>c \<in> set w. c \<noteq> CHR 0x0A \<and> c \<noteq> CHR '';'' \<and> c \<noteq> CHR 0x27 \<Longrightarrow>
   closed_line esc False s"
  by (induction w) auto

lemma closed_line_ends: "closed_line esc b s \<Longrightarrow> s \<noteq> [] \<and> last s = CHR 0x0A"
  by (induction esc b s rule: closed_line.induct) (auto simp: comment_tail_def split: if_splits list.splits)

lemma closed_line_no_blanks: "closed_line esc False s \<Longrightarrow> closed_line esc False (dropWhile is_whitespace s)"
proof -
  assume "closed_line esc False s"
  then have "closed_line esc False (takeWhile is_whitespace s @ dropWhile is_whitespace s)" by simp
  moreover have "\<forall>c \<in> set (takeWhile is_whitespace s). c \<noteq> CHR 0x0A \<and> c \<noteq> CHR '';'' \<and> c \<noteq> CHR 0x27"
    by (auto simp: is_whitespace_def dest!: set_takeWhileD)
  ultimately show ?thesis by (rule closed_line_drop)
qed

lemma number_tail_plain:
  "number_tail c \<Longrightarrow> c \<noteq> CHR 0x0A \<and> c \<noteq> CHR '';'' \<and> c \<noteq> CHR 0x27"
  by (auto simp: number_tail_def is_number_def is_numeric_def is_digit_def)

lemma alphanumeric_plain:
  "is_alphanumeric c \<Longrightarrow> c \<noteq> CHR 0x0A \<and> c \<noteq> CHR '';'' \<and> c \<noteq> CHR 0x27"
  by (auto simp: is_alphanumeric_def is_numeric_def is_digit_def is_alphabetic_def)

lemma is_complex_plain:
  "is_complex (c # d # r) \<Longrightarrow> c \<noteq> CHR 0x0A \<and> c \<noteq> CHR '';'' \<and> c \<noteq> CHR 0x27 \<and>
     d \<noteq> CHR 0x0A \<and> d \<noteq> CHR '';'' \<and> d \<noteq> CHR 0x27"
  by (auto simp: is_complex_def char_at_def Let_def split: if_splits)

lemma is_complex_single: "\<not> is_complex [c]"
  by (auto simp: is_complex_def char_at_def)

lemma scan_word_plain:
  assumes "s = c # r" and "c \<noteq> CHR '';''" and "c \<noteq> CHR 0x27"
  shows "\<forall>x \<in> set (fst (scan_word s)). x \<noteq> CHR 0x0A \<and> x \<noteq> CHR '';'' \<and> x \<noteq> CHR 0x27"
proof (cases "is_special_char c")
  case special: True
  then have "c \<noteq> CHR 0x0A" by (auto simp: is_special_char_def)
  show ?thesis
  proof (cases "is_complex s")
    case True
    with assms(1) obtain d r' where "r = d # r'" by (cases r) (auto simp: is_complex_single)
    with True assms(1) special is_complex_plain [of c d r'] show ?thesis
      by (auto simp: scan_word_def)
  next
    case False
    with assms special \<open>c \<noteq> CHR 0x0A\<close> show ?thesis by (simp add: scan_word_def)
  qed
next
  case False
  with assms show ?thesis
    by (auto simp: scan_word_def dest!: set_takeWhileD dest: number_tail_plain alphanumeric_plain)
qed


lemma scan_word_no_newline: "CHR 0x0A \<notin> set (fst (scan_word s))"
proof (cases s)
  case Nil
  then show ?thesis by (simp add: scan_word_def)
next
  case (Cons c r)
  show ?thesis
  proof (cases "c = CHR '';'' \<or> c = CHR 0x27")
    case True
    then have "\<not> is_complex s" using Cons by (auto simp: is_complex_def char_at_def Let_def)
    with True Cons show ?thesis by (auto simp: scan_word_def is_special_char_def)
  next
    case False
    with Cons scan_word_plain [of s c r] show ?thesis by blast
  qed
qed

lemma read_word_reach:
  assumes "s \<noteq> []" and "last s = CHR 0x0A" and "length s < MAX_LINE_LEN"
  shows "read_word s = Inr (scan_word (dropWhile is_whitespace s))"
    and "snd (scan_word (dropWhile is_whitespace s)) \<noteq> []"
    and "last (snd (scan_word (dropWhile is_whitespace s))) = CHR 0x0A"
proof -
  let ?t = "dropWhile is_whitespace s" and ?w = "scan_word (dropWhile is_whitespace s)"
  have "\<not> is_whitespace (last s)" using assms(2) by (simp add: is_whitespace_def)
  then have t: "?t \<noteq> []" using assms(1) last_in_set by (fastforce simp: dropWhile_eq_Nil_conv)
  have lt: "last ?t = CHR 0x0A"
    using t assms(2) by (metis last_appendR takeWhile_dropWhile_id)
  have split: "fst ?w @ snd ?w = ?t" by (rule scan_word_append)
  show rest: "snd ?w \<noteq> []"
  proof
    assume "snd ?w = []"
    with split have "fst ?w = ?t" by simp
    with t lt scan_word_no_newline [of ?t] last_in_set [OF t] show False by auto
  qed
  show "last (snd ?w) = CHR 0x0A" using rest split lt by (metis last_appendR)
  have "length (fst ?w) \<le> length s"
    using split length_dropWhile_le [of is_whitespace s] by (metis le_add1 length_append order_trans)
  with assms t show "read_word s = Inr ?w" by (simp add: read_word_def)
qed

lemma comment_tail_suffix: "comment_tail (w @ s) \<Longrightarrow> s \<noteq> [] \<Longrightarrow> comment_tail s"
  by (auto simp: comment_tail_def butlast_append)

lemma scan_word_Nil: "scan_word s = ([], rest) \<Longrightarrow> s = [] \<or> hd s = CHR 0x0A"
  by (cases s) (auto simp: scan_word_def split: if_splits)

lemma comment_newline: "comment_tail s \<Longrightarrow> hd s = CHR 0x0A \<Longrightarrow> s = [CHR 0x0A]"
  by (cases s; cases "tl s") (auto simp: comment_tail_def)

lemma resolve_type_comment_iff:
  "snd (resolve_type lib w ic) \<longleftrightarrow> w \<noteq> [] \<and> (ic \<or> char_at w 0 = CHR '';'')"
  by (auto simp: resolve_type_def symbol_type_def split: option.splits)

lemma resolve_type_string:
  "fst (resolve_type lib w ic) = STR_T \<longleftrightarrow> w \<noteq> [] \<and> char_at w 0 = CHR 0x27"
  by (auto simp: resolve_type_def symbol_type_def split: option.splits if_splits)


lemma lex_step_in_comment:
  assumes "in_reach esc True s"
  shows "\<exists>consumed t ic tx rest. lex_step lib esc s True = Inr (consumed, t, ic, tx, rest) \<and>
    in_reach esc ic rest"
proof -
  let ?t = "dropWhile is_whitespace s"
  obtain w rest where wr: "scan_word ?t = (w, rest)" by fastforce
  from assms have s: "s \<noteq> []" "last s = CHR 0x0A" "length s < MAX_LINE_LEN" "comment_tail s"
    by (auto simp: in_reach_def comment_tail_def)
  have rw: "read_word s = Inr (w, rest)" and rest: "rest \<noteq> []"
    using read_word_reach [OF s(1-3)] wr by auto
  have t: "?t = w @ rest" using scan_word_append [of ?t] wr by simp
  have st: "s = (takeWhile is_whitespace s @ w) @ rest"
    using takeWhile_dropWhile_id [of is_whitespace s] t by simp
  have ct: "comment_tail rest" using comment_tail_suffix [of _ rest] s(4) st rest by metis
  have len: "length rest < MAX_LINE_LEN"
    using s(3) arg_cong [OF st, of length] by simp
  show ?thesis
  proof (cases "w = []")
    case True
    then have "hd rest = CHR 0x0A" using scan_word_Nil [of ?t rest] wr t rest by simp
    then have "rest = [CHR 0x0A]" using ct comment_newline by blast
    then show ?thesis
      using rw True by (auto simp: lex_step_def resolve_type_def in_reach_def MAX_LINE_LEN_def)
  next
    case False
    then have "snd (resolve_type lib w True)" by (simp add: resolve_type_comment_iff)
    with rw ct len show ?thesis
      by (cases "resolve_type lib w True") (auto simp: lex_step_def in_reach_def Let_def)
  qed
qed

lemma closed_line_scan:
  assumes "closed_line esc False t" and "scan_word t = (w, rest)"
  shows "(w = [] \<and> rest = [CHR 0x0A]) \<or>
    (w = '';'' \<and> comment_tail rest) \<or> (w = [CHR 0x27] \<and> closed_line esc True rest) \<or>
    (w \<noteq> [] \<and> hd w \<noteq> CHR '';'' \<and> hd w \<noteq> CHR 0x27 \<and> closed_line esc False rest)"
proof -
  from closed_line_ends [OF assms(1)] obtain c r where t: "t = c # r" by (cases t) auto
  have app: "w @ rest = t" using scan_word_append [of t] assms(2) by simp
  consider "c = CHR 0x0A" | "c = CHR '';''" | "c = CHR 0x27"
    | "c \<noteq> CHR 0x0A" "c \<noteq> CHR '';''" "c \<noteq> CHR 0x27" by blast
  then show ?thesis
  proof cases
    case 1
    with assms t show ?thesis by (auto simp: scan_word_def is_special_char_def)
  next
    case 2
    then have "\<not> is_complex t" using t by (simp add: is_complex_def char_at_def)
    with 2 assms t show ?thesis by (auto simp: scan_word_def)
  next
    case 3
    then have "\<not> is_complex t" using t by (simp add: is_complex_def char_at_def)
    with 3 assms t show ?thesis by (auto simp: scan_word_def is_special_char_def)
  next
    case 4
    have "w \<noteq> []" using scan_word_Nil [of t rest] assms(2) t 4(1) by auto
    moreover have "hd w = c" using app t \<open>w \<noteq> []\<close> by (metis hd_append2 list.sel(1))
    moreover have "closed_line esc False rest"
      using closed_line_drop [of esc w rest] scan_word_plain [OF t 4(2,3)] assms app by simp
    ultimately show ?thesis using 4 by simp
  qed
qed

lemma lex_step_closed:
  assumes "in_reach esc False s"
  shows "\<exists>consumed t ic tx rest. lex_step lib esc s False = Inr (consumed, t, ic, tx, rest) \<and>
    in_reach esc ic rest"
proof -
  let ?t = "dropWhile is_whitespace s"
  obtain w rest where wr: "scan_word ?t = (w, rest)" by fastforce
  from assms have cl: "closed_line esc False s" and len: "length s < MAX_LINE_LEN"
    by (auto simp: in_reach_def)
  note ends = closed_line_ends [OF cl]
  have rw: "read_word s = Inr (w, rest)"
    using read_word_reach(1) [OF _ _ len] ends wr by auto
  have "length w + length rest \<le> length s" using rw by (rule read_word_rest)
  with len have lens: "length rest < MAX_LINE_LEN" by simp
  note sc = closed_line_scan [OF closed_line_no_blanks [OF cl] wr]
  obtain t ic where ty: "resolve_type lib w False = (t, ic)" by fastforce
  have ic: "ic \<longleftrightarrow> w \<noteq> [] \<and> char_at w 0 = CHR '';''"
    using resolve_type_comment_iff [of lib w False] ty by simp
  have str: "t = STR_T \<longleftrightarrow> w \<noteq> [] \<and> char_at w 0 = CHR 0x27"
    using resolve_type_string [of lib w False] ty by simp
  show ?thesis
  proof (cases "w = [CHR 0x27]")
    case True
    with sc have "closed_line esc True rest" by auto
    from read_string_closed [OF this] obtain w' rest' where
      rs: "read_string_chars esc rest = Inr (w', rest')" "closed_line esc False rest'"
        "length w' + length rest' < length rest" by blast
    have "length w' + 2 < MAX_LINE_LEN"
      using rs(3) \<open>length w + length rest \<le> length s\<close> len closed_line_ends [OF rs(2)] True
      by (cases rest') auto
    with rs lens have "read_string esc rest = Inr (CHR 0x27 # w' @ [CHR 0x27], rest')"
      and "in_reach esc False rest'"
      by (auto simp: read_string_def in_reach_def)
    with rw ty ic str True show ?thesis by (auto simp: lex_step_def char_at_def)
  next
    case False
    have "\<not> (\<not> ic \<and> t = STR_T)"
      using sc False str by (auto simp: char_at_def hd_conv_nth)
    moreover have "in_reach esc ic rest"
      using sc False ic lens by (auto simp: in_reach_def char_at_def hd_conv_nth MAX_LINE_LEN_def)
    ultimately show ?thesis using rw ty by (auto simp: lex_step_def Let_def)
  qed
qed

lemma lex_step_reach:
  "in_reach esc ic s \<Longrightarrow> \<exists>consumed t ic' tx rest.
     lex_step lib esc s ic = Inr (consumed, t, ic', tx, rest) \<and> in_reach esc ic' rest"
  by (cases ic) (simp_all add: lex_step_in_comment lex_step_closed)

definition good_lines :: "bool \<Rightarrow> (int \<times> string) list \<Rightarrow> bool" where
  "good_lines esc ls = list_all (\<lambda>(n, l). closed_line esc False l \<and> length l < MAX_LINE_LEN) ls"

lemma good_lines_drop: "good_lines esc ls \<Longrightarrow> good_lines esc (drop k ls)"
  by (auto simp: good_lines_def list_all_iff dest: in_set_dropD)

lemma lex_chars_returns:
  "in_reach esc ic s \<Longrightarrow> good_lines esc lines \<Longrightarrow> returns (lex_chars lib esc ln lines s ic col q)"
proof (induction lib esc ln lines s ic col q rule: lex_chars.induct)
  case (1 lib esc ln lines s ic col q)
  obtain consumed t ic' tx rest where
    st: "lex_step lib esc s ic = Inr (consumed, t, ic', tx, rest)" and rr: "in_reach esc ic' rest"
    using lex_step_reach [OF "1.prems"(1)] by blast
  note eq = lex_chars.simps [of lib esc ln lines s ic col q]
  show ?case
  proof (cases "ic'")
    case True
    with "1.IH"(1) [OF st refl refl refl refl True] rr "1.prems"(2) st eq show ?thesis by simp
  next
    case no_ic: False
    show ?thesis
    proof (cases "t = ENDLINE \<and> ends_in BSLASH q")
      case joined: True
      show ?thesis
      proof (cases lines)
        case Nil
        with "1.IH"(2) [OF st refl refl refl refl no_ic joined Nil] rr "1.prems"(2) st eq no_ic joined
        show ?thesis by auto
      next
        case (Cons nl ls)
        then obtain n l where lns: "lines = (n, l) # ls" by (cases nl) auto
        with "1.prems"(2) have gl: "good_lines esc ls" and l: "in_reach esc False l"
          by (auto simp: good_lines_def in_reach_def)
        obtain k1 q1 where inner: "lex_chars lib esc n ls l False 0 (q_dequeue lib q) = Inr (k1, q1)"
          using "1.IH"(3) [OF st refl refl refl refl no_ic joined lns refl l gl]
          by (auto simp: returns_iff)
        show ?thesis
        proof (cases "consumed = 0")
          case True
          with eq no_ic joined lns inner st show ?thesis by simp
        next
          case False
          obtain r where "lex_chars lib esc ln (drop k1 ls) rest ic' (col + int consumed) q1 = Inr r"
            using "1.IH"(4) [OF st refl refl refl refl no_ic joined lns refl inner refl False rr
                good_lines_drop [OF gl]]
            by (auto simp: returns_iff)
          with eq no_ic joined lns inner st False show ?thesis by (cases r) simp
        qed
      qed
    next
      case plain: False
      with "1.IH"(5) [OF st refl refl refl refl no_ic plain] rr "1.prems"(2) st eq no_ic
      show ?thesis by (cases "consumed = 0") auto
    qed
  qed
qed

text \<open>C37: Lexing never reads outside a line or overflows the word buffer, and returns a queue, for
  every file whose lines are shorter than \<open>MAX_LINE_LEN\<close>, end in a line feed and close their string
  literals (with comments, escapes and continuation lines anywhere).\<close>

theorem lex_returns:
  assumes "good_lines (lx_escape lx) (lx_lines lx)"
  shows "\<exists>q. lex lib lx = Inr q"
  using assms
proof (induction lib lx rule: lex.induct)
  case (1 lib lx)
  show ?case
  proof (cases "lx_lines lx")
    case Nil
    then show ?thesis by (subst lex.simps) (simp add: lex_line_def)
  next
    case (Cons nl ls)
    then obtain n l where lns: "lx_lines lx = (n, l) # ls" by (cases nl) auto
    with "1.prems" have gl: "good_lines (lx_escape lx) ls" and l: "in_reach (lx_escape lx) False l"
      by (auto simp: good_lines_def in_reach_def)
    obtain k q where "lex_chars lib (lx_escape lx) n ls l False 0 (lx_q lx) = Inr (k, q)"
      using lex_chars_returns [OF l gl] by (fastforce simp: returns_iff)
    then have line: "lex_line lib lx = Inr (True, lx\<lparr>lx_lines := drop k ls, lx_q := q\<rparr>)"
      using lns by (simp add: lex_line_def)
    show ?thesis
      using "1.IH" [OF line refl] line good_lines_drop [OF gl] by (subst lex.simps) simp
  qed
qed

theorem lex_returns_witness:
  "\<exists>q. lex std_lexlib (lexer_init
     [(1, ''x = '' @ [CHR 0x27] @ ''a;b'' @ [CHR 0x27] @ '' ; c'' @ [CHR 0x0A])] True) = Inr q"
  by (rule lex_returns) code_simp

end
