(* ===== verification/ParserFacts.thy ===== *)
theory ParserFacts imports Parser LexerFacts begin

text \<open>
  The parser of \<open>lang/parser/parser.c\<close> ends on every file. A parse that returns follows a big-step relation;
  what it matched is paid for with characters of the file or tokens of the queue, unless it may be
  empty; and the grammar is not left-recursive: a rank falls along the nonterminals a rule may begin
  with. So a depth of \<open>RANKS\<close> nonterminals for each character and line is enough.
\<close>

subsection \<open>Returning runs as a relation\<close>

inductive parses :: "parselib \<Rightarrow> parse_expression \<Rightarrow> lexer \<Rightarrow> syntax_tree option \<Rightarrow> lexer \<Rightarrow> bool"
  for lib :: parselib
where
  token: "parse_type lib t lx = Inr (r, lx') \<Longrightarrow> parses lib (Type t) lx r lx'"
| first: "parses lib a lx (Some t) lx' \<Longrightarrow> parses lib (Or a b) lx (Some t) lx'"
| second: "parses lib a lx None lx1 \<Longrightarrow> parses lib b lx1 r lx' \<Longrightarrow> parses lib (Or a b) lx r lx'"
| fails: "parses lib a lx None lx' \<Longrightarrow> parses lib (And a b) lx None lx'"
| both: "parses lib a lx (Some t) lx1 \<Longrightarrow> parses lib b lx1 m lx2 \<Longrightarrow>
    match_merge lib (Some t) m lx2 = Inr (r, lx') \<Longrightarrow> parses lib (And a b) lx r lx'"
| present: "parses lib a lx (Some t) lx' \<Longrightarrow> parses lib (Opt a) lx (Some t) lx'"
| absent: "parses lib a lx None lx' \<Longrightarrow> parses lib (Opt a) lx (Some match_epsilon) lx'"
| nothing: "parses lib Epsilon lx (Some match_epsilon) lx"
| rule: "parses lib (rule_of x) lx m lx' \<Longrightarrow> parses lib (NT x) lx (map_option (name_tree x) m) lx'"

inductive_cases parses_AndE: "parses lib (And a b) lx r lx'"
inductive_cases parses_NTE: "parses lib (NT x) lx r lx'"

lemma bindP_Inr:
  "bindP p f = Some (Inr r) \<longleftrightarrow> (\<exists>m lx. p = Some (Inr (m, lx)) \<and> f m lx = Some (Inr r))"
  by (auto simp: bindP_def split: option.splits sum.splits)

lemma parse_parses:
  "parse lib n s lx = Some (Inr (r, lx')) \<Longrightarrow> parses lib s lx r lx'"
proof (induction lib n s lx arbitrary: r lx' rule: parse.induct)
  case (1 lib n t lx)
  then show ?case by (auto simp: parse.simps intro: parses.token)
next
  case (2 lib n a b lx)
  from "2.prems" obtain m lx1 where a: "parse lib n a lx = Some (Inr (m, lx1))"
    and b: "(case m of Some _ \<Rightarrow> Some (Inr (m, lx1)) | None \<Rightarrow> parse lib n b lx1) = Some (Inr (r, lx'))"
    by (auto simp: parse.simps bindP_Inr)
  from "2.IH"(1) [OF a] "2.IH"(2) b show ?case
    by (cases m) (auto intro: parses.first parses.second)
next
  case (3 lib n a b lx)
  from "3.prems" obtain m lx1 where a: "parse lib n a lx = Some (Inr (m, lx1))"
    and b: "(case m of None \<Rightarrow> Some (Inr (None, lx1)) | Some _ \<Rightarrow>
        bindP (parse lib n b lx1) (\<lambda>m2 lx. Some (match_merge lib m m2 lx))) = Some (Inr (r, lx'))"
    by (auto simp: parse.simps bindP_Inr)
  note a' = "3.IH"(1) [OF a]
  show ?case
  proof (cases m)
    case None
    with a' b show ?thesis by (auto intro: parses.fails)
  next
    case (Some t)
    with b obtain m2 lx2 where "parse lib n b lx1 = Some (Inr (m2, lx2))"
      and "match_merge lib m m2 lx2 = Inr (r, lx')"
      by (auto simp: bindP_Inr)
    with "3.IH"(2) [OF Some] a' Some show ?thesis by (auto intro: parses.both)
  qed
next
  case (4 lib n a lx)
  from "4.prems" obtain m lx1 where a: "parse lib n a lx = Some (Inr (m, lx1))"
    and r: "(case m of Some _ \<Rightarrow> Some (Inr (m, lx1)) | None \<Rightarrow> Some (Inr (Some match_epsilon, lx1)))
        = (Some (Inr (r, lx')) :: parsed)"
    unfolding parse.simps bindP_Inr by blast
  from "4.IH" [OF a] r show ?case by (cases m) (auto intro: parses.present parses.absent)
next
  case (5 lib n lx)
  then show ?case by (auto simp: parse.simps intro: parses.nothing)
next
  case (6 lib x lx)
  then show ?case by (simp add: parse.simps)
next
  case (7 lib n x lx)
  then show ?case by (auto simp: parse.simps bindP_Inr intro: parses.rule)
qed

subsection \<open>What a match costs\<close>

text \<open>The characters and line ends still to be lexed, and the tokens in the queue.\<close>

definition lines_size :: "(int \<times> string) list \<Rightarrow> nat" where
  "lines_size ls = sum_list (List.map (\<lambda>(n, l). length l + 1) ls)"

definition budget :: "lexer \<Rightarrow> nat" where
  "budget lx = length (lx_q lx) + lines_size (lx_lines lx)"

lemma lines_size_simps [simp]:
  "lines_size [] = 0" "lines_size ((n, l) # ls) = length l + 1 + lines_size ls"
  by (simp_all add: lines_size_def)

definition queue_laws :: "parselib \<Rightarrow> bool" where
  "queue_laws lib \<longleftrightarrow> (\<forall>t q. q_pop lib (t # q) = (t, q)) \<and> (\<forall>t q. q_push lib t q = t # q) \<and>
     dequeues (q_dequeue (pl_lex lib))"

lemma std_parselib_laws: "queue_laws std_parselib"
  by (simp add: queue_laws_def std_parselib_def std_lexlib_def dequeues_def)

lemma length_dequeue: "dequeues f \<Longrightarrow> length (f q) \<le> length q"
  unfolding dequeues_def by (metis diff_le_self length_butlast length_tl)

lemma length_enqueue_token: "length (enqueue_token t ln col text q) \<le> Suc (length q)"
  by (simp add: enqueue_token_def)

lemma lex_step_le:
  assumes "lex_step lib esc s ic = Inr (consumed, t, ic', text, rest)"
  shows "length rest \<le> length s"
  using assms by (auto elim!: lex_step_cases dest!: length_read_string read_word_rest)

lemma lex_chars_budget:
  assumes "dequeues (q_dequeue lib)"
  shows "lex_chars lib esc ln lines s ic col q = Inr (k, q') \<Longrightarrow>
    length q' + lines_size (drop k lines) \<le> length q + length s + 1 + lines_size lines"
  using assms
proof (induction lib esc ln lines s ic col q arbitrary: k q' rule: lex_chars.induct)
  case (1 lib esc ln lines s ic col q)
  obtain consumed t ic' tx rest where
    st: "lex_step lib esc s ic = Inr (consumed, t, ic', tx, rest)"
    by (rule lex_chars_Inr_step [OF "1.prems"(1)])
  note eq = "1.prems"(1) [unfolded lex_chars.simps [of lib esc ln lines s ic col q] st, simplified]
  note shorter = lex_step_shorter [OF st] and le = lex_step_le [OF st]
  have dq: "length (q_dequeue lib q) \<le> length q" using "1.prems"(2) by (rule length_dequeue)
  show ?case
  proof (cases "ic'")
    case True
    with eq "1.IH"(1) [OF st refl refl refl refl True] "1.prems"(2) le show ?thesis by fastforce
  next
    case no_ic: False
    show ?thesis
    proof (cases "t = ENDLINE \<and> ends_in BSLASH q")
      case joined: True
      show ?thesis
      proof (cases lines)
        case Nil
        with eq no_ic joined "1.IH"(2) [OF st refl refl refl refl no_ic joined Nil] dq "1.prems"(2) le
        show ?thesis by (fastforce split: if_splits)
      next
        case (Cons nl ls)
        then obtain n l where lns: "lines = (n, l) # ls" by (cases nl) auto
        from eq no_ic joined lns obtain k1 q1 where
          inner: "lex_chars lib esc n ls l False 0 (q_dequeue lib q) = Inr (k1, q1)"
          by (auto split: sum.splits)
        have q1: "length q1 + lines_size (drop k1 ls) \<le> length q + length l + 1 + lines_size ls"
          using "1.IH"(3) [OF st refl refl refl refl no_ic joined lns refl inner] dq "1.prems"(2) by simp
        show ?thesis
        proof (cases "consumed = 0")
          case True
          with eq no_ic joined lns inner q1 show ?thesis by auto
        next
          case False
          with eq no_ic joined lns inner obtain k2 where k: "k = Suc k1 + k2" and
            "lex_chars lib esc ln (drop k1 ls) rest ic' (col + int consumed) q1 = Inr (k2, q')"
            by (auto split: sum.splits)
          from "1.IH"(4) [OF st refl refl refl refl no_ic joined lns refl inner refl False this(2)]
            "1.prems"(2)
          have "length q' + lines_size (drop (k1 + k2) ls) \<le>
              length q1 + length rest + 1 + lines_size (drop k1 ls)"
            by (simp add: add.commute)
          then show ?thesis using q1 le lns k by simp
        qed
      qed
    next
      case plain: False
      show ?thesis
      proof (cases "consumed = 0")
        case True
        with eq no_ic plain length_enqueue_token [of t ln col tx q] show ?thesis
          by (auto split: if_splits)
      next
        case False
        with eq no_ic plain have "lex_chars lib esc ln lines rest ic' (col + int consumed)
          (enqueue_token t ln (col + int consumed) tx q) = Inr (k, q')"
          by auto
        from "1.IH"(5) [OF st refl refl refl refl no_ic plain False this "1.prems"(2)]
        show ?thesis using shorter [OF False] length_enqueue_token [of t ln "col + int consumed" tx q]
          by simp
      qed
    qed
  qed
qed

lemma lex_line_budget:
  assumes "dequeues (q_dequeue lib)" and "lex_line lib lx = Inr (again, lx')"
  shows "budget lx' \<le> budget lx"
  using assms(2) lex_chars_budget [OF assms(1)]
  by (fastforce simp: lex_line_def andThen_eq_Inr budget_def split: list.splits)

lemma parser_next_budget:
  assumes "dequeues (q_dequeue (pl_lex lib))" and "parser_next lib lx = Inr lx'"
  shows "budget lx' \<le> budget lx"
  using assms
proof (induction lib lx rule: parser_next.induct)
  case (1 lib lx)
  show ?case
  proof (cases "lx_q lx \<noteq> []")
    case True
    with "1.prems"(2) show ?thesis by (simp add: parser_next.simps)
  next
    case False
    with "1.prems"(2) obtain again lx1 where line: "lex_line (pl_lex lib) lx = Inr (again, lx1)"
      and rest: "(if again then parser_next lib lx1 else Inr lx1) = Inr lx'"
      by (subst (asm) parser_next.simps) (auto split: sum.splits)
    from lex_line_budget [OF "1.prems"(1) line] rest "1.IH" [OF False line refl] "1.prems"(1)
    show ?thesis by (cases again) (auto intro: order_trans)
  qed
qed

fun tokens_of :: "syntax_tree \<Rightarrow> token list" where
  "tokens_of (EpsTree x) = []"
| "tokens_of (TokTree t x) = [t]"
| "tokens_of (NodeTree a b x) = tokens_of a @ tokens_of b"

lemma tokens_of_name_tree [simp]: "tokens_of (name_tree x t) = tokens_of t"
  by (cases t) (auto simp: name_tree_def)

lemma is_epsilon_name_tree [simp]: "is_epsilon (name_tree x t) = is_epsilon t"
  by (cases t) (auto simp: name_tree_def)

lemma match_rollback_tokens:
  "queue_laws lib \<Longrightarrow> match_rollback lib t q = tokens_of t @ q"
  by (induction lib t q rule: match_rollback.induct) (auto simp: queue_laws_def)

subsection \<open>No left recursion\<close>

text \<open>The nonterminals that may match nothing, and the rank of each.\<close>

definition empty_nonterms :: "nonterm set" where
  "empty_nonterms = {
     Expr map_declaration_entry1, Expr postfix_expression1, Expr binary_and_expression1,
     Expr binary_xor_expression1, Expr binary_or_expression1, Bool multiplicative_expression1,
     Bool additive_expression1, Bool in_expression1, Bool relational_expression1,
     Bool equality_expression1, Bool and_expression1, Bool or_expression1, Assign field_extension,
     Assign field_expression1, Assign assignment_tuple_list1, Assign tuple_expression1,
     Func function_argument_list1, Func function_qualifier_list1, Newf new_argument_list1,
     Clas identifier_list1, Clas class_statement_list1, Clas parent_class_list1,
     Clas file_level_statement_list1, Clas statement_list1}"

fun may_be_empty :: "parse_expression \<Rightarrow> bool" where
  "may_be_empty (Type t) = False"
| "may_be_empty (Or a b) = (may_be_empty a \<or> may_be_empty b)"
| "may_be_empty (And a b) = (may_be_empty a \<and> may_be_empty b)"
| "may_be_empty (Opt a) = True"
| "may_be_empty Epsilon = True"
| "may_be_empty (NT x) = (x \<in> empty_nonterms)"

primrec expression_rank :: "expr_nt \<Rightarrow> nat" where
  "expression_rank identifier_nt = 0" | "expression_rank new_expression = 0"
  | "expression_rank constant_nt = 0" | "expression_rank string_literal = 0"
  | "expression_rank array_declaration = 0" | "expression_rank map_declaration_entry = 9"
  | "expression_rank map_declaration_entry1 = 0" | "expression_rank map_declaration_list = 10"
  | "expression_rank map_declaration = 0" | "expression_rank length_expression = 0"
  | "expression_rank primary_expression = 7" | "expression_rank primary_expression_no_constants = 7"
  | "expression_rank postfix_expression1 = 0" | "expression_rank postfix_expression = 8"
  | "expression_rank range_expression = 9" | "expression_rank unary_expression = 10"
  | "expression_rank binary_and_expression1 = 0" | "expression_rank binary_and_expression = 11"
  | "expression_rank binary_xor_expression1 = 0" | "expression_rank binary_xor_expression = 12"
  | "expression_rank binary_or_expression1 = 0" | "expression_rank binary_or_expression = 13"

primrec condition_rank :: "bool_nt \<Rightarrow> nat" where
  "condition_rank multiplicative_expression1 = 0" | "condition_rank multiplicative_expression = 14"
  | "condition_rank additive_expression1 = 0" | "condition_rank additive_expression = 15"
  | "condition_rank in_expression1 = 0" | "condition_rank in_expression = 16"
  | "condition_rank relational_expression1 = 0" | "condition_rank relational_expression = 17"
  | "condition_rank equality_expression1 = 0" | "condition_rank equality_expression = 18"
  | "condition_rank and_expression1 = 0" | "condition_rank and_expression = 19"
  | "condition_rank or_expression1 = 0" | "condition_rank or_expression = 20"
  | "condition_rank is_expression = 21" | "condition_rank conditional_expression = 22"

primrec assignment_rank :: "assign_nt \<Rightarrow> nat" where
  "assignment_rank const_assignment_expression = 0" | "assignment_rank array_index_assignment = 0"
  | "assignment_rank function_call_args = 0" | "assignment_rank field_extension = 1"
  | "assignment_rank field_set_value = 0" | "assignment_rank field_suffix = 1"
  | "assignment_rank field_next = 2" | "assignment_rank field_expression1 = 3"
  | "assignment_rank field_expression = 1" | "assignment_rank assignment_lhs_single = 2"
  | "assignment_rank assignment_tuple_list1 = 0" | "assignment_rank assignment_tuple_list = 4"
  | "assignment_rank assignment_tuple = 0" | "assignment_rank assignment_array = 0"
  | "assignment_rank assignment_lhs = 3" | "assignment_rank assignment_expression = 23"
  | "assignment_rank tuple_expression1 = 0" | "assignment_rank tuple_expression = 24"

primrec statement_rank :: "stmt_nt \<Rightarrow> nat" where
  "statement_rank expression_statement = 25" | "statement_rank foreach_statement = 0"
  | "statement_rank for_statement = 0" | "statement_rank while_statement = 0"
  | "statement_rank iteration_statement = 1" | "statement_rank compound_statement = 0"
  | "statement_rank selection_statement = 0" | "statement_rank exit_statement = 0"
  | "statement_rank raise_statement = 0" | "statement_rank catch_assign = 4"
  | "statement_rank try_statement = 0" | "statement_rank jump_statement = 0"
  | "statement_rank break_statement = 0" | "statement_rank default_value_expression = 0"
  | "statement_rank const_expression = 1"

primrec function_rank :: "fun_nt \<Rightarrow> nat" where
  "function_rank function_arg_default_value = 0" | "function_rank function_arg_elt_with_default = 1"
  | "function_rank function_arg_elt = 2" | "function_rank const_function_argument = 0"
  | "function_rank function_argument = 3" | "function_rank function_argument_list1 = 0"
  | "function_rank function_argument_list = 4" | "function_rank function_arguments_present = 0"
  | "function_rank function_arguments_no_args = 0" | "function_rank function_arguments = 1"
  | "function_rank def_identifier = 0" | "function_rank function_signature_no_qualifier = 1"
  | "function_rank function_qualifier = 0" | "function_rank function_qualifier_list1 = 1"
  | "function_rank function_qualifier_list = 1" | "function_rank function_signature_with_qualifier = 2"
  | "function_rank function_signature = 3" | "function_rank function_definition = 4"
  | "function_rank method_identifier = 0" | "function_rank method_signature_no_qualifier = 1"
  | "function_rank method_signature_with_qualifier = 2" | "function_rank method_signature = 3"
  | "function_rank method_definition = 4"

primrec constructor_rank :: "new_nt \<Rightarrow> nat" where
  "constructor_rank new_arg_var = 1" | "constructor_rank new_field_arg = 0"
  | "constructor_rank new_arg_default_value = 0" | "constructor_rank new_arg_elt_with_default = 2"
  | "constructor_rank new_arg_elt = 3" | "constructor_rank const_new_argument = 0"
  | "constructor_rank new_argument = 4" | "constructor_rank new_argument_list1 = 0"
  | "constructor_rank new_argument_list = 5" | "constructor_rank new_arguments_present = 0"
  | "constructor_rank new_arguments_no_args = 0" | "constructor_rank new_arguments = 1"
  | "constructor_rank new_identifier = 1" | "constructor_rank new_signature_nonconst = 2"
  | "constructor_rank new_signature_const = 3" | "constructor_rank new_signature = 4"
  | "constructor_rank new_definition = 5" | "constructor_rank anon_signature_no_qualifier = 2"
  | "constructor_rank anon_signature_with_qualifier = 3" | "constructor_rank anon_signature = 4"
  | "constructor_rank anon_function_lambda_lhs = 5" | "constructor_rank anon_function_lambda_rhs = 0"
  | "constructor_rank anon_function_definition = 6"

primrec class_rank :: "class_nt \<Rightarrow> nat" where
  "class_rank identifier_list1 = 0" | "class_rank identifier_list = 1"
  | "class_rank field_statement = 0" | "class_rank class_statement = 6"
  | "class_rank class_statement_list1 = 7" | "class_rank class_statement_list = 7"
  | "class_rank parent_class_list1 = 0" | "class_rank parent_class_list = 1"
  | "class_rank parent_classes = 0" | "class_rank class_compound_statement = 0"
  | "class_rank class_name_and_inheritance = 1" | "class_rank class_definition_no_annotation = 0"
  | "class_rank annotation_not_called = 1" | "class_rank annotation_no_arguments = 2"
  | "class_rank annotation_with_arguments = 2" | "class_rank annotation = 0"
  | "class_rank class_definition_with_annotation = 1" | "class_rank class_definition = 2"
  | "class_rank import_statement = 0" | "class_rank module_statement = 0" | "class_rank statement = 26"
  | "class_rank file_level_statement = 27" | "class_rank file_level_statement_list1 = 28"
  | "class_rank file_level_statement_list = 28" | "class_rank statement_list1 = 27"
  | "class_rank statement_list = 27"

fun rank :: "nonterm \<Rightarrow> nat" where
  "rank (Expr x) = expression_rank x"
| "rank (Bool x) = condition_rank x"
| "rank (Assign x) = assignment_rank x"
| "rank (Stmt x) = statement_rank x"
| "rank (Func x) = function_rank x"
| "rank (Newf x) = constructor_rank x"
| "rank (Clas x) = class_rank x"


text \<open>One more than the ranks of the nonterminals an expression may begin with.\<close>

fun first_rank :: "parse_expression \<Rightarrow> nat" where
  "first_rank (Type t) = 0"
| "first_rank (Or a b) = max (first_rank a) (first_rank b)"
| "first_rank (And a b) = (if may_be_empty a then max (first_rank a) (first_rank b) else first_rank a)"
| "first_rank (Opt a) = first_rank a"
| "first_rank Epsilon = 0"
| "first_rank (NT x) = Suc (rank x)"

definition RANKS :: nat where
  "RANKS = 29"

definition ranked :: "nonterm \<Rightarrow> bool" where
  "ranked x = (first_rank (rule_of x) \<le> rank x \<and> rank x < RANKS \<and>
     (may_be_empty (rule_of x) \<longrightarrow> x \<in> empty_nonterms))"

lemmas ranked_simps = ranked_def RANKS_def empty_nonterms_def Ln_def TypeLn_def

lemma ranked_Expr: "ranked (Expr x)"
  by (cases x) (simp_all add: ranked_simps)

lemma ranked_Bool: "ranked (Bool x)"
  by (cases x) (simp_all add: ranked_simps)

lemma ranked_Assign: "ranked (Assign x)"
  by (cases x) (simp_all add: ranked_simps)

lemma ranked_Stmt: "ranked (Stmt x)"
  by (cases x) (simp_all add: ranked_simps)

lemma ranked_Func: "ranked (Func x)"
  by (cases x) (simp_all add: ranked_simps)

lemma ranked_Newf: "ranked (Newf x)"
  by (cases x) (simp_all add: ranked_simps)

lemma ranked_Clas: "ranked (Clas x)"
  by (cases x) (simp_all add: ranked_simps)

lemma ranked: "ranked x"
  by (cases x) (simp_all only: ranked_Expr ranked_Bool ranked_Assign ranked_Stmt ranked_Func
      ranked_Newf ranked_Clas)

lemma first_rank_le: "first_rank s \<le> RANKS"
  using ranked by (induction s) (auto simp: ranked_def Suc_le_eq)

subsection \<open>Consumption\<close>

lemma parse_type_budget:
  assumes "queue_laws lib" and "parse_type lib t lx = Inr (r, lx')"
  shows "case r of None \<Rightarrow> budget lx' \<le> budget lx
    | Some m \<Rightarrow> length (tokens_of m) + budget lx' \<le> budget lx \<and> \<not> is_epsilon m \<and> tokens_of m \<noteq> []"
proof -
  from assms(2) obtain lx1 where nx: "parser_next lib lx = Inr lx1"
    and m: "(case lx_q lx1 of [] \<Rightarrow> Inr (None, lx1)
        | tok # _ \<Rightarrow> if tok_type tok \<noteq> t then Inr (None, lx1)
                     else let (m, lx') = match_token lib lx1 in Inr (Some m, lx')) = (Inr (r, lx') :: (syntax_tree option \<times> lexer) res)"
    unfolding parse_type_def andThen_eq_Inr by blast
  have "budget lx1 \<le> budget lx"
    using parser_next_budget [OF _ nx] assms(1) by (simp add: queue_laws_def)
  then show ?thesis using m assms(1)
    by (auto simp: match_token_def budget_def queue_laws_def split: list.splits if_splits)
qed

lemma match_merge_both:
  "match_merge lib (Some t) m lx = Inr (r, lx') \<Longrightarrow>
   (case m of None \<Rightarrow> r = None \<and> lx' = lx\<lparr>lx_q := match_rollback lib t (lx_q lx)\<rparr>
    | Some u \<Rightarrow> lx' = lx \<and> (\<exists>v. r = Some v \<and> length (tokens_of v) \<le> length (tokens_of t) + length (tokens_of u)
        \<and> (is_epsilon v \<longrightarrow> is_epsilon t \<and> is_epsilon u)
        \<and> (v = t \<or> v = u \<or> \<not> is_epsilon t \<and> tokens_of v = tokens_of t @ tokens_of u)))"
  by (cases m) (auto simp: rollback_def)

lemma parses_budget:
  assumes "parses lib s lx r lx'" and "queue_laws lib"
  shows "case r of None \<Rightarrow> budget lx' \<le> budget lx
    | Some m \<Rightarrow> length (tokens_of m) + budget lx' \<le> budget lx \<and>
        (is_epsilon m \<or> tokens_of m \<noteq> []) \<and> (may_be_empty s \<or> \<not> is_epsilon m)"
  using assms
proof (induction rule: parses.induct)
  case (token t lx r lx')
  with parse_type_budget show ?case by (fastforce split: option.splits)
next
  case (both a lx t lx1 b m lx2 r lx')
  note merge = match_merge_both [OF both.hyps(3)]
  show ?case
  proof (cases m)
    case None
    then have "budget lx' = length (tokens_of t) + budget lx2"
      using merge both.prems by (simp add: match_rollback_tokens budget_def)
    then show ?thesis using both.IH both.prems None merge by simp
  next
    case (Some u)
    with merge both.IH both.prems show ?thesis by auto
  qed
next
  case (rule x lx m lx')
  then show ?case using ranked [of x] by (auto simp: ranked_def split: option.splits)
qed (auto simp: match_epsilon_def split: option.splits)

subsection \<open>Enough depth\<close>

lemma parse_None_bindP:
  "bindP p f = None \<longleftrightarrow> p = None \<or> (\<exists>m lx. p = Some (Inr (m, lx)) \<and> f m lx = None)"
  by (auto simp: bindP_def split: option.splits sum.splits)

lemma parse_enough:
  assumes "queue_laws lib"
  shows "RANKS * budget lx + first_rank s \<le> n \<Longrightarrow> parse lib n s lx \<noteq> None"
  using assms
proof (induction lib n s lx rule: parse.induct)
  case (2 lib n a b lx)
  have le: "RANKS * budget lx1 + first_rank b \<le> n" if "parse lib n a lx = Some (Inr (None, lx1))" for lx1
    using parses_budget [OF parse_parses [OF that]] 2 by (auto simp: RANKS_def)
  show ?case using 2 le by (auto simp: parse.simps parse_None_bindP split: option.splits)
next
  case (3 lib n a b lx)
  have le: "RANKS * budget lx1 + first_rank b \<le> n"
    if run: "parse lib n a lx = Some (Inr (Some t, lx1))" for t lx1
  proof -
    note cost = parses_budget [OF parse_parses [OF run]]
    show ?thesis
    proof (cases "may_be_empty a")
      case True
      have "budget lx1 \<le> budget lx" using cost "3.prems" by simp
      with True "3.prems" show ?thesis by (auto simp: RANKS_def)
    next
      case False
      with cost "3.prems" have "budget lx1 < budget lx"
        by (cases "tokens_of t") auto
      with first_rank_le [of b] "3.prems"(1) show ?thesis by (auto simp: RANKS_def)
    qed
  qed
  have a: "parse lib n a lx \<noteq> None"
    using "3.IH"(1) "3.prems" by (simp split: if_splits)
  have b: "parse lib n b lx1 \<noteq> None" if "parse lib n a lx = Some (Inr (Some t, lx1))" for t lx1
    using "3.IH"(2) [OF refl] le [OF that] "3.prems"(2) by blast
  show ?case unfolding parse.simps parse_None_bindP
    using a b by (fastforce simp: parse_None_bindP split: option.splits)
next
  case (7 lib n x lx)
  then show ?case using ranked [of x]
    by (auto simp: parse.simps parse_None_bindP ranked_def)
qed (auto simp: parse.simps parse_None_bindP split: option.splits)

lemma bindP_mono:
  assumes "bindP p f = Some y" and "\<And>z. p = Some z \<Longrightarrow> p' = Some z"
    and "\<And>m lx. p = Some (Inr (m, lx)) \<Longrightarrow> f m lx = Some y \<Longrightarrow> f' m lx = Some y"
  shows "bindP p' f' = Some y"
  using assms by (cases p) (auto simp: bindP_def split: sum.splits)

lemma parse_Suc: "parse lib n s lx = Some y \<Longrightarrow> parse lib (Suc n) s lx = Some y"
proof (induction lib n s lx arbitrary: y rule: parse.induct)
  case (2 lib n a b lx)
  from "2.prems" show ?case unfolding parse.simps
    by (rule bindP_mono) (auto intro: "2.IH" split: option.splits)
next
  case (3 lib n a b lx)
  from "3.prems" show ?case unfolding parse.simps
    by (rule bindP_mono) (auto intro: "3.IH" bindP_mono split: option.splits)
next
  case (4 lib n a lx)
  from "4.prems" show ?case unfolding parse.simps
    by (rule bindP_mono) (auto intro: "4.IH" split: option.splits)
next
  case (7 lib n x lx)
  from "7.prems" show ?case unfolding parse.simps
    by (rule bindP_mono) (auto intro: "7.IH")
qed (simp_all add: parse.simps)

lemma parse_mono: "n \<le> m \<Longrightarrow> parse lib n s lx = Some y \<Longrightarrow> parse lib m s lx = Some y"
  by (induction rule: dec_induct) (simp_all add: parse_Suc)

text \<open>C19: The recursive descent ends on every file, and the depth bound of the model does not show in the
  answer: there is one answer that every bound from 29 times the characters and lines of the file
  (and 29 more) gives. No rule of the grammar is left-recursive, and a file nested
  arbitrarily deeply needs no more.\<close>

theorem parse_file_terminates:
  assumes "queue_laws lib"
  shows "\<exists>r. \<forall>n \<ge> RANKS * (lines_size src + 1). parse_file lib n src = Some r"
proof -
  let ?s = "clas file_level_statement_list" and ?m = "RANKS * (lines_size src + 1)"
  have "RANKS * budget (parser_init src) + first_rank ?s \<le> ?m"
    by (simp add: budget_def parser_init_def lexer_init_def RANKS_def)
  then obtain y where y: "parse lib ?m ?s (parser_init src) = Some y"
    using parse_enough [OF assms] by blast
  show ?thesis
    using parse_mono [OF _ y] by (auto simp: parse_file_def intro!: exI)
qed

theorem parse_file_terminates_witness:
  "\<exists>r. \<forall>n \<ge> RANKS * (lines_size [(1, ''f(('')] + 1). parse_file std_parselib n [(1, ''f(('')] = Some r"
  by (rule parse_file_terminates [OF std_parselib_laws])

subsection \<open>Nothing of the file is lost but line ends\<close>

text \<open>The tokens of a file, lexed a line at a time into an empty queue; a line takes its continuations.\<close>

function file_tokens :: "lexlib \<Rightarrow> bool \<Rightarrow> (int \<times> string) list \<Rightarrow> token list res" where
  "file_tokens lib esc [] = Inr []"
| "file_tokens lib esc ((n, l) # ls) =
     andThen (lex_chars lib esc n ls l False 0 []) (\<lambda>(k, q).
       andThen (file_tokens lib esc (drop k ls)) (\<lambda>ts. Inr (q @ ts)))"
  by pat_completeness auto
termination
  by (relation "measure (\<lambda>(lib, esc, ls). length ls)") auto

definition solid :: "token list \<Rightarrow> token list" where
  "solid ts = filter (\<lambda>t. tok_type t \<noteq> ENDLINE) ts"

lemma solid_append [simp]: "solid (a @ b) = solid a @ solid b"
  by (simp add: solid_def)

lemma solid_Nil [simp]: "solid [] = []"
  by (simp add: solid_def)

text \<open>What is still to come: the queue, then the unread lines.\<close>

definition upcoming :: "parselib \<Rightarrow> lexer \<Rightarrow> token list res" where
  "upcoming lib lx = andThen (file_tokens (pl_lex lib) (lx_escape lx) (lx_lines lx))
     (\<lambda>ts. Inr (solid (lx_q lx) @ solid ts))"

definition prepend :: "token list \<Rightarrow> token list res \<Rightarrow> token list res" where
  "prepend ts r = andThen r (\<lambda>us. Inr (ts @ us))"

lemma prepend_simps [simp]: "prepend [] r = r" "prepend a (prepend b r) = prepend (a @ b) r"
  by (cases r; simp add: prepend_def andThen_def)+

lemma upcoming_q: "upcoming lib (lx\<lparr>lx_q := ts @ q\<rparr>) = prepend (solid ts) (upcoming lib (lx\<lparr>lx_q := q\<rparr>))"
  by (cases "file_tokens (pl_lex lib) (lx_escape lx) (lx_lines lx)")
     (simp_all add: upcoming_def prepend_def andThen_def)

lemma lex_line_upcoming:
  assumes "lex_line (pl_lex lib) lx = Inr (again, lx')" and "lx_q lx = []"
  shows "upcoming lib lx = upcoming lib lx' \<and> (\<not> again \<longrightarrow> lx_lines lx' = [])"
proof (cases "lx_lines lx")
  case Nil
  with assms show ?thesis by (simp add: lex_line_def)
next
  case (Cons nl ls)
  with assms obtain n l k q where "lx_lines lx = (n, l) # ls"
    and "lex_chars (pl_lex lib) (lx_escape lx) n ls l False 0 [] = Inr (k, q)"
    and "lx' = lx\<lparr>lx_lines := drop k ls, lx_q := q\<rparr>" and again
    by (cases nl) (auto simp: lex_line_def andThen_eq_Inr)
  then show ?thesis using assms(2)
    by (cases "file_tokens (pl_lex lib) (lx_escape lx) (drop k ls)")
       (simp_all add: upcoming_def andThen_def)
qed

lemma parser_next_upcoming:
  "parser_next lib lx = Inr lx' \<Longrightarrow>
   upcoming lib lx = upcoming lib lx' \<and> (lx_q lx' \<noteq> [] \<or> lx_lines lx' = [])"
proof (induction lib lx rule: parser_next.induct)
  case (1 lib lx)
  show ?case
  proof (cases "lx_q lx \<noteq> []")
    case True
    with "1.prems" show ?thesis by (simp add: parser_next.simps)
  next
    case False
    with "1.prems" obtain again lx1 where line: "lex_line (pl_lex lib) lx = Inr (again, lx1)"
      and rest: "(if again then parser_next lib lx1 else Inr lx1) = Inr lx'"
      by (subst (asm) parser_next.simps) (auto split: sum.splits)
    from lex_line_upcoming [OF line] rest "1.IH" [OF False line refl] False
    show ?thesis by (cases again) auto
  qed
qed

abbreviation at_rest :: "lexer \<Rightarrow> bool" where
  "at_rest lx \<equiv> lx_q lx \<noteq> [] \<or> lx_lines lx = []"

lemma parse_type_upcoming:
  assumes "queue_laws lib" and "parse_type lib t lx = Inr (r, lx')"
  shows "upcoming lib lx = prepend (case r of None \<Rightarrow> [] | Some m \<Rightarrow> solid (tokens_of m)) (upcoming lib lx')
    \<and> (r = None \<longrightarrow> at_rest lx')
    \<and> (\<forall>m. r = Some m \<longrightarrow> is_newline m \<longrightarrow> solid (tokens_of m) = [])"
proof -
  from assms(2) obtain lx1 where nx: "parser_next lib lx = Inr lx1"
    and m: "(case lx_q lx1 of [] \<Rightarrow> Inr (None, lx1)
        | tok # _ \<Rightarrow> if tok_type tok \<noteq> t then Inr (None, lx1)
                     else let (m, lx') = match_token lib lx1 in Inr (Some m, lx'))
          = (Inr (r, lx') :: (syntax_tree option \<times> lexer) res)"
    unfolding parse_type_def andThen_eq_Inr by blast
  note up = parser_next_upcoming [OF nx]
  show ?thesis
  proof (cases r)
    case None
    then show ?thesis using m up by (auto simp: match_token_def split: list.splits if_splits prod.splits)
  next
    case (Some u)
    with m assms(1) obtain tok q where q: "lx_q lx1 = tok # q" and u: "u = TokTree tok None"
      and lx': "lx' = lx1\<lparr>lx_q := q\<rparr>"
      by (auto simp: match_token_def queue_laws_def split: list.splits if_splits)
    have "lx1 = lx1\<lparr>lx_q := tok # q\<rparr>" using q by (cases lx1) simp
    then have "upcoming lib lx1 = prepend (solid [tok]) (upcoming lib lx')"
      using upcoming_q [where lx = lx1 and ts = "[tok]" and q = q] lx' by simp
    then show ?thesis using up Some u by (auto simp: solid_def)
  qed
qed

lemma is_newline_solid: "is_newline m \<Longrightarrow> solid (tokens_of m) = []"
  by (cases m) (auto simp: solid_def)

lemma match_merge_solid:
  "match_merge lib (Some t) (Some u) lx = Inr (r, lx') \<Longrightarrow>
   lx' = lx \<and> (\<exists>v. r = Some v \<and> solid (tokens_of v) = solid (tokens_of t) @ solid (tokens_of u))"
  by (cases t; cases u) (auto simp: solid_def)

lemma parses_upcoming:
  assumes "parses lib s lx r lx'" and "queue_laws lib"
  shows "upcoming lib lx = prepend (case r of None \<Rightarrow> [] | Some m \<Rightarrow> solid (tokens_of m)) (upcoming lib lx')
    \<and> (r = None \<longrightarrow> at_rest lx')"
  using assms
proof (induction rule: parses.induct)
  case (token t lx r lx')
  with parse_type_upcoming show ?case by blast
next
  case (both a lx t lx1 b m lx2 r lx')
  show ?case
  proof (cases m)
    case None
    with both.hyps(3) both.prems have "r = None" and lx': "lx' = lx2\<lparr>lx_q := tokens_of t @ lx_q lx2\<rparr>"
      by (auto simp: rollback_def match_rollback_tokens)
    moreover have "upcoming lib lx' = prepend (solid (tokens_of t)) (upcoming lib lx2)"
      unfolding lx' by (simp add: upcoming_q)
    ultimately show ?thesis using both.IH both.prems None by auto
  next
    case (Some u)
    with match_merge_solid both.hyps(3) both.IH both.prems show ?thesis by fastforce
  qed
next
  case (rule x lx m lx')
  then show ?case by (cases m) auto
qed (auto simp: match_epsilon_def)

text \<open>An expression that ends by trying, and failing, to match once more.\<close>

fun ends_trying :: "parse_expression \<Rightarrow> bool" where
  "ends_trying (And a b) = ends_trying b"
| "ends_trying (Or a b) = (ends_trying a \<and> (b = Epsilon \<or> ends_trying b))"
| "ends_trying (NT x) = (x = Clas file_level_statement_list \<or> x = Clas file_level_statement_list1)"
| "ends_trying s = False"

lemma parses_at_rest:
  assumes "parses lib s lx r lx'" and "queue_laws lib" and "ends_trying s"
  shows "at_rest lx'"
  using assms
proof (induction rule: parses.induct)
  case (second a lx lx1 b r lx')
  then show ?case using parses_upcoming [OF second.hyps(1) second.prems(1)]
    by (auto elim: parses.cases)
next
  case (fails a lx lx' b)
  then show ?case using parses_upcoming [OF fails.hyps fails.prems(1)] by simp
next
  case (both a lx t lx1 b m lx2 r lx')
  show ?case
  proof (cases m)
    case None
    with both.hyps(3) have "r = None" by (auto simp: rollback_def)
    then show ?thesis
      using parses_upcoming [OF parses.both [OF both.hyps] both.prems(1)] by simp
  next
    case (Some u)
    have "lx' = lx2" using match_merge_solid [OF both.hyps(3) [unfolded Some]] by blast
    then show ?thesis using both.IH(2) both.prems by simp
  qed
qed auto

text \<open>C18: No token of a file is skipped, doubled or reordered: when a file parses, the tokens of the tree,
  left to right, are those of lexing the whole file a line at a time, line ends aside, however
  often the parser backtracked; so every line was read, and the parser never ends early.\<close>

theorem parse_file_complete:
  assumes "queue_laws lib" and "parse_file lib n src = Some (Inr (Some t))"
  shows "\<exists>ts. file_tokens (pl_lex lib) True src = Inr ts \<and> solid (tokens_of t) = solid ts"
proof -
  from assms(2) obtain lx where run: "parse lib n (clas file_level_statement_list) (parser_init src)
      = Some (Inr (Some t, lx))" and q: "lx_q lx = []"
    by (auto simp: parse_file_def andThen_eq_Inr parser_finalize_def split: if_splits)
  note run' = parse_parses [OF run]
  have "lx_lines lx = []" using parses_at_rest [OF run' assms(1)] q by simp
  with q have "upcoming lib lx = Inr []" by (simp add: upcoming_def andThen_def)
  with parses_upcoming [OF run' assms(1)] have "upcoming lib (parser_init src) = Inr (solid (tokens_of t))"
    by (simp add: prepend_def andThen_def)
  then show ?thesis
    by (auto simp: upcoming_def andThen_eq_Inr parser_init_def lexer_init_def)
qed

theorem parse_file_complete_witness:
  "\<exists>ts. file_tokens (pl_lex std_parselib) True [(1, ''x'')] = Inr ts \<and>
     solid (tokens_of (TokTree (token_create WORD 1 0 ''x'') (Some (Expr identifier_nt)))) = solid ts"
proof (rule parse_file_complete [OF std_parselib_laws])
  show "parse_file std_parselib 60 [(1, ''x'')]
      = Some (Inr (Some (TokTree (token_create WORD 1 0 ''x'') (Some (Expr identifier_nt)))))"
    by code_simp
qed

subsection \<open>A line end that a failed alternative loses\<close>

text \<open>The texts of the tokens of a tree, with a bracket around each pair of subtrees.\<close>

fun outline :: "syntax_tree \<Rightarrow> string" where
  "outline (EpsTree x) = []"
| "outline (TokTree t x) = tok_text t"
| "outline (NodeTree a b x) = CHR ''['' # outline a @ CHR '' '' # outline b @ [CHR '']'']"

definition outline_file :: "(int \<times> string) list \<Rightarrow> string option" where
  "outline_file src = (case parse_file std_parselib 60 src of
     Some (Inr (Some t)) \<Rightarrow> Some (outline t) | _ \<Rightarrow> None)"

text \<open>A line end separates two statements, except after a conditional expression without \<open>else\<close>: the
  alternative with \<open>else\<close> is tried first, drops the line end after its second branch, and cannot give it
  back when it fails. So \<open>x = b\<close> and \<open>(c)\<close> on two lines are two statements, but with
  \<open>x = if a then b\<close> on the first line the second becomes the arguments of a call of \<open>b\<close>.\<close>

theorem conditional_swallows_line_end:
  "outline_file [(1, ''x = b'' @ [CHR 0x0A]), (2, ''(c)'')] = Some ''[[x [= b]] [( [c )]]]'' \<and>
   outline_file [(1, ''x = if a then b'' @ [CHR 0x0A]), (2, ''(c)'')]
     = Some ''[x [= [if [a [then [b [( [c )]]]]]]]]'' \<and>
   outline_file [(1, ''x = if a then b(c)'')] = Some ''[x [= [if [a [then [b [( [c )]]]]]]]]''"
  by (intro conjI; code_simp)

end
