(* ===== verification/StringUtil.thy ===== *)
theory StringUtil imports LexerFacts begin

text \<open>
  \<open>util/string_util.c\<close>: escaping a string for the assembly text, with the growing output buffer
  written out: every store is checked against the buffer's size. The lexer's \<open>_read_string\<close> is its
  inverse where the escape table is invertible.
\<close>

definition DEFAULT_ESCAPED_STRING_SZ :: nat where
  "DEFAULT_ESCAPED_STRING_SZ = 32"

(* src/util/string_util.c _should_escape *)
definition should_escape :: "char \<Rightarrow> bool" where
  "should_escape c \<longleftrightarrow> c = CHR 0x27 \<or> c = CHR 0x22 \<or> c = CHR 0x0A \<or> c = CHR 0x0D"

(* src/util/string_util.c _excape_char *)
definition excape_char :: "char \<Rightarrow> char" where
  "excape_char c =
     (if c = CHR 0x0A then CHR ''n''
      else if c = CHR 0x09 then CHR ''t''
      else if c = CHR 0x0D then CHR ''r''
      else c)"

text \<open>A store of one character at the end of the \<open>escaped_len\<close> characters written so far.\<close>

definition put_char :: "nat \<Rightarrow> char \<Rightarrow> string \<Rightarrow> string res" where
  "put_char sz c buf = (if length buf < sz then Inr (buf @ [c]) else Inl (UB ''heap buffer overflow''))"

(* src/util/string_util.c [46-57] escape *)
fun escape_loop :: "string \<Rightarrow> string \<Rightarrow> nat \<Rightarrow> string res" where
  "escape_loop [] buf sz = andThen (put_char sz (CHR 0x00) buf) (\<lambda>_. Inr buf)"
| "escape_loop (c # cs) buf sz =
     (let sz' = (if int (length buf) > int sz - 3 then sz + DEFAULT_ESCAPED_STRING_SZ else sz) in
      andThen (if should_escape c then put_char sz' (CHR 0x5C) buf else Inr buf) (\<lambda>buf.
      andThen (put_char sz' (excape_char c) buf) (\<lambda>buf.
      escape_loop cs buf sz')))"

(* src/util/string_util.c escape *)
definition escape :: "string \<Rightarrow> string res" where
  "escape str = escape_loop str [] DEFAULT_ESCAPED_STRING_SZ"

text \<open>The text \<open>escape\<close> writes, as a function of the string alone.\<close>

definition escaped_char :: "char \<Rightarrow> string" where
  "escaped_char c = (if should_escape c then [CHR 0x5C, excape_char c] else [excape_char c])"

definition escaped :: "string \<Rightarrow> string" where
  "escaped s = concat (List.map escaped_char s)"

lemma escape_loop_escaped:
  "length buf < sz \<Longrightarrow> escape_loop s buf sz = Inr (buf @ escaped s)"
  by (induction s buf sz rule: escape_loop.induct)
     (auto simp: put_char_def escaped_def escaped_char_def DEFAULT_ESCAPED_STRING_SZ_def Let_def)

text \<open>\<open>escape\<close> (util/string_util.c) never writes outside its growing buffer, for a string of any
  length, and the text it returns is the concatenation of the escaped characters.\<close>

lemma escape_in_bounds_eq: "escape s = Inr (escaped s)"
  by (simp add: escape_def escape_loop_escaped DEFAULT_ESCAPED_STRING_SZ_def)

lemma read_escaped_char:
  assumes "c \<noteq> CHR 0x5C" and "c \<noteq> CHR 0x09"
  shows "read_string_chars True (escaped_char c @ s) =
    andThen (read_string_chars True s) (\<lambda>(w, rest). Inr (c # w, rest))"
  using assms by (auto simp: escaped_char_def should_escape_def excape_char_def char_unesc_def)

lemma read_escaped:
  assumes "CHR 0x5C \<notin> set s" and "CHR 0x09 \<notin> set s"
  shows "read_string_chars True (escaped s @ CHR 0x27 # rest) = Inr (s, rest)"
  using assms
proof (induction s)
  case Nil
  then show ?case by (simp add: escaped_def)
next
  case (Cons c s)
  then have "read_string_chars True (escaped_char c @ (escaped s @ CHR 0x27 # rest)) =
      Inr (c # s, rest)"
    by (subst read_escaped_char) auto
  then show ?case by (simp add: escaped_def)
qed

text \<open>C39: A string literal written with \<open>escape\<close> and read back by the lexer's \<open>_read_string\<close> is the
  same string, whatever follows it on the line, provided it holds no backslash and no tab and fits
  the lexer's word buffer. (Backslashes are not escaped at all, and a tab is escaped to the letter t
  without its backslash: see the counterpart below.)\<close>

theorem escape_read_string_roundtrip:
  assumes "escape s = Inr e" and "CHR 0x5C \<notin> set s" and "CHR 0x09 \<notin> set s"
    and "length s + 2 < MAX_LINE_LEN"
  shows "read_string True (e @ CHR 0x27 # rest) = Inr (CHR 0x27 # s @ [CHR 0x27], rest)"
proof -
  from assms(1) have "e = escaped s" by (simp add: escape_in_bounds_eq)
  with assms show ?thesis by (simp add: read_string_def read_escaped)
qed

theorem escape_read_string_roundtrip_witness:
  "read_string True (''it'' @ [CHR 0x5C, CHR 0x27] @ ''s'' @ CHR 0x27 # '' x'') =
     Inr (CHR 0x27 # (''it'' @ [CHR 0x27] @ ''s'') @ [CHR 0x27], '' x'')"
proof -
  have e: "escape (''it'' @ [CHR 0x27] @ ''s'') = Inr (''it'' @ [CHR 0x5C, CHR 0x27] @ ''s'')"
    by code_simp
  show ?thesis
    using escape_read_string_roundtrip [OF e, of "'' x''"] by (simp add: MAX_LINE_LEN_def)
qed

text \<open>\<open>escape\<close> is not injective on strings with a tab: a tab and the letter t are written as the
  same text, so the assembly text of a string literal with a tab is read back as another string.\<close>

theorem escape_loses_tab: "escape [CHR 0x09] = escape ''t''"
  by (simp add: escape_def should_escape_def excape_char_def put_char_def
      DEFAULT_ESCAPED_STRING_SZ_def)

end
