(* ===== verification/Instructions.thy ===== *)
theory Instructions imports StringUtil begin

text \<open>
  \<open>program/op.[ch]\<close> and \<open>program/instruction.[ch]\<close>: the opcodes with their names, and the
  instruction: an opcode and an operand. The C struct keeps the operand as a type tag and a union;
  reading the union under another tag is undefined. Four opcodes whose names are bit operators
  here carry the suffix \<open>_O\<close>.
\<close>

(* src/program/op.h [9-86] Op *)
datatype (plugins only: code) op =
    NOP | EXIT | RES | TGET | TLEN | SET | LET | PUSH | PEEK | PSRS | NOT_O | NOTC
  | GT | LT | EQ | NEQ | GTE | LTE | AND_O | OR_O | XOR_O | BAND | BOR | BXOR
  | IF | IFN | JMP | NBLK | BBLK | RET | ADD | SUB | MULT | DIV | MOD | INC | DEC | FINC | FDEC
  | SINC | CALL | CLLN | TUPL | TGTE | TLTE | TEQ | DUP | GOTO | PRNT | LMDL | GET | GTSH | RNIL
  | PNIL | FLD | FLDC | IS | ADR | RAIS | CTCH | ANEW | AIDX | ASET | CNST | SETC | LETC | SGET
  | WAIT | OP_BOUND

text \<open>The enumerators below \<open>OP_BOUND\<close> in their order: an opcode's number is its position.\<close>

(* src/program/op.h [9-86] Op *)
definition op_list :: "op list" where
  "op_list =
     [NOP, EXIT, RES, TGET, TLEN, SET, LET, PUSH, PEEK, PSRS, NOT_O, NOTC,
      GT, LT, EQ, NEQ, GTE, LTE, AND_O, OR_O, XOR_O, BAND, BOR, BXOR,
      IF, IFN, JMP, NBLK, BBLK, RET, ADD, SUB, MULT, DIV, MOD, INC, DEC, FINC, FDEC,
      SINC, CALL, CLLN, TUPL, TGTE, TLTE, TEQ, DUP, GOTO, PRNT, LMDL, GET, GTSH, RNIL,
      PNIL, FLD, FLDC, IS, ADR, RAIS, CTCH, ANEW, AIDX, ASET, CNST, SETC, LETC, SGET,
      WAIT]"

(* src/program/op.c [10-20] _op_strs *)
definition op_strs :: "string list" where
  "op_strs =
     [''nop'', ''exit'', ''res'', ''tget'', ''tlen'', ''set'', ''let'', ''push'', ''peek'',
      ''psrs'', ''not'', ''notc'', ''gt'', ''lt'', ''eq'', ''neq'', ''gte'', ''lte'',
      ''and'', ''or'', ''xor'', ''band'', ''bor'', ''bxor'', ''if'', ''ifn'', ''jmp'',
      ''nblk'', ''bblk'', ''ret'', ''add'', ''sub'', ''mult'', ''div'', ''mod'', ''inc'',
      ''dec'', ''finc'', ''fdec'', ''sinc'', ''call'', ''clln'', ''tupl'', ''tgte'', ''tlte'',
      ''teq'', ''dup'', ''goto'', ''prnt'', ''lmdl'', ''get'', ''gtsh'', ''rnil'', ''pnil'',
      ''fld'', ''fldc'', ''is'', ''adr'', ''rais'', ''ctch'', ''anew'', ''aidx'', ''aset'',
      ''cnst'', ''setc'', ''letc'', ''sget'', ''wait'']"

(* src/program/op.c op_to_str *)
definition op_to_str :: "op \<Rightarrow> string res" where
  "op_to_str op = (case map_of (zip op_list op_strs) op of
     Some s \<Rightarrow> Inr s
   | None \<Rightarrow> Inl (UB ''_op_strs read out of bounds''))"

text \<open>
  \<open>str_to_op\<close> bounds its loop by \<open>sizeof(_op_strs)\<close>, the size in bytes: a name that is not in the
  table makes it read past the array.
\<close>

(* src/program/op.c str_to_op *)
definition str_to_op :: "string \<Rightarrow> op res" where
  "str_to_op op_str = (case map_of (zip op_strs op_list) op_str of
     Some p \<Rightarrow> Inr p
   | None \<Rightarrow> Inl (UB ''_op_strs read out of bounds''))"

subsection \<open>Instructions\<close>

(* src/program/instruction.h [14-19] InstructionType *)
datatype ins_type =
  INSTRUCTION_NO_ARG | INSTRUCTION_ID | INSTRUCTION_STRING | INSTRUCTION_PRIMITIVE

text \<open>The tagged union of an instruction's operand.\<close>

(* src/program/instruction.h [21-29] Instruction *)
datatype operand = NoArg | IdArg string | StrArg string | PrimArg primitive

(* src/program/instruction.h [21-29] Instruction *)
record instruction =
  ins_op :: op
  ins_arg :: operand

fun arg_type :: "operand \<Rightarrow> ins_type" where
  "arg_type NoArg = INSTRUCTION_NO_ARG"
| "arg_type (IdArg s) = INSTRUCTION_ID"
| "arg_type (StrArg s) = INSTRUCTION_STRING"
| "arg_type (PrimArg p) = INSTRUCTION_PRIMITIVE"

text \<open>The reads \<open>ins->val\<close> and \<open>pint(&ins->val)\<close>.\<close>

definition ins_val :: "instruction \<Rightarrow> primitive res" where
  "ins_val ins = (case ins_arg ins of
     PrimArg p \<Rightarrow> Inr p
   | _ \<Rightarrow> Inl (UB ''ins->val read under another tag''))"

definition ins_int :: "instruction \<Rightarrow> i32 res" where
  "ins_int ins = andThen (ins_val ins) pint"

subsection \<open>Writing an instruction\<close>

definition pad_right :: "nat \<Rightarrow> string \<Rightarrow> string" where
  "pad_right n s = s @ replicate (n - length s) (CHR '' '')"

text \<open>\<open>%-6s\<close> after two blanks.\<close>

definition op_fmt :: "string \<Rightarrow> string" where
  "op_fmt s = ''  '' @ pad_right 6 s"

(* src/program/instruction.c _instruction_write_primitive *)
definition instruction_write_primitive :: "fops \<Rightarrow> op \<Rightarrow> primitive \<Rightarrow> string res" where
  "instruction_write_primitive fo p v = (case v of
     PInt i \<Rightarrow> andThen (op_to_str p) (\<lambda>s. Inr (op_fmt s @ dec_of_int (sint i)))
   | PFloat d \<Rightarrow> andThen (op_to_str p) (\<lambda>s. Inr (op_fmt s @ f_print fo d))
   | PChar c \<Rightarrow> Inl (Fatal ''Unkown primitive instruction.''))"

text \<open>The characters printed; their number is the C function's result.\<close>

(* src/program/instruction.c instruction_write *)
definition instruction_write :: "fops \<Rightarrow> instruction \<Rightarrow> string res" where
  "instruction_write fo ins = (case ins_arg ins of
     NoArg \<Rightarrow> andThen (op_to_str (ins_op ins)) (\<lambda>s. Inr (''  '' @ s))
   | IdArg x \<Rightarrow> andThen (op_to_str (ins_op ins)) (\<lambda>s. Inr (op_fmt s @ x))
   | StrArg str \<Rightarrow>
       (if str = [] then Inl (UB ''ins->str + 1 past the terminator'')
        else andThen (escape (tl str)) (\<lambda>tmp.
             andThen (op_to_str (ins_op ins)) (\<lambda>s.
             Inr (op_fmt s @ CHR 0x27
                  # (if 2 \<le> length tmp then take (length tmp - 2) tmp else tmp) @ [CHR 0x27]))))
   | PrimArg v \<Rightarrow> instruction_write_primitive fo (ins_op ins) v)"

subsection \<open>Facts\<close>

lemma op_names_distinct: "distinct op_strs" and op_list_distinct: "distinct op_list"
  by code_simp+

lemma length_op_tables [simp]: "length op_strs = 68" "length op_list = 68"
  by (simp_all add: op_strs_def op_list_def)

lemma map_of_zip_inverse:
  assumes "length xs = length ys" and "distinct xs" and "distinct ys"
  shows "map_of (zip xs ys) x = Some y \<longleftrightarrow> map_of (zip ys xs) y = Some x"
proof -
  have "map_of (zip xs ys) x = Some y \<longleftrightarrow> (x, y) \<in> set (zip xs ys)"
    using assms by (intro map_of_eq_Some_iff) simp
  also have "\<dots> \<longleftrightarrow> (y, x) \<in> set (zip ys xs)"
    by (auto simp: in_set_zip)
  also have "\<dots> \<longleftrightarrow> map_of (zip ys xs) y = Some x"
    using assms by (intro map_of_eq_Some_iff [symmetric]) simp
  finally show ?thesis .
qed

lemma case_option_Inr: "(case m of Some x \<Rightarrow> Inr x | None \<Rightarrow> Inl e) = Inr y \<longleftrightarrow> m = Some y"
  by (cases m) auto

lemma op_to_str_iff: "op_to_str p = Inr s \<longleftrightarrow> map_of (zip op_list op_strs) p = Some s"
  by (simp only: op_to_str_def case_option_Inr)

lemma str_to_op_iff: "str_to_op s = Inr p \<longleftrightarrow> map_of (zip op_strs op_list) s = Some p"
  by (simp only: str_to_op_def case_option_Inr)

text \<open>\<open>str_to_op\<close> and \<open>op_to_str\<close> (program/op.c) invert each other: a name resolves to an opcode
  exactly when that opcode prints as that name, so the assembly reader resolves every opcode the
  writer prints, to the same opcode.\<close>

lemma str_to_op_inverse: "str_to_op s = Inr p \<longleftrightarrow> op_to_str p = Inr s"
  unfolding op_to_str_iff str_to_op_iff
  by (rule map_of_zip_inverse) (simp_all add: op_names_distinct op_list_distinct)

lemma op_to_str_total: "p \<in> set op_list \<Longrightarrow> \<exists>s. op_to_str p = Inr s"
  by (simp add: op_to_str_iff map_of_zip_is_Some [symmetric])

lemma not_OP_BOUND: "p \<noteq> OP_BOUND \<Longrightarrow> p \<in> set op_list"
  by (cases p) (simp_all add: op_list_def)

end
