(* ===== verification/Tape.thy ===== *)
theory Tape imports Instructions begin

text \<open>
  \<open>program/tape.[ch]\<close>: the tape of instructions with its source map and its tables of functions
  and classes, the operations that build it, and appending one tape to another. Positions are
  \<open>uint32_t\<close> in the code and natural numbers here (a tape never reaches \<open>2^32\<close> instructions).
  The pointer to the class being built is the key of that class in the class table.
\<close>

(* src/program/tape.h [17-21] SourceMapping *)
record source_mapping =
  sm_line :: int
  sm_col :: int
  sm_token :: "token option"

(* src/program/tape.h [23-27] FunctionRef *)
record function_ref =
  fref_name :: string
  fref_index :: nat
  fref_const :: bool
  fref_async :: bool

(* src/program/tape.h [29-31] FieldRef *)
record field_ref =
  fld_name :: string

text \<open>The end of a class is not initialised until the class is closed.\<close>

(* src/program/tape.h [33-40] ClassRef *)
record class_ref =
  cref_name :: string
  cref_start :: nat
  cref_end :: "nat option"
  cref_funcs :: "function_ref klist"
  cref_fields :: "field_ref klist"
  cref_supers :: "string list"

(* src/program/tape.c [26-34] _Tape *)
record tape =
  t_module_name :: "string option"
  t_ins :: "instruction list"
  t_source_map :: "source_mapping list"
  t_class_refs :: "class_ref klist"
  t_func_refs :: "function_ref klist"
  t_current_class :: "string option"

subsection \<open>Building\<close>

(* src/program/tape.c tape_create *)
definition tape_create :: tape where
  "tape_create = \<lparr>t_module_name = None, t_ins = [], t_source_map = [], t_class_refs = [],
     t_func_refs = [], t_current_class = None\<rparr>"

(* src/program/tape.c tape_size *)
definition tape_size :: "tape \<Rightarrow> nat" where
  "tape_size t = length (t_ins t)"

text \<open>\<open>tape_add\<close> gives its caller a fresh instruction, which the caller fills with \<open>i\<close>.\<close>

(* src/program/tape.c tape_add *)
definition tape_add :: "instruction \<Rightarrow> tape \<Rightarrow> tape" where
  "tape_add i t =
     t\<lparr>t_ins := t_ins t @ [i],
       t_source_map := t_source_map t @ [\<lparr>sm_line = - 1, sm_col = - 1, sm_token = None\<rparr>]\<rparr>"

text \<open>\<open>tape_add_source\<close> on the instruction just added, and the store through its result.\<close>

(* src/program/tape.c tape_add_source *)
definition tape_add_source :: "source_mapping \<Rightarrow> tape \<Rightarrow> tape" where
  "tape_add_source sm t = t\<lparr>t_source_map := (t_source_map t)[tape_size t - 1 := sm]\<rparr>"

(* src/program/tape.c tape_start_func_at_index *)
definition tape_start_func_at_index :: "string \<Rightarrow> nat \<Rightarrow> bool \<Rightarrow> tape \<Rightarrow> tape res" where
  "tape_start_func_at_index name index is_async t =
     (let ref = \<lparr>fref_name = name, fref_index = index, fref_const = False, fref_async = is_async\<rparr>
      in case t_current_class t of
        Some c \<Rightarrow>
          (case kl_lookup (t_class_refs t) c of
             None \<Rightarrow> Inl (UB ''dangling current_class'')
           | Some cls \<Rightarrow>
               (if kl_lookup (cref_funcs cls) name \<noteq> None
                then Inl (Fatal ''a function by that name already exists'')
                else Inr (t\<lparr>t_class_refs := kl_put c
                       (cls\<lparr>cref_funcs := kl_put name ref (cref_funcs cls)\<rparr>) (t_class_refs t)\<rparr>)))
      | None \<Rightarrow>
          (if kl_lookup (t_func_refs t) name \<noteq> None
           then Inl (Fatal ''a function by that name already exists'')
           else Inr (t\<lparr>t_func_refs := kl_put name ref (t_func_refs t)\<rparr>)))"

(* src/program/tape.c _tape_start_func *)
definition tape_start_func :: "string \<Rightarrow> bool \<Rightarrow> tape \<Rightarrow> tape res" where
  "tape_start_func name is_async t = tape_start_func_at_index name (tape_size t) is_async t"

(* src/program/tape.c _classref_init *)
definition classref_init :: "string \<Rightarrow> class_ref" where
  "classref_init name = \<lparr>cref_name = name, cref_start = 0, cref_end = None, cref_funcs = [],
     cref_fields = [], cref_supers = []\<rparr>"

(* src/program/tape.c tape_start_class_at_index *)
definition tape_start_class_at_index :: "string \<Rightarrow> nat \<Rightarrow> tape \<Rightarrow> tape res" where
  "tape_start_class_at_index name index t =
     (if kl_lookup (t_class_refs t) name \<noteq> None
      then Inl (Fatal ''a class by that name already exists'')
      else Inr (t\<lparr>t_class_refs := kl_put name ((classref_init name)\<lparr>cref_start := index\<rparr>)
                    (t_class_refs t),
                  t_current_class := Some name\<rparr>))"

(* src/program/tape.c tape_end_class_at_index *)
definition tape_end_class_at_index :: "nat \<Rightarrow> tape \<Rightarrow> tape res" where
  "tape_end_class_at_index index t = (case t_current_class t of
     None \<Rightarrow> Inl (Fatal ''NOT_NULL(tape->current_class)'')
   | Some c \<Rightarrow>
       (case kl_lookup (t_class_refs t) c of
          None \<Rightarrow> Inl (UB ''dangling current_class'')
        | Some cls \<Rightarrow> Inr (t\<lparr>t_class_refs := kl_put c (cls\<lparr>cref_end := Some index\<rparr>) (t_class_refs t),
                            t_current_class := None\<rparr>)))"

(* src/program/tape.c tape_start_class *)
definition tape_start_class :: "string \<Rightarrow> tape \<Rightarrow> tape res" where
  "tape_start_class name t = tape_start_class_at_index name (tape_size t) t"

(* src/program/tape.c tape_end_class *)
definition tape_end_class :: "tape \<Rightarrow> tape res" where
  "tape_end_class t = tape_end_class_at_index (tape_size t) t"

(* src/program/tape.c tape_field *)
definition tape_field :: "string \<Rightarrow> tape \<Rightarrow> tape res" where
  "tape_field field t = (case t_current_class t of
     None \<Rightarrow> Inl (Fatal ''Cannot have field outside of a class.'')
   | Some c \<Rightarrow>
       (case kl_lookup (t_class_refs t) c of
          None \<Rightarrow> Inl (UB ''dangling current_class'')
        | Some cls \<Rightarrow>
            (if kl_lookup (cref_fields cls) field \<noteq> None
             then Inl (Fatal ''a field by that name already exists'')
             else Inr (t\<lparr>t_class_refs := kl_put c
                    (cls\<lparr>cref_fields := kl_put field \<lparr>fld_name = field\<rparr> (cref_fields cls)\<rparr>)
                    (t_class_refs t)\<rparr>))))"

subsection \<open>Reading\<close>

(* src/program/tape.c tape_get *)
definition tape_get :: "tape \<Rightarrow> nat \<Rightarrow> instruction res" where
  "tape_get t index =
     assert_that (index < tape_size t) ''index < tape_size(tape)'' (Inr (t_ins t ! index))"

(* src/program/tape.c tape_get_source *)
definition tape_get_source :: "tape \<Rightarrow> nat \<Rightarrow> source_mapping res" where
  "tape_get_source t index =
     assert_that (index < tape_size t) ''index < tape_size(tape)'' (Inr (t_source_map t ! index))"

(* src/program/tape.c tape_class_count *)
definition tape_class_count :: "tape \<Rightarrow> nat" where
  "tape_class_count t = length (t_class_refs t)"

(* src/program/tape.c tape_classes *)
definition tape_classes :: "tape \<Rightarrow> class_ref list" where
  "tape_classes t = kl_values (t_class_refs t)"

(* src/program/tape.c tape_get_class *)
definition tape_get_class :: "tape \<Rightarrow> string \<Rightarrow> class_ref option" where
  "tape_get_class t class_name = kl_lookup (t_class_refs t) class_name"

(* src/program/tape.c tape_func_count *)
definition tape_func_count :: "tape \<Rightarrow> nat" where
  "tape_func_count t = length (t_func_refs t)"

(* src/program/tape.c tape_functions *)
definition tape_functions :: "tape \<Rightarrow> function_ref list" where
  "tape_functions t = kl_values (t_func_refs t)"

subsection \<open>Appending\<close>

text \<open>The loops of \<open>tape_append\<close> over functions, methods, fields and classes of the tail.\<close>

definition shift_func :: "nat \<Rightarrow> function_ref \<Rightarrow> function_ref" where
  "shift_func n f = f\<lparr>fref_index := fref_index f + n\<rparr>"

(* src/program/tape.c [286-294] tape_append *)
definition append_funcs :: "nat \<Rightarrow> function_ref klist \<Rightarrow> function_ref klist \<Rightarrow> function_ref klist" where
  "append_funcs n tail head = fold (\<lambda>(k, f). kl_put (fref_name f) (shift_func n f)) tail head"

(* src/program/tape.c [301-320] tape_append *)
definition append_class :: "nat \<Rightarrow> class_ref \<Rightarrow> class_ref" where
  "append_class n c =
     c\<lparr>cref_start := cref_start c + n,
       cref_end := map_option (\<lambda>e. e + n) (cref_end c),
       cref_funcs := append_funcs n (cref_funcs c) (cref_funcs c),
       cref_fields := fold (\<lambda>(k, f). kl_put (fld_name f) f) (cref_fields c) (cref_fields c)\<rparr>"

(* src/program/tape.c [295-321] tape_append *)
definition append_classes :: "nat \<Rightarrow> class_ref klist \<Rightarrow> class_ref klist \<Rightarrow> class_ref klist" where
  "append_classes n tail head = fold (\<lambda>(k, c). kl_put (cref_name c) (append_class n c)) tail head"

(* src/program/tape.c tape_append *)
definition tape_append :: "tape \<Rightarrow> tape \<Rightarrow> tape" where
  "tape_append head tail =
     (let previous_head_length = length (t_ins head) in
      head\<lparr>t_ins := t_ins head @ t_ins tail,
           t_source_map := t_source_map head @ t_source_map tail,
           t_func_refs := append_funcs previous_head_length (t_func_refs tail) (t_func_refs head),
           t_class_refs := append_classes previous_head_length (t_class_refs tail) (t_class_refs head)\<rparr>)"

subsection \<open>Emitting instructions\<close>

text \<open>Adds an instruction with the position of a token.\<close>

definition emit :: "op \<Rightarrow> operand \<Rightarrow> token \<Rightarrow> tape \<Rightarrow> tape" where
  "emit p arg tok t =
     tape_add_source \<lparr>sm_line = tok_line tok, sm_col = tok_col tok, sm_token = Some tok\<rparr>
       (tape_add \<lparr>ins_op = p, ins_arg = arg\<rparr> t)"

(* src/program/tape.c tape_ins_raw *)
definition tape_ins_raw :: "instruction \<Rightarrow> tape \<Rightarrow> tape" where
  "tape_ins_raw i t = tape_add i t"

(* src/program/tape.c tape_ins *)
definition tape_ins :: "fops \<Rightarrow> op \<Rightarrow> token \<Rightarrow> tape \<Rightarrow> tape res" where
  "tape_ins fo p tok t =
     (if tok_type tok = INTEGER \<or> tok_type tok = FLOATING
      then andThen (token_to_primitive fo tok) (\<lambda>v. Inr (emit p (PrimArg v) tok t))
      else if tok_type tok = STR_T then Inr (emit p (StrArg (tok_text tok)) tok t)
      else Inr (emit p (IdArg (tok_text tok)) tok t))"

text \<open>Negating the smallest \<open>int\<close> overflows.\<close>

(* src/program/tape.c tape_ins_neg *)
definition tape_ins_neg :: "fops \<Rightarrow> op \<Rightarrow> token \<Rightarrow> tape \<Rightarrow> tape res" where
  "tape_ins_neg fo p tok t =
     andThen (token_to_primitive fo tok) (\<lambda>v. andThen (pint v) (\<lambda>i.
       if i = 0x80000000 then Inl (UB ''signed overflow in -pint'')
       else Inr (emit p (PrimArg (primitive_int (- i))) tok t)))"

(* src/program/tape.c tape_ins_text *)
definition tape_ins_text :: "op \<Rightarrow> string \<Rightarrow> token \<Rightarrow> tape \<Rightarrow> tape" where
  "tape_ins_text p s tok t = emit p (IdArg s) tok t"

(* src/program/tape.c tape_ins_int *)
definition tape_ins_int :: "op \<Rightarrow> i32 \<Rightarrow> token \<Rightarrow> tape \<Rightarrow> tape" where
  "tape_ins_int p v tok t = emit p (PrimArg (PInt v)) tok t"

(* src/program/tape.c tape_ins_no_arg *)
definition tape_ins_no_arg :: "op \<Rightarrow> token \<Rightarrow> tape \<Rightarrow> tape" where
  "tape_ins_no_arg p tok t = emit p NoArg tok t"

(* src/program/tape.c tape_label *)
definition tape_label :: "token \<Rightarrow> tape \<Rightarrow> tape res" where
  "tape_label tok t = tape_start_func (tok_text tok) False t"

(* src/program/tape.c tape_label_async *)
definition tape_label_async :: "token \<Rightarrow> tape \<Rightarrow> tape res" where
  "tape_label_async tok t = tape_start_func (tok_text tok) True t"

(* src/program/tape.c tape_label_text *)
definition tape_label_text :: "string \<Rightarrow> tape \<Rightarrow> tape res" where
  "tape_label_text s t = tape_start_func s False t"

(* src/program/tape.c tape_label_text_async *)
definition tape_label_text_async :: "string \<Rightarrow> tape \<Rightarrow> tape res" where
  "tape_label_text_async s t = tape_start_func s True t"

(* src/program/tape.c anon_fn_for_token *)
definition anon_fn_for_token :: "token \<Rightarrow> string" where
  "anon_fn_for_token tok =
     ''$anon_'' @ dec_of_int (tok_line tok) @ ''_'' @ dec_of_int (tok_col tok)"

(* src/program/tape.c tape_anon_label *)
definition tape_anon_label :: "token \<Rightarrow> tape \<Rightarrow> tape res" where
  "tape_anon_label tok t = tape_label_text (anon_fn_for_token tok) t"

(* src/program/tape.c tape_anon_label_async *)
definition tape_anon_label_async :: "token \<Rightarrow> tape \<Rightarrow> tape res" where
  "tape_anon_label_async tok t = tape_label_text_async (anon_fn_for_token tok) t"

(* src/program/tape.c tape_ins_anon *)
definition tape_ins_anon :: "op \<Rightarrow> token \<Rightarrow> tape \<Rightarrow> tape" where
  "tape_ins_anon p tok t = emit p (IdArg (anon_fn_for_token tok)) tok t"

(* src/program/tape.c tape_module *)
definition tape_module :: "token \<Rightarrow> tape \<Rightarrow> tape" where
  "tape_module tok t = t\<lparr>t_module_name := Some (tok_text tok)\<rparr>"

(* src/program/tape.c tape_class *)
definition tape_class :: "token \<Rightarrow> tape \<Rightarrow> tape res" where
  "tape_class tok t = tape_start_class (tok_text tok) t"

text \<open>\<open>parents\<close>: the names in the order \<open>Q_dequeue\<close> delivers them.\<close>

(* src/program/tape.c tape_class_with_parents *)
definition tape_class_with_parents :: "token \<Rightarrow> string list \<Rightarrow> tape \<Rightarrow> tape res" where
  "tape_class_with_parents tok parents t =
     andThen (tape_class tok t) (\<lambda>t. case kl_lookup (t_class_refs t) (tok_text tok) of
         None \<Rightarrow> Inl (UB ''dangling current_class'')
       | Some cls \<Rightarrow> Inr (t\<lparr>t_class_refs := kl_put (tok_text tok)
             (cls\<lparr>cref_supers := cref_supers cls @ parents\<rparr>) (t_class_refs t)\<rparr>))"

(* src/program/tape.c tape_endclass *)
definition tape_endclass :: "token \<Rightarrow> tape \<Rightarrow> tape res" where
  "tape_endclass tok t = tape_end_class t"

end
