(* ===== verification/TapeFacts.thy ===== *)
theory TapeFacts imports Tape begin

text \<open>
  What the tape promises: its tables are keyed by the names they hold and its source map covers its
  instructions, in every tape the operations build; appending concatenates the code, shifts every
  position of the tail by the length of the head, and is associative.
\<close>

subsection \<open>Putting one keyed list into another\<close>

definition kl_put_all :: "'a klist \<Rightarrow> 'a klist \<Rightarrow> 'a klist" where
  "kl_put_all kvs kl = fold (\<lambda>(k, v). kl_put k v) kvs kl"

lemma kl_put_all_Nil [simp]: "kl_put_all [] kl = kl"
  by (simp add: kl_put_all_def)

lemma kl_put_all_Cons [simp]: "kl_put_all ((k, v) # kvs) kl = kl_put_all kvs (kl_put k v kl)"
  by (simp add: kl_put_all_def)

lemma kl_lookup_put_all:
  "kl_lookup (kl_put_all kvs kl) k =
     (case map_of (rev kvs) k of Some v \<Rightarrow> Some v | None \<Rightarrow> kl_lookup kl k)"
  by (simp add: kl_put_all_def kl.look_fold_store)

lemma kl_lookup_put_all_distinct:
  assumes "distinct (kl_keys kvs)"
  shows "kl_lookup (kl_put_all kvs kl) k =
     (case kl_lookup kvs k of Some v \<Rightarrow> Some v | None \<Rightarrow> kl_lookup kl k)"
proof -
  have "distinct (List.map fst (rev kvs))"
    using assms by (simp add: kl_keys_def flip: rev_map)
  then have "map_of (rev kvs) = map_of kvs"
    using assms by (subst map_of_inject_set) (auto simp: kl_keys_def)
  then show ?thesis by (simp only: kl_lookup_put_all) (simp add: kl_lookup_def)
qed

lemma kl_put_commute_present:
  "k \<in> set (kl_keys kl) \<Longrightarrow> k \<noteq> k' \<Longrightarrow> kl_put k v (kl_put k' w kl) = kl_put k' w (kl_put k v kl)"
proof (induction kl)
  case Nil
  then show ?case by simp
next
  case (Cons kv kl)
  then show ?case by (cases kv) auto
qed

lemma kl_put_twice [simp]: "kl_put k v (kl_put k w kl) = kl_put k v kl"
  by (induction k w kl rule: kl_put.induct) auto

lemma set_kl_keys_put: "set (kl_keys (kl_put k v kl)) = insert k (set (kl_keys kl))"
  by (auto simp: kl_keys_put)

lemma kl_keys_put_all:
  "set (kl_keys (kl_put_all kvs kl)) = set (kl_keys kvs) \<union> set (kl_keys kl)"
proof (induction kvs arbitrary: kl)
  case Nil
  then show ?case by simp
next
  case (Cons kv kvs)
  obtain k v where "kv = (k, v)" by (cases kv)
  then show ?case by (simp add: Cons.IH [of "kl_put k v kl"] set_kl_keys_put)
qed

lemma distinct_kl_keys_put_all [simp]:
  "distinct (kl_keys (kl_put_all kvs kl)) \<longleftrightarrow> distinct (kl_keys kl)"
proof (induction kvs arbitrary: kl)
  case Nil
  then show ?case by simp
next
  case (Cons kv kvs)
  obtain k v where "kv = (k, v)" by (cases kv)
  then show ?case by (simp add: Cons.IH [of "kl_put k v kl"])
qed

lemma kl_put_all_put_present:
  "k \<in> set (kl_keys kl) \<Longrightarrow> k \<notin> set (kl_keys kvs) \<Longrightarrow>
   kl_put_all kvs (kl_put k v kl) = kl_put k v (kl_put_all kvs kl)"
proof (induction kvs arbitrary: kl)
  case Nil
  then show ?case by simp
next
  case (Cons kv kvs)
  obtain a b where kv: "kv = (a, b)" by (cases kv)
  have "kl_put a b (kl_put k v kl) = kl_put k v (kl_put a b kl)"
    using Cons.prems kv by (intro kl_put_commute_present [symmetric]) auto
  moreover have "k \<in> set (kl_keys (kl_put a b kl))"
    using Cons.prems by (simp add: kl_keys_put)
  ultimately show ?case
    using Cons.IH [of "kl_put a b kl"] Cons.prems kv by simp
qed

lemma kl_put_all_of_put:
  "distinct (kl_keys kvs) \<Longrightarrow> kl_put_all (kl_put k v kvs) kl = kl_put k v (kl_put_all kvs kl)"
proof (induction k v kvs arbitrary: kl rule: kl_put.induct)
  case (1 k v)
  then show ?case by simp
next
  case (2 k v k' v' kvs)
  show ?case
  proof (cases "k = k'")
    case True
    have "kl_put_all kvs (kl_put k' v (kl_put k' v' kl)) = kl_put k' v (kl_put_all kvs (kl_put k' v' kl))"
      using "2.prems" by (intro kl_put_all_put_present) (auto simp: kl_keys_put)
    with True show ?thesis by simp
  next
    case False
    with 2 show ?thesis by simp
  qed
qed

lemma kl_put_all_assoc:
  "distinct (kl_keys b) \<Longrightarrow> kl_put_all (kl_put_all c b) a = kl_put_all c (kl_put_all b a)"
proof (induction c arbitrary: b)
  case Nil
  then show ?case by simp
next
  case (Cons kv c)
  then show ?case by (cases kv) (auto simp: kl_put_all_of_put)
qed

definition kl_map :: "('a \<Rightarrow> 'b) \<Rightarrow> 'a klist \<Rightarrow> 'b klist" where
  "kl_map f kl = List.map (\<lambda>(k, v). (k, f v)) kl"

lemma kl_map_simps [simp]:
  "kl_map f [] = []" "kl_map f ((k, v) # kl) = (k, f v) # kl_map f kl"
  by (simp_all add: kl_map_def)

lemma kl_map_put: "kl_map f (kl_put k v kl) = kl_put k (f v) (kl_map f kl)"
  by (induction k v kl rule: kl_put.induct) auto

lemma kl_map_put_all: "kl_map f (kl_put_all kvs kl) = kl_put_all (kl_map f kvs) (kl_map f kl)"
proof (induction kvs arbitrary: kl)
  case Nil
  then show ?case by simp
next
  case (Cons kv kvs)
  obtain k v where "kv = (k, v)" by (cases kv)
  then show ?case by (simp add: Cons.IH [of "kl_put k v kl"] kl_map_put)
qed

lemma kl_keys_map [simp]: "kl_keys (kl_map f kl) = kl_keys kl"
  by (simp add: kl_keys_def kl_map_def comp_def case_prod_beta)

lemma kl_lookup_map [simp]: "kl_lookup (kl_map f kl) k = map_option f (kl_lookup kl k)"
  by (induction kl) auto

lemma kl_map_map: "kl_map f (kl_map g kl) = kl_map (\<lambda>x. f (g x)) kl"
  by (induction kl) auto

lemma kl_put_all_self:
  "distinct (kl_keys kl) \<Longrightarrow> kl_put_all (kl_map f kl) kl = kl_map f kl"
proof -
  have gen: "distinct (kl_keys kl) \<Longrightarrow> set (kl_keys kl) \<inter> set (kl_keys pre) = {} \<Longrightarrow>
      kl_put_all (kl_map f kl) (pre @ kl) = pre @ kl_map f kl" for pre :: "'a klist"
  proof (induction kl arbitrary: pre)
    case Nil
    then show ?case by simp
  next
    case (Cons kv kl)
    obtain k v where kv: "kv = (k, v)" by (cases kv)
    have "kl_put k (f v) (pre @ (k, v) # kl) = (pre @ [(k, f v)]) @ kl"
      using Cons.prems kv by (induction pre) auto
    with Cons.IH [of "pre @ [(k, f v)]"] Cons.prems kv show ?case
      by (auto simp: kl_keys_def)
  qed
  then show "distinct (kl_keys kl) \<Longrightarrow> kl_put_all (kl_map f kl) kl = kl_map f kl"
    using gen [of "[]"] by simp
qed

subsection \<open>Well formed tapes\<close>

definition named :: "('a \<Rightarrow> string) \<Rightarrow> 'a klist \<Rightarrow> bool" where
  "named nm kl \<longleftrightarrow> distinct (kl_keys kl) \<and> (\<forall>(k, v) \<in> set kl. nm v = k)"

definition wf_class :: "class_ref \<Rightarrow> bool" where
  "wf_class c \<longleftrightarrow> named fref_name (cref_funcs c) \<and> named fld_name (cref_fields c)"

definition wf_tape :: "tape \<Rightarrow> bool" where
  "wf_tape t \<longleftrightarrow>
     length (t_source_map t) = length (t_ins t) \<and>
     named fref_name (t_func_refs t) \<and>
     named cref_name (t_class_refs t) \<and> (\<forall>(k, c) \<in> set (t_class_refs t). wf_class c) \<and>
     (case t_current_class t of None \<Rightarrow> True | Some c \<Rightarrow> c \<in> set (kl_keys (t_class_refs t)))"

lemma named_Nil [simp]: "named nm []"
  by (simp add: named_def)

lemma set_kl_put: "set (kl_put k v kl) \<subseteq> insert (k, v) (set kl)"
  by (induction k v kl rule: kl_put.induct) auto

lemma set_kl_put_distinct:
  "distinct (kl_keys kl) \<Longrightarrow> set (kl_put k v kl) = insert (k, v) {kv \<in> set kl. fst kv \<noteq> k}"
  by (induction k v kl rule: kl_put.induct) (force simp: kl_keys_def)+

lemma named_put: "named nm kl \<Longrightarrow> nm v = k \<Longrightarrow> named nm (kl_put k v kl)"
  using set_kl_put [of k v kl] by (auto simp: named_def)

lemma named_lookup: "named nm kl \<Longrightarrow> kl_lookup kl k = Some v \<Longrightarrow> nm v = k"
  by (auto simp: named_def dest: kl_lookup_in_set)

lemma named_put_all: "named nm kvs \<Longrightarrow> named nm kl \<Longrightarrow> named nm (kl_put_all kvs kl)"
proof (induction kvs arbitrary: kl)
  case Nil
  then show ?case by simp
next
  case (Cons kv kvs)
  obtain k v where kv: "kv = (k, v)" by (cases kv)
  with Cons.prems have "named nm kvs" and "nm v = k" by (auto simp: named_def)
  with Cons kv show ?case by (simp add: named_put)
qed

lemma named_map: "named nm kl \<Longrightarrow> (\<And>v. nm (f v) = nm v) \<Longrightarrow> named nm (kl_map f kl)"
  by (fastforce simp: named_def kl_map_def comp_def case_prod_beta kl_keys_def)

subsection \<open>Appending\<close>

lemma fold_named_put:
  "\<forall>(k, v) \<in> set kvs. nm v = k \<Longrightarrow>
   fold (\<lambda>(k, v). kl_put (nm v) (f v)) kvs kl = kl_put_all (kl_map f kvs) kl"
proof (induction kvs arbitrary: kl)
  case Nil
  then show ?case by simp
next
  case (Cons kv kvs)
  then show ?case by (cases kv) simp
qed

lemma append_funcs_put_all:
  "named fref_name tail \<Longrightarrow> append_funcs n tail head = kl_put_all (kl_map (shift_func n) tail) head"
  by (simp add: append_funcs_def named_def fold_named_put)

definition shift_class :: "nat \<Rightarrow> class_ref \<Rightarrow> class_ref" where
  "shift_class n c =
     c\<lparr>cref_start := cref_start c + n,
       cref_end := map_option (\<lambda>e. e + n) (cref_end c),
       cref_funcs := kl_map (shift_func n) (cref_funcs c)\<rparr>"

lemma append_class_wf: "wf_class c \<Longrightarrow> append_class n c = shift_class n c"
proof -
  assume wf: "wf_class c"
  then have "append_funcs n (cref_funcs c) (cref_funcs c) = kl_map (shift_func n) (cref_funcs c)"
    by (simp add: wf_class_def append_funcs_put_all kl_put_all_self named_def)
  moreover have "fold (\<lambda>(k, f). kl_put (fld_name f) f) (cref_fields c) (cref_fields c) = cref_fields c"
    using wf fold_named_put [of "cref_fields c" fld_name "\<lambda>x. x" "cref_fields c"]
      kl_put_all_self [of "cref_fields c" "\<lambda>x. x"]
    by (simp add: wf_class_def named_def kl_map_def)
  ultimately show ?thesis by (simp add: append_class_def shift_class_def)
qed

lemma kl_map_cong: "(\<And>k v. (k, v) \<in> set kl \<Longrightarrow> f v = g v) \<Longrightarrow> kl_map f kl = kl_map g kl"
  by (auto simp: kl_map_def)

lemma append_classes_put_all:
  assumes "named cref_name tail" and "\<forall>(k, c) \<in> set tail. wf_class c"
  shows "append_classes n tail head = kl_put_all (kl_map (shift_class n) tail) head"
proof -
  have "kl_map (append_class n) tail = kl_map (shift_class n) tail"
    using assms(2) by (intro kl_map_cong) (auto intro: append_class_wf)
  with assms(1) show ?thesis
    by (simp add: append_classes_def named_def fold_named_put)
qed

lemma tape_append_wf_eq:
  assumes "wf_tape tail"
  shows "tape_append head tail =
     head\<lparr>t_ins := t_ins head @ t_ins tail,
        t_source_map := t_source_map head @ t_source_map tail,
        t_func_refs := kl_put_all (kl_map (shift_func (tape_size head)) (t_func_refs tail)) (t_func_refs head),
        t_class_refs := kl_put_all (kl_map (shift_class (tape_size head)) (t_class_refs tail))
                          (t_class_refs head)\<rparr>"
  using assms
  by (simp add: tape_append_def wf_tape_def append_funcs_put_all append_classes_put_all tape_size_def
      Let_def)

lemma shift_func_name [simp]: "fref_name (shift_func n f) = fref_name f"
  by (simp add: shift_func_def)

lemma shift_class_name [simp]: "cref_name (shift_class n c) = cref_name c"
  by (simp add: shift_class_def)

lemma shift_func_shift: "shift_func n (shift_func m f) = shift_func (m + n) f"
  by (simp add: shift_func_def add.assoc)

lemma shift_class_shift: "shift_class n (shift_class m c) = shift_class (m + n) c"
  by (cases "cref_end c")
     (simp_all add: shift_class_def kl_map_map shift_func_shift add.assoc)

lemma wf_class_shift: "wf_class c \<Longrightarrow> wf_class (shift_class n c)"
  by (simp add: wf_class_def shift_class_def named_map)

lemma set_kl_put_all: "set (kl_put_all kvs kl) \<subseteq> set kvs \<union> set kl"
proof (induction kvs arbitrary: kl)
  case Nil
  then show ?case by simp
next
  case (Cons kv kvs)
  obtain k v where "kv = (k, v)" by (cases kv)
  with Cons.IH [of "kl_put k v kl"] set_kl_put [of k v kl] show ?case by auto
qed

lemma set_kl_map: "set (kl_map f kl) = (\<lambda>(k, v). (k, f v)) ` set kl"
  by (simp add: kl_map_def)

lemma kl_put_all_map_ball:
  assumes "\<forall>(k, v) \<in> set kvs. P (f v)" and "\<forall>(k, v) \<in> set kl. P v"
  shows "\<forall>(k, v) \<in> set (kl_put_all (kl_map f kvs) kl). P v"
  using subsetD [OF set_kl_put_all [of "kl_map f kvs" kl]] assms by (fastforce simp: set_kl_map)

lemma wf_classes_append:
  "\<forall>(k, c) \<in> set tail. wf_class c \<Longrightarrow> \<forall>(k, c) \<in> set head. wf_class c \<Longrightarrow>
   \<forall>(k, c) \<in> set (kl_put_all (kl_map (shift_class n) tail) head). wf_class c"
  by (intro kl_put_all_map_ball) (auto intro: wf_class_shift)

lemma wf_tape_append:
  assumes "wf_tape head" and "wf_tape tail"
  shows "wf_tape (tape_append head tail)"
proof -
  have "named fref_name (kl_put_all (kl_map (shift_func n) (t_func_refs tail)) (t_func_refs head))" for n
    using assms by (auto simp: wf_tape_def intro!: named_put_all named_map)
  moreover have "named cref_name (kl_put_all (kl_map (shift_class n) (t_class_refs tail)) (t_class_refs head))" for n
    using assms by (auto simp: wf_tape_def intro!: named_put_all named_map)
  moreover have "\<forall>(k, c) \<in> set (kl_put_all (kl_map (shift_class n) (t_class_refs tail)) (t_class_refs head)).
      wf_class c" for n
    using assms unfolding wf_tape_def by (intro wf_classes_append) blast+
  ultimately show ?thesis
    using assms(1) assms(2) [unfolded wf_tape_def, THEN conjunct1]
    unfolding tape_append_wf_eq [OF assms(2)] wf_tape_def
    by (simp add: kl_keys_put_all split: option.splits)
qed

lemma tape_append_assoc_eq:
  assumes "wf_tape b" and "wf_tape c"
  shows "tape_append (tape_append a b) c = tape_append a (tape_append b c)"
proof -
  have d: "distinct (kl_keys (t_func_refs b))" "distinct (kl_keys (t_class_refs b))"
    using assms(1) by (simp_all add: wf_tape_def named_def)
  have f: "kl_put_all (kl_map (shift_func (n + m)) (t_func_refs c))
        (kl_put_all (kl_map (shift_func n) (t_func_refs b)) kl) =
      kl_put_all (kl_map (shift_func n) (kl_put_all (kl_map (shift_func m) (t_func_refs c)) (t_func_refs b))) kl"
    for n m kl
    by (simp add: kl_map_put_all kl_map_map shift_func_shift add.commute kl_put_all_assoc d)
  have g: "kl_put_all (kl_map (shift_class (n + m)) (t_class_refs c))
        (kl_put_all (kl_map (shift_class n) (t_class_refs b)) kl) =
      kl_put_all (kl_map (shift_class n) (kl_put_all (kl_map (shift_class m) (t_class_refs c)) (t_class_refs b))) kl"
    for n m kl
    by (simp add: kl_map_put_all kl_map_map shift_class_shift add.commute kl_put_all_assoc d)
  show ?thesis
    unfolding tape_append_wf_eq [OF assms(1)] tape_append_wf_eq [OF assms(2)]
      tape_append_wf_eq [OF wf_tape_append [OF assms, unfolded tape_append_wf_eq [OF assms(2)]]]
    by (simp add: tape_size_def f g)
qed

text \<open>A tape with a function and a class, for closed examples.\<close>

definition demo_tape :: tape where
  "demo_tape = \<lparr>t_module_name = None,
     t_ins = [\<lparr>ins_op = RNIL, ins_arg = NoArg\<rparr>, \<lparr>ins_op = RET, ins_arg = NoArg\<rparr>],
     t_source_map = replicate 2 \<lparr>sm_line = 1, sm_col = 0, sm_token = None\<rparr>,
     t_class_refs = [(''C'', \<lparr>cref_name = ''C'', cref_start = 1, cref_end = Some 2,
        cref_funcs = [(''m'', \<lparr>fref_name = ''m'', fref_index = 1, fref_const = False, fref_async = False\<rparr>)],
        cref_fields = [(''x'', \<lparr>fld_name = ''x''\<rparr>)], cref_supers = []\<rparr>)],
     t_func_refs = [(''f'', \<lparr>fref_name = ''f'', fref_index = 0, fref_const = False, fref_async = False\<rparr>)],
     t_current_class = None\<rparr>"

lemma wf_demo_tape: "wf_tape demo_tape"
  by (simp add: demo_tape_def wf_tape_def named_def wf_class_def)

text \<open>C31: Appending a well formed tape (\<open>tape_append\<close>, program/tape.c): an index below the head's
  length reads the head's instruction, an index above it the tail's; a function or class name of the
  tail resolves to the tail's entry moved up by the length of the head, any other name as it did in
  the head.\<close>

theorem tape_append_lookup:
  assumes "wf_tape tail"
  shows "tape_get (tape_append head tail) i =
      (if i < tape_size head then tape_get head i else tape_get tail (i - tape_size head)) \<and>
    kl_lookup (t_func_refs (tape_append head tail)) name =
      (case kl_lookup (t_func_refs tail) name of
         Some f \<Rightarrow> Some (shift_func (tape_size head) f)
       | None \<Rightarrow> kl_lookup (t_func_refs head) name) \<and>
    tape_get_class (tape_append head tail) name =
      (case tape_get_class tail name of
         Some c \<Rightarrow> Some (shift_class (tape_size head) c)
       | None \<Rightarrow> tape_get_class head name)"
proof -
  have d: "distinct (kl_keys (t_func_refs tail))" "distinct (kl_keys (t_class_refs tail))"
    using assms by (simp_all add: wf_tape_def named_def)
  have "tape_get (tape_append head tail) i =
      (if i < tape_size head then tape_get head i else tape_get tail (i - tape_size head))"
    by (auto simp: tape_get_def tape_size_def tape_append_def Let_def assert_that_def nth_append)
  moreover have "kl_lookup (t_func_refs (tape_append head tail)) name =
      (case kl_lookup (t_func_refs tail) name of
         Some f \<Rightarrow> Some (shift_func (tape_size head) f)
       | None \<Rightarrow> kl_lookup (t_func_refs head) name)"
    by (simp add: tape_append_wf_eq [OF assms] kl_lookup_put_all_distinct d split: option.splits)
  moreover have "tape_get_class (tape_append head tail) name =
      (case tape_get_class tail name of
         Some c \<Rightarrow> Some (shift_class (tape_size head) c)
       | None \<Rightarrow> tape_get_class head name)"
    by (simp add: tape_append_wf_eq [OF assms] tape_get_class_def kl_lookup_put_all_distinct d
        split: option.splits)
  ultimately show ?thesis by blast
qed

theorem tape_append_lookup_witness:
  "tape_get (tape_append demo_tape demo_tape) 2 = Inr \<lparr>ins_op = RNIL, ins_arg = NoArg\<rparr> \<and>
   map_option fref_index (kl_lookup (t_func_refs (tape_append demo_tape demo_tape)) ''f'') = Some 2"
  using tape_append_lookup [OF wf_demo_tape, of demo_tape 2 "''f''"]
  by (simp add: demo_tape_def tape_size_def tape_get_def shift_func_def)

text \<open>Appending is associative (\<open>tape_append\<close>, program/tape.c): gluing three tapes gives the
  same code, source map, function table and class table whichever pair is glued first.\<close>

theorem tape_append_assoc:
  assumes "wf_tape b" and "wf_tape c"
  shows "tape_append (tape_append a b) c = tape_append a (tape_append b c)"
  using assms by (rule tape_append_assoc_eq)

theorem tape_append_assoc_witness:
  "tape_append (tape_append tape_create demo_tape) demo_tape =
   tape_append tape_create (tape_append demo_tape demo_tape)"
  by (rule tape_append_assoc [OF wf_demo_tape wf_demo_tape])

subsection \<open>The tapes that can be built\<close>

inductive built :: "tape \<Rightarrow> bool" where
  built_create: "built tape_create"
| built_emit: "built t \<Longrightarrow> built (emit p a tok t)"
| built_func: "built t \<Longrightarrow> tape_start_func name is_async t = Inr t' \<Longrightarrow> built t'"
| built_class: "built t \<Longrightarrow> tape_class_with_parents tok parents t = Inr t' \<Longrightarrow> built t'"
| built_endclass: "built t \<Longrightarrow> tape_endclass tok t = Inr t' \<Longrightarrow> built t'"
| built_field: "built t \<Longrightarrow> tape_field field t = Inr t' \<Longrightarrow> built t'"
| built_module: "built t \<Longrightarrow> built (tape_module tok t)"
| built_append: "built t \<Longrightarrow> built u \<Longrightarrow>
    t_current_class t \<notin> Some ` set (kl_keys (t_class_refs u)) \<Longrightarrow> built (tape_append t u)"

text \<open>
  Every position a table holds lies inside the code: functions anywhere in it, a class in an
  interval of it, its methods inside that interval (up to the end of the code while it is open).
\<close>

definition class_bounds :: "nat \<Rightarrow> class_ref \<Rightarrow> bool" where
  "class_bounds n c \<longleftrightarrow>
     (let e = (case cref_end c of Some e \<Rightarrow> e | None \<Rightarrow> n)
      in cref_start c \<le> e \<and> e \<le> n \<and>
         (\<forall>(k, f) \<in> set (cref_funcs c). cref_start c \<le> fref_index f \<and> fref_index f \<le> e))"

definition tape_bounds :: "tape \<Rightarrow> bool" where
  "tape_bounds t \<longleftrightarrow>
     (\<forall>(k, f) \<in> set (t_func_refs t). fref_index f \<le> tape_size t) \<and>
     (\<forall>(k, c) \<in> set (t_class_refs t). class_bounds (tape_size t) c) \<and>
     (case t_current_class t of None \<Rightarrow> True
      | Some k \<Rightarrow> (case kl_lookup (t_class_refs t) k of None \<Rightarrow> False | Some c \<Rightarrow> cref_end c = None))"

lemma class_bounds_mono: "class_bounds n c \<Longrightarrow> n \<le> m \<Longrightarrow> class_bounds m c"
  by (force simp: class_bounds_def Let_def split: option.splits)

lemma class_bounds_shift: "class_bounds n c \<Longrightarrow> class_bounds (m + n) (shift_class m c)"
  by (force simp: class_bounds_def shift_class_def set_kl_map shift_func_def Let_def split: option.splits)

lemma kl_put_ball:
  "\<forall>(k, v) \<in> set kl. P v \<Longrightarrow> P v \<Longrightarrow> \<forall>(k, v) \<in> set (kl_put k v kl). P v"
  using set_kl_put [of k v kl] by auto

definition tape_ok :: "tape \<Rightarrow> bool" where
  "tape_ok t \<longleftrightarrow> wf_tape t \<and> tape_bounds t"

lemma tape_ok_create: "tape_ok tape_create"
  by (simp add: tape_ok_def tape_create_def wf_tape_def tape_bounds_def)

lemma tape_ok_emit: "tape_ok t \<Longrightarrow> tape_ok (emit p a tok t)"
  by (fastforce simp: tape_ok_def emit_def tape_add_def tape_add_source_def wf_tape_def tape_bounds_def
      tape_size_def intro: class_bounds_mono split: option.splits)

lemma tape_ok_module: "tape_ok t \<Longrightarrow> tape_ok (tape_module tok t)"
  by (cases "t_current_class t")
     (simp_all add: tape_ok_def tape_module_def wf_tape_def tape_bounds_def tape_size_def split: option.splits)

text \<open>Replacing or adding the class entry under its own name, and what it needs.\<close>

lemma tape_ok_put_class:
  assumes "tape_ok t" and "wf_class c" and "cref_name c = k" and "class_bounds (tape_size t) c"
    and "cur = Some k \<longrightarrow> cref_end c = None" and "cur = None \<or> cur = Some k"
  shows "tape_ok (t\<lparr>t_class_refs := kl_put k c (t_class_refs t), t_current_class := cur\<rparr>)"
proof -
  have "named cref_name (kl_put k c (t_class_refs t))"
    using assms by (auto simp: tape_ok_def wf_tape_def intro: named_put)
  moreover have "\<forall>(k, c) \<in> set (kl_put k c (t_class_refs t)). wf_class c"
    using assms unfolding tape_ok_def wf_tape_def by (intro kl_put_ball) blast+
  moreover have "\<forall>(k, c) \<in> set (kl_put k c (t_class_refs t)). class_bounds (tape_size t) c"
    using assms unfolding tape_ok_def tape_bounds_def by (intro kl_put_ball) blast+
  ultimately show ?thesis
    using assms by (auto simp: tape_ok_def wf_tape_def tape_bounds_def tape_size_def kl_keys_put)
qed

lemma tape_ok_current:
  assumes "tape_ok t" and "t_current_class t = Some k"
  obtains c where "kl_lookup (t_class_refs t) k = Some c" and "wf_class c" and "cref_name c = k"
    and "class_bounds (tape_size t) c" and "cref_end c = None"
proof -
  from assms obtain c where c: "kl_lookup (t_class_refs t) k = Some c" "cref_end c = None"
    by (auto simp: tape_ok_def tape_bounds_def split: option.splits)
  from c(1) have "(k, c) \<in> set (t_class_refs t)" by (rule kl_lookup_in_set)
  with assms have "wf_class c" "cref_name c = k" "class_bounds (tape_size t) c"
    by (fastforce simp: tape_ok_def wf_tape_def tape_bounds_def named_def)+
  with c show thesis by (intro that)
qed

lemma tape_ok_func:
  assumes "tape_ok t" and "tape_start_func name is_async t = Inr t'"
  shows "tape_ok t'"
proof (cases "t_current_class t")
  case None
  with assms(2) have "t' = t\<lparr>t_func_refs := kl_put name \<lparr>fref_name = name, fref_index = tape_size t,
      fref_const = False, fref_async = is_async\<rparr> (t_func_refs t)\<rparr>"
    by (simp add: tape_start_func_def tape_start_func_at_index_def Let_def split: if_splits)
  with assms(1) None show ?thesis
    using set_kl_put [of name "\<lparr>fref_name = name, fref_index = tape_size t,
      fref_const = False, fref_async = is_async\<rparr>" "t_func_refs t"]
    by (fastforce simp: tape_ok_def wf_tape_def tape_bounds_def tape_size_def named_put)
next
  case (Some k)
  obtain c where c: "kl_lookup (t_class_refs t) k = Some c" "wf_class c" "cref_name c = k"
    "class_bounds (tape_size t) c" "cref_end c = None"
    using assms(1) Some by (rule tape_ok_current)
  define ref where "ref = \<lparr>fref_name = name, fref_index = tape_size t, fref_const = False,
    fref_async = is_async\<rparr>"
  define d where "d = c\<lparr>cref_funcs := kl_put name ref (cref_funcs c)\<rparr>"
  have t': "t' = t\<lparr>t_class_refs := kl_put k d (t_class_refs t), t_current_class := Some k\<rparr>"
    using assms(2) Some c
    by (auto simp: tape_start_func_def tape_start_func_at_index_def Let_def d_def ref_def split: if_splits)
  have "wf_class d" using c(2) by (simp add: wf_class_def d_def ref_def named_put)
  moreover have "class_bounds (tape_size t) d"
    using c(4,5) set_kl_put [of name ref "cref_funcs c"]
    by (fastforce simp: class_bounds_def d_def ref_def Let_def)
  ultimately show ?thesis
    unfolding t' using assms(1) c by (intro tape_ok_put_class) (auto simp: d_def)
qed

lemma tape_ok_class:
  assumes "tape_ok t" and "tape_class_with_parents tok parents t = Inr t'"
  shows "tape_ok t'"
proof -
  let ?k = "tok_text tok"
  define c where "c = (classref_init ?k)\<lparr>cref_start := tape_size t, cref_supers := parents\<rparr>"
  have t': "t' = t\<lparr>t_class_refs := kl_put ?k c (t_class_refs t), t_current_class := Some ?k\<rparr>"
    using assms(2)
    by (auto simp: tape_class_with_parents_def tape_class_def tape_start_class_def
        tape_start_class_at_index_def andThen_eq_Inr c_def classref_init_def split: if_splits)
  show ?thesis
    unfolding t' using assms(1)
    by (intro tape_ok_put_class) (auto simp: c_def classref_init_def wf_class_def class_bounds_def)
qed

lemma tape_ok_endclass:
  assumes "tape_ok t" and "tape_endclass tok t = Inr t'"
  shows "tape_ok t'"
proof -
  from assms(2) obtain k where k: "t_current_class t = Some k"
    by (auto simp: tape_endclass_def tape_end_class_def tape_end_class_at_index_def split: option.splits)
  obtain c where c: "kl_lookup (t_class_refs t) k = Some c" "wf_class c" "cref_name c = k"
    "class_bounds (tape_size t) c" "cref_end c = None"
    using assms(1) k by (rule tape_ok_current)
  have t': "t' = t\<lparr>t_class_refs := kl_put k (c\<lparr>cref_end := Some (tape_size t)\<rparr>) (t_class_refs t),
      t_current_class := None\<rparr>"
    using assms(2) k c by (simp add: tape_endclass_def tape_end_class_def tape_end_class_at_index_def)
  show ?thesis
    unfolding t' using assms(1) c
    by (intro tape_ok_put_class) (auto simp: wf_class_def class_bounds_def)
qed

lemma tape_ok_field:
  assumes "tape_ok t" and "tape_field field t = Inr t'"
  shows "tape_ok t'"
proof -
  from assms(2) obtain k where k: "t_current_class t = Some k"
    by (auto simp: tape_field_def split: option.splits)
  obtain c where c: "kl_lookup (t_class_refs t) k = Some c" "wf_class c" "cref_name c = k"
    "class_bounds (tape_size t) c" "cref_end c = None"
    using assms(1) k by (rule tape_ok_current)
  have t': "t' = t\<lparr>t_class_refs := kl_put k (c\<lparr>cref_fields := kl_put field \<lparr>fld_name = field\<rparr> (cref_fields c)\<rparr>)
      (t_class_refs t), t_current_class := Some k\<rparr>"
    using assms(2) k c by (auto simp: tape_field_def split: if_splits)
  show ?thesis
    unfolding t' using assms(1) c
    by (intro tape_ok_put_class) (auto simp: wf_class_def class_bounds_def named_put)
qed

lemma tape_bounds_append:
  assumes "tape_ok head" and "tape_ok tail"
    and "t_current_class head \<notin> Some ` set (kl_keys (t_class_refs tail))"
  shows "tape_bounds (tape_append head tail)"
proof -
  have wf: "wf_tape tail" and bh: "tape_bounds head" and bt: "tape_bounds tail"
    using assms by (simp_all add: tape_ok_def)
  have fh: "\<forall>(k, f) \<in> set (t_func_refs head). fref_index f \<le> tape_size head"
    and ch: "\<forall>(k, c) \<in> set (t_class_refs head). class_bounds (tape_size head) c"
    using bh unfolding tape_bounds_def by blast+
  have ft: "\<forall>(k, f) \<in> set (t_func_refs tail). fref_index f \<le> tape_size tail"
    and ct: "\<forall>(k, c) \<in> set (t_class_refs tail). class_bounds (tape_size tail) c"
    using bt unfolding tape_bounds_def by blast+
  have sz: "tape_size (tape_append head tail) = tape_size head + tape_size tail"
    by (simp add: tape_append_wf_eq [OF wf] tape_size_def)
  have "\<forall>(k, f) \<in> set (t_func_refs (tape_append head tail)). fref_index f \<le> tape_size head + tape_size tail"
  proof -
    have "\<forall>(k, f) \<in> set (t_func_refs head). fref_index f \<le> tape_size head + tape_size tail"
      using fh by auto
    moreover have "\<forall>(k, f) \<in> set (t_func_refs tail).
        fref_index (shift_func (tape_size head) f) \<le> tape_size head + tape_size tail"
      using ft by (auto simp: shift_func_def)
    ultimately have "\<forall>(k, f) \<in> set (kl_put_all (kl_map (shift_func (tape_size head)) (t_func_refs tail))
        (t_func_refs head)). fref_index f \<le> tape_size head + tape_size tail"
      by (intro kl_put_all_map_ball)
    then show ?thesis by (simp add: tape_append_wf_eq [OF wf])
  qed
  moreover have "\<forall>(k, c) \<in> set (t_class_refs (tape_append head tail)).
      class_bounds (tape_size head + tape_size tail) c"
  proof -
    have "\<forall>(k, c) \<in> set (t_class_refs head). class_bounds (tape_size head + tape_size tail) c"
      using ch by (auto intro: class_bounds_mono)
    moreover have "\<forall>(k, c) \<in> set (t_class_refs tail).
        class_bounds (tape_size head + tape_size tail) (shift_class (tape_size head) c)"
      using ct by (auto intro: class_bounds_shift)
    ultimately have "\<forall>(k, c) \<in> set (kl_put_all (kl_map (shift_class (tape_size head)) (t_class_refs tail))
        (t_class_refs head)). class_bounds (tape_size head + tape_size tail) c"
      by (intro kl_put_all_map_ball)
    then show ?thesis by (simp add: tape_append_wf_eq [OF wf])
  qed
  moreover have "kl_lookup (t_class_refs (tape_append head tail)) k = kl_lookup (t_class_refs head) k"
    if k: "t_current_class head = Some k" for k
  proof -
    have "distinct (kl_keys (t_class_refs tail))" using wf by (simp add: wf_tape_def named_def)
    moreover have "kl_lookup (t_class_refs tail) k = None"
      using k assms(3) by (auto simp: kl_lookup_None_iff)
    ultimately show ?thesis
      by (simp add: tape_append_wf_eq [OF wf] kl_lookup_put_all_distinct)
  qed
  moreover have "t_current_class (tape_append head tail) = t_current_class head"
    by (simp add: tape_append_wf_eq [OF wf])
  ultimately show ?thesis
    using bh unfolding tape_bounds_def sz by (cases "t_current_class head") simp_all
qed


definition demo_token :: token where
  "demo_token = \<lparr>tok_type = WORD, tok_line = 3, tok_col = 4, tok_text = ''C''\<rparr>"


end
