(* ===== verification/TapeText.thy ===== *)
theory TapeText imports TapeFacts begin

text \<open>
  The text form of a tape (\<open>tape_write\<close>, \<open>tape_read\<close> and \<open>tape_read_ins\<close> of \<open>program/tape.c\<close>): the
  assembly a tape is printed as, the reader over the lexer's token queue, and what survives the trip.
  The queue is a token list; removing from an empty queue or looking into its missing first token is
  undefined.
\<close>

subsection \<open>Writing\<close>

definition INSTRUCTION_COMMENT_LPAD :: nat where
  "INSTRUCTION_COMMENT_LPAD = 16"

text \<open>The loop state of \<open>tape_write\<close>: its three iterators (the entries ahead of them), and the
  text printed. \<open>cls_func_iter\<close> is only set once a class has been entered.\<close>

(* src/program/tape.c [217-222] tape_write *)
record write_state =
  ws_cls :: "class_ref list"
  ws_funcs :: "function_ref list"
  ws_cls_funcs :: "function_ref list"
  ws_in_class :: bool
  ws_out :: string

definition print :: "string \<Rightarrow> write_state \<Rightarrow> write_state" where
  "print s w = w\<lparr>ws_out := ws_out w @ s\<rparr>"

definition line_end :: string where
  "line_end = [CHR 0x0A]"

(* src/program/tape.c [223-230] tape_write *)
definition write_class_end :: "nat \<Rightarrow> write_state \<Rightarrow> write_state" where
  "write_class_end i w = (case ws_cls w of
     [] \<Rightarrow> w
   | c # cs \<Rightarrow>
       (if ws_in_class w \<and> cref_end c = Some i
        then (print (''endclass  ; '' @ cref_name c @ line_end) w)\<lparr>ws_in_class := False, ws_cls := cs\<rparr>
        else w))"

(* src/program/tape.c [231-244] tape_write *)
definition write_class_start :: "nat \<Rightarrow> write_state \<Rightarrow> write_state" where
  "write_class_start i w = (case ws_cls w of
     [] \<Rightarrow> w
   | c # cs \<Rightarrow>
       (if \<not> ws_in_class w \<and> cref_start c = i
        then fold (\<lambda>f. print ('' field '' @ fld_name f @ line_end)) (kl_values (cref_fields c))
               ((print (''class '' @ cref_name c @ line_end) w)
                 \<lparr>ws_in_class := True, ws_cls_funcs := kl_values (cref_funcs c)\<rparr>)
        else w))"

(* src/program/tape.c [245-257] tape_write *)
definition write_label :: "nat \<Rightarrow> write_state \<Rightarrow> write_state" where
  "write_label i w =
     (if ws_in_class w \<and> ws_cls_funcs w \<noteq> []
      then (if fref_index (hd (ws_cls_funcs w)) = i
            then (print (''@'' @ fref_name (hd (ws_cls_funcs w)) @ line_end) w)
                   \<lparr>ws_cls_funcs := tl (ws_cls_funcs w)\<rparr>
            else w)
      else if ws_funcs w \<noteq> []
      then (if fref_index (hd (ws_funcs w)) = i
            then (print (''@'' @ fref_name (hd (ws_funcs w)) @ line_end) w)\<lparr>ws_funcs := tl (ws_funcs w)\<rparr>
            else w)
      else w)"

definition write_comment :: "nat \<Rightarrow> source_mapping \<Rightarrow> string" where
  "write_comment chars_written sm =
     (if sm_col sm \<ge> 0 \<and> sm_line sm \<ge> 0
      then replicate (INSTRUCTION_COMMENT_LPAD - chars_written) (CHR '' '')
           @ ''; line='' @ dec_of_int (sm_line sm) @ '', col='' @ dec_of_int (sm_col sm)
      else [])"

(* src/program/tape.c [258-269] tape_write *)
definition write_instruction_line ::
  "fops \<Rightarrow> tape \<Rightarrow> nat \<Rightarrow> write_state \<Rightarrow> write_state res" where
  "write_instruction_line fo t i w =
     (if i < tape_size t
      then andThen (instruction_write fo (t_ins t ! i)) (\<lambda>s.
             Inr (print (s @ write_comment (length s) (t_source_map t ! i) @ line_end) w))
      else Inr w)"

definition write_step :: "fops \<Rightarrow> tape \<Rightarrow> nat \<Rightarrow> write_state \<Rightarrow> write_state res" where
  "write_step fo t i w =
     write_instruction_line fo t i (write_label i (write_class_start i (write_class_end i w)))"

(* src/program/tape.c tape_write *)
definition tape_write :: "fops \<Rightarrow> tape \<Rightarrow> string res" where
  "tape_write fo t =
     (let header = (case t_module_name t of
                      Some m \<Rightarrow> (if m \<noteq> ''$'' then ''module '' @ m @ line_end else [])
                    | None \<Rightarrow> []);
          w = \<lparr>ws_cls = kl_values (t_class_refs t), ws_funcs = kl_values (t_func_refs t),
               ws_cls_funcs = [], ws_in_class = False, ws_out = header\<rparr>
      in andThen (foldRes (write_step fo t) [0..<Suc (tape_size t)] w) (\<lambda>w. Inr (ws_out w)))"

subsection \<open>Reading\<close>

(* src/program/tape.c _q_peek *)
definition q_peek :: "token list \<Rightarrow> token option" where
  "q_peek tokens = (case tokens of [] \<Rightarrow> None | t # ts \<Rightarrow> Some t)"

text \<open>\<open>_q_peek(tokens)->type\<close> and \<open>Q_remove(tokens, 0)\<close> with their undefined cases.\<close>

definition peek_type :: "token list \<Rightarrow> token_type res" where
  "peek_type tokens = (case q_peek tokens of
     None \<Rightarrow> Inl (UB ''null token'') | Some t \<Rightarrow> Inr (tok_type t))"

definition q_remove :: "token list \<Rightarrow> (token \<times> token list) res" where
  "q_remove tokens = (case tokens of
     [] \<Rightarrow> Inl (UB ''Q_remove of an empty queue'') | t # ts \<Rightarrow> Inr (t, ts))"

text \<open>The loop and, after it, the function: the first token that is no line end, and the rest.\<close>

(* src/program/tape.c [342-348] _next_token_skip_ln *)
fun skip_ln :: "token \<Rightarrow> token list \<Rightarrow> token option \<times> token list" where
  "skip_ln tok [] = (if tok_type tok = ENDLINE then (None, []) else (Some tok, []))"
| "skip_ln tok (t # ts) = (if tok_type tok = ENDLINE then skip_ln t ts else (Some tok, t # ts))"

(* src/program/tape.c _next_token_skip_ln *)
definition next_token_skip_ln :: "token list \<Rightarrow> (token option \<times> token list) res" where
  "next_token_skip_ln queue = (case queue of
     [] \<Rightarrow> Inl (Fatal ''Q_size(queue) > 0'')
   | t # ts \<Rightarrow> Inr (skip_ln t ts))"

(* src/program/tape.c [361-377] tape_read_ins *)
definition read_label :: "token list \<Rightarrow> tape \<Rightarrow> (tape \<times> token list) res" where
  "read_label tokens t =
     andThen (q_remove tokens) (\<lambda>(fn_name, ts).
     andThen (peek_type ts) (\<lambda>ty.
     andThen (if ty = COLON
              then andThen (q_remove ts) (\<lambda>(_, ts).
                   andThen (q_remove ts) (\<lambda>(async_keyword, ts).
                     if tok_text async_keyword \<noteq> ''async''
                     then Inl (Fatal ''Invalid function qualifier'')
                     else andThen (tape_label_async fn_name t) (\<lambda>t. Inr (t, ts))))
              else Inr (t, ts)) (\<lambda>(t, ts).
     andThen (peek_type ts) (\<lambda>ty.
       if ty \<noteq> ENDLINE then Inl (Fatal ''Invalid token after @def.'')
       else andThen (tape_label fn_name t) (\<lambda>t. Inr (t, ts))))))"

(* src/program/tape.c [386-389] tape_read_ins *)
fun read_parents :: "token list \<Rightarrow> (string list \<times> token list) res" where
  "read_parents [] = Inl (UB ''null token'')"
| "read_parents (c # ts) =
     (if tok_type c = COMMA
      then (case ts of
              [] \<Rightarrow> Inl (UB ''Q_remove of an empty queue'')
            | p # ts \<Rightarrow> andThen (read_parents ts) (\<lambda>(ps, ts). Inr (tok_text p # ps, ts)))
      else Inr ([], c # ts))"

text \<open>\<open>deliver\<close>: the order in which \<open>Q_dequeue\<close> hands over what \<open>Q_add_last\<close> stored.\<close>

(* src/program/tape.c [378-393] tape_read_ins *)
definition read_class ::
  "(string list \<Rightarrow> string list) \<Rightarrow> token list \<Rightarrow> tape \<Rightarrow> (tape \<times> token list) res" where
  "read_class deliver tokens t =
     andThen (q_remove tokens) (\<lambda>(class_name, ts).
     andThen (peek_type ts) (\<lambda>ty.
       if ty = ENDLINE then andThen (tape_class class_name t) (\<lambda>t. Inr (t, ts))
       else andThen (read_parents ts) (\<lambda>(parents, ts).
            andThen (tape_class_with_parents class_name (deliver parents) t) (\<lambda>t. Inr (t, ts)))))"

(* src/program/tape.c [403-413] tape_read_ins *)
definition read_op :: "fops \<Rightarrow> token \<Rightarrow> token list \<Rightarrow> tape \<Rightarrow> (tape \<times> token list) res" where
  "read_op fo first tokens t =
     andThen (str_to_op (tok_text first)) (\<lambda>p.
     andThen (peek_type tokens) (\<lambda>ty.
       if ty = ENDLINE \<or> ty = POUND then Inr (tape_ins_no_arg p first t, tokens)
       else andThen (q_remove tokens) (\<lambda>(next_token, ts).
         if ty = MINUS
         then andThen (q_remove ts) (\<lambda>(number, ts).
              andThen (tape_ins_neg fo p number t) (\<lambda>t. Inr (t, ts)))
         else andThen (tape_ins fo p next_token t) (\<lambda>t. Inr (t, ts)))))"

(* src/program/tape.c tape_read_ins *)
definition tape_read_ins ::
  "fops \<Rightarrow> (string list \<Rightarrow> string list) \<Rightarrow> token list \<Rightarrow> tape \<Rightarrow> (tape \<times> token list) res" where
  "tape_read_ins fo deliver tokens t =
     (if tokens = [] then Inr (t, [])
      else andThen (next_token_skip_ln tokens) (\<lambda>(first, ts).
        case first of
          None \<Rightarrow> Inr (t, ts)
        | Some first \<Rightarrow>
            (if tok_type first = AT then read_label ts t
             else if tok_text first = ''class'' then read_class deliver ts t
             else if tok_text first = ''endclass''
             then andThen (tape_endclass first t) (\<lambda>t. Inr (t, ts))
             else if tok_text first = ''field''
             then andThen (q_remove ts) (\<lambda>(fld, ts).
                  andThen (tape_field (tok_text fld) t) (\<lambda>t. Inr (t, ts)))
             else read_op fo first ts t)))"

subsection \<open>Every step of the reader consumes a token\<close>

lemma skip_ln_shorter: "skip_ln tok ts = (r, rest) \<Longrightarrow> length rest \<le> length ts"
  by (induction tok ts rule: skip_ln.induct) (auto split: if_splits)

lemma q_remove_Inr [res_simps]: "q_remove ts = Inr (x, rest) \<longleftrightarrow> ts = x # rest"
  by (cases ts) (auto simp: q_remove_def)

lemma read_parents_shorter: "read_parents ts = Inr (ps, rest) \<Longrightarrow> length rest \<le> length ts"
proof (induction ts arbitrary: ps rest rule: read_parents.induct)
  case (2 c ts)
  then show ?case by (fastforce simp: res_simps split: if_splits list.splits)
qed simp

lemma read_label_shorter: "read_label ts t = Inr (t', rest) \<Longrightarrow> length rest \<le> length ts"
  by (auto simp: read_label_def res_simps split: if_splits)

lemma read_class_shorter: "read_class dv ts t = Inr (t', rest) \<Longrightarrow> length rest \<le> length ts"
  by (auto simp: read_class_def res_simps dest!: read_parents_shorter split: if_splits)

lemma read_op_shorter: "read_op fo first ts t = Inr (t', rest) \<Longrightarrow> length rest \<le> length ts"
  by (auto simp: read_op_def res_simps split: if_splits)

lemma tape_read_ins_shorter:
  assumes "tape_read_ins fo dv tokens t = Inr (t', rest)" and "tokens \<noteq> []"
  shows "length rest < length tokens"
proof -
  obtain x xs where x: "tokens = x # xs" using assms(2) by (cases tokens) auto
  obtain r ts where s: "skip_ln x xs = (r, ts)" by (cases "skip_ln x xs")
  then have "length ts \<le> length xs" by (rule skip_ln_shorter)
  moreover have "length rest \<le> length ts"
    using assms(1) x s
    by (auto simp: tape_read_ins_def next_token_skip_ln_def res_simps split: option.splits if_splits
        dest: read_label_shorter read_class_shorter read_op_shorter)
  ultimately show ?thesis using x by simp
qed

(* src/program/tape.c [425-427] tape_read *)
function read_all ::
  "fops \<Rightarrow> (string list \<Rightarrow> string list) \<Rightarrow> token list \<Rightarrow> tape \<Rightarrow> tape res" where
  "read_all fo deliver tokens t =
     (if tokens = [] then Inr t
      else case tape_read_ins fo deliver tokens t of
             Inl e \<Rightarrow> Inl e
           | Inr (t, ts) \<Rightarrow> read_all fo deliver ts t)"
  by pat_completeness auto
termination
  by (relation "measure (\<lambda>(fo, dv, tokens, t). length tokens)") (auto dest: tape_read_ins_shorter)

declare read_all.simps [simp del]

(* src/program/tape.c tape_read *)
definition tape_read ::
  "fops \<Rightarrow> (string list \<Rightarrow> string list) \<Rightarrow> token list \<Rightarrow> tape \<Rightarrow> tape res" where
  "tape_read fo deliver tokens t = (case tokens of
     [] \<Rightarrow> Inl (UB ''null token'')
   | first # ts \<Rightarrow>
       (if tok_text first = ''module''
        then andThen (q_remove ts) (\<lambda>(name, ts).
             read_all fo deliver ts (t\<lparr>t_module_name := Some (tok_text name)\<rparr>))
        else read_all fo deliver tokens (t\<lparr>t_module_name := Some ''$''\<rparr>)))"

end
