(* ===== verification/TapeTextFacts.thy ===== *)
theory TapeTextFacts imports TapeText begin

text \<open>
  What the text form of a tape promises: the line printed for an instruction lexes and reads back as
  that instruction; asynchronous functions cannot be read, and their mark and the parents of classes
  are not written.
\<close>

subsection \<open>Lexing one printed instruction\<close>

lemma not_symbol_words:
  "AT \<notin> insert WORD (set keyword_tokens)" "POUND \<notin> insert WORD (set keyword_tokens)"
  "MINUS \<notin> insert WORD (set keyword_tokens)" "INTEGER \<notin> insert WORD (set keyword_tokens)"
  "FLOATING \<notin> insert WORD (set keyword_tokens)"
  by (simp_all add: keyword_tokens_def)

lemma word_type_not_symbol [simp]:
  "word_type w \<noteq> AT" "word_type w \<noteq> POUND" "word_type w \<noteq> MINUS" "word_type w \<noteq> INTEGER"
  "word_type w \<noteq> FLOATING"
  by (rule mem_neq [OF word_type_range not_symbol_words(1)], rule mem_neq [OF word_type_range not_symbol_words(2)],
      rule mem_neq [OF word_type_range not_symbol_words(3)], rule mem_neq [OF word_type_range not_symbol_words(4)],
      rule mem_neq [OF word_type_range not_symbol_words(5)])

lemma lex_chars_token:
  assumes "lex_step lib esc s False = Inr (consumed, ty, False, text, rest)"
    and "consumed \<noteq> 0" and "ty \<noteq> ENDLINE"
  shows "lex_chars lib esc ln lines s False col q =
    lex_chars lib esc ln lines rest False (col + int consumed)
      (q @ [token_create ty ln (col + int consumed - int (length text)) text])"
  using assms by (subst lex_chars.simps) (simp add: enqueue_token_def)

lemma lex_chars_end:
  assumes "q \<noteq> []" and "\<not> ends_in ENDLINE q" and "\<not> ends_in BSLASH q"
  shows "lex_chars lib esc ln lines line_end False col q = Inr (0, q @ [token_create ENDLINE ln col []])"
  using lex_chars_words_nonempty [of "[]" q lib esc ln lines col] assms
  by (simp add: plain_words_def line_end_def)

lemma lex_step_identifier:
  assumes "is_identifier w" and "stops_word s" and "length w < MAX_LINE_LEN"
  shows "lex_step lib esc (replicate k (CHR '' '') @ w @ s) False = Inr (k + length w, word_type w, False, w, s)"
  using read_identifier [OF assms] by (simp add: lex_step_def resolve_identifier assms)

text \<open>What is relied on of \<open>ends_with\<close> and \<open>contains_char\<close>: a text of digits ends in no f and has no dot.\<close>

definition number_lib :: "lexlib \<Rightarrow> bool" where
  "number_lib lib \<longleftrightarrow> (\<forall>ds. list_all is_digit ds \<longrightarrow>
     \<not> ends_with lib ds ''f'' \<and> \<not> contains_char lib ds (CHR ''.''))"

lemma digit_facts:
  assumes "is_digit c"
  shows "is_alphanumeric c" "is_number c" "number_tail c"
  using assms by (auto simp: is_alphanumeric_def is_number_def is_numeric_def number_tail_def)

lemma lex_step_number:
  assumes "list_all is_digit ds" and "ds \<noteq> []" and "length ds < MAX_LINE_LEN" and "number_lib lib"
    and "r \<noteq> []" and "\<not> number_tail (hd r)"
  shows "lex_step lib esc (replicate k (CHR '' '') @ ds @ r) False =
    Inr (k + length ds, INTEGER, False, ds, r)"
proof -
  obtain c cs where ds: "ds = c # cs" using assms(2) by (cases ds) auto
  have c: "is_digit c" "list_all is_digit cs" using assms(1) ds by auto
  note cf = digit_facts [OF c(1)]
  have cs: "list_all number_tail cs"
    using c(2) by (auto simp: list_all_iff digit_facts)
  have "scan_word (ds @ r) = (ds, r)"
    using cf cs assms(6)
    by (simp add: ds scan_word_def alphanumeric_not_special alphanumeric_not_comment
        alphanumeric_not_newline takeWhile_stop dropWhile_stop)
  moreover have "dropWhile is_whitespace (ds @ r) = ds @ r"
    using cf by (simp add: ds alphanumeric_not_space)
  ultimately have "read_word (replicate k (CHR '' '') @ ds @ r) = Inr (ds, r)"
    using assms(2,3) by (simp add: read_word_def dropWhile_blanks)
  moreover have "resolve_type lib ds False = (INTEGER, False)"
    using assms(1,4) cf by (simp add: ds resolve_type_def char_at_def alphanumeric_no_symbol number_lib_def)
  ultimately show ?thesis by (simp add: lex_step_def)
qed

lemma lex_step_minus:
  assumes "is_digit c"
  shows "lex_step lib esc (replicate k (CHR '' '') @ CHR ''-'' # c # s) False =
    Inr (k + 1, MINUS, False, ''-'', c # s)"
proof -
  have "\<not> is_complex (CHR ''-'' # c # s)"
    using assms by (auto simp: is_complex_def char_at_def is_digit_def)
  then have "scan_word (CHR ''-'' # c # s) = (''-'', c # s)"
    by (simp add: scan_word_def is_special_char_def)
  then have "read_word (replicate k (CHR '' '') @ CHR ''-'' # c # s) = Inr (''-'', c # s)"
    by (simp add: read_word_def dropWhile_blanks is_whitespace_def MAX_LINE_LEN_def)
  then show ?thesis
    by (simp add: lex_step_def resolve_type_def symbol_type_def char_at_def)
qed

lemma lex_step_string:
  assumes "read_string esc s = Inr (text, rest)"
  shows "lex_step lib esc (replicate k (CHR '' '') @ CHR 0x27 # s) False = Inr (k + 1, STR_T, False, text, rest)"
proof -
  have "\<not> is_complex (CHR 0x27 # s)"
    by (auto simp: is_complex_def char_at_def)
  then have "scan_word (CHR 0x27 # s) = ([CHR 0x27], s)"
    by (simp add: scan_word_def is_special_char_def)
  then have "read_word (replicate k (CHR '' '') @ CHR 0x27 # s) = Inr ([CHR 0x27], s)"
    by (simp add: read_word_def dropWhile_blanks is_whitespace_def MAX_LINE_LEN_def)
  then show ?thesis
    using assms by (simp add: lex_step_def resolve_type_def symbol_type_def char_at_def)
qed

lemma lex_step_comment:
  assumes "in_reach esc True s"
  obtains (longer) consumed t tx rest where "lex_step lib esc s True = Inr (consumed, t, True, tx, rest)"
      and "in_reach esc True rest" and "length rest < length s"
    | (finish) consumed where "lex_step lib esc s True = Inr (consumed, ENDLINE, False, [], line_end)"
proof -
  obtain consumed t ic tx rest where st: "lex_step lib esc s True = Inr (consumed, t, ic, tx, rest)"
    and reach: "in_reach esc ic rest"
    using lex_step_in_comment [OF assms, of lib] by blast
  show thesis
  proof (cases ic)
    case True
    with st have "consumed \<noteq> 0" by (auto dest: lex_step_comment_consumes)
    with st have "length rest < length s" by (rule lex_step_shorter)
    with st reach True show ?thesis by (intro longer) auto
  next
    case False
    obtain word rest0 where w: "read_word s = Inr (word, rest0)" and rt: "resolve_type lib word True = (t, ic)"
      and tx: "(ic \<or> t \<noteq> STR_T) \<and> tx = word \<and> rest = rest0 \<or>
         \<not> ic \<and> t = STR_T \<and> read_string esc rest0 = Inr (tx, rest)"
      using st by (rule lex_step_cases)
    have "word = []" using resolve_type_comment_iff [of lib word True] rt False by auto
    with rt tx have e: "t = ENDLINE" "tx = []" "rest = rest0" by (auto simp: resolve_type_def)
    have ct: "comment_tail s" and len: "length s < MAX_LINE_LEN" using assms by (auto simp: in_reach_def)
    have "rest0 = dropWhile is_whitespace s" using read_word_Inr [OF w] \<open>word = []\<close> by simp
    moreover have "scan_word (dropWhile is_whitespace s) = ([], rest0)"
      using w ct len read_word_reach(1) [of s] \<open>word = []\<close> by (auto simp: comment_tail_def)
    moreover have "dropWhile is_whitespace s \<noteq> []"
      using w ct by (auto simp: read_word_def comment_tail_def split: if_splits)
    ultimately have "rest0 = line_end"
      using scan_word_Nil comment_newline comment_tail_suffix [of "takeWhile is_whitespace s" rest0] ct
        takeWhile_dropWhile_id [of is_whitespace s] by (metis line_end_def)
    with st e False show ?thesis by (intro finish) auto
  qed
qed

text \<open>A comment up to the end of the line leaves one line-end token.\<close>

lemma lex_chars_comment:
  assumes "in_reach esc True s" and "q \<noteq> []" and "\<not> ends_in ENDLINE q" and "\<not> ends_in BSLASH q"
  shows "\<exists>e. tok_type e = ENDLINE \<and> lex_chars lib esc ln lines s True col q = Inr (0, q @ [e])"
  using assms(1)
proof (induction "length s" arbitrary: s col rule: less_induct)
  case less
  from less.prems show ?case
  proof (cases rule: lex_step_comment [where lib = lib])
    case (longer consumed t tx rest)
    then show ?thesis
      using less.hyps [of rest "col + int consumed"] by (subst lex_chars.simps) simp
  next
    case (finish consumed)
    have stop: "lex_chars lib esc ln lines line_end False c (q @ [token_create ENDLINE ln col' []]) =
        Inr (0, q @ [token_create ENDLINE ln col' []])" for c col'
      by (subst lex_chars.simps)
         (simp add: line_end_def lex_step_newline [simplified] enqueue_token_def)
    from finish assms(2-4) show ?thesis
      by (subst lex_chars.simps) (simp add: enqueue_token_def stop)
  qed
qed

lemma lex_chars_semicolon:
  assumes "comment_tail s" and "length s < MAX_LINE_LEN"
    and "q \<noteq> []" and "\<not> ends_in ENDLINE q" and "\<not> ends_in BSLASH q"
  shows "\<exists>e. tok_type e = ENDLINE \<and>
    lex_chars lib esc ln lines (replicate k (CHR '' '') @ CHR '';'' # s) False col q = Inr (0, q @ [e])"
proof -
  have "\<not> is_complex (CHR '';'' # s)"
    by (auto simp: is_complex_def char_at_def)
  then have "scan_word (CHR '';'' # s) = ('';'', s)"
    by (simp add: scan_word_def)
  then have "read_word (replicate k (CHR '' '') @ CHR '';'' # s) = Inr ('';'', s)"
    by (simp add: read_word_def dropWhile_blanks is_whitespace_def MAX_LINE_LEN_def)
  then have "lex_step lib esc (replicate k (CHR '' '') @ CHR '';'' # s) False = Inr (k + 1, SEMICOLON, True, '';'', s)"
    by (simp add: lex_step_def resolve_type_def symbol_type_def char_at_def)
  moreover have "in_reach esc True s" using assms by (simp add: in_reach_def)
  ultimately show ?thesis
    using lex_chars_comment [OF _ assms(3-5), of esc s lib ln lines "col + int (k + 1)"]
    by (subst lex_chars.simps) simp
qed

subsection \<open>The round trip of one instruction\<close>

text \<open>The operands whose text form is read back: identifiers, string literals without backslash and
  tab, and every \<open>int\<close> but the smallest.\<close>

definition readable :: "operand \<Rightarrow> bool" where
  "readable a = (case a of
     NoArg \<Rightarrow> True
   | IdArg x \<Rightarrow> is_identifier x
   | StrArg s \<Rightarrow> 2 \<le> length s \<and> hd s = CHR 0x27 \<and> last s = CHR 0x27 \<and>
       CHR 0x5C \<notin> set (butlast (tl s)) \<and> CHR 0x09 \<notin> set (butlast (tl s))
   | PrimArg v \<Rightarrow> (case v of PInt i \<Rightarrow> i \<noteq> 0x80000000 | _ \<Rightarrow> False))"

definition line_tail :: "nat \<Rightarrow> source_mapping \<Rightarrow> string" where
  "line_tail n sm = write_comment n sm @ line_end"

lemma dec_of_int_no_newline: "CHR 0x0A \<notin> set (dec_of_int i)"
  using dec_of_nat_digits [of "nat i"] dec_of_nat_digits [of "nat (- i)"]
  by (auto simp: dec_of_int_def is_digit_def)

lemma line_tail_cases:
  obtains (none) "line_tail n sm = line_end"
    | (comment) k c where "line_tail n sm = replicate k (CHR '' '') @ CHR '';'' # c" and "comment_tail c"
proof (cases "sm_col sm \<ge> 0 \<and> sm_line sm \<ge> 0")
  case True
  let ?c = "'' line='' @ dec_of_int (sm_line sm) @ '', col='' @ dec_of_int (sm_col sm)"
  have "comment_tail (?c @ line_end)"
    using dec_of_int_no_newline [of "sm_line sm"] dec_of_int_no_newline [of "sm_col sm"]
    by (simp add: comment_tail_def line_end_def butlast_append)
  moreover have "line_tail n sm = replicate (INSTRUCTION_COMMENT_LPAD - n) (CHR '' '') @ CHR '';'' # (?c @ line_end)"
    using True by (simp add: line_tail_def write_comment_def)
  ultimately show thesis by (rule comment [rotated])
next
  case False
  then show thesis by (intro none) (auto simp: line_tail_def write_comment_def)
qed

lemma line_tail_stops: "line_tail n sm \<noteq> []" "hd (line_tail n sm) \<in> {CHR '' '', CHR '';'', CHR 0x0A}"
proof -
  show "line_tail n sm \<noteq> []" by (simp add: line_tail_def line_end_def)
  show "hd (line_tail n sm) \<in> {CHR '' '', CHR '';'', CHR 0x0A}"
    by (cases rule: line_tail_cases [of n sm]) (auto simp: line_end_def hd_append split: nat.splits)
qed

lemma stops_line_tail: "stops_word (line_tail n sm)" "\<not> number_tail (hd (line_tail n sm))"
  using line_tail_stops [of n sm]
  by (auto simp: stops_word_def number_tail_def is_number_def is_numeric_def is_digit_def
      is_alphanumeric_def is_alphabetic_def)

lemma lex_line_tail:
  assumes "length (line_tail n sm) \<le> MAX_LINE_LEN" and "ty \<noteq> ENDLINE" and "ty \<noteq> BSLASH"
  shows "\<exists>e. tok_type e = ENDLINE \<and> lex_chars lib esc ln lines (line_tail n sm) False col
    (q @ [token_create ty l c text]) = Inr (0, q @ [token_create ty l c text, e])"
proof (cases rule: line_tail_cases [of n sm])
  case none
  then show ?thesis
    using lex_chars_end [of "q @ [token_create ty l c text]" lib esc ln lines col] assms(2,3) by auto
next
  case (comment k s)
  then show ?thesis
    using lex_chars_semicolon [of s "q @ [token_create ty l c text]" lib esc ln lines k col] assms by auto
qed

lemma lex_single:
  "lex_chars lib esc ln [] l False 0 [] = Inr (0, q) \<Longrightarrow> lex lib (lexer_init [(ln, l)] esc) = Inr q"
  by (subst lex.simps) (simp add: lex_line_def lexer_init_def)

lemma op_names_ok:
  "list_all (\<lambda>w. is_identifier w \<and> length w \<le> 4 \<and> w \<notin> {''class'', ''endclass'', ''field''}) op_strs"
  by code_simp

lemma op_name:
  assumes "op_to_str p = Inr w"
  shows "is_identifier w" "length w \<le> 4" "w \<noteq> ''class''" "w \<noteq> ''endclass''" "w \<noteq> ''field''"
proof -
  have "w \<in> set op_strs"
    using assms by (auto simp: op_to_str_iff dest!: map_of_SomeD set_zip_rightD)
  then show "is_identifier w" "length w \<le> 4" "w \<noteq> ''class''" "w \<noteq> ''endclass''" "w \<noteq> ''field''"
    using op_names_ok by (auto simp: list_all_iff)
qed

definition op_token :: "int \<Rightarrow> string \<Rightarrow> token" where
  "op_token ln w = token_create (word_type w) ln 2 w"

lemma lex_op:
  assumes "op_to_str p = Inr w" and "stops_word r"
  shows "lex_chars lib esc ln lines (''  '' @ w @ r) False 0 [] =
    lex_chars lib esc ln lines r False (2 + int (length w)) [op_token ln w]"
proof -
  note w = op_name [OF assms(1)]
  have "lex_step lib esc (replicate 2 (CHR '' '') @ w @ r) False = Inr (2 + length w, word_type w, False, w, r)"
    using w(1,2) assms(2) by (intro lex_step_identifier) (auto simp: MAX_LINE_LEN_def)
  then have "lex_step lib esc (''  '' @ w @ r) False = Inr (2 + length w, word_type w, False, w, r)"
    by (simp add: numeral_2_eq_2)
  from lex_chars_token [OF this, of ln lines 0 "[]"] show ?thesis
    by (simp add: op_token_def)
qed

lemma read_op_line:
  assumes "op_to_str p = Inr w"
  shows "tape_read_ins fo dv (op_token ln w # toks) t = read_op fo (op_token ln w) toks t"
proof -
  have "skip_ln (op_token ln w) toks = (Some (op_token ln w), toks)"
    by (cases toks) (simp_all add: op_token_def)
  then show ?thesis
    using op_name [OF assms] by (simp add: tape_read_ins_def next_token_skip_ln_def) (simp add: op_token_def)
qed

lemma read_op_no_arg:
  assumes "op_to_str p = Inr w" and "tok_type e = ENDLINE"
  shows "tape_read_ins fo dv (op_token ln w # e # rest) t = Inr (emit p NoArg (op_token ln w) t, e # rest)"
proof -
  have "str_to_op w = Inr p" using assms(1) by (simp add: str_to_op_inverse)
  with assms show ?thesis
    by (simp add: read_op_line [OF assms(1)] read_op_def peek_type_def q_peek_def tape_ins_no_arg_def)
       (simp add: op_token_def)
qed

lemma read_op_arg:
  assumes "op_to_str p = Inr w" and "tok_type a \<notin> {ENDLINE, POUND, MINUS}"
    and "tape_ins fo p a t = Inr (emit p v a t)"
  shows "tape_read_ins fo dv (op_token ln w # a # rest) t = Inr (emit p v a t, rest)"
proof -
  have "str_to_op w = Inr p" using assms(1) by (simp add: str_to_op_inverse)
  with assms show ?thesis
    by (simp add: read_op_line [OF assms(1)] read_op_def peek_type_def q_peek_def q_remove_def)
       (simp add: op_token_def)
qed

lemma read_op_neg:
  assumes "op_to_str p = Inr w" and "tok_type m = MINUS"
    and "tape_ins_neg fo p a t = Inr (emit p v a t)"
  shows "tape_read_ins fo dv (op_token ln w # m # a # rest) t = Inr (emit p v a t, rest)"
proof -
  have "str_to_op w = Inr p" using assms(1) by (simp add: str_to_op_inverse)
  with assms show ?thesis
    by (simp add: read_op_line [OF assms(1)] read_op_def peek_type_def q_peek_def q_remove_def)
       (simp add: op_token_def)
qed

lemma strtoll_dec:
  assumes "int n < 2 ^ 63"
  shows "strtoll (dec_of_nat n) = int n"
proof -
  obtain c cs where c: "dec_of_nat n = c # cs" by (cases "dec_of_nat n") auto
  with dec_of_nat_digits [of n] have "is_digit c" by simp
  then have "\<not> is_c_space c" "c \<noteq> CHR ''-''" "c \<noteq> CHR ''+''"
    by (auto simp: is_digit_def is_c_space_def)
  then show ?thesis
    using nat_of_dec_of_nat [of n] assms by (simp add: strtoll_def c clamp64_def)
qed

text \<open>A line lexes to tokens that the reader turns into one given instruction.\<close>

definition reads_back ::
  "fops \<Rightarrow> (string list \<Rightarrow> string list) \<Rightarrow> lexlib \<Rightarrow> int \<Rightarrow> string \<Rightarrow> instruction \<Rightarrow> bool" where
  "reads_back fo dv lib ln l ins \<longleftrightarrow>
     (\<exists>toks e tok. lex lib (lexer_init [(ln, l)] True) = Inr (toks @ [e]) \<and> tok_type e = ENDLINE \<and>
        (\<forall>t rest. tape_read_ins fo dv (toks @ e # rest) t =
           Inr (emit (ins_op ins) (ins_arg ins) tok t, e # rest)))"

lemma reads_backI:
  assumes "lex_chars lib True ln [] l False 0 [] = Inr (0, toks @ [e])" and "tok_type e = ENDLINE"
    and "\<And>t rest. tape_read_ins fo dv (toks @ e # rest) t =
      Inr (emit (ins_op ins) (ins_arg ins) tok t, e # rest)"
  shows "reads_back fo dv lib ln l ins"
  using assms lex_single unfolding reads_back_def by blast

lemma op_fmt_blanks:
  "op_fmt w @ r = ''  '' @ w @ replicate (6 - length w) (CHR '' '') @ r"
  by (simp add: op_fmt_def pad_right_def)

lemma stops_blanks: "0 < k \<Longrightarrow> stops_word (replicate k (CHR '' '') @ r)"
  by (cases k) (auto simp: stops_word_def space_not_alphanumeric)

text \<open>One argument token after the opcode.\<close>

lemma reads_back_arg:
  assumes w: "op_to_str p = Inr w"
    and step: "\<And>k. lex_step lib True (replicate k (CHR '' '') @ x @ line_tail n sm) False =
      Inr (k + c, ty, False, text, line_tail n sm)"
    and "0 < c" and len: "length (line_tail n sm) \<le> MAX_LINE_LEN"
    and ty: "ty \<notin> {ENDLINE, BSLASH, POUND, MINUS}"
    and ins: "\<And>l col t. tape_ins fo p (token_create ty l col text) t = Inr (emit p v (token_create ty l col text) t)"
  shows "reads_back fo dv lib ln (op_fmt w @ x @ line_tail n sm) \<lparr>ins_op = p, ins_arg = v\<rparr>"
proof -
  let ?k = "6 - length w" and ?col = "2 + int (length w)"
  let ?a = "token_create ty ln (?col + int (?k + c) - int (length text)) text"
  have k: "0 < ?k" using op_name(2) [OF w] by simp
  have "lex_chars lib True ln [] (op_fmt w @ x @ line_tail n sm) False 0 [] =
      lex_chars lib True ln [] (replicate ?k (CHR '' '') @ x @ line_tail n sm) False ?col [op_token ln w]"
    unfolding op_fmt_blanks by (rule lex_op [OF w]) (rule stops_blanks [OF k])
  also have "\<dots> = lex_chars lib True ln [] (line_tail n sm) False (?col + int (?k + c)) [op_token ln w, ?a]"
    using lex_chars_token [OF step, of ?k ln "[]" ?col "[op_token ln w]"] k ty \<open>0 < c\<close> by simp
  finally obtain e where e: "tok_type e = ENDLINE"
    "lex_chars lib True ln [] (op_fmt w @ x @ line_tail n sm) False 0 [] = Inr (0, [op_token ln w, ?a] @ [e])"
    using lex_line_tail [OF len, of ty lib True ln "[]" "?col + int (?k + c)" "[op_token ln w]" ln _ "text"] ty
    by auto
  show ?thesis
    by (rule reads_backI [OF e(2,1), of fo dv _ ?a])
       (use ty in \<open>simp add: read_op_arg [OF w _ ins]\<close>)
qed

lemma reads_back_no_arg:
  assumes w: "op_to_str p = Inr w" and len: "length (line_tail n sm) \<le> MAX_LINE_LEN"
  shows "reads_back fo dv lib ln (''  '' @ w @ line_tail n sm) \<lparr>ins_op = p, ins_arg = NoArg\<rparr>"
proof -
  have "lex_chars lib True ln [] (''  '' @ w @ line_tail n sm) False 0 [] =
      lex_chars lib True ln [] (line_tail n sm) False (2 + int (length w)) [op_token ln w]"
    by (rule lex_op [OF w stops_line_tail(1)])
  then obtain e where e: "tok_type e = ENDLINE"
    "lex_chars lib True ln [] (''  '' @ w @ line_tail n sm) False 0 [] = Inr (0, [op_token ln w] @ [e])"
    using lex_line_tail [OF len, of "word_type w" lib True ln "[]" _ "[]" ln 2 w]
    by (auto simp: op_token_def)
  show ?thesis
    by (rule reads_backI [OF e(2,1), of fo dv _ "op_token ln w"]) (simp add: read_op_no_arg [OF w e(1)])
qed

lemma reads_back_neg:
  assumes w: "op_to_str p = Inr w" and ds: "list_all is_digit ds" "ds \<noteq> []" "length ds < MAX_LINE_LEN"
    and lib: "number_lib lib" and len: "length (line_tail n sm) \<le> MAX_LINE_LEN"
    and ins: "\<And>l col t. tape_ins_neg fo p (token_create INTEGER l col ds) t = Inr (emit p v (token_create INTEGER l col ds) t)"
  shows "reads_back fo dv lib ln (op_fmt w @ CHR ''-'' # ds @ line_tail n sm) \<lparr>ins_op = p, ins_arg = v\<rparr>"
proof -
  let ?k = "6 - length w" and ?col = "2 + int (length w)"
  let ?m = "token_create MINUS ln (?col + int (?k + 1) - 1) ''-''"
  let ?c2 = "?col + int (?k + 1) + int (0 + length ds)"
  let ?a = "token_create INTEGER ln (?c2 - int (length ds)) ds"
  have k: "0 < ?k" using op_name(2) [OF w] by simp
  obtain d rest where d: "ds = d # rest" "is_digit d" using ds by (cases ds) auto
  have number: "lex_step lib True (replicate 0 (CHR '' '') @ ds @ line_tail n sm) False =
      Inr (0 + length ds, INTEGER, False, ds, line_tail n sm)"
    by (rule lex_step_number [OF ds lib line_tail_stops(1) stops_line_tail(2)])
  have "lex_chars lib True ln [] (op_fmt w @ CHR ''-'' # ds @ line_tail n sm) False 0 [] =
      lex_chars lib True ln [] (replicate ?k (CHR '' '') @ CHR ''-'' # ds @ line_tail n sm) False ?col [op_token ln w]"
    unfolding op_fmt_blanks by (rule lex_op [OF w]) (rule stops_blanks [OF k])
  also have "\<dots> = lex_chars lib True ln [] (ds @ line_tail n sm) False (?col + int (?k + 1)) [op_token ln w, ?m]"
    using lex_chars_token [OF lex_step_minus [OF d(2), of lib True ?k "rest @ line_tail n sm"], of ln "[]" ?col "[op_token ln w]"]
    by (simp add: d)
  also have "\<dots> = lex_chars lib True ln [] (line_tail n sm) False ?c2 [op_token ln w, ?m, ?a]"
    using lex_chars_token [OF number, of ln "[]" "?col + int (?k + 1)" "[op_token ln w, ?m]"] ds(2)
    by simp
  finally obtain e where e: "tok_type e = ENDLINE"
    "lex_chars lib True ln [] (op_fmt w @ CHR ''-'' # ds @ line_tail n sm) False 0 [] =
      Inr (0, [op_token ln w, ?m, ?a] @ [e])"
    using lex_line_tail [OF len, of INTEGER lib True ln "[]" ?c2 "[op_token ln w, ?m]" ln _ ds] by auto
  show ?thesis
    by (rule reads_backI [OF e(2,1), of fo dv _ ?a]) (simp add: read_op_neg [OF w _ ins])
qed

lemma reads_back_int:
  assumes w: "op_to_str p = Inr w" and i: "i \<noteq> 0x80000000"
    and lib: "number_lib lib" and len: "length (dec_of_int (sint i)) < MAX_LINE_LEN"
      "length (line_tail n sm) \<le> MAX_LINE_LEN"
  shows "reads_back fo dv lib ln (op_fmt w @ dec_of_int (sint i) @ line_tail n sm)
    \<lparr>ins_op = p, ins_arg = PrimArg (PInt i)\<rparr>"
proof (cases "sint i < 0")
  case False
  let ?ds = "dec_of_nat (nat (sint i))"
  have d: "dec_of_int (sint i) = ?ds" using False by (simp add: dec_of_int_def)
  have digits: "list_all is_digit ?ds" using dec_of_nat_digits by (simp add: list_all_iff)
  have "sint i < 2 ^ 63" using sint_range_size [of i] by (simp add: word_size)
  then have v: "word_of_int (strtoll ?ds) = i" using False by (simp add: strtoll_dec)
  show ?thesis
    unfolding d
    by (rule reads_back_arg [OF w lex_step_number [OF digits dec_of_nat_nonempty _ lib
            line_tail_stops(1) stops_line_tail(2)]])
       (use len d v in \<open>auto simp: tape_ins_def token_to_primitive_def\<close>)
next
  case True
  let ?ds = "dec_of_nat (nat (- sint i))"
  have d: "dec_of_int (sint i) = CHR ''-'' # ?ds" using True by (simp add: dec_of_int_def)
  have digits: "list_all is_digit ?ds" using dec_of_nat_digits by (simp add: list_all_iff)
  have r: "- sint i < 2 ^ 63" using sint_range_size [of i] by (simp add: word_size)
  have v: "word_of_int (strtoll ?ds) = - i" using True r by (simp add: strtoll_dec)
  have "- i \<noteq> 0x80000000"
  proof
    assume "- i = 0x80000000"
    then have "- (- i) = - 0x80000000" by simp
    with i show False by simp
  qed
  then show ?thesis
    unfolding d append_Cons
    by (intro reads_back_neg [OF w digits dec_of_nat_nonempty _ lib])
       (use len d v in \<open>auto simp: tape_ins_neg_def token_to_primitive_def primitive_int_def\<close>)
qed

lemma reads_back_id:
  assumes w: "op_to_str p = Inr w" and x: "is_identifier x" "length x < MAX_LINE_LEN"
    and len: "length (line_tail n sm) \<le> MAX_LINE_LEN"
  shows "reads_back fo dv lib ln (op_fmt w @ x @ line_tail n sm) \<lparr>ins_op = p, ins_arg = IdArg x\<rparr>"
  by (rule reads_back_arg [OF w lex_step_identifier [OF x(1) stops_line_tail(1) x(2)] _ len])
     (use x in \<open>auto simp: tape_ins_def is_identifier_def\<close>)

lemma length_escaped: "length s \<le> length (escaped s)"
  by (induction s) (auto simp: escaped_def escaped_char_def)

lemma escaped_append: "escaped (s @ t) = escaped s @ escaped t"
  by (simp add: escaped_def)

lemma reads_back_str:
  assumes w: "op_to_str p = Inr w" and "CHR 0x5C \<notin> set s" and "CHR 0x09 \<notin> set s"
    and "length s + 2 < MAX_LINE_LEN" and len: "length (line_tail n sm) \<le> MAX_LINE_LEN"
  shows "reads_back fo dv lib ln (op_fmt w @ CHR 0x27 # escaped s @ CHR 0x27 # line_tail n sm)
    \<lparr>ins_op = p, ins_arg = StrArg (CHR 0x27 # s @ [CHR 0x27])\<rparr>"
proof -
  have "read_string True (escaped s @ CHR 0x27 # line_tail n sm) =
      Inr (CHR 0x27 # s @ [CHR 0x27], line_tail n sm)"
    using assms(2-4) by (simp add: read_string_def read_escaped)
  from lex_step_string [OF this]
  have step: "lex_step lib True (replicate k (CHR '' '') @ (CHR 0x27 # escaped s @ [CHR 0x27]) @ line_tail n sm) False =
      Inr (k + 1, STR_T, False, CHR 0x27 # s @ [CHR 0x27], line_tail n sm)" for k
    by simp
  show ?thesis
    using reads_back_arg [OF w step _ len, of fo "StrArg (CHR 0x27 # s @ [CHR 0x27])" dv ln]
    by (simp add: tape_ins_def)
qed


lemma std_number_lib: "number_lib std_lexlib"
proof -
  have "\<not> ends_with std_lexlib ds ''f''" if "list_all is_digit ds" for ds
  proof
    assume "ends_with std_lexlib ds ''f''"
    then have "drop (length ds - 1) ds = ''f''" by (simp add: std_lexlib_def)
    then have "CHR ''f'' \<in> set ds" by (metis in_set_dropD list.set_intros(1))
    with that show False by (auto simp: list_all_iff is_digit_def)
  qed
  moreover have "\<not> contains_char std_lexlib ds (CHR ''.'')" if "list_all is_digit ds" for ds
    using that by (auto simp: std_lexlib_def list_all_iff is_digit_def)
  ultimately show ?thesis by (simp add: number_lib_def)
qed


subsection \<open>What the text form loses\<close>

lemma label_clash_wf:
  assumes "wf_tape t" and "tape_start_func name is_async t = Inr t'"
  shows "tape_start_func name b t' = Inl (Fatal ''a function by that name already exists'')"
  using assms
  by (auto simp: tape_start_func_def tape_start_func_at_index_def Let_def split: option.splits if_splits)

lemma tape_start_func_Inl:
  assumes "wf_tape t" and "tape_start_func name is_async t = Inl e"
  shows "e = Fatal ''a function by that name already exists''"
  using assms
  by (auto simp: tape_start_func_def tape_start_func_at_index_def wf_tape_def Let_def kl_lookup_None_iff
      split: option.splits if_splits)

text \<open>The reader cannot read an asynchronous function: for every tape with consistent tables,
  every function name and whatever follows, the tokens of a line "@name:async" stop the program,
  because \<open>tape_read_ins\<close> (program/tape.c) adds the asynchronous label and then falls through to adding
  the plain label of the same name.\<close>

theorem tape_read_async_fails:
  assumes "wf_tape t" and "tok_type at = AT" and "tok_type colon = COLON"
    and "tok_text async = ''async''" and "tok_type nl = ENDLINE"
  shows "tape_read_ins fo dv (at # name # colon # async # nl # rest) t =
    Inl (Fatal ''a function by that name already exists'')"
proof -
  have s: "tape_read_ins fo dv (at # name # colon # async # nl # rest) t =
      read_label (name # colon # async # nl # rest) t"
    using assms(2) by (simp add: tape_read_ins_def next_token_skip_ln_def)
  show ?thesis
  proof (cases "tape_start_func (tok_text name) True t")
    case (Inl e)
    with tape_start_func_Inl [OF assms(1) Inl] assms show ?thesis
      by (simp add: s read_label_def q_remove_def peek_type_def q_peek_def tape_label_async_def)
  next
    case (Inr t')
    with label_clash_wf [OF assms(1) Inr, of False] assms show ?thesis
      by (simp add: s read_label_def q_remove_def peek_type_def q_peek_def tape_label_async_def
          tape_label_def)
  qed
qed

theorem tape_read_async_fails_witness:
  "tape_read_ins int_fops rev
     [token_create AT 1 0 ''@'', token_create WORD 1 1 ''f'', token_create COLON 1 2 '':'',
      token_create ASYNC 1 3 ''async'', token_create ENDLINE 1 8 []] tape_create =
   Inl (Fatal ''a function by that name already exists'')"
  by (rule tape_read_async_fails) (simp_all add: wf_tape_def tape_create_def)

text \<open>Forgetting which functions are asynchronous and which classes a class extends.\<close>

definition forget_func :: "function_ref \<Rightarrow> function_ref" where
  "forget_func f = f\<lparr>fref_async := False\<rparr>"

definition forget_class :: "class_ref \<Rightarrow> class_ref" where
  "forget_class c = c\<lparr>cref_funcs := kl_map forget_func (cref_funcs c), cref_supers := []\<rparr>"

definition forget :: "tape \<Rightarrow> tape" where
  "forget t = t\<lparr>t_func_refs := kl_map forget_func (t_func_refs t),
                t_class_refs := kl_map forget_class (t_class_refs t)\<rparr>"

definition forget_ws :: "write_state \<Rightarrow> write_state" where
  "forget_ws w = w\<lparr>ws_cls := List.map forget_class (ws_cls w), ws_funcs := List.map forget_func (ws_funcs w),
                   ws_cls_funcs := List.map forget_func (ws_cls_funcs w)\<rparr>"

lemma kl_values_map: "kl_values (kl_map f kl) = List.map f (kl_values kl)"
  by (induction kl) auto

lemma forget_ws_simps [simp]:
  "ws_cls (forget_ws w) = List.map forget_class (ws_cls w)"
  "ws_funcs (forget_ws w) = List.map forget_func (ws_funcs w)"
  "ws_cls_funcs (forget_ws w) = List.map forget_func (ws_cls_funcs w)"
  "ws_in_class (forget_ws w) = ws_in_class w" "ws_out (forget_ws w) = ws_out w"
  by (simp_all add: forget_ws_def)

lemma forget_class_simps [simp]:
  "cref_name (forget_class c) = cref_name c" "cref_start (forget_class c) = cref_start c"
  "cref_end (forget_class c) = cref_end c" "cref_fields (forget_class c) = cref_fields c"
  "cref_funcs (forget_class c) = kl_map forget_func (cref_funcs c)"
  "fref_name (forget_func f) = fref_name f" "fref_index (forget_func f) = fref_index f"
  by (simp_all add: forget_class_def forget_func_def)

lemma print_forget: "print s (forget_ws w) = forget_ws (print s w)"
  by (simp add: print_def forget_ws_def)

lemma fold_print_forget: "fold (\<lambda>f. print (g f)) xs (forget_ws w) = forget_ws (fold (\<lambda>f. print (g f)) xs w)"
  by (induction xs arbitrary: w) (simp_all add: print_forget)

lemma write_class_end_forget: "write_class_end i (forget_ws w) = forget_ws (write_class_end i w)"
  by (cases "ws_cls w") (auto simp: write_class_end_def print_def forget_ws_def)

lemma write_class_start_forget: "write_class_start i (forget_ws w) = forget_ws (write_class_start i w)"
proof (cases "ws_cls w")
  case Nil
  then show ?thesis by (simp add: write_class_start_def)
next
  case (Cons c cs)
  let ?u = "(print (''class '' @ cref_name c @ line_end) w)\<lparr>ws_in_class := True,
    ws_cls_funcs := kl_values (cref_funcs c)\<rparr>"
  have "forget_ws ?u = (print (''class '' @ cref_name c @ line_end) (forget_ws w))\<lparr>ws_in_class := True,
    ws_cls_funcs := List.map forget_func (kl_values (cref_funcs c))\<rparr>"
    by (simp add: forget_ws_def print_def)
  with Cons show ?thesis
    by (simp add: write_class_start_def kl_values_map flip: fold_print_forget)
qed

lemma write_label_forget: "write_label i (forget_ws w) = forget_ws (write_label i w)"
  by (cases "ws_funcs w"; cases "ws_cls_funcs w")
     (auto simp: write_label_def print_def forget_ws_def)

lemma write_step_forget:
  "write_step fo (forget t) i (forget_ws w) = andThen (write_step fo t i w) (\<lambda>w. Inr (forget_ws w))"
proof -
  have "t_ins (forget t) = t_ins t" "t_source_map (forget t) = t_source_map t"
    by (simp_all add: forget_def)
  then show ?thesis
    by (simp add: write_step_def write_class_end_forget write_class_start_forget write_label_forget
        write_instruction_line_def tape_size_def print_forget andThen_assoc)
qed

lemma foldRes_forget:
  "foldRes (write_step fo (forget t)) is (forget_ws w) =
   andThen (foldRes (write_step fo t) is w) (\<lambda>w. Inr (forget_ws w))"
proof (induction "is" arbitrary: w)
  case Nil
  then show ?case by simp
next
  case (Cons i xs)
  then show ?case by (cases "write_step fo t i w") (simp_all add: write_step_forget)
qed

text \<open>The text form of a tape loses which functions are asynchronous and which classes a class
  extends: \<open>tape_write\<close> (program/tape.c) prints the same text for a tape and for that tape with all of
  this removed.\<close>

theorem tape_write_forgets: "tape_write fo (forget t) = tape_write fo t"
proof -
  let ?w = "\<lambda>h. \<lparr>ws_cls = kl_values (t_class_refs t), ws_funcs = kl_values (t_func_refs t),
    ws_cls_funcs = [], ws_in_class = False, ws_out = h\<rparr>"
  have w: "\<lparr>ws_cls = List.map forget_class (kl_values (t_class_refs t)),
      ws_funcs = List.map forget_func (kl_values (t_func_refs t)),
      ws_cls_funcs = [], ws_in_class = False, ws_out = h\<rparr> = forget_ws (?w h)" for h
    by (simp add: forget_ws_def)
  have t: "t_module_name (forget t) = t_module_name t" "tape_size (forget t) = tape_size t"
    "t_class_refs (forget t) = kl_map forget_class (t_class_refs t)"
    "t_func_refs (forget t) = kl_map forget_func (t_func_refs t)"
    by (simp_all add: forget_def tape_size_def)
  show ?thesis
    unfolding tape_write_def t kl_values_map Let_def w foldRes_forget
    by (simp add: andThen_assoc)
qed

end
