(* ===== verification/Trees.thy ===== *)
theory Trees imports Parser begin

text \<open>
  The expression trees of \<open>lang/semantics/expressions\<close> (the structs the \<open>DefineExpression\<close>s declare), and the
  macros that walk a syntax tree. The parts of an expression are types over the expressions in them, so that an
  expression tree is a datatype nested through them. A flag that says whether another field is
  set is that field's \<open>option\<close>; list lengths are not stored.
\<close>

subsection \<open>Walking a syntax tree\<close>

text \<open>A missing child or token is \<open>NULL\<close>, and reading through it undefined. A token that may be
  \<open>NULL\<close> is read where it is stored.\<close>

datatype side = F | S

fun child :: "side \<Rightarrow> syntax_tree \<Rightarrow> syntax_tree res" where
  "child F (NodeTree a b x) = Inr a"
| "child S (NodeTree a b x) = Inr b"
| "child d t = Inl (UB ''NULL child of a syntax tree'')"

definition at :: "side list \<Rightarrow> syntax_tree \<Rightarrow> syntax_tree res" where
  "at p t = foldRes child p t"

fun leaf_token :: "syntax_tree \<Rightarrow> token res" where
  "leaf_token (TokTree t x) = Inr t"
| "leaf_token t = Inl (UB ''NULL token of a syntax tree'')"

definition tok_at :: "side list \<Rightarrow> syntax_tree \<Rightarrow> token res" where
  "tok_at p t = andThen (at p t) leaf_token"

(* src/lang/semantics/expression_macros.h IS_LEAF *)
fun is_leaf :: "syntax_tree \<Rightarrow> bool" where
  "is_leaf (TokTree t x) = True"
| "is_leaf t = False"

(* src/lang/semantics/expression_macros.h IS_TOKEN *)
fun is_token :: "token_type \<Rightarrow> syntax_tree \<Rightarrow> bool" where
  "is_token ty (TokTree t x) = (tok_type t = ty)"
| "is_token ty t = False"

(* src/lang/semantics/expression_macros.h IS_SYNTAX *)
definition is_syntax :: "nonterm \<Rightarrow> syntax_tree \<Rightarrow> bool" where
  "is_syntax x t = (expression_of t = Some x)"

definition leaf_at :: "side list \<Rightarrow> syntax_tree \<Rightarrow> bool res" where
  "leaf_at p t = andThen (at p t) (\<lambda>s. Inr (is_leaf s))"

definition token_at :: "side list \<Rightarrow> token_type \<Rightarrow> syntax_tree \<Rightarrow> bool res" where
  "token_at p ty t = andThen (at p t) (\<lambda>s. Inr (is_token ty s))"

definition syntax_at :: "side list \<Rightarrow> nonterm \<Rightarrow> syntax_tree \<Rightarrow> bool res" where
  "syntax_at p x t = andThen (at p t) (\<lambda>s. Inr (is_syntax x s))"

text \<open>\<open>ASSERT\<close> of a condition that walks the tree, and \<open>&&\<close> of two.\<close>

definition require :: "bool res \<Rightarrow> 'a res \<Rightarrow> 'a res" where
  "require c r = andThen c (\<lambda>b. if b then r else Inl (Fatal ''ASSERT''))"

definition both :: "bool res \<Rightarrow> bool res \<Rightarrow> bool res" where
  "both a b = andThen a (\<lambda>x. if x then b else Inr False)"

definition branch :: "bool res \<Rightarrow> 'a res \<Rightarrow> 'a res \<Rightarrow> 'a res" where
  "branch c r s = andThen c (\<lambda>b. if b then r else s)"

(* src/lang/semantics/expression_macros.h IS_TOKEN2 *)
definition is_token2 :: "token_type \<Rightarrow> token_type \<Rightarrow> syntax_tree \<Rightarrow> bool res" where
  "is_token2 a b t = (if is_leaf t then Inr False else both (token_at [F] a t) (token_at [S] b t))"

(* src/lang/semantics/expression_macros.h IS_TOKEN3 *)
definition is_token3 :: "token_type \<Rightarrow> token_type \<Rightarrow> token_type \<Rightarrow> syntax_tree \<Rightarrow> bool res" where
  "is_token3 a b c t = (if is_leaf t then Inr False else both (token_at [F] a t)
     (andThen (at [S] t) (is_token2 b c)))"

subsection \<open>Parts of expressions\<close>

(* src/lang/semantics/expressions/postfix.h [7-23] Postfix *)
datatype 'e postfix =
    Postfix_field token token
  | Postfix_fncall token "'e option"
  | Postfix_array_index token "'e option"
  | Postfix_increment token
  | Postfix_decrement token

(* src/lang/semantics/expressions/assignment.h [13-39] Assignment *)
datatype 'e assignment =
    SingleAssignment_var token "token option"
  | SingleAssignment_complex 'e "'e postfix list"
  | Assignment_array "'e assignment list"
  | Assignment_tuple "'e assignment list"

(* src/lang/semantics/expressions/files.h [14-20] Argument *)
datatype 'e argument = Argument
  (const_token: "token option") (field_token: "token option") (arg_name: token) (default_value: "'e option")

(* src/lang/semantics/expressions/files.h [22-26] Arguments *)
datatype 'e arguments = Arguments
  (args_token: token) (count_required: nat) (count_optional: nat) (args: "'e argument list")

(* src/lang/semantics/expressions/files.h [28-33] Annotation *)
datatype 'e annotation = Annotation
  (annot_prefix: "token option") (annot_class_name: "token option") (is_called: bool) (args_tuple: "'e option")

(* src/lang/semantics/expressions/files.h [35-41] SpecialMethod *)
datatype special_method =
    SpecialMethod_NONE | SpecialMethod_EQUIV | SpecialMethod_NEQUIV | SpecialMethod_ARRAY_INDEX
  | SpecialMethod_ARRAY_SET

text \<open>\<open>is_async\<close> is \<open>None\<close> while it is not initialised.\<close>

(* src/lang/semantics/expressions/files.h [43-51] FunctionDef *)
datatype 'e function_def = FunctionDef
  (def_token: token) (fn_name: "token option") (special: special_method) (fn_const: "token option")
  (is_async: "bool option") (fn_args: "'e arguments option") (fn_body: 'e)

(* src/lang/semantics/expressions/classes.h [16-37] ClassDef *)
datatype 'e class_def = ClassDef
  (class_token: token) (parent_classes_of: "token list") (fields_of: "token list")
  (constructor: "'e function_def option") (annot: "'e annotation option") (methods: "'e function_def list")

(* src/lang/semantics/expressions/files.h [80-97] ModuleDef *)
datatype 'e module_def = ModuleDef
  (mod_name: "(token \<times> token) option") (mod_imports: "(token \<times> token) list") (mod_classes: "'e class_def list")
  (mod_functions: "'e function_def list") (mod_statements: "'e list")

text \<open>There is at least one condition.\<close>

(* src/lang/semantics/expressions/statements.h [15-24] IfElse *)
datatype 'e if_else = IfElse
  (first_condition: "token \<times> 'e \<times> 'e") (more_conditions: "(token \<times> 'e \<times> 'e) list") (else_exp: "'e option")

definition conditions :: "'e if_else \<Rightarrow> (token \<times> 'e \<times> 'e) list" where
  "conditions ie = first_condition ie # more_conditions ie"

(* src/lang/semantics/expressions/expression.h [68-75] UnaryType *)
datatype unary_type = Unary_not | Unary_notc | Unary_negate | Unary_const | Unary_await

(* src/lang/semantics/expressions/expression.h [83-107] BiType *)
datatype bi_type =
    Mult_mult | Mult_div | Mult_mod | Add_add | Add_sub | Rel_lt | Rel_gt | Rel_lte | Rel_gte | Rel_eq | Rel_neq
  | And_and | And_or | Bin_and | Bin_xor | Bin_or

(* src/lang/semantics/expressions/expression.h [109-113] BiSuffix *)
datatype 'e bi_suffix = BiSuffix (bi_token: token) (bi_type_of: bi_type) (bi_exp: 'e)

text \<open>The nine expressions that \<open>BiDefineExpression\<close> declares.\<close>

(* src/lang/semantics/expressions/expression.h [115-129] BiDefineExpression *)
datatype bi_kind =
    Multiplicative | Additive | Relational | Equality | And_kind | Or_kind | Binary_and | Binary_xor | Binary_or

(* src/lang/semantics/expression_tree.h [17-57] ExpressionTree *)
datatype expression_tree =
    Identifier token
  | Constant token primitive
  | String_literal token
  | Tuple_expression token "expression_tree list"
  | Array_declaration token "expression_tree option"
  | Map_declaration token token "(token \<times> expression_tree \<times> expression_tree) list"
  | Primary_expression token expression_tree
  | Primary_expression_no_constants token expression_tree
  | Postfix_expression expression_tree "expression_tree postfix list"
  | Range_expression token expression_tree expression_tree "expression_tree option"
  | Unary_expression token unary_type expression_tree
  | Bi_expression bi_kind expression_tree "expression_tree bi_suffix list"
  | In_expression token bool expression_tree expression_tree
  | Is_expression token expression_tree expression_tree
  | Conditional_expression "expression_tree if_else"
  | Anon_function_definition "expression_tree function_def"
  | Assignment_expression token "expression_tree assignment" expression_tree
  | Foreach_statement token token "expression_tree assignment" expression_tree expression_tree
  | For_statement token expression_tree expression_tree expression_tree expression_tree
  | While_statement token expression_tree expression_tree
  | Compound_statement "expression_tree list"
  | Try_statement token token expression_tree "expression_tree assignment" expression_tree
  | Raise_statement token expression_tree
  | Selection_statement "expression_tree if_else"
  | Jump_statement token "expression_tree option"
  | Break_statement token bool
  | Exit_statement token
  | File_level_statement_list "expression_tree module_def"

end
