(* ===== verification/Populate.thy ===== *)
theory Populate imports Trees begin

text \<open>
  The \<open>ImplPopulate\<close>s of \<open>lang/semantics/expressions\<close>: from syntax trees to expression trees. Each takes
  \<open>pop\<close>, the \<open>populate_expression\<close> for the trees below it; \<open>populate_expression\<close> closes the recursion.
\<close>

type_synonym populator = "syntax_tree \<Rightarrow> expression_tree res"

definition pop_at :: "populator \<Rightarrow> side list \<Rightarrow> populator" where
  "pop_at pop p t = andThen (at p t) pop"

subsection \<open>Termination of the loops\<close>

lemma andThen_cong [fundef_cong]:
  "m = m' \<Longrightarrow> (\<And>x. m' = Inr x \<Longrightarrow> f x = f' x) \<Longrightarrow> andThen m f = andThen m' f'"
  by (cases m') auto

lemma branch_cong [fundef_cong]:
  "c = c' \<Longrightarrow> (c' = Inr True \<Longrightarrow> r = r') \<Longrightarrow> (c' = Inr False \<Longrightarrow> s = s') \<Longrightarrow> branch c r s = branch c' r' s'"
  by (cases c') (auto simp: branch_def)

lemma require_cong [fundef_cong]:
  "c = c' \<Longrightarrow> (c' = Inr True \<Longrightarrow> r = r') \<Longrightarrow> require c r = require c' r'"
  by (cases c') (auto simp: require_def)

lemma child_size: "child d t = Inr s \<Longrightarrow> size s < size t"
  by (cases t; cases d) auto

lemma at_Nil [simp]: "at [] t = Inr t"
  by (simp add: at_def)

lemma at_Cons: "at (d # p) t = andThen (child d t) (\<lambda>s. at p s)"
  by (simp add: at_def)

lemma at_size_le: "at p t = Inr s \<Longrightarrow> size s \<le> size t"
  by (induction p arbitrary: t) (fastforce simp: at_Cons andThen_eq_Inr dest: child_size)+

lemma at_size [termination_simp]: "at (d # p) t = Inr s \<Longrightarrow> size s < size t"
  by (auto simp: at_Cons andThen_eq_Inr dest!: child_size at_size_le)

lemma at_size_path: "at p t = Inr s \<Longrightarrow> p \<noteq> [] \<Longrightarrow> size s < size t"
  by (cases p) (auto simp: at_size)

subsection \<open>Primary expressions\<close>

(* src/lang/semantics/expressions/expression.c [28-30] Populate_identifier *)
definition populate_identifier :: populator where
  "populate_identifier t = andThen (leaf_token t) (\<lambda>tok. Inr (Identifier tok))"

(* src/lang/semantics/expressions/expression.c [43-46] Populate_constant *)
definition populate_constant :: "fops \<Rightarrow> populator" where
  "populate_constant fo t = andThen (leaf_token t) (\<lambda>tok.
     andThen (token_to_primitive fo tok) (\<lambda>v. Inr (Constant tok v)))"

(* src/lang/semantics/expressions/expression.c [54-57] Populate_string_literal *)
definition populate_string_literal :: populator where
  "populate_string_literal t = andThen (leaf_token t) (\<lambda>tok. Inr (String_literal tok))"

text \<open>The elements after the first: \<open>t\<close> is the variable \<open>tuple1\<close>.\<close>

(* src/lang/semantics/expressions/expression.c [69-81] Populate_tuple_expression *)
function tuple_elements :: "populator \<Rightarrow> syntax_tree \<Rightarrow> expression_tree list res" where
  "tuple_elements pop t =
     (if \<not> is_syntax (Assign tuple_expression1) t then Inl (Fatal ''Expected tuple_expression1 for tuple1'')
      else andThen (at [S] t) (\<lambda>s.
        branch (if is_leaf s then Inr False else syntax_at [S] (Assign tuple_expression1) s)
          (andThen (pop_at pop [F] s) (\<lambda>e. andThen (at [S, S] t) (\<lambda>t'.
             andThen (tuple_elements pop t') (\<lambda>es. Inr (e # es)))))
          (andThen (pop s) (\<lambda>e. Inr [e]))))"
  by pat_completeness auto
termination
  by (relation "measure (size \<circ> snd)") (auto simp: termination_simp)

declare tuple_elements.simps [simp del]

(* src/lang/semantics/expressions/expression.c [65-82] Populate_tuple_expression *)
definition populate_tuple_expression :: "populator \<Rightarrow> populator" where
  "populate_tuple_expression pop t = andThen (tok_at [S, F] t) (\<lambda>tok.
     andThen (pop_at pop [F] t) (\<lambda>e. andThen (at [S] t) (\<lambda>t1.
     andThen (tuple_elements pop t1) (\<lambda>es. Inr (Tuple_expression tok (e # es))))))"

(* src/lang/semantics/expressions/expression.c [111-122] Populate_array_declaration *)
definition populate_array_declaration :: "populator \<Rightarrow> populator" where
  "populate_array_declaration pop t = andThen (tok_at [F] t) (\<lambda>tok.
     branch (leaf_at [S] t) (Inr (Array_declaration tok None))
       (andThen (pop_at pop [S, F] t) (\<lambda>e. Inr (Array_declaration tok (Some e)))))"

(* src/lang/semantics/expressions/expression.c [148-156] Populate_primary_expression *)
definition populate_primary_expression :: "populator \<Rightarrow> populator" where
  "populate_primary_expression pop t = branch (token_at [F] LPAREN t)
     (andThen (tok_at [F] t) (\<lambda>tok. andThen (pop_at pop [S, F] t) (\<lambda>e. Inr (Primary_expression tok e))))
     (Inl (Fatal ''Unknown primary_expression.''))"

(* src/lang/semantics/expressions/expression.c [158-167] Populate_primary_expression_no_constants *)
definition populate_primary_expression_no_constants :: "populator \<Rightarrow> populator" where
  "populate_primary_expression_no_constants pop t = branch (token_at [F] LPAREN t)
     (andThen (tok_at [F] t) (\<lambda>tok. andThen (pop_at pop [S, F] t) (\<lambda>e.
        Inr (Primary_expression_no_constants tok e))))
     (Inl (Fatal ''Unknown primary_expression_no_constants.''))"

subsection \<open>Postfix expressions\<close>

(* src/lang/semantics/expressions/expression.c postfix_increment *)
definition postfix_increment :: "token \<Rightarrow> expression_tree postfix" where
  "postfix_increment tok =
     (if tok_type tok = INCREMENT then Postfix_increment tok else Postfix_decrement tok)"

text \<open>\<open>postfix_period\<close> and \<open>postfix_surround_helper\<close> call \<open>postfix_helper\<close> and are written into it; the second
  is called for calls and for indices.\<close>

(* src/lang/semantics/expressions/expression.c [183-274] postfix_helper *)
function postfix_helper :: "populator \<Rightarrow> syntax_tree \<Rightarrow> expression_tree postfix list res" where
  "postfix_helper pop t =
     (if is_leaf t
      then if is_token INCREMENT t \<or> is_token DECREMENT t
           then andThen (leaf_token t) (\<lambda>tok. Inr [postfix_increment tok])
           else Inl (Fatal ''Unknown leaf postfix.'')
      else andThen (tok_at [F] t) (\<lambda>tok.
        if tok_type tok = PERIOD then
          andThen (at [S] t) (\<lambda>tail.
            if is_syntax (Expr identifier_nt) tail \<or> is_token NEW tail
            then andThen (leaf_token tail) (\<lambda>id. Inr [Postfix_field tok id])
            else require (Inr (\<not> is_leaf tail)) (andThen (tok_at [F] tail) (\<lambda>id.
              andThen (at [S, S] t) (\<lambda>u. andThen (postfix_helper pop u) (\<lambda>ps.
                Inr (Postfix_field tok id # ps))))))
        else if tok_type tok = LPAREN \<or> tok_type tok = LBRAC then
          (let mk = (if tok_type tok = LPAREN then Postfix_fncall tok else Postfix_array_index tok);
               closer = (if tok_type tok = LPAREN then RPAREN else RBRAC)
           in branch (token_at [S] closer t) (Inr [mk None])
             (branch (both (andThen (leaf_at [S] t) (\<lambda>b. Inr (\<not> b))) (token_at [S, F] closer t))
               (andThen (at [S, S] t) (\<lambda>u. andThen (postfix_helper pop u) (\<lambda>ps. Inr (mk None # ps))))
               (andThen (pop_at pop [S, F] t) (\<lambda>e.
                 branch (token_at [S, S] closer t) (Inr [mk (Some e)])
                   (require (token_at [S, S, F] closer t) (andThen (at [S, S, S] t) (\<lambda>u.
                      andThen (postfix_helper pop u) (\<lambda>ps. Inr (mk (Some e) # ps)))))))))
        else if tok_type tok = INCREMENT \<or> tok_type tok = DECREMENT then
          andThen (at [S] t) (\<lambda>u. andThen (postfix_helper pop u) (\<lambda>ps.
            Inr (postfix_increment tok # ps)))
        else Inl (Fatal ''Unknown postfix.'')))"
  by pat_completeness auto
termination
  by (relation "measure (size \<circ> snd)") (auto simp: termination_simp)

declare postfix_helper.simps [simp del]

(* src/lang/semantics/expressions/expression.c [276-282] Populate_postfix_expression *)
definition populate_postfix_expression :: "populator \<Rightarrow> populator" where
  "populate_postfix_expression pop t = andThen (pop_at pop [F] t) (\<lambda>prefix.
     andThen (at [S] t) (\<lambda>s. andThen (postfix_helper pop s) (\<lambda>ps. Inr (Postfix_expression prefix ps))))"

subsection \<open>Operators\<close>

(* src/lang/semantics/expressions/expression.c [352-369] Populate_range_expression *)
definition populate_range_expression :: "populator \<Rightarrow> populator" where
  "populate_range_expression pop t = andThen (pop_at pop [F] t) (\<lambda>start.
     require (token_at [S, F] COLON t) (andThen (tok_at [S, F] t) (\<lambda>tok.
     andThen (at [S, S] t) (\<lambda>after.
       branch (if is_leaf after then Inr False else
               andThen (leaf_at [S] after) (\<lambda>b. if b then Inr False else token_at [S, F] COLON after))
         (andThen (pop_at pop [F] after) (\<lambda>inc. andThen (pop_at pop [S, S] after) (\<lambda>last.
            Inr (Range_expression tok start last (Some inc)))))
         (andThen (pop after) (\<lambda>last. Inr (Range_expression tok start last None)))))))"

(* src/lang/semantics/expressions/expression.c unary_token_to_type *)
definition unary_token_to_type :: "token \<Rightarrow> unary_type res" where
  "unary_token_to_type tok = (case tok_type tok of
     TILDE \<Rightarrow> Inr Unary_not | EXCLAIM \<Rightarrow> Inr Unary_notc | MINUS \<Rightarrow> Inr Unary_negate
   | CONST_T \<Rightarrow> Inr Unary_const | AWAIT \<Rightarrow> Inr Unary_await | _ \<Rightarrow> Inl (Fatal ''Unknown unary''))"

(* src/lang/semantics/expressions/expression.c [415-420] Populate_unary_expression *)
definition populate_unary_expression :: "populator \<Rightarrow> populator" where
  "populate_unary_expression pop t = require (leaf_at [F] t) (andThen (tok_at [F] t) (\<lambda>tok.
     andThen (unary_token_to_type tok) (\<lambda>ty. andThen (pop_at pop [S] t) (\<lambda>e.
       Inr (Unary_expression tok ty e)))))"

(* src/lang/semantics/expressions/expression.c relational_type_for_token *)
definition relational_type_for_token :: "token \<Rightarrow> bi_type res" where
  "relational_type_for_token tok = (case tok_type tok of
     STAR \<Rightarrow> Inr Mult_mult | FSLASH \<Rightarrow> Inr Mult_div | PERCENT \<Rightarrow> Inr Mult_mod | PLUS \<Rightarrow> Inr Add_add
   | MINUS \<Rightarrow> Inr Add_sub | LTHAN \<Rightarrow> Inr Rel_lt | GTHAN \<Rightarrow> Inr Rel_gt | LTHANEQ \<Rightarrow> Inr Rel_lte
   | GTHANEQ \<Rightarrow> Inr Rel_gte | EQUIV \<Rightarrow> Inr Rel_eq | NEQUIV \<Rightarrow> Inr Rel_neq | AND_T \<Rightarrow> Inr And_and
   | OR_T \<Rightarrow> Inr And_or | AMPER \<Rightarrow> Inr Bin_and | CARET \<Rightarrow> Inr Bin_xor | PIPE \<Rightarrow> Inr Bin_or
   | _ \<Rightarrow> Inl (Fatal ''Unknown type''))"

fun bi_nonterms :: "bi_kind \<Rightarrow> nonterm \<times> nonterm" where
  "bi_nonterms Multiplicative = (Bool multiplicative_expression, Bool multiplicative_expression1)"
| "bi_nonterms Additive = (Bool additive_expression, Bool additive_expression1)"
| "bi_nonterms Relational = (Bool relational_expression, Bool relational_expression1)"
| "bi_nonterms Equality = (Bool equality_expression, Bool equality_expression1)"
| "bi_nonterms And_kind = (Bool and_expression, Bool and_expression1)"
| "bi_nonterms Or_kind = (Bool or_expression, Bool or_expression1)"
| "bi_nonterms Binary_and = (Expr binary_and_expression, Expr binary_and_expression1)"
| "bi_nonterms Binary_xor = (Expr binary_xor_expression, Expr binary_xor_expression1)"
| "bi_nonterms Binary_or = (Expr binary_or_expression, Expr binary_or_expression1)"

text \<open>The loop over the suffixes: \<open>t\<close> is \<open>cur_suffix\<close>.\<close>

(* src/lang/semantics/expressions/expression.c [544-562] BiExpressionPopulate *)
function bi_suffixes ::
    "populator \<Rightarrow> bi_kind \<Rightarrow> syntax_tree \<Rightarrow> expression_tree bi_suffix list res" where
  "bi_suffixes pop k t =
     (if \<not> is_syntax (snd (bi_nonterms k)) t then Inl (Fatal ''Expected type'')
      else andThen (tok_at [F] t) (\<lambda>tok. andThen (relational_type_for_token tok) (\<lambda>ty.
        branch (syntax_at [S] (fst (bi_nonterms k)) t)
          (andThen (pop_at pop [S, F] t) (\<lambda>e. andThen (at [S, S] t) (\<lambda>u.
             andThen (bi_suffixes pop k u) (\<lambda>ss. Inr (BiSuffix tok ty e # ss)))))
          (andThen (pop_at pop [S] t) (\<lambda>e. Inr [BiSuffix tok ty e])))))"
  by pat_completeness auto
termination
  by (relation "measure (size \<circ> snd \<circ> snd)") (auto simp: termination_simp)

declare bi_suffixes.simps [simp del]

(* src/lang/semantics/expressions/expression.c [540-564] BiExpressionPopulate *)
definition populate_bi_expression :: "bi_kind \<Rightarrow> populator \<Rightarrow> populator" where
  "populate_bi_expression k pop t = andThen (pop_at pop [F] t) (\<lambda>e.
     andThen (at [S] t) (\<lambda>s. andThen (bi_suffixes pop k s) (\<lambda>ss. Inr (Bi_expression k e ss))))"

(* src/lang/semantics/expressions/expression.c [672-677] Populate_in_expression *)
definition populate_in_expression :: "populator \<Rightarrow> populator" where
  "populate_in_expression pop t = andThen (pop_at pop [F] t) (\<lambda>e. andThen (pop_at pop [S, S] t) (\<lambda>c.
     andThen (tok_at [S, F] t) (\<lambda>tok. Inr (In_expression tok (tok_type tok = NOTIN) e c))))"

(* src/lang/semantics/expressions/expression.c [694-698] Populate_is_expression *)
definition populate_is_expression :: "populator \<Rightarrow> populator" where
  "populate_is_expression pop t = andThen (pop_at pop [F] t) (\<lambda>e. andThen (pop_at pop [S, S] t) (\<lambda>ty.
     andThen (tok_at [S, F] t) (\<lambda>tok. Inr (Is_expression tok e ty))))"

subsection \<open>Conditionals\<close>

definition neg :: "bool res \<Rightarrow> bool res" where
  "neg c = andThen c (\<lambda>b. Inr (\<not> b))"

text \<open>Where the body of \<open>if_tree\<close> is, and whether an \<open>else\<close> follows it.\<close>

(* src/lang/semantics/expressions/expression.c [720-731] populate_if_else *)
definition if_body :: "syntax_tree \<Rightarrow> (side list \<times> side list option) res" where
  "if_body t = andThen (token_at [S, S, F] THEN_T t) (\<lambda>th.
     let p = (if th then [S, S, S] else [S, S])
     in branch (both (neg (leaf_at p t)) (both (neg (leaf_at (p @ [S]) t)) (token_at (p @ [S, F]) ELSE t)))
          (Inr (p @ [F], Some (p @ [S, S]))) (Inr (p, None)))"

lemma if_body_path: "if_body t = Inr (p, Some q) \<Longrightarrow> q \<noteq> []"
  by (auto simp: if_body_def branch_def Let_def andThen_eq_Inr split: if_splits)

text \<open>The loop: \<open>x\<close> is the type of the whole statement.\<close>

(* src/lang/semantics/expressions/expression.c [716-744] populate_if_else *)
function if_conditions :: "populator \<Rightarrow> nonterm option \<Rightarrow> syntax_tree \<Rightarrow> expression_tree if_else res" where
  "if_conditions pop x t = andThen (pop_at pop [S, F] t) (\<lambda>c. andThen (tok_at [F] t) (\<lambda>tok.
     andThen (if_body t) (\<lambda>(p, q). andThen (pop_at pop p t) (\<lambda>b.
       case q of
         None \<Rightarrow> Inr (IfElse (tok, c, b) [] None)
       | Some p' \<Rightarrow> andThen (at p' t) (\<lambda>u.
           if expression_of u \<noteq> x then andThen (pop u) (\<lambda>e. Inr (IfElse (tok, c, b) [] (Some e)))
           else andThen (if_conditions pop x u) (\<lambda>ie.
             Inr (IfElse (tok, c, b) (conditions ie) (else_exp ie))))))))"
  by pat_completeness auto
termination
  by (relation "measure (size \<circ> snd \<circ> snd)") (auto dest: if_body_path at_size_path)

declare if_conditions.simps [simp del]

(* src/lang/semantics/expressions/expression.c [711-745] populate_if_else *)
definition populate_if_else :: "populator \<Rightarrow> syntax_tree \<Rightarrow> expression_tree if_else res" where
  "populate_if_else pop t = andThen (tok_at [F] t) (\<lambda>tok.
     require (Inr (tok_type tok = IF_T)) (if_conditions pop (expression_of t) t))"

end
