(* ===== verification/PopulateFiles.thy ===== *)
theory PopulateFiles imports Populate begin

text \<open>
  The rest of the \<open>ImplPopulate\<close>s: assignments, functions, classes, statements, modules
  (\<open>assignment.c\<close>, \<open>files.c\<close>, \<open>classes.c\<close>, \<open>statements.c\<close>, \<open>loops.c\<close>), and \<open>populate_expression\<close>.
\<close>

subsection \<open>Assignments\<close>

(* src/lang/semantics/expressions/assignment.c populate_single_postfixes *)
definition populate_single_postfixes :: "populator \<Rightarrow> syntax_tree \<Rightarrow> expression_tree postfix res" where
  "populate_single_postfixes pop t =
     require (both (Inr (\<not> is_leaf t)) (leaf_at [F] t)) (andThen (tok_at [F] t) (\<lambda>tok.
       if is_syntax (Assign array_index_assignment) t
       then andThen (pop_at pop [S, F] t) (\<lambda>e. Inr (Postfix_array_index tok (Some e)))
       else if is_syntax (Assign function_call_args) t
       then branch (token_at [S] RPAREN t) (Inr (Postfix_fncall tok None))
              (andThen (pop_at pop [S, F] t) (\<lambda>e. Inr (Postfix_fncall tok (Some e))))
       else if is_syntax (Assign field_set_value) t
       then andThen (tok_at [S] t) (\<lambda>id. Inr (Postfix_field tok id))
       else Inl (Fatal ''Unknown field_expression1'')))"

text \<open>The loop of \<open>populate_single_complex\<close>: \<open>t\<close> is \<open>cur\<close>.\<close>

(* src/lang/semantics/expressions/assignment.c [51-63] populate_single_complex *)
function complex_suffixes :: "populator \<Rightarrow> syntax_tree \<Rightarrow> expression_tree postfix list res" where
  "complex_suffixes pop t =
     (if is_syntax (Assign field_expression1) t \<or> is_syntax (Assign field_next) t
      then andThen (at [F] t) (\<lambda>a. andThen (populate_single_postfixes pop a) (\<lambda>p.
             andThen (at [S] t) (\<lambda>u. andThen (complex_suffixes pop u) (\<lambda>ps. Inr (p # ps)))))
      else andThen (populate_single_postfixes pop t) (\<lambda>p. Inr [p]))"
  by pat_completeness auto
termination
  by (relation "measure (size \<circ> snd)") (auto simp: termination_simp)

declare complex_suffixes.simps [simp del]

(* src/lang/semantics/expressions/assignment.c populate_single_complex *)
definition populate_single_complex :: "populator \<Rightarrow> syntax_tree \<Rightarrow> expression_tree assignment res" where
  "populate_single_complex pop t = andThen (pop_at pop [F] t) (\<lambda>e. andThen (at [S] t) (\<lambda>s.
     andThen (complex_suffixes pop s) (\<lambda>ps. Inr (SingleAssignment_complex e ps))))"

(* src/lang/semantics/expressions/assignment.c populate_single *)
definition populate_single :: "populator \<Rightarrow> syntax_tree \<Rightarrow> expression_tree assignment res" where
  "populate_single pop t =
     (if is_syntax (Expr identifier_nt) t
      then andThen (leaf_token t) (\<lambda>v. Inr (SingleAssignment_var v None))
      else if is_syntax (Assign const_assignment_expression) t
      then andThen (tok_at [F] t) (\<lambda>c. andThen (tok_at [S] t) (\<lambda>v.
             Inr (SingleAssignment_var v (Some c))))
      else if is_syntax (Assign field_expression) t then populate_single_complex pop t
      else Inl (Fatal ''Unknown single assignment.''))"

(* src/lang/semantics/expressions/assignment.c is_assignment_single *)
definition is_assignment_single :: "syntax_tree \<Rightarrow> bool" where
  "is_assignment_single t = (is_syntax (Expr identifier_nt) t \<or>
     is_syntax (Assign const_assignment_expression) t \<or> is_syntax (Assign field_expression) t)"

text \<open>\<open>populate_list\<close> calls \<open>populate_assignment\<close> on its elements and loops over the rest of them.\<close>

(* src/lang/semantics/expressions/assignment.c [91-136] populate_assignment *)
function populate_assignment :: "populator \<Rightarrow> syntax_tree \<Rightarrow> expression_tree assignment res"
  and populate_list ::
    "populator \<Rightarrow> token_type \<Rightarrow> token_type \<Rightarrow> syntax_tree \<Rightarrow> expression_tree assignment list res"
  and list_elements :: "populator \<Rightarrow> syntax_tree \<Rightarrow> expression_tree assignment list res" where
  "populate_assignment pop t =
     (if is_assignment_single t then populate_single pop t
      else if is_syntax (Assign assignment_tuple) t
      then andThen (populate_list pop LPAREN RPAREN t) (\<lambda>as. Inr (Assignment_tuple as))
      else if is_syntax (Assign assignment_array) t
      then andThen (populate_list pop LBRAC RBRAC t) (\<lambda>as. Inr (Assignment_array as))
      else Inl (Fatal ''Unknown assignment.''))"
| "populate_list pop open close t =
     require (both (token_at [F] open t) (both (neg (leaf_at [S] t)) (token_at [S, S] close t)))
       (andThen (at [S, F] t) (\<lambda>l.
         branch (if is_leaf l then Inr True else neg (syntax_at [S] (Assign assignment_tuple_list1) l))
           (andThen (populate_assignment pop l) (\<lambda>a. Inr [a]))
           (andThen (at [S, F, F] t) (\<lambda>u. andThen (populate_assignment pop u) (\<lambda>a.
              andThen (at [S, F, S] t) (\<lambda>cur. andThen (list_elements pop cur) (\<lambda>as. Inr (a # as))))))))"
| "list_elements pop cur = branch (token_at [F] COMMA cur)
     (andThen (at [S] cur) (\<lambda>u. andThen (populate_assignment pop u) (\<lambda>a. Inr [a])))
     (andThen (at [F, S] cur) (\<lambda>u. andThen (populate_assignment pop u) (\<lambda>a.
        andThen (at [S] cur) (\<lambda>v. andThen (list_elements pop v) (\<lambda>as. Inr (a # as))))))"
  by pat_completeness auto
termination
  by (relation "measure (\<lambda>x. case x of Inl (pop, t) \<Rightarrow> Suc (2 * size t)
        | Inr (Inl (pop, a, b, t)) \<Rightarrow> 2 * size t | Inr (Inr (pop, t)) \<Rightarrow> 2 * size t)")
     (auto dest: at_size simp: less_Suc_eq_le)

declare populate_assignment.simps [simp del] populate_list.simps [simp del] list_elements.simps [simp del]

(* src/lang/semantics/expressions/assignment.c [138-143] Populate_assignment_expression *)
definition populate_assignment_expression :: "populator \<Rightarrow> populator" where
  "populate_assignment_expression pop t = require (token_at [S, F] EQUALS t)
     (andThen (tok_at [S, F] t) (\<lambda>eq. andThen (pop_at pop [S, S] t) (\<lambda>rhs.
      andThen (at [F] t) (\<lambda>l. andThen (populate_assignment pop l) (\<lambda>a.
        Inr (Assignment_expression eq a rhs))))))"

subsection \<open>Functions\<close>

(* src/lang/semantics/expressions/files.c populate_argument *)
definition populate_argument :: "populator \<Rightarrow> syntax_tree \<Rightarrow> expression_tree argument res" where
  "populate_argument pop t =
     andThen (if is_syntax (Func const_function_argument) t
              then andThen (tok_at [F] t) (\<lambda>c. andThen (at [S] t) (\<lambda>u. Inr (Some c, u))) else Inr (None, t))
       (\<lambda>(const, t1).
     andThen (if is_syntax (Func function_arg_elt_with_default) t1
              then andThen (pop_at pop [S, S] t1) (\<lambda>e. andThen (at [F] t1) (\<lambda>u. Inr (Some e, u)))
              else Inr (None, t1))
       (\<lambda>(def, t2).
     require (Inr (is_syntax (Expr identifier_nt) t2)) (andThen (leaf_token t2) (\<lambda>name.
       Inr (Argument const None name def)))))"

(* src/lang/semantics/expressions/files.c add_arg *)
definition add_arg :: "'e argument \<Rightarrow> 'e arguments \<Rightarrow> 'e arguments" where
  "add_arg a as = (case as of Arguments tok req opt l \<Rightarrow>
     if default_value a \<noteq> None then Arguments tok req (opt + 1) (l @ [a])
     else Arguments tok (req + 1) opt (l @ [a]))"

text \<open>The loop over the arguments after the first, the same in both functions that set arguments.\<close>

(* src/lang/semantics/expressions/files.c [68-78] set_function_args *)
function more_args :: "(syntax_tree \<Rightarrow> 'e argument res) \<Rightarrow> syntax_tree \<Rightarrow> 'e arguments \<Rightarrow> 'e arguments res" where
  "more_args arg cur as = branch (token_at [F] COMMA cur)
     (andThen (at [S] cur) (\<lambda>u. andThen (arg u) (\<lambda>a. Inr (add_arg a as))))
     (andThen (at [F, S] cur) (\<lambda>u. andThen (arg u) (\<lambda>a.
        andThen (at [S] cur) (\<lambda>v. more_args arg v (add_arg a as)))))"
  by pat_completeness auto
termination
  by (relation "measure (\<lambda>(f, t, as). size t)") (auto simp: termination_simp)

declare more_args.simps [simp del]

definition set_args ::
    "nonterm \<Rightarrow> (syntax_tree \<Rightarrow> 'e argument res) \<Rightarrow> syntax_tree \<Rightarrow> token \<Rightarrow> 'e arguments res" where
  "set_args x arg t tok =
     (let as = Arguments tok 0 0 [] in
      if \<not> is_syntax x t then andThen (arg t) (\<lambda>a. Inr (add_arg a as))
      else andThen (at [F] t) (\<lambda>u. andThen (arg u) (\<lambda>a. andThen (at [S] t) (\<lambda>v.
             more_args arg v (add_arg a as)))))"

(* src/lang/semantics/expressions/files.c set_function_args *)
definition set_function_args :: "populator \<Rightarrow> syntax_tree \<Rightarrow> token \<Rightarrow> expression_tree arguments res" where
  "set_function_args pop = set_args (Func function_argument_list) (populate_argument pop)"

(* src/lang/semantics/expressions/files.c populate_annotation *)
definition populate_annotation :: "populator \<Rightarrow> syntax_tree \<Rightarrow> expression_tree annotation res" where
  "populate_annotation pop t =
     (if \<not> is_syntax (Clas annotation) t then Inl (Fatal ''Must be annotation.'')
      else andThen (at [S] t) (\<lambda>a.
        let called = (\<lambda>c. if is_syntax (Expr identifier_nt) c
                          then andThen (leaf_token c) (\<lambda>n. Inr (None, Some n))
                          else if is_syntax (Clas annotation_not_called) c
                          then andThen (tok_at [S, S] c) (\<lambda>n. andThen (tok_at [F] c) (\<lambda>p. Inr (Some p, Some n)))
                          else Inr (None, None))
        in if is_syntax (Expr identifier_nt) a
           then andThen (leaf_token a) (\<lambda>n. Inr (Annotation None (Some n) False None))
           else if is_syntax (Clas annotation_not_called) a
           then andThen (tok_at [S, S] a) (\<lambda>n. andThen (tok_at [F] a) (\<lambda>p.
                  Inr (Annotation (Some p) (Some n) False None)))
           else if is_syntax (Clas annotation_no_arguments) a
           then andThen (at [F] a) (\<lambda>c. andThen (called c) (\<lambda>(p, n). Inr (Annotation p n True None)))
           else if is_syntax (Clas annotation_with_arguments) a
           then andThen (at [F] a) (\<lambda>c. andThen (at [S, S, F] a) (\<lambda>l. andThen (called c) (\<lambda>(p, n).
                  andThen (pop l) (\<lambda>e. Inr (Annotation p n True (Some e))))))
           else Inr (Annotation None None False None)))"

(* src/lang/semantics/expressions/files.c set_function_def *)
definition set_function_def :: "syntax_tree \<Rightarrow> (token \<times> token \<times> special_method) res" where
  "set_function_def t = andThen (tok_at [F] t) (\<lambda>d. andThen (tok_at [S] t) (\<lambda>n.
     Inr (d, n, SpecialMethod_NONE)))"

text \<open>The qualifiers seen so far: the token of \<open>const\<close>, and \<open>is_async\<close>.\<close>

(* src/lang/semantics/expressions/files.c _populate_function_qualifier *)
definition populate_function_qualifier ::
    "syntax_tree \<Rightarrow> token option \<times> bool option \<Rightarrow> (token option \<times> bool option) res" where
  "populate_function_qualifier t q = require (Inr (is_syntax (Func function_qualifier) t))
     (if is_token CONST_T t then andThen (leaf_token t) (\<lambda>tok. Inr (Some tok, snd q))
      else if is_token ASYNC t then Inr (fst q, Some True)
      else Inl (Fatal ''Unknown function qualifier.''))"

(* src/lang/semantics/expressions/files.c populate_function_qualifiers *)
definition populate_function_qualifiers ::
    "syntax_tree \<Rightarrow> token option \<times> bool option \<Rightarrow> (token option \<times> bool option) res" where
  "populate_function_qualifiers t q =
     (if is_syntax (Func function_qualifier) t then populate_function_qualifier t q
      else if is_syntax (Func function_qualifier_list) t
      then require (both (syntax_at [F] (Func function_qualifier) t) (syntax_at [S] (Func function_qualifier) t))
             (andThen (at [F] t) (\<lambda>a. andThen (populate_function_qualifier a q) (\<lambda>q.
              andThen (at [S] t) (\<lambda>b. populate_function_qualifier b q))))
      else Inl (Fatal ''unknown function qualifier list.''))"

(* src/lang/semantics/expressions/files.c populate_function_variant *)
definition populate_function_variant ::
    "populator \<Rightarrow> nonterm \<Rightarrow> nonterm \<Rightarrow> nonterm \<Rightarrow> nonterm \<Rightarrow> nonterm \<Rightarrow> nonterm \<Rightarrow>
     (syntax_tree \<Rightarrow> (token \<times> token \<times> special_method) res) \<Rightarrow>
     (populator \<Rightarrow> syntax_tree \<Rightarrow> token \<Rightarrow> expression_tree arguments res) \<Rightarrow>
     syntax_tree \<Rightarrow> expression_tree function_def res" where
  "populate_function_variant pop def with_qualifier no_qualifier fn_identifier no_args args_present
     def_populator args_populator t =
     require (Inr (is_syntax def t))
      (andThen (branch (syntax_at [F] with_qualifier t)
         (andThen (at [F, S] t) (\<lambda>q. andThen (populate_function_qualifiers q (None, Some False)) (\<lambda>q.
            andThen (at [F, F] t) (\<lambda>sig. Inr (sig, q)))))
         (require (syntax_at [F] no_qualifier t) (andThen (at [F] t) (\<lambda>sig. Inr (sig, (None, Some False))))))
       (\<lambda>(sig, const, async).
      require (syntax_at [F] fn_identifier sig) (andThen (at [F] sig) (\<lambda>i.
      andThen (def_populator i) (\<lambda>(d, n, sp).
      andThen (branch (syntax_at [S] no_args sig) (Inr None)
         (require (syntax_at [S] args_present sig) (andThen (at [S, S, F] sig) (\<lambda>l.
            andThen (tok_at [S, F] sig) (\<lambda>tok. andThen (args_populator pop l tok) (\<lambda>as. Inr (Some as)))))))
       (\<lambda>as.
      andThen (pop_at pop [S] t) (\<lambda>body. Inr (FunctionDef d (Some n) sp const async as body))))))))"

(* src/lang/semantics/expressions/files.c populate_function *)
definition populate_function :: "populator \<Rightarrow> syntax_tree \<Rightarrow> expression_tree function_def res" where
  "populate_function pop = populate_function_variant pop (Func function_definition)
     (Func function_signature_with_qualifier) (Func function_signature_no_qualifier) (Func def_identifier)
     (Func function_arguments_no_args) (Func function_arguments_present) set_function_def set_function_args"

text \<open>An anonymous function: the struct is not initialised, so \<open>is_async\<close> may stay unset.\<close>

(* src/lang/semantics/expressions/expression.c [852-896] populate_anon_function *)
definition populate_anon_function :: "populator \<Rightarrow> syntax_tree \<Rightarrow> expression_tree function_def res" where
  "populate_anon_function pop t = require (Inr (is_syntax (Newf anon_function_definition) t))
    (andThen (at [F] t) (\<lambda>f.
     andThen (if is_syntax (Newf anon_signature_with_qualifier) f
       then andThen (at [F] f) (\<lambda>tup. andThen (at [S] f) (\<lambda>q.
              andThen (populate_function_qualifiers q (None, None)) (\<lambda>q.
              andThen (tok_at [F] tup) (\<lambda>d. Inr (tup, q, d)))))
       else if is_syntax (Expr identifier_nt) f
       then andThen (leaf_token f) (\<lambda>d. Inr (f, (None, Some False), d))
       else andThen (tok_at [F] f) (\<lambda>d. Inr (f, (None, Some False), d)))
     (\<lambda>(tup, (const, async), d).
     andThen (if is_syntax (Func function_arguments_no_args) tup then Inr None
       else require (Inr (is_syntax (Func function_arguments_present) tup \<or> is_syntax (Expr identifier_nt) tup))
         (andThen (if is_syntax (Expr identifier_nt) f then Inr tup else at [S, F] tup) (\<lambda>l.
          andThen (if is_syntax (Expr identifier_nt) f then leaf_token tup else tok_at [F] tup) (\<lambda>tok.
          andThen (set_function_args pop l tok) (\<lambda>as. Inr (Some as))))))
     (\<lambda>as.
     andThen (branch (syntax_at [S] (Newf anon_function_lambda_rhs) t) (pop_at pop [S, S] t) (pop_at pop [S] t))
     (\<lambda>body. Inr (FunctionDef d None SpecialMethod_NONE const async as body))))))"

end
