(* ===== verification/PopulateModules.thy ===== *)
theory PopulateModules imports PopulateFiles begin

text \<open>
  Classes, map literals, statements, loops and modules, and \<open>populate_expression\<close>
  (\<open>semantics.c\<close>), which looks the populator up by the type of the tree.
\<close>

subsection \<open>Classes\<close>

text \<open>The loop over the superclasses after the first.\<close>

(* src/lang/semantics/expressions/classes.c [36-53] populate_class_def *)
function more_parents :: "syntax_tree \<Rightarrow> token list res" where
  "more_parents t =
     (if is_syntax (Clas parent_class_list1) t
      then branch (token_at [F] COMMA t) (andThen (tok_at [S] t) (\<lambda>n. Inr [n]))
             (andThen (tok_at [F, S] t) (\<lambda>n. andThen (at [S] t) (\<lambda>u.
                andThen (more_parents u) (\<lambda>ns. Inr (n # ns)))))
      else require (Inr (is_syntax (Expr identifier_nt) t)) (andThen (leaf_token t) (\<lambda>n. Inr [n])))"
  by pat_completeness auto
termination
  by (relation "measure size") (auto simp: termination_simp)

declare more_parents.simps [simp del]

text \<open>The name of the class and of its superclasses.\<close>

(* src/lang/semantics/expressions/classes.c populate_class_def *)
definition populate_class_def :: "syntax_tree \<Rightarrow> (token \<times> token list) res" where
  "populate_class_def t =
     (if is_syntax (Expr identifier_nt) t then andThen (leaf_token t) (\<lambda>n. Inr (n, []))
      else if is_syntax (Clas class_name_and_inheritance) t
      then require (syntax_at [F] (Expr identifier_nt) t) (andThen (tok_at [F] t) (\<lambda>n.
           require (syntax_at [S] (Clas parent_classes) t)
             (branch (syntax_at [S, S] (Expr identifier_nt) t)
               (andThen (tok_at [S, S] t) (\<lambda>p. Inr (n, [p])))
               (require (syntax_at [S, S] (Clas parent_class_list) t)
                 (andThen (tok_at [S, S, F] t) (\<lambda>p. andThen (at [S, S, S] t) (\<lambda>u.
                  andThen (more_parents u) (\<lambda>ps. Inr (n, p # ps)))))))))
      else Inl (Fatal ''Unknown class name composition.''))"

(* src/lang/semantics/expressions/classes.c populate_constructor_argument *)
definition populate_constructor_argument :: "populator \<Rightarrow> syntax_tree \<Rightarrow> expression_tree argument res" where
  "populate_constructor_argument pop t =
     andThen (if is_syntax (Newf const_new_argument) t
              then andThen (tok_at [F] t) (\<lambda>c. andThen (at [S] t) (\<lambda>u. Inr (Some c, u))) else Inr (None, t))
       (\<lambda>(const, t1).
     andThen (if is_syntax (Newf new_arg_elt_with_default) t1
              then andThen (pop_at pop [S, S] t1) (\<lambda>e. andThen (at [F] t1) (\<lambda>u. Inr (Some e, u)))
              else Inr (None, t1))
       (\<lambda>(def, t2).
     if is_syntax (Newf new_field_arg) t2
     then andThen (tok_at [S] t2) (\<lambda>n. andThen (tok_at [F] t2) (\<lambda>f. Inr (Argument const (Some f) n def)))
     else require (Inr (is_syntax (Expr identifier_nt) t2)) (andThen (leaf_token t2) (\<lambda>n.
       Inr (Argument const None n def)))))"

(* src/lang/semantics/expressions/classes.c set_constructor_args *)
definition set_constructor_args :: "populator \<Rightarrow> syntax_tree \<Rightarrow> token \<Rightarrow> expression_tree arguments res" where
  "set_constructor_args pop = set_args (Newf new_argument_list) (populate_constructor_argument pop)"

(* src/lang/semantics/expressions/classes.c set_method_def *)
definition set_method_def :: "syntax_tree \<Rightarrow> (token \<times> token \<times> special_method) res" where
  "set_method_def t = require (Inr (is_syntax (Func method_identifier) t))
     (andThen (tok_at [F] t) (\<lambda>d. andThen (at [S] t) (\<lambda>m.
       if is_syntax (Expr identifier_nt) m then andThen (leaf_token m) (\<lambda>n. Inr (d, n, SpecialMethod_NONE))
       else if is_token EQUIV m then andThen (leaf_token m) (\<lambda>n. Inr (d, n, SpecialMethod_EQUIV))
       else if is_token NEQUIV m then andThen (leaf_token m) (\<lambda>n. Inr (d, n, SpecialMethod_NEQUIV))
       else branch (is_token2 LBRAC RBRAC m)
              (andThen (tok_at [F] m) (\<lambda>n. Inr (d, n, SpecialMethod_ARRAY_INDEX)))
         (branch (is_token3 LBRAC RBRAC EQUALS m)
              (andThen (tok_at [F] m) (\<lambda>n. Inr (d, n, SpecialMethod_ARRAY_SET)))
              (Inl (Fatal ''Unknown method name type.''))))))"

(* src/lang/semantics/expressions/classes.c populate_method *)
definition populate_method :: "populator \<Rightarrow> syntax_tree \<Rightarrow> expression_tree function_def res" where
  "populate_method pop = populate_function_variant pop (Func method_definition)
     (Func method_signature_with_qualifier) (Func method_signature_no_qualifier) (Func method_identifier)
     (Func function_arguments_no_args) (Func function_arguments_present) set_method_def set_function_args"

(* src/lang/semantics/expressions/classes.c set_new_def *)
definition set_new_def :: "syntax_tree \<Rightarrow> (token \<times> token \<times> special_method) res" where
  "set_new_def t = require (Inr (is_syntax (Expr new_expression) t))
     (andThen (leaf_token t) (\<lambda>n. Inr (n, n, SpecialMethod_NONE)))"

(* src/lang/semantics/expressions/classes.c populate_constructor *)
definition populate_constructor :: "populator \<Rightarrow> syntax_tree \<Rightarrow> expression_tree function_def res" where
  "populate_constructor pop = populate_function_variant pop (Newf new_definition)
     (Newf new_signature_const) (Newf new_signature_nonconst) (Expr new_expression)
     (Newf new_arguments_no_args) (Newf new_arguments_present) set_new_def set_constructor_args"

text \<open>The names a \<open>field\<close> statement declares, after the first.\<close>

(* src/lang/semantics/expressions/classes.c [180-191] populate_field_statements *)
function more_fields :: "syntax_tree \<Rightarrow> token list res" where
  "more_fields t = branch (token_at [F] COMMA t) (andThen (tok_at [S] t) (\<lambda>n. Inr [n]))
     (andThen (tok_at [F, S] t) (\<lambda>n. andThen (at [S] t) (\<lambda>u. andThen (more_fields u) (\<lambda>ns. Inr (n # ns)))))"
  by pat_completeness auto
termination
  by (relation "measure size") (auto simp: termination_simp)

declare more_fields.simps [simp del]

(* src/lang/semantics/expressions/classes.c populate_field_statements *)
definition populate_field_statements :: "syntax_tree \<Rightarrow> token list res" where
  "populate_field_statements t = require (token_at [F] FIELD t)
     (branch (neg (syntax_at [S] (Clas identifier_list) t))
       (require (syntax_at [S] (Expr identifier_nt) t) (andThen (tok_at [S] t) (\<lambda>n. Inr [n])))
       (andThen (tok_at [S, F] t) (\<lambda>n. andThen (at [S, S] t) (\<lambda>u.
          andThen (more_fields u) (\<lambda>ns. Inr (n # ns))))))"

text \<open>The fields a constructor declares through its arguments.\<close>

(* src/lang/semantics/expressions/classes.c [203-211] populate_class_statement *)
definition argument_fields :: "'e function_def \<Rightarrow> token list" where
  "argument_fields f = (case fn_args f of None \<Rightarrow> []
     | Some as \<Rightarrow> List.map arg_name (filter (\<lambda>a. field_token a \<noteq> None) (args as)))"

(* src/lang/semantics/expressions/classes.c populate_class_statement *)
definition populate_class_statement ::
    "populator \<Rightarrow> syntax_tree \<Rightarrow> expression_tree class_def \<Rightarrow> expression_tree class_def res" where
  "populate_class_statement pop t c = (case c of ClassDef name ps fs new an ms \<Rightarrow>
     if is_syntax (Clas field_statement) t
     then andThen (populate_field_statements t) (\<lambda>ns. Inr (ClassDef name ps (fs @ ns) new an ms))
     else if is_syntax (Func method_definition) t
     then andThen (populate_method pop t) (\<lambda>m. Inr (ClassDef name ps fs new an (ms @ [m])))
     else if is_syntax (Newf new_definition) t
     then andThen (populate_constructor pop t) (\<lambda>f.
            Inr (ClassDef name ps (fs @ argument_fields f) (Some f) an ms))
     else Inl (Fatal ''Unknown class_statement.''))"

(* src/lang/semantics/expressions/classes.c [229-238] populate_class_statements *)
function more_class_statements ::
    "populator \<Rightarrow> syntax_tree \<Rightarrow> expression_tree class_def \<Rightarrow> expression_tree class_def res" where
  "more_class_statements pop t c =
     (if \<not> is_syntax (Clas class_statement_list1) t then populate_class_statement pop t c
      else andThen (at [F] t) (\<lambda>a. andThen (populate_class_statement pop a c) (\<lambda>c.
           andThen (at [S] t) (\<lambda>u. more_class_statements pop u c))))"
  by pat_completeness auto
termination
  by (relation "measure (\<lambda>(pop, t, c). size t)") (auto simp: termination_simp)

declare more_class_statements.simps [simp del]

(* src/lang/semantics/expressions/classes.c populate_class_statements *)
definition populate_class_statements ::
    "populator \<Rightarrow> syntax_tree \<Rightarrow> expression_tree class_def \<Rightarrow> expression_tree class_def res" where
  "populate_class_statements pop t c = require (token_at [F] LBRCE t)
     (branch (token_at [S] RBRCE t) (Inr c)
       (branch (neg (syntax_at [S, F] (Clas class_statement_list) t))
         (andThen (at [S, F] t) (\<lambda>u. populate_class_statement pop u c))
         (andThen (at [S, F, F] t) (\<lambda>u. andThen (populate_class_statement pop u c) (\<lambda>c.
          andThen (at [S, F, S] t) (\<lambda>v. more_class_statements pop v c))))))"

(* src/lang/semantics/expressions/classes.c populate_class *)
definition populate_class :: "populator \<Rightarrow> syntax_tree \<Rightarrow> expression_tree class_def res" where
  "populate_class pop t = require (both (neg (leaf_at [F] t)) (token_at [F, F] CLASS t))
     (andThen (at [F, S] t) (\<lambda>d. andThen (populate_class_def d) (\<lambda>(name, ps).
      andThen (at [S] t) (\<lambda>body.
        let c = ClassDef name ps [] None None []
        in if is_syntax (Clas class_compound_statement) body then populate_class_statements pop body c
           else populate_class_statement pop body c))))"

subsection \<open>Map literals\<close>

(* src/lang/semantics/expressions/expression.c populate_map_dec_entry *)
definition populate_map_dec_entry ::
    "populator \<Rightarrow> syntax_tree \<Rightarrow> (token \<times> expression_tree \<times> expression_tree) res" where
  "populate_map_dec_entry pop t = require (Inr (is_syntax (Expr map_declaration_entry) t))
     (andThen (tok_at [S, F] t) (\<lambda>c. andThen (pop_at pop [F] t) (\<lambda>l. andThen (pop_at pop [S, S] t) (\<lambda>r.
        Inr (c, l, r)))))"

(* src/lang/semantics/expressions/expression.c [966-983] Populate_map_declaration *)
function more_entries ::
    "populator \<Rightarrow> syntax_tree \<Rightarrow> (token \<times> expression_tree \<times> expression_tree) list res" where
  "more_entries pop t =
     (if is_syntax (Expr map_declaration_entry) t
      then andThen (populate_map_dec_entry pop t) (\<lambda>e. Inr [e])
      else require (Inr (is_syntax (Expr map_declaration_entry1) t))
        (branch (token_at [F] COMMA t)
          (andThen (at [S] t) (\<lambda>u. more_entries pop u))
          (require (syntax_at [F, S] (Expr map_declaration_entry) t)
            (andThen (at [F, S] t) (\<lambda>a. andThen (populate_map_dec_entry pop a) (\<lambda>e.
             andThen (at [S] t) (\<lambda>u. andThen (more_entries pop u) (\<lambda>es. Inr (e # es)))))))))"
  by pat_completeness auto
termination
  by (relation "measure (size \<circ> snd)") (auto simp: termination_simp)

declare more_entries.simps [simp del]

(* src/lang/semantics/expressions/expression.c [939-984] Populate_map_declaration *)
definition populate_map_declaration :: "populator \<Rightarrow> populator" where
  "populate_map_declaration pop t =
     branch (neg (token_at [F] LBRCE t)) (Inl (Fatal ''Map declaration must start with a brace.''))
      (andThen (tok_at [F] t) (\<lambda>l.
       branch (token_at [S] RBRCE t) (andThen (tok_at [S] t) (\<lambda>r. Inr (Map_declaration l r [])))
        (andThen (at [S, F] t) (\<lambda>body. require (token_at [S, S] RBRCE t) (andThen (tok_at [S, S] t) (\<lambda>r.
          if is_syntax (Expr map_declaration_entry) body
          then andThen (populate_map_dec_entry pop body) (\<lambda>e. Inr (Map_declaration l r [e]))
          else require (Inr (is_syntax (Expr map_declaration_list) body))
            (andThen (at [F] body) (\<lambda>a. andThen (populate_map_dec_entry pop a) (\<lambda>e.
             andThen (at [S] body) (\<lambda>u. andThen (more_entries pop u) (\<lambda>es.
               Inr (Map_declaration l r (e # es)))))))))))))"

subsection \<open>Statements\<close>

(* src/lang/semantics/expressions/statements.c [42-52] Populate_compound_statement *)
function more_statements :: "populator \<Rightarrow> syntax_tree \<Rightarrow> expression_tree list res" where
  "more_statements pop t =
     (if \<not> is_syntax (Clas statement_list1) t then andThen (pop t) (\<lambda>e. Inr [e])
      else andThen (pop_at pop [F] t) (\<lambda>e. andThen (at [S] t) (\<lambda>u.
           andThen (more_statements pop u) (\<lambda>es. Inr (e # es)))))"
  by pat_completeness auto
termination
  by (relation "measure (size \<circ> snd)") (auto simp: termination_simp)

declare more_statements.simps [simp del]

(* src/lang/semantics/expressions/statements.c [25-53] Populate_compound_statement *)
definition populate_compound_statement :: "populator \<Rightarrow> populator" where
  "populate_compound_statement pop t = require (token_at [F] LBRCE t)
     (branch (token_at [S] RBRCE t) (Inr (Compound_statement []))
       (require (both (neg (leaf_at [S] t)) (token_at [S, S] RBRCE t))
         (branch (neg (syntax_at [S, F] (Clas statement_list) t))
           (andThen (pop_at pop [S, F] t) (\<lambda>e. Inr (Compound_statement [e])))
           (andThen (pop_at pop [S, F, F] t) (\<lambda>e. andThen (at [S, F, S] t) (\<lambda>u.
            andThen (more_statements pop u) (\<lambda>es. Inr (Compound_statement (e # es)))))))))"

(* src/lang/semantics/expressions/statements.c [79-95] Populate_try_statement *)
definition populate_try_statement :: "populator \<Rightarrow> populator" where
  "populate_try_statement pop t = require (both (neg (leaf_at [F] t)) (token_at [F, F] TRY t))
     (andThen (tok_at [F, F] t) (\<lambda>tok. andThen (pop_at pop [F, S, F] t) (\<lambda>body.
      require (both (neg (leaf_at [F, S, S] t)) (token_at [F, S, S, F] CATCH t))
       (andThen (tok_at [F, S, S, F] t) (\<lambda>ctok.
        andThen (branch (syntax_at [F, S, S, S] (Stmt catch_assign) t)
                  (at [F, S, S, S, S, F] t) (at [F, S, S, S] t)) (\<lambda>l.
        andThen (populate_assignment pop l) (\<lambda>a. andThen (pop_at pop [S] t) (\<lambda>cbody.
          Inr (Try_statement tok ctok body a cbody)))))))))"

(* src/lang/semantics/expressions/statements.c [135-139] Populate_raise_statement *)
definition populate_raise_statement :: "populator \<Rightarrow> populator" where
  "populate_raise_statement pop t = require (token_at [F] RAISE t)
     (andThen (tok_at [F] t) (\<lambda>tok. andThen (pop_at pop [S] t) (\<lambda>e. Inr (Raise_statement tok e))))"

(* src/lang/semantics/expressions/statements.c [160-174] Populate_jump_statement *)
definition populate_jump_statement :: "populator \<Rightarrow> populator" where
  "populate_jump_statement pop t =
     (if is_token RETURN t then andThen (leaf_token t) (\<lambda>tok. Inr (Jump_statement tok None))
      else require (token_at [F] RETURN t) (andThen (tok_at [F] t) (\<lambda>tok.
        branch (both (neg (leaf_at [S] t)) (both (token_at [S, F] LPAREN t)
                  (neg (syntax_at [S] (Expr primary_expression) t))))
          (andThen (pop_at pop [S, S, F] t) (\<lambda>e. Inr (Jump_statement tok (Some e))))
          (andThen (pop_at pop [S] t) (\<lambda>e. Inr (Jump_statement tok (Some e)))))))"

text \<open>The flag of a \<open>Break_statement\<close>: it is a \<open>break\<close>.\<close>

(* src/lang/semantics/expressions/statements.c [191-202] Populate_break_statement *)
definition populate_break_statement :: populator where
  "populate_break_statement t = require (Inr (is_leaf t)) (andThen (leaf_token t) (\<lambda>tok.
     if is_token BREAK t then Inr (Break_statement tok True)
     else if is_token CONTINUE t then Inr (Break_statement tok False)
     else Inl (Fatal ''Unknown break_statement'')))"

(* src/lang/semantics/expressions/statements.c [219-222] Populate_exit_statement *)
definition populate_exit_statement :: populator where
  "populate_exit_statement t = require (Inr (is_token EXIT_T t)) (andThen (leaf_token t) (\<lambda>tok.
     Inr (Exit_statement tok)))"

subsection \<open>Loops\<close>

(* src/lang/semantics/expressions/loops.c [22-24] Populate_foreach_statement *)
definition for_inner :: "syntax_tree \<Rightarrow> syntax_tree res" where
  "for_inner t = branch (token_at [F, S, F] LPAREN t) (at [F, S, S, F] t) (at [F, S] t)"

(* src/lang/semantics/expressions/loops.c [18-30] Populate_foreach_statement *)
definition populate_foreach_statement :: "populator \<Rightarrow> populator" where
  "populate_foreach_statement pop t = require (both (neg (leaf_at [F] t)) (token_at [F, F] FOR t))
     (andThen (tok_at [F, F] t) (\<lambda>tok. andThen (for_inner t) (\<lambda>i.
      require (both (neg (leaf_at [S] i)) (token_at [S, F] IN i))
       (andThen (tok_at [S, F] i) (\<lambda>itok. andThen (at [F] i) (\<lambda>l.
        andThen (populate_assignment pop l) (\<lambda>a. andThen (pop_at pop [S, S] i) (\<lambda>it.
        andThen (pop_at pop [S] t) (\<lambda>body. Inr (Foreach_statement tok itok a it body))))))))))"

(* src/lang/semantics/expressions/loops.c [85-101] Populate_for_statement *)
definition populate_for_statement :: "populator \<Rightarrow> populator" where
  "populate_for_statement pop t = require (both (neg (leaf_at [F] t)) (token_at [F, F] FOR t))
     (andThen (tok_at [F, F] t) (\<lambda>tok. andThen (for_inner t) (\<lambda>i. require (Inr (\<not> is_leaf i))
       (andThen (pop_at pop [F] i) (\<lambda>init.
        require (both (neg (leaf_at [S] i)) (token_at [S, F] COMMA i))
         (andThen (pop_at pop [S, S, F] i) (\<lambda>c. andThen (pop_at pop [S, S, S, S] i) (\<lambda>inc.
          andThen (pop_at pop [S] t) (\<lambda>body. Inr (For_statement tok init c inc body))))))))))"

(* src/lang/semantics/expressions/loops.c [149-155] Populate_while_statement *)
definition populate_while_statement :: "populator \<Rightarrow> populator" where
  "populate_while_statement pop t = require (both (neg (leaf_at [F] t)) (token_at [F, F] WHILE t))
     (andThen (tok_at [F, F] t) (\<lambda>tok. andThen (pop_at pop [F, S] t) (\<lambda>c. andThen (pop_at pop [S] t) (\<lambda>body.
        Inr (While_statement tok c body)))))"

subsection \<open>Modules\<close>

(* src/lang/semantics/expressions/files.c populate_fi_statement *)
definition populate_fi_statement ::
    "populator \<Rightarrow> syntax_tree \<Rightarrow> expression_tree module_def \<Rightarrow> expression_tree module_def res" where
  "populate_fi_statement pop t m = (case m of ModuleDef name imps cs fs ss \<Rightarrow>
     if is_syntax (Clas module_statement) t
     then if name \<noteq> None then Inl (Fatal ''Module named twice'')
          else andThen (tok_at [F] t) (\<lambda>k. andThen (tok_at [S] t) (\<lambda>n.
                 Inr (ModuleDef (Some (k, n)) imps cs fs ss)))
     else if is_syntax (Clas import_statement) t
     then branch (neg (syntax_at [S] (Expr identifier_nt) t)) (Inl (Fatal ''import AS not yet supported.''))
            (andThen (tok_at [F] t) (\<lambda>k. andThen (tok_at [S] t) (\<lambda>n.
               Inr (ModuleDef name (imps @ [(k, n)]) cs fs ss))))
     else if is_syntax (Clas class_definition_no_annotation) t
     then andThen (populate_class pop t) (\<lambda>c. Inr (ModuleDef name imps (cs @ [c]) fs ss))
     else if is_syntax (Clas class_definition_with_annotation) t
     then andThen (at [S] t) (\<lambda>u. andThen (populate_class pop u) (\<lambda>c. andThen (at [F] t) (\<lambda>a.
            andThen (populate_annotation pop a) (\<lambda>an. case c of ClassDef cn ps cf new _ ms \<Rightarrow>
              Inr (ModuleDef name imps (cs @ [ClassDef cn ps cf new (Some an) ms]) fs ss)))))
     else if is_syntax (Func function_definition) t
     then andThen (populate_function pop t) (\<lambda>f. Inr (ModuleDef name imps cs (fs @ [f]) ss))
     else andThen (pop t) (\<lambda>e. Inr (ModuleDef name imps cs fs (ss @ [e]))))"

(* src/lang/semantics/expressions/files.c [400-408] populate_module_def *)
function more_fi_statements ::
    "populator \<Rightarrow> syntax_tree \<Rightarrow> expression_tree module_def \<Rightarrow> expression_tree module_def res" where
  "more_fi_statements pop t m =
     (if \<not> is_syntax (Clas file_level_statement_list1) t then populate_fi_statement pop t m
      else andThen (at [F] t) (\<lambda>a. andThen (populate_fi_statement pop a m) (\<lambda>m.
           andThen (at [S] t) (\<lambda>u. more_fi_statements pop u m))))"
  by pat_completeness auto
termination
  by (relation "measure (\<lambda>(pop, t, m). size t)") (auto simp: termination_simp)

declare more_fi_statements.simps [simp del]

(* src/lang/semantics/expressions/files.c populate_module_def *)
definition populate_module_def :: "populator \<Rightarrow> syntax_tree \<Rightarrow> expression_tree module_def res" where
  "populate_module_def pop t = andThen (at [F] t) (\<lambda>a.
     andThen (populate_fi_statement pop a (ModuleDef None [] [] [] [])) (\<lambda>m.
     andThen (at [S] t) (\<lambda>u. more_fi_statements pop u m)))"

subsection \<open>Any tree\<close>

text \<open>The table of populators.\<close>

(* src/lang/semantics/semantics.c [19-63] semantics_init *)
definition populator_for :: "fops \<Rightarrow> nonterm \<Rightarrow> (populator \<Rightarrow> populator) option" where
  "populator_for fo x = (case x of
     Expr y \<Rightarrow> (case y of
       identifier_nt \<Rightarrow> Some (\<lambda>pop. populate_identifier)
     | constant_nt \<Rightarrow> Some (\<lambda>pop. populate_constant fo)
     | string_literal \<Rightarrow> Some (\<lambda>pop. populate_string_literal)
     | array_declaration \<Rightarrow> Some populate_array_declaration
     | map_declaration \<Rightarrow> Some populate_map_declaration
     | primary_expression \<Rightarrow> Some populate_primary_expression
     | primary_expression_no_constants \<Rightarrow> Some populate_primary_expression_no_constants
     | postfix_expression \<Rightarrow> Some populate_postfix_expression
     | range_expression \<Rightarrow> Some populate_range_expression
     | unary_expression \<Rightarrow> Some populate_unary_expression
     | binary_and_expression \<Rightarrow> Some (populate_bi_expression Binary_and)
     | binary_xor_expression \<Rightarrow> Some (populate_bi_expression Binary_xor)
     | binary_or_expression \<Rightarrow> Some (populate_bi_expression Binary_or)
     | _ \<Rightarrow> None)
   | Bool y \<Rightarrow> (case y of
       multiplicative_expression \<Rightarrow> Some (populate_bi_expression Multiplicative)
     | additive_expression \<Rightarrow> Some (populate_bi_expression Additive)
     | relational_expression \<Rightarrow> Some (populate_bi_expression Relational)
     | equality_expression \<Rightarrow> Some (populate_bi_expression Equality)
     | and_expression \<Rightarrow> Some (populate_bi_expression And_kind)
     | or_expression \<Rightarrow> Some (populate_bi_expression Or_kind)
     | in_expression \<Rightarrow> Some populate_in_expression
     | is_expression \<Rightarrow> Some populate_is_expression
     | conditional_expression \<Rightarrow> Some (\<lambda>pop t. andThen (populate_if_else pop t) (\<lambda>ie.
         Inr (Conditional_expression ie)))
     | _ \<Rightarrow> None)
   | Assign y \<Rightarrow> (case y of
       tuple_expression \<Rightarrow> Some populate_tuple_expression
     | assignment_expression \<Rightarrow> Some populate_assignment_expression
     | _ \<Rightarrow> None)
   | Stmt y \<Rightarrow> (case y of
       foreach_statement \<Rightarrow> Some populate_foreach_statement
     | for_statement \<Rightarrow> Some populate_for_statement
     | while_statement \<Rightarrow> Some populate_while_statement
     | compound_statement \<Rightarrow> Some populate_compound_statement
     | try_statement \<Rightarrow> Some populate_try_statement
     | raise_statement \<Rightarrow> Some populate_raise_statement
     | selection_statement \<Rightarrow> Some (\<lambda>pop t. andThen (populate_if_else pop t) (\<lambda>ie.
         Inr (Selection_statement ie)))
     | jump_statement \<Rightarrow> Some populate_jump_statement
     | break_statement \<Rightarrow> Some (\<lambda>pop. populate_break_statement)
     | exit_statement \<Rightarrow> Some (\<lambda>pop. populate_exit_statement)
     | _ \<Rightarrow> None)
   | Newf y \<Rightarrow> (case y of
       anon_function_definition \<Rightarrow> Some (\<lambda>pop t. andThen (populate_anon_function pop t) (\<lambda>f.
         Inr (Anon_function_definition f)))
     | _ \<Rightarrow> None)
   | Clas y \<Rightarrow> (case y of
       file_level_statement_list \<Rightarrow> Some (\<lambda>pop t. andThen (populate_module_def pop t) (\<lambda>m.
         Inr (File_level_statement_list m)))
     | _ \<Rightarrow> None)
   | Func y \<Rightarrow> None)"

definition populate_with :: "fops \<Rightarrow> populator \<Rightarrow> populator" where
  "populate_with fo pop t = (case expression_of t of
     None \<Rightarrow> Inl (Fatal ''Populator not found'')
   | Some x \<Rightarrow> (case populator_for fo x of
       None \<Rightarrow> Inl (Fatal ''Populator not found'')
     | Some populate \<Rightarrow> populate pop t))"

text \<open>
  Every populator calls \<open>pop\<close> on trees below its own; the test of the size is never false, and only
  shows that the recursion ends.
\<close>

(* src/lang/semantics/semantics.c populate_expression *)
function populate_expression :: "fops \<Rightarrow> syntax_tree \<Rightarrow> expression_tree res" where
  "populate_expression fo t =
     populate_with fo (\<lambda>s. if size s < size t then populate_expression fo s
                          else Inl (UB ''populate_expression of a tree that is not below'')) t"
  by pat_completeness auto
termination
  by (relation "measure (size \<circ> snd)") auto

declare populate_expression.simps [simp del]

end
