(* ===== verification/Produce.thy ===== *)
theory Produce imports PopulateModules Tape begin

text \<open>
  The \<open>ImplProduce\<close>s of \<open>lang/semantics/expressions\<close>: from expression trees to instructions on a tape. A
  generator adds to a tape and returns how many instructions it counts. Sums of generators run from
  left to right (C leaves the order open; the code depends on this one). A part of a tree comes with
  its own generators in the place of its expressions.
\<close>

type_synonym gen = "tape \<Rightarrow> (int \<times> tape) res"

fun gens :: "gen list \<Rightarrow> gen" where
  "gens [] t = Inr (0, t)"
| "gens (g # gs) t = andThen (g t) (\<lambda>(n, t). andThen (gens gs t) (\<lambda>(m, t). Inr (n + m, t)))"

definition fails :: "fault \<Rightarrow> gen" where
  "fails e t = Inl e"

text \<open>The calls of \<open>tape.c\<close>, with what they return.\<close>

definition ins_none :: "op \<Rightarrow> token \<Rightarrow> gen" where
  "ins_none p tok t = Inr (1, tape_ins_no_arg p tok t)"

definition ins_text :: "op \<Rightarrow> string \<Rightarrow> token \<Rightarrow> gen" where
  "ins_text p s tok t = Inr (1, tape_ins_text p s tok t)"

definition ins_num :: "op \<Rightarrow> int \<Rightarrow> token \<Rightarrow> gen" where
  "ins_num p v tok t = Inr (1, tape_ins_int p (word_of_int v) tok t)"

definition ins_tok :: "fops \<Rightarrow> op \<Rightarrow> token \<Rightarrow> gen" where
  "ins_tok fo p tok t = andThen (tape_ins fo p tok t) (\<lambda>t. Inr (1, t))"

definition ins_neg :: "fops \<Rightarrow> op \<Rightarrow> token \<Rightarrow> gen" where
  "ins_neg fo p tok t = andThen (tape_ins_neg fo p tok t) (\<lambda>t. Inr (1, t))"

definition ins_anon :: "op \<Rightarrow> token \<Rightarrow> gen" where
  "ins_anon p tok t = Inr (1, tape_ins_anon p tok t)"

definition mark :: "(tape \<Rightarrow> tape res) \<Rightarrow> gen" where
  "mark f t = andThen (f t) (\<lambda>t. Inr (0, t))"

text \<open>A temporary tape, and appending it.\<close>

definition on_new :: "gen \<Rightarrow> (int \<Rightarrow> tape \<Rightarrow> gen) \<Rightarrow> gen" where
  "on_new g k t = andThen (g tape_create) (\<lambda>(n, tmp). k n tmp t)"

definition append_tape :: "int \<Rightarrow> tape \<Rightarrow> gen" where
  "append_tape n tmp t = Inr (n, tape_append t tmp)"

subsection \<open>Expressions\<close>

(* src/lang/semantics/expressions/expression.c [34-41] Produce_identifier *)
definition produce_identifier :: "fops \<Rightarrow> token \<Rightarrow> gen" where
  "produce_identifier fo tok =
     (if tok_text tok = ''True'' then ins_num RES 1 tok
      else if tok_text tok = ''False'' \<or> tok_text tok = ''None'' then ins_none RNIL tok
      else ins_tok fo RES tok)"

(* src/lang/semantics/expressions/expression.c tuple_expression_helper *)
definition tuple_expression_helper :: "token \<Rightarrow> gen list \<Rightarrow> gen" where
  "tuple_expression_helper tok gs = gens (concat (List.map (\<lambda>g. [g, ins_none PUSH tok]) (rev gs)))"

(* src/lang/semantics/expressions/expression.c [105-109] Produce_tuple_expression *)
definition produce_tuple_expression :: "token \<Rightarrow> gen list \<Rightarrow> gen" where
  "produce_tuple_expression tok gs =
     gens [tuple_expression_helper tok gs, ins_num TUPL (int (length gs)) tok]"

text \<open>The elements of an array: of a tuple, with its token, or one.\<close>

(* src/lang/semantics/expressions/expression.c [130-146] Produce_array_declaration *)
definition produce_array_declaration :: "token \<Rightarrow> ((token \<times> gen list) + gen) option \<Rightarrow> gen" where
  "produce_array_declaration tok e = (case e of
     None \<Rightarrow> ins_none ANEW tok
   | Some (Inl (ttok, gs)) \<Rightarrow> gens [tuple_expression_helper ttok gs, ins_num ANEW (int (length gs)) tok]
   | Some (Inr g) \<Rightarrow> gens [g, ins_none PUSH tok, ins_num ANEW 1 tok])"

definition opt_gen :: "gen option \<Rightarrow> gen" where
  "opt_gen e = (case e of None \<Rightarrow> gens [] | Some g \<Rightarrow> g)"

definition needed :: "gen option \<Rightarrow> gen" where
  "needed e = (case e of None \<Rightarrow> fails (UB ''produce_instructions(NULL)'') | Some g \<Rightarrow> g)"

(* src/lang/semantics/expressions/expression.c produce_postfix *)
fun produce_postfix :: "fops \<Rightarrow> gen postfix list \<Rightarrow> gen" where
  "produce_postfix fo [] = gens []"
| "produce_postfix fo (Postfix_fncall tok e # ps) =
     gens [ins_none PUSH tok, opt_gen e, ins_none (if e = None then CLLN else CALL) tok, produce_postfix fo ps]"
| "produce_postfix fo (Postfix_array_index tok e # ps) =
     gens [ins_none PUSH tok, needed e, ins_none AIDX tok, produce_postfix fo ps]"
| "produce_postfix fo (Postfix_field tok name # Postfix_fncall tok' e # ps) =
     gens [ins_none PUSH tok, opt_gen e, ins_tok fo (if e = None then CLLN else CALL) name, produce_postfix fo ps]"
| "produce_postfix fo (Postfix_field tok name # ps) = gens [ins_tok fo GET name, produce_postfix fo ps]"
| "produce_postfix fo (Postfix_increment tok # ps) = produce_postfix fo ps"
| "produce_postfix fo (Postfix_decrement tok # ps) = produce_postfix fo ps"

(* src/lang/semantics/expressions/expression.c [338-350] Produce_postfix_expression *)
definition produce_postfix_expression :: "fops \<Rightarrow> gen \<Rightarrow> gen postfix list \<Rightarrow> gen" where
  "produce_postfix_expression fo g ps = gens [g, produce_postfix fo ps]"

(* src/lang/semantics/expressions/expression.c [379-395] Produce_range_expression *)
definition produce_range_expression :: "token \<Rightarrow> gen \<Rightarrow> gen \<Rightarrow> gen option \<Rightarrow> gen" where
  "produce_range_expression tok start end_g inc =
     gens [ins_text PUSH ''range'' tok,
           (case inc of None \<Rightarrow> gens [] | Some g \<Rightarrow> gens [g, ins_none PUSH tok]),
           end_g, ins_none PUSH tok, start, ins_none PUSH tok,
           ins_num TUPL (if inc = None then 2 else 3) tok, ins_none CALL tok]"

text \<open>The operand is given as a token when it is a constant.\<close>

(* src/lang/semantics/expressions/expression.c [424-454] Produce_unary_expression *)
definition produce_unary_expression :: "fops \<Rightarrow> token \<Rightarrow> unary_type \<Rightarrow> token option \<Rightarrow> gen \<Rightarrow> gen" where
  "produce_unary_expression fo tok ty const g =
     (case (ty, const) of
        (Unary_negate, Some c) \<Rightarrow> ins_neg fo RES c
      | _ \<Rightarrow> gens [g, (case ty of
          Unary_not \<Rightarrow> ins_none NOT_O tok
        | Unary_notc \<Rightarrow> ins_none NOTC tok
        | Unary_negate \<Rightarrow> gens [ins_none PUSH tok, ins_num PUSH (- 1) tok, ins_none MULT tok]
        | Unary_await \<Rightarrow> ins_none WAIT tok
        | Unary_const \<Rightarrow> fails (Fatal ''Unknown unary''))])"

(* src/lang/semantics/expressions/expression.c bi_to_ins *)
fun bi_to_ins :: "bi_type \<Rightarrow> op" where
  "bi_to_ins Mult_mult = MULT" | "bi_to_ins Mult_div = DIV" | "bi_to_ins Mult_mod = MOD"
| "bi_to_ins Add_add = ADD" | "bi_to_ins Add_sub = SUB" | "bi_to_ins Rel_lt = LT"
| "bi_to_ins Rel_gt = GT" | "bi_to_ins Rel_lte = LTE" | "bi_to_ins Rel_gte = GTE"
| "bi_to_ins Rel_eq = EQ" | "bi_to_ins Rel_neq = NEQ" | "bi_to_ins And_and = AND_O"
| "bi_to_ins And_or = OR_O" | "bi_to_ins Bin_and = BAND" | "bi_to_ins Bin_xor = BXOR"
| "bi_to_ins Bin_or = BOR"

(* src/lang/semantics/expressions/expression.c [577-591] BiExpressionProduce *)
definition produce_bi_expression :: "gen \<Rightarrow> gen bi_suffix list \<Rightarrow> gen" where
  "produce_bi_expression g ss = gens (g # concat (List.map (\<lambda>s. case s of BiSuffix tok ty e \<Rightarrow>
     [ins_none PUSH tok, e, ins_none PUSH tok, ins_none (bi_to_ins ty) tok]) ss))"

text \<open>The bodies of \<open>and\<close> and \<open>or\<close> on tapes of their own, with what was counted in all.\<close>

fun suffix_tapes :: "gen bi_suffix list \<Rightarrow> (int \<times> (token \<times> tape) list) res" where
  "suffix_tapes [] = Inr (0, [])"
| "suffix_tapes (BiSuffix tok ty g # ss) = andThen (g tape_create) (\<lambda>(n, tmp).
     andThen (suffix_tapes ss) (\<lambda>(m, bs). Inr (n + m, (tok, tmp) # bs)))"

fun suffix_jumps :: "op \<Rightarrow> int \<Rightarrow> (token \<times> tape) list \<Rightarrow> gen" where
  "suffix_jumps p n [] = gens []"
| "suffix_jumps p n ((tok, tmp) # bs) =
     gens [ins_num p (n + int (length bs)) tok, append_tape (int (tape_size tmp)) tmp,
           suffix_jumps p (n - int (tape_size tmp)) bs]"

(* src/lang/semantics/expressions/expression.c [615-638] Produce_and_expression *)
definition produce_and_expression :: "gen \<Rightarrow> gen bi_suffix list \<Rightarrow> gen" where
  "produce_and_expression g ss = gens [g, \<lambda>t. andThen (suffix_tapes ss) (\<lambda>(n, bs). suffix_jumps IFN n bs t)]"

(* src/lang/semantics/expressions/expression.c [647-670] Produce_or_expression *)
definition produce_or_expression :: "gen \<Rightarrow> gen bi_suffix list \<Rightarrow> gen" where
  "produce_or_expression g ss = gens [g, \<lambda>t. andThen (suffix_tapes ss) (\<lambda>(n, bs). suffix_jumps IF n bs t)]"

(* src/lang/semantics/expressions/expression.c [684-692] Produce_in_expression *)
definition produce_in_expression :: "token \<Rightarrow> bool \<Rightarrow> gen \<Rightarrow> gen \<Rightarrow> gen" where
  "produce_in_expression tok is_not element collection =
     gens [collection, ins_none PUSH tok, element, ins_text CALL ''__in__'' tok,
           (if is_not then ins_none NOT_O tok else gens [])]"

(* src/lang/semantics/expressions/expression.c [705-711] Produce_is_expression *)
definition produce_is_expression :: "token \<Rightarrow> gen \<Rightarrow> gen \<Rightarrow> gen" where
  "produce_is_expression tok e ty = gens [e, ins_none PUSH tok, ty, ins_none PUSH tok, ins_none IS tok]"

subsection \<open>Conditionals\<close>

text \<open>Conditions and bodies on tapes of their own, with the sums of what was counted.\<close>

(* src/lang/semantics/expressions/expression.c [784-793] produce_if_else *)
fun if_tapes :: "(token \<times> gen \<times> gen) list \<Rightarrow> (int \<times> int \<times> (token \<times> tape \<times> tape) list) res" where
  "if_tapes [] = Inr (0, 0, [])"
| "if_tapes ((tok, c, b) # cs) = andThen (c tape_create) (\<lambda>(n, ct). andThen (b tape_create) (\<lambda>(m, bt).
     andThen (if_tapes cs) (\<lambda>(ns, ms, ts). Inr (n + ns, m + ms, (tok, ct, bt) # ts))))"

text \<open>Conditions forward; \<open>all\<close> is where the last one jumps, the two sums are of what is still to come.\<close>

(* src/lang/semantics/expressions/expression.c [808-828] produce_if_else *)
fun if_conds :: "int \<Rightarrow> int \<Rightarrow> int \<Rightarrow> (token \<times> tape \<times> tape) list \<Rightarrow> gen" where
  "if_conds all nc nb [] = gens []"
| "if_conds all nc nb ((tok, ct, bt) # ts) =
     gens [append_tape (int (tape_size ct)) ct,
           (if ts = [] then ins_num IFN all tok
            else ins_num IF ((nc - int (tape_size ct)) + (nb - int (tape_size bt)) + 2 * int (length ts)) tok),
           if_conds all (nc - int (tape_size ct)) (nb - int (tape_size bt)) ts]"

text \<open>Bodies backward: the list is reversed, \<open>nb\<close> the size of its bodies.\<close>

(* src/lang/semantics/expressions/expression.c [830-837] produce_if_else *)
fun if_bodies :: "bool \<Rightarrow> int \<Rightarrow> int \<Rightarrow> (token \<times> tape \<times> tape) list \<Rightarrow> gen" where
  "if_bodies has_else ne nb [] = gens []"
| "if_bodies has_else ne nb ((tok, ct, bt) # ts) =
     gens [append_tape (int (tape_size bt)) bt,
           (if ts \<noteq> [] \<or> has_else
            then ins_num JMP (ne + (nb - int (tape_size bt)) + int (length ts)) tok else gens []),
           if_bodies has_else ne (nb - int (tape_size bt)) ts]"

text \<open>What is returned is computed, not summed.\<close>

(* src/lang/semantics/expressions/expression.c produce_if_else *)
definition produce_if_else :: "gen if_else \<Rightarrow> gen" where
  "produce_if_else ie t = andThen (if_tapes (conditions ie)) (\<lambda>(nc, nb, ts).
     andThen (case else_exp ie of None \<Rightarrow> Inr (- 1, None)
              | Some g \<Rightarrow> andThen (g tape_create) (\<lambda>(n, tmp). Inr (n, Some tmp))) (\<lambda>(ne, et).
     let k = int (length ts);
         all = nb + k + (if et = None then - 1 else 0)
     in andThen (gens [if_conds all nc nb ts, if_bodies (et \<noteq> None) ne nb (rev ts),
                       (case et of None \<Rightarrow> gens [] | Some tmp \<Rightarrow> append_tape ne tmp)] t)
          (\<lambda>(_, t). Inr (nc + nb + 2 * k + ne, t))))"

subsection \<open>Arguments and functions\<close>

(* src/lang/semantics/expressions/files.c produce_argument *)
definition produce_argument :: "fops \<Rightarrow> gen argument \<Rightarrow> gen" where
  "produce_argument fo a =
     (let const = (const_token a \<noteq> None) in
      if field_token a \<noteq> None
      then gens [ins_none PUSH (arg_name a), ins_text RES ''self'' (arg_name a),
                 ins_tok fo (if const then FLDC else FLD) (arg_name a)]
      else ins_tok fo (if const then LETC else LET) (arg_name a))"

(* src/lang/semantics/expressions/files.c [249-276] produce_all_arguments *)
fun all_arguments :: "fops \<Rightarrow> token \<Rightarrow> nat \<Rightarrow> gen argument list \<Rightarrow> gen" where
  "all_arguments fo tok i [] = gens []"
| "all_arguments fo tok i (a # as) = gens [
     (case default_value a of
        Some d \<Rightarrow> gens [ins_none PEEK tok, ins_num TGTE (int i + 1) (arg_name a),
          on_new d (\<lambda>n tmp. gens [ins_num IFN 3 (arg_name a),
            ins_none (if as = [] then RES else PEEK) (arg_name a), ins_num TGET (int i) (arg_name a),
            ins_num JMP n (arg_name a), append_tape n tmp])]
      | None \<Rightarrow> gens [(if as = [] then ins_none RES tok else ins_none PEEK (arg_name a)),
                     ins_num TGET (int i) tok]),
     produce_argument fo a, all_arguments fo tok (i + 1) as]"

(* src/lang/semantics/expressions/files.c produce_all_arguments *)
definition produce_all_arguments :: "fops \<Rightarrow> gen arguments \<Rightarrow> gen" where
  "produce_all_arguments fo as = all_arguments fo (args_token as) 0 (args as)"

text \<open>One argument; or more of them, of which the first may be passed alone.\<close>

(* src/lang/semantics/expressions/files.c produce_arguments *)
definition produce_arguments :: "fops \<Rightarrow> gen arguments \<Rightarrow> gen" where
  "produce_arguments fo as = (case args as of
     [] \<Rightarrow> gens [ins_none PUSH (args_token as), fails (Fatal ''alist_get'')]
   | [a] \<Rightarrow> gens [
       (case default_value a of None \<Rightarrow> gens []
        | Some d \<Rightarrow> on_new d (\<lambda>n tmp. gens [ins_none PUSH (arg_name a), ins_num TGTE 1 (arg_name a),
            ins_num IF (n + 1) (arg_name a), append_tape n tmp, ins_num JMP 1 (arg_name a),
            ins_none RES (arg_name a), ins_num TGET 0 (arg_name a)])),
       produce_argument fo a]
   | a # rest \<Rightarrow> gens [ins_none PUSH (args_token as),
       ins_none TLEN (arg_name a), ins_none PUSH (arg_name a), ins_num PUSH (- 1) (arg_name a), ins_none EQ (arg_name a),
       on_new (gens [ins_none RES (arg_name a), produce_argument fo a,
                gens (concat (List.map (\<lambda>b. [(case default_value b of Some d \<Rightarrow> d
                    | None \<Rightarrow> ins_none RNIL (arg_name b)), produce_argument fo b]) rest))])
         (\<lambda>dn dtmp. on_new (produce_all_arguments fo as) (\<lambda>nn ntmp t.
            andThen (ins_num JMP nn (arg_name a) dtmp) (\<lambda>(_, dtmp).
              gens [ins_num IFN (dn + 1) (arg_name a), append_tape (dn + 1) dtmp, append_tape nn ntmp] t)))])"

definition function_label :: "token option \<Rightarrow> token res" where
  "function_label n = (case n of None \<Rightarrow> Inl (UB ''NULL function name'') | Some tok \<Rightarrow> Inr tok)"

(* src/lang/semantics/expressions/files.c produce_function_name *)
definition produce_function_name :: "gen function_def \<Rightarrow> gen" where
  "produce_function_name f = (case special f of
     SpecialMethod_NONE \<Rightarrow> mark (\<lambda>t. andThen (function_label (fn_name f)) (\<lambda>tok. case is_async f of
         None \<Rightarrow> Inl (UB ''uninitialised is_async'')
       | Some a \<Rightarrow> if a then tape_label_async tok t else tape_label tok t))
   | SpecialMethod_EQUIV \<Rightarrow> mark (tape_label_text ''__eq__'')
   | SpecialMethod_NEQUIV \<Rightarrow> mark (tape_label_text ''__neq__'')
   | SpecialMethod_ARRAY_INDEX \<Rightarrow> mark (tape_label_text ''__index__'')
   | SpecialMethod_ARRAY_SET \<Rightarrow> mark (tape_label_text ''__set__''))"

definition opt_arguments :: "fops \<Rightarrow> gen arguments option \<Rightarrow> gen" where
  "opt_arguments fo as = (case as of None \<Rightarrow> gens [] | Some a \<Rightarrow> produce_arguments fo a)"

(* src/lang/semantics/expressions/files.c produce_function *)
definition produce_function :: "fops \<Rightarrow> gen function_def \<Rightarrow> gen" where
  "produce_function fo f = gens [produce_function_name f, opt_arguments fo (fn_args f), fn_body f,
     ins_none RET (def_token f)]"

(* src/lang/semantics/expressions/expression.c produce_anon_function *)
definition produce_anon_function :: "fops \<Rightarrow> gen function_def \<Rightarrow> gen" where
  "produce_anon_function fo f =
     on_new (gens [opt_arguments fo (fn_args f), fn_body f, ins_none RET (def_token f)]) (\<lambda>n tmp.
       gens [ins_num JMP n (def_token f),
             mark (\<lambda>t. case is_async f of None \<Rightarrow> Inl (UB ''uninitialised is_async'')
               | Some a \<Rightarrow> if a then tape_anon_label_async (def_token f) t else tape_anon_label (def_token f) t),
             append_tape n tmp, ins_anon RES (def_token f)])"

(* src/lang/semantics/expressions/expression.c [999-1020] Produce_map_declaration *)
definition produce_map_declaration :: "token \<Rightarrow> (token \<times> gen \<times> gen) list \<Rightarrow> gen" where
  "produce_map_declaration tok es = gens [ins_text PUSH ''struct'' tok, ins_text CLLN ''Map'' tok,
     (if es = [] then gens []
      else gens [ins_none PUSH tok,
        gens (List.map (\<lambda>(c, l, r). gens [ins_none DUP c, r, ins_none PUSH c, l, ins_none PUSH c,
          ins_num TUPL 2 c, ins_text CALL ''__set__'' c]) es),
        ins_none RES tok])]"

end
