(* ===== verification/Codegen.thy ===== *)
theory Codegen imports Produce begin

text \<open>
  The rest of the \<open>ImplProduce\<close>s: assignments, statements, loops, classes and modules; and
  \<open>produce_instructions\<close> (\<open>semantics.c\<close>). Then compiling a file, from its lines to a tape.
\<close>

subsection \<open>Assignments\<close>

text \<open>The call of \<open>produce_assignment_multi\<close> is written into \<open>produce_assignment\<close>.\<close>

(* src/lang/semantics/expressions/assignment.c [176-234] produce_assignment *)
fun produce_assignment :: "fops \<Rightarrow> token \<Rightarrow> gen assignment \<Rightarrow> gen"
  and produce_assignment_multi :: "fops \<Rightarrow> token \<Rightarrow> nat \<Rightarrow> nat \<Rightarrow> gen assignment list \<Rightarrow> gen" where
  "produce_assignment fo eq (SingleAssignment_var v const) =
     ins_tok fo (if const \<noteq> None then SETC else SET) v"
| "produce_assignment fo eq (SingleAssignment_complex e ps) = gens [ins_none PUSH eq, e,
     produce_postfix fo (butlast ps),
     (if ps = [] then fails (Fatal ''alist_get'') else case last ps of
        Postfix_field tok name \<Rightarrow> ins_tok fo FLD name
      | Postfix_array_index tok i \<Rightarrow> gens [ins_none PUSH tok, needed i, ins_none ASET tok]
      | _ \<Rightarrow> fails (Fatal ''Unknown postfix.''))]"
| "produce_assignment fo eq (Assignment_array as) =
     gens [ins_none PUSH eq, produce_assignment_multi fo eq (length as) 0 as]"
| "produce_assignment fo eq (Assignment_tuple as) =
     gens [ins_none PUSH eq, produce_assignment_multi fo eq (length as) 0 as]"
| "produce_assignment_multi fo eq len i [] = gens []"
| "produce_assignment_multi fo eq len i (a # as) = gens [
     ins_none (if int i < int len - int i then PEEK else RES) eq, ins_none PUSH eq, ins_num RES (int i) eq,
     ins_none AIDX eq, produce_assignment fo eq a, produce_assignment_multi fo eq len (i + 1) as]"

(* src/lang/semantics/expressions/assignment.c [236-240] Produce_assignment_expression *)
definition produce_assignment_expression :: "fops \<Rightarrow> token \<Rightarrow> gen assignment \<Rightarrow> gen \<Rightarrow> gen" where
  "produce_assignment_expression fo eq a rhs = gens [rhs, produce_assignment fo eq a]"

subsection \<open>Statements\<close>

(* src/lang/semantics/expressions/statements.c [65-77] Produce_compound_statement *)
definition produce_compound_statement :: "gen list \<Rightarrow> gen" where
  "produce_compound_statement gs = gens gs"

(* src/lang/semantics/expressions/statements.c [103-133] Produce_try_statement *)
definition produce_try_statement :: "fops \<Rightarrow> token \<Rightarrow> token \<Rightarrow> gen \<Rightarrow> gen assignment \<Rightarrow> gen \<Rightarrow> gen" where
  "produce_try_statement fo tok ctok body a cbody =
     on_new body (\<lambda>tn ttmp. on_new cbody (\<lambda>cn ctmp. gens [
       ins_none NBLK tok, ins_num CTCH (tn + 1) ctok, append_tape tn ttmp,
       on_new (produce_assignment fo ctok a) (\<lambda>an atmp. gens [
         ins_num JMP (cn + an) ctok, append_tape an atmp, append_tape cn ctmp]),
       ins_none RNIL ctok, ins_text SET ''$try_goto'' ctok, ins_none BBLK tok]))"

(* src/lang/semantics/expressions/statements.c [143-146] Produce_raise_statement *)
definition produce_raise_statement :: "token \<Rightarrow> gen \<Rightarrow> gen" where
  "produce_raise_statement tok g = gens [g, ins_none RAIS tok]"

(* src/lang/semantics/expressions/statements.c [182-189] Produce_jump_statement *)
definition produce_jump_statement :: "token \<Rightarrow> gen option \<Rightarrow> gen" where
  "produce_jump_statement tok e = gens [opt_gen e, ins_none RET tok]"

definition INT_MAX :: int where
  "INT_MAX = 2147483647"

text \<open>\<open>break\<close> and \<open>continue\<close> are jumps by 0 and \<open>INT_MAX\<close> until their loop is known.\<close>

(* src/lang/semantics/expressions/statements.c [206-217] Produce_break_statement *)
definition produce_break_statement :: "token \<Rightarrow> bool \<Rightarrow> gen" where
  "produce_break_statement tok is_break = ins_num JMP (if is_break then 0 else INT_MAX) tok"

(* src/lang/semantics/expressions/statements.c [228-230] Produce_exit_statement *)
definition produce_exit_statement :: "token \<Rightarrow> gen" where
  "produce_exit_statement tok = ins_none EXIT tok"

subsection \<open>Loops\<close>

text \<open>The pass over the body of a loop: \<open>brk\<close> and \<open>cont\<close> give the offsets from a position.\<close>

(* src/lang/semantics/expressions/loops.c [58-71] Produce_foreach_statement *)
fun patch_jumps :: "(int \<Rightarrow> int) \<Rightarrow> (int \<Rightarrow> int) \<Rightarrow> int \<Rightarrow> instruction list \<Rightarrow> instruction list res" where
  "patch_jumps brk cont i [] = Inr []"
| "patch_jumps brk cont i (x # xs) =
     andThen (if ins_op x \<noteq> JMP then Inr x
              else andThen (ins_int x) (\<lambda>v.
                if sint v = 0 then Inr (x\<lparr>ins_arg := PrimArg (PInt (word_of_int (brk i)))\<rparr>)
                else if sint v = INT_MAX then Inr (x\<lparr>ins_arg := PrimArg (PInt (word_of_int (cont i)))\<rparr>)
                else Inr x))
       (\<lambda>y. andThen (patch_jumps brk cont (i + 1) xs) (\<lambda>ys. Inr (y # ys)))"

definition patched :: "(int \<Rightarrow> int) \<Rightarrow> (int \<Rightarrow> int) \<Rightarrow> tape \<Rightarrow> (tape \<Rightarrow> gen) \<Rightarrow> gen" where
  "patched brk cont tmp k t = andThen (patch_jumps brk cont 0 (t_ins tmp)) (\<lambda>xs. k (tmp\<lparr>t_ins := xs\<rparr>) t)"

(* src/lang/semantics/expressions/loops.c [38-83] Produce_foreach_statement *)
definition produce_foreach_statement :: "fops \<Rightarrow> token \<Rightarrow> token \<Rightarrow> gen assignment \<Rightarrow> gen \<Rightarrow> gen \<Rightarrow> gen" where
  "produce_foreach_statement fo ftok itok a iterable body = gens [
     ins_none NBLK ftok, iterable, ins_none PUSH itok, ins_text CALL ''iter'' itok, ins_none PUSH itok,
     on_new (gens [ins_none DUP ftok, ins_text CALL ''next'' itok, produce_assignment fo itok a, body])
       (\<lambda>bn btmp. gens [ins_none DUP itok, ins_text CALL ''has_next'' itok, ins_num IFN (bn + 1) itok,
          patched (\<lambda>i. bn - i) (\<lambda>i. bn - i - 1) btmp (\<lambda>btmp. append_tape bn btmp),
          ins_num JMP (- (3 + bn + 1)) itok, ins_none RES itok, ins_none BBLK ftok])]"

(* src/lang/semantics/expressions/loops.c [110-147] Produce_for_statement *)
definition produce_for_statement :: "token \<Rightarrow> gen \<Rightarrow> gen \<Rightarrow> gen \<Rightarrow> gen \<Rightarrow> gen" where
  "produce_for_statement tok init c inc body t =
     andThen (gens [ins_none NBLK tok, init] t) (\<lambda>(n0, t).
     andThen (c t) (\<lambda>(cn, t).
     andThen (body tape_create) (\<lambda>(bn, tmp). andThen (inc tmp) (\<lambda>(jn, tmp).
     andThen (gens [
         patched (\<lambda>i. bn + jn - i) (\<lambda>i. bn - i - 1) tmp (\<lambda>tmp. gens [ins_num IFN (bn + jn + 1) tok,
           append_tape (bn + jn) tmp]),
         ins_num JMP (- (bn + cn + jn + 1 + 1)) tok, ins_none BBLK tok] t) (\<lambda>(m, t).
       Inr (n0 + cn + m, t))))))"

(* src/lang/semantics/expressions/loops.c [162-190] Produce_while_statement *)
definition produce_while_statement :: "token \<Rightarrow> gen \<Rightarrow> gen \<Rightarrow> gen" where
  "produce_while_statement tok c body t =
     andThen (gens [ins_none NBLK tok, c] t) (\<lambda>(n0, t).
     andThen (body tape_create) (\<lambda>(bn, tmp).
     andThen (gens [patched (\<lambda>i. bn - i) (\<lambda>i. - (i + 1)) tmp (\<lambda>tmp. gens [ins_num IFN (bn + 1) tok,
         append_tape bn tmp])] t) (\<lambda>(m, t).
     andThen (gens [ins_num JMP (- (n0 + m)) tok, ins_none BBLK tok] t) (\<lambda>(k, t).
       Inr (n0 + m + k, t)))))"

subsection \<open>Classes\<close>

(* src/lang/semantics/expressions/classes.c produce_constructor *)
definition produce_constructor :: "fops \<Rightarrow> gen class_def \<Rightarrow> gen" where
  "produce_constructor fo c = (let cn = class_token c in gens [
     (case constructor c of None \<Rightarrow> mark (tape_label_text ''new'')
      | Some f \<Rightarrow> mark (\<lambda>t. andThen (function_label (fn_name f)) (\<lambda>tok. tape_label tok t))),
     (if fields_of c = [] then gens []
      else gens [ins_none PUSH cn,
        gens (concat (List.map (\<lambda>f. [ins_none PNIL f, ins_text RES ''self'' f, ins_tok fo FLD f]) (fields_of c))),
        ins_none RES cn]),
     (case constructor c of
        None \<Rightarrow> gens [ins_text RES ''self'' cn, ins_none RET cn]
      | Some f \<Rightarrow> gens [opt_arguments fo (fn_args f), fn_body f,
          (\<lambda>t. andThen (function_label (fn_name f)) (\<lambda>tok. ins_text RES ''self'' tok t)),
          ins_none RET (def_token f)])])"

(* src/lang/semantics/expressions/classes.c produce_class *)
definition produce_class :: "fops \<Rightarrow> gen class_def \<Rightarrow> gen" where
  "produce_class fo c = (let cn = class_token c in
     if length (parent_classes_of c) > 1 then fails (Fatal ''Cannot have more than one super class.'')
     else gens [mark (tape_class cn),
       gens (List.map (\<lambda>f. mark (tape_field (tok_text f))) (fields_of c)),
       (if constructor c \<noteq> None \<or> fields_of c \<noteq> [] then produce_constructor fo c else gens []),
       gens (List.map (produce_function fo) (methods c)),
       mark (tape_endclass cn)])"

subsection \<open>Modules\<close>

definition with_name :: "token option \<Rightarrow> (token \<Rightarrow> gen) \<Rightarrow> gen" where
  "with_name n k = (case n of None \<Rightarrow> fails (Fatal ''NOT_NULL(token)'') | Some tok \<Rightarrow> k tok)"

(* src/lang/semantics/expressions/files.c produce_annotation *)
definition produce_annotation :: "fops \<Rightarrow> token \<Rightarrow> gen annotation \<Rightarrow> gen" where
  "produce_annotation fo cn a = with_name (annot_class_name a) (\<lambda>n. gens [
     (case annot_prefix a of
        Some p \<Rightarrow> gens [ins_tok fo RES p, ins_tok fo GTSH n]
      | None \<Rightarrow> ins_tok fo PUSH n),
     (case args_tuple a of Some g \<Rightarrow> gens [g, ins_none CALL n] | None \<Rightarrow> ins_none CLLN n),
     ins_none PUSH n, ins_tok fo RES cn, ins_text CALL ''annotate'' n])"

(* src/lang/semantics/expressions/files.c produce_module_def *)
definition produce_module_def :: "fops \<Rightarrow> gen module_def \<Rightarrow> gen" where
  "produce_module_def fo m = gens [
     (case mod_name m of None \<Rightarrow> gens [] | Some (k, n) \<Rightarrow> mark (\<lambda>t. Inr (tape_module n t))),
     gens (List.map (\<lambda>(k, n). ins_tok fo LMDL n) (mod_imports m)),
     gens (List.map (\<lambda>c. case annot c of None \<Rightarrow> gens [] | Some a \<Rightarrow> produce_annotation fo (class_token c) a)
       (mod_classes m)),
     gens (List.map (\<lambda>c. case parent_classes_of c of [] \<Rightarrow> gens []
       | super # _ \<Rightarrow> gens [ins_tok fo PUSH (class_token c), ins_tok fo RES super,
           ins_text CALL ''$__set_super'' super]) (mod_classes m)),
     gens (mod_statements m),
     ins_num EXIT 0 (case mod_name m of None \<Rightarrow> token_create INTEGER (- 1) (- 1) ''0'' | Some (k, n) \<Rightarrow> k),
     gens (List.map (produce_class fo) (mod_classes m)),
     gens (List.map (produce_function fo) (mod_functions m))]"

subsection \<open>Any expression\<close>

lemma size_postfix [termination_simp]: "x \<in> set_postfix p \<Longrightarrow> size x < size_postfix size p"
  by (cases p) auto

lemma size_bi_suffix [termination_simp]: "x \<in> set_bi_suffix p \<Longrightarrow> size x < size_bi_suffix size p"
  by (cases p) auto

lemma size_in_list:
  "y \<in> set ys \<Longrightarrow> size x < g y \<Longrightarrow> size x < size_list g ys"
  by (metis less_trans size_list_estimation)

lemma size_in_plain: "x \<in> set xs \<Longrightarrow> size x < size_list size xs"
  by (induction xs) auto

lemma size_assignment [termination_simp]: "x \<in> set_assignment a \<Longrightarrow> size x < size_assignment size a"
proof (induction a)
  case (SingleAssignment_complex e ps)
  then show ?case
    by (auto dest!: size_postfix intro: size_in_list less_SucI trans_less_add2 simp: less_Suc_eq)
next
  case (Assignment_array as)
  then show ?case by (fastforce dest: size_in_list)
next
  case (Assignment_tuple as)
  then show ?case by (fastforce dest: size_in_list)
qed auto

lemma size_in_option: "x \<in> set_option e \<Longrightarrow> size x < size_option size e"
  by (cases e) auto

lemma size_argument: "x \<in> set_argument a \<Longrightarrow> size x < size_argument size a"
  by (cases a) (auto dest!: size_in_option)

lemma size_arguments: "x \<in> set_arguments a \<Longrightarrow> size x < size_arguments size a"
  by (cases a) (fastforce dest: size_argument size_in_list)

lemma size_annotation: "x \<in> set_annotation a \<Longrightarrow> size x < size_annotation size a"
  by (cases a) (auto dest!: size_in_option)

lemma size_function_def [termination_simp]: "x \<in> function_def.set_function_def f \<Longrightarrow> size x < size_function_def size f"
proof (cases f)
  case (FunctionDef d n sp c as as' b)
  assume "x \<in> function_def.set_function_def f"
  with FunctionDef consider "x = b" | a where "as' = Some a" "x \<in> set_arguments a" by auto
  then show ?thesis using FunctionDef by cases (auto dest: size_arguments)
qed

lemma size_class_def: "x \<in> set_class_def c \<Longrightarrow> size x < size_class_def size c"
proof (cases c)
  case (ClassDef n ps fs f a ms)
  assume "x \<in> set_class_def c"
  with ClassDef consider g where "f = Some g" "x \<in> function_def.set_function_def g"
    | b where "a = Some b" "x \<in> set_annotation b" | m where "m \<in> set ms" "x \<in> function_def.set_function_def m" by auto
  then show ?thesis using ClassDef
    by cases (auto dest: size_function_def size_annotation
        size_in_list [of _ ms x "size_function_def size", OF _ size_function_def])
qed

lemma size_module_def [termination_simp]: "x \<in> set_module_def m \<Longrightarrow> size x < size_module_def size m"
proof (cases m)
  case (ModuleDef n im cs fs ss)
  assume "x \<in> set_module_def m"
  with ModuleDef consider c where "c \<in> set cs" "x \<in> set_class_def c"
    | f where "f \<in> set fs" "x \<in> function_def.set_function_def f" | "x \<in> set ss" by auto
  then show ?thesis using ModuleDef
    by cases (auto dest: size_in_list [of _ cs x "size_class_def size", OF _ size_class_def]
        size_in_list [of _ fs x "size_function_def size", OF _ size_function_def]
        size_in_plain)
qed

lemma size_triple: "(c, l, r) \<in> set es \<Longrightarrow>
  size l < size_list (size_prod (\<lambda>_. 0) (size_prod size size)) es \<and>
  size r < size_list (size_prod (\<lambda>_. 0) (size_prod size size)) es"
  by (induction es) auto

lemma size_if_else [termination_simp]: "x \<in> set_if_else e \<Longrightarrow> size x < size_if_else size e"
  by (cases e) (auto dest!: size_in_option dest: size_triple)

lemma size_in_postfixes:
  "p \<in> set ps \<Longrightarrow> x \<in> set_postfix p \<Longrightarrow> size x < size_list (size_postfix size) ps"
  by (erule size_in_list) (erule size_postfix)

lemma size_in_suffixes:
  "p \<in> set ps \<Longrightarrow> x \<in> set_bi_suffix p \<Longrightarrow> size x < size_list (size_bi_suffix size) ps"
  by (erule size_in_list) (erule size_bi_suffix)

text \<open>The table of producers, each given the generators of what is below.\<close>

fun constant_token :: "expression_tree \<Rightarrow> token option" where
  "constant_token (Constant tok v) = Some tok"
| "constant_token e = None"

(* src/lang/semantics/semantics.c produce_instructions *)
function produce_instructions :: "fops \<Rightarrow> expression_tree \<Rightarrow> gen" where
  "produce_instructions fo (Identifier tok) = produce_identifier fo tok"
| "produce_instructions fo (Constant tok v) = ins_tok fo RES tok"
| "produce_instructions fo (String_literal tok) = ins_tok fo RES tok"
| "produce_instructions fo (Tuple_expression tok es) =
     produce_tuple_expression tok (List.map (produce_instructions fo) es)"
| "produce_instructions fo (Array_declaration tok e) = produce_array_declaration tok (case e of
     None \<Rightarrow> None
   | Some (Tuple_expression ttok es) \<Rightarrow> Some (Inl (ttok, List.map (produce_instructions fo) es))
   | Some e \<Rightarrow> Some (Inr (produce_instructions fo e)))"
| "produce_instructions fo (Map_declaration tok rtok es) = produce_map_declaration tok
     (List.map (\<lambda>(c, l, r). (c, produce_instructions fo l, produce_instructions fo r)) es)"
| "produce_instructions fo (Primary_expression tok e) = produce_instructions fo e"
| "produce_instructions fo (Primary_expression_no_constants tok e) = produce_instructions fo e"
| "produce_instructions fo (Postfix_expression e ps) =
     produce_postfix_expression fo (produce_instructions fo e)
       (List.map (map_postfix (produce_instructions fo)) ps)"
| "produce_instructions fo (Range_expression tok start fin inc) = produce_range_expression tok
     (produce_instructions fo start) (produce_instructions fo fin)
     (map_option (produce_instructions fo) inc)"
| "produce_instructions fo (Unary_expression tok ty e) =
     produce_unary_expression fo tok ty (constant_token e) (produce_instructions fo e)"
| "produce_instructions fo (Bi_expression k e ss) =
     (case k of And_kind \<Rightarrow> produce_and_expression | Or_kind \<Rightarrow> produce_or_expression | _ \<Rightarrow> produce_bi_expression)
       (produce_instructions fo e) (List.map (map_bi_suffix (produce_instructions fo)) ss)"
| "produce_instructions fo (In_expression tok is_not e c) =
     produce_in_expression tok is_not (produce_instructions fo e) (produce_instructions fo c)"
| "produce_instructions fo (Is_expression tok e ty) =
     produce_is_expression tok (produce_instructions fo e) (produce_instructions fo ty)"
| "produce_instructions fo (Conditional_expression ie) =
     produce_if_else (map_if_else (produce_instructions fo) ie)"
| "produce_instructions fo (Anon_function_definition f) =
     produce_anon_function fo (map_function_def (produce_instructions fo) f)"
| "produce_instructions fo (Assignment_expression eq a rhs) = produce_assignment_expression fo eq
     (map_assignment (produce_instructions fo) a) (produce_instructions fo rhs)"
| "produce_instructions fo (Foreach_statement ftok itok a it body) = produce_foreach_statement fo ftok itok
     (map_assignment (produce_instructions fo) a) (produce_instructions fo it) (produce_instructions fo body)"
| "produce_instructions fo (For_statement tok init c inc body) = produce_for_statement tok
     (produce_instructions fo init) (produce_instructions fo c) (produce_instructions fo inc)
     (produce_instructions fo body)"
| "produce_instructions fo (While_statement tok c body) =
     produce_while_statement tok (produce_instructions fo c) (produce_instructions fo body)"
| "produce_instructions fo (Compound_statement es) =
     produce_compound_statement (List.map (produce_instructions fo) es)"
| "produce_instructions fo (Try_statement tok ctok body a cbody) = produce_try_statement fo tok ctok
     (produce_instructions fo body) (map_assignment (produce_instructions fo) a) (produce_instructions fo cbody)"
| "produce_instructions fo (Raise_statement tok e) = produce_raise_statement tok (produce_instructions fo e)"
| "produce_instructions fo (Selection_statement ie) =
     produce_if_else (map_if_else (produce_instructions fo) ie)"
| "produce_instructions fo (Jump_statement tok e) =
     produce_jump_statement tok (map_option (produce_instructions fo) e)"
| "produce_instructions fo (Break_statement tok b) = produce_break_statement tok b"
| "produce_instructions fo (Exit_statement tok) = produce_exit_statement tok"
| "produce_instructions fo (File_level_statement_list m) =
     produce_module_def fo (map_module_def (produce_instructions fo) m)"
  by pat_completeness auto
termination
  by (relation "measure (\<lambda>(fo, e). size e)")
     (auto simp: termination_simp dest: size_in_postfixes size_in_suffixes size_triple size_in_option)

end
