(* ===== verification/CodegenFacts.thy ===== *)
theory CodegenFacts imports Codegen begin

text \<open>
  What the generators emit. Each appends a fixed list of instructions, as many as it counts, whatever is on the
  tape; and the relative jumps of an expression stay within its code.
\<close>

subsection \<open>What a generator emits\<close>

definition emits :: "gen \<Rightarrow> instruction list \<Rightarrow> bool" where
  "emits g c \<longleftrightarrow> (\<forall>t n t'. g t = Inr (n, t') \<longrightarrow> n = int (length c) \<and> t_ins t' = t_ins t @ c \<and>
     length (t_source_map t') = length (t_source_map t) + length c)"

abbreviation I0 :: "op \<Rightarrow> instruction" where
  "I0 p \<equiv> \<lparr>ins_op = p, ins_arg = NoArg\<rparr>"

abbreviation IT :: "op \<Rightarrow> string \<Rightarrow> instruction" where
  "IT p s \<equiv> \<lparr>ins_op = p, ins_arg = IdArg s\<rparr>"

definition IV :: "op \<Rightarrow> int \<Rightarrow> instruction" where
  "IV p v = \<lparr>ins_op = p, ins_arg = PrimArg (PInt (word_of_int v))\<rparr>"

lemma IV_simps [simp]: "ins_op (IV p v) = p" "ins_arg (IV p v) = PrimArg (PInt (word_of_int v))"
  by (simp_all add: IV_def)

named_theorems emits_intros

lemma emitsD:
  "emits g c \<Longrightarrow> g t = Inr (n, t') \<Longrightarrow> n = int (length c) \<and> t_ins t' = t_ins t @ c \<and>
     length (t_source_map t') = length (t_source_map t) + length c"
  unfolding emits_def by blast

lemma t_ins_emit [simp]:
  "t_ins (emit p a tok t) = t_ins t @ [\<lparr>ins_op = p, ins_arg = a\<rparr>]"
  "length (t_source_map (emit p a tok t)) = Suc (length (t_source_map t))"
  by (simp_all add: emit_def tape_add_source_def tape_add_def)

lemma emits_ins_none [emits_intros]: "emits (ins_none p tok) [I0 p]"
  by (simp add: emits_def ins_none_def tape_ins_no_arg_def)

lemma emits_ins_text [emits_intros]: "emits (ins_text p s tok) [IT p s]"
  by (simp add: emits_def ins_text_def tape_ins_text_def)

lemma emits_ins_num [emits_intros]: "emits (ins_num p v tok) [IV p v]"
  by (simp add: emits_def ins_num_def tape_ins_int_def IV_def)

lemma emits_ins_anon [emits_intros]: "emits (ins_anon p tok) [IT p (anon_fn_for_token tok)]"
  by (simp add: emits_def ins_anon_def tape_ins_anon_def)

text \<open>The operand of an instruction made from a token.\<close>

definition token_arg :: "fops \<Rightarrow> token \<Rightarrow> operand" where
  "token_arg fo tok =
     (if tok_type tok = INTEGER \<or> tok_type tok = FLOATING
      then (case token_to_primitive fo tok of Inr v \<Rightarrow> PrimArg v | Inl _ \<Rightarrow> NoArg)
      else if tok_type tok = STR_T then StrArg (tok_text tok) else IdArg (tok_text tok))"

lemma emits_ins_tok [emits_intros]: "emits (ins_tok fo p tok) [\<lparr>ins_op = p, ins_arg = token_arg fo tok\<rparr>]"
  by (auto simp: emits_def ins_tok_def tape_ins_def token_arg_def andThen_eq_Inr)

definition negated_arg :: "fops \<Rightarrow> token \<Rightarrow> operand" where
  "negated_arg fo tok = (case andThen (token_to_primitive fo tok) pint of
     Inr i \<Rightarrow> PrimArg (PInt (- i)) | Inl _ \<Rightarrow> NoArg)"

lemma emits_ins_neg [emits_intros]: "emits (ins_neg fo p tok) [\<lparr>ins_op = p, ins_arg = negated_arg fo tok\<rparr>]"
  by (auto simp: emits_def ins_neg_def tape_ins_neg_def negated_arg_def andThen_eq_Inr primitive_int_def
      split: if_splits)

lemma emits_fails [emits_intros]: "emits (fails e) c"
  by (simp add: emits_def fails_def)

lemma emits_Nil [emits_intros]: "emits (gens []) []"
  by (simp add: emits_def)

lemma emits_Cons [emits_intros]: "emits g a \<Longrightarrow> emits (gens gs) b \<Longrightarrow> emits (gens (g # gs)) (a @ b)"
  by (fastforce simp: emits_def andThen_eq_Inr)

lemma gens_append:
  "gens (gs @ hs) t = andThen (gens gs t) (\<lambda>(n, t). andThen (gens hs t) (\<lambda>(m, t). Inr (n + m, t)))"
proof (induction gs arbitrary: t)
  case Nil
  show ?case by (cases "gens hs t") auto
next
  case (Cons g gs)
  show ?case
    by (cases "g t") (auto simp: Cons andThen_assoc add.assoc split_def intro!: arg_cong2 [where f = andThen])
qed

lemma emits_append:
  "emits (gens gs) a \<Longrightarrow> emits (gens hs) b \<Longrightarrow> emits (gens (gs @ hs)) (a @ b)"
  by (fastforce simp: emits_def gens_append andThen_eq_Inr)

lemma emits_map [emits_intros]:
  "(\<And>x. x \<in> set xs \<Longrightarrow> emits (f x) (c x)) \<Longrightarrow> emits (gens (List.map f xs)) (concat (List.map c xs))"
  by (induction xs) (auto intro!: emits_Cons emits_Nil)

lemma emits_concat [emits_intros]:
  "(\<And>x. x \<in> set xs \<Longrightarrow> emits (gens (f x)) (c x)) \<Longrightarrow>
   emits (gens (concat (List.map f xs))) (concat (List.map c xs))"
  by (induction xs) (auto intro!: emits_append emits_Nil)

text \<open>Labels, classes and fields add no instruction.\<close>

definition keeps_code :: "(tape \<Rightarrow> tape res) \<Rightarrow> bool" where
  "keeps_code f \<longleftrightarrow> (\<forall>t t'. f t = Inr t' \<longrightarrow> t_ins t' = t_ins t \<and> t_source_map t' = t_source_map t)"

lemma emits_mark [emits_intros]: "keeps_code f \<Longrightarrow> emits (mark f) []"
  by (auto simp: emits_def mark_def keeps_code_def andThen_eq_Inr)

lemma keeps_code_tape [emits_intros]:
  "keeps_code (tape_label tok)" "keeps_code (tape_label_async tok)" "keeps_code (tape_label_text s)"
  "keeps_code (tape_anon_label tok)" "keeps_code (tape_anon_label_async tok)"
  "keeps_code (tape_class tok)" "keeps_code (tape_endclass tok)" "keeps_code (tape_field s)"
  by (auto simp: keeps_code_def tape_label_def tape_label_async_def tape_label_text_def tape_anon_label_def
      tape_anon_label_async_def tape_label_text_async_def tape_start_func_def tape_start_func_at_index_def
      tape_class_def tape_start_class_def tape_start_class_at_index_def tape_endclass_def tape_end_class_def
      tape_end_class_at_index_def tape_field_def Let_def split: option.splits if_splits)

lemma keeps_code_module [emits_intros]: "keeps_code (\<lambda>t. Inr (tape_module n t))"
  by (simp add: keeps_code_def tape_module_def)

lemma keeps_code_andThen [emits_intros]:
  "(\<And>x. keeps_code (f x)) \<Longrightarrow> keeps_code (\<lambda>t. andThen r (\<lambda>x. f x t))"
  by (auto simp: keeps_code_def andThen_eq_Inr)

lemma keeps_code_case [emits_intros]:
  "(\<And>a. keeps_code (f a)) \<Longrightarrow> keeps_code (\<lambda>t. case x of None \<Rightarrow> Inl e | Some a \<Rightarrow> f a t)"
  by (cases x) (auto simp: keeps_code_def)

lemma keeps_code_if [emits_intros]:
  "keeps_code f \<Longrightarrow> keeps_code g \<Longrightarrow> keeps_code (\<lambda>t. if b then f t else g t)"
  by (cases b) simp_all

text \<open>Temporary tapes.\<close>

definition holds :: "tape \<Rightarrow> instruction list \<Rightarrow> bool" where
  "holds tmp c \<longleftrightarrow> t_ins tmp = c \<and> length (t_source_map tmp) = length c"

lemma holdsD: "holds tmp c \<Longrightarrow> t_ins tmp = c" "holds tmp c \<Longrightarrow> tape_size tmp = length c"
  by (simp_all add: holds_def tape_size_def)

lemma emits_on_new [emits_intros]:
  assumes "emits g c" and "\<And>tmp. holds tmp c \<Longrightarrow> emits (k (int (length c)) tmp) d"
  shows "emits (on_new g k) d"
proof -
  have "emits (k n tmp) d" if "g tape_create = Inr (n, tmp)" for n tmp
    using assms(2) [of tmp] emitsD [OF assms(1) that] by (simp add: holds_def tape_create_def)
  moreover have "\<exists>m tmp. g tape_create = Inr (m, tmp) \<and> k m tmp t = Inr (n, t')"
    if "on_new g k t = Inr (n, t')" for t n t'
    using that by (auto simp: on_new_def andThen_eq_Inr)
  ultimately show ?thesis unfolding emits_def by blast
qed

lemma tape_append_code [simp]:
  "t_ins (tape_append t tmp) = t_ins t @ t_ins tmp"
  "t_source_map (tape_append t tmp) = t_source_map t @ t_source_map tmp"
  by (simp_all add: tape_append_def Let_def)

lemma emits_append_tape [emits_intros]: "holds tmp c \<Longrightarrow> n = int (length c) \<Longrightarrow> emits (append_tape n tmp) c"
  by (simp add: emits_def append_tape_def holds_def)

subsection \<open>Jumps\<close>

text \<open>The jump of instruction \<open>x\<close> at position \<open>i\<close> leads between \<open>lo\<close> and \<open>hi\<close>, or is a \<open>continue\<close> whose loop
  is not known yet.\<close>

definition jump_in :: "int \<Rightarrow> int \<Rightarrow> int \<Rightarrow> instruction \<Rightarrow> bool" where
  "jump_in lo hi i x \<longleftrightarrow> (ins_op x \<in> {JMP, IF, IFN, CTCH} \<longrightarrow>
     (\<exists>v. ins_arg x = PrimArg (PInt v) \<and>
        (ins_op x = JMP \<and> sint v = INT_MAX \<or> lo \<le> i + 1 + sint v \<and> i + 1 + sint v \<le> hi)))"

fun jumps_in :: "int \<Rightarrow> int \<Rightarrow> int \<Rightarrow> instruction list \<Rightarrow> bool" where
  "jumps_in lo hi i [] = True"
| "jumps_in lo hi i (x # xs) = (jump_in lo hi i x \<and> jumps_in lo hi (i + 1) xs)"

lemma jumps_in_append [simp]:
  "jumps_in lo hi i (xs @ ys) \<longleftrightarrow> jumps_in lo hi i xs \<and> jumps_in lo hi (i + int (length xs)) ys"
  by (induction xs arbitrary: i) (auto simp: algebra_simps)

lemma jump_in_shift: "jump_in lo hi i x \<Longrightarrow> jump_in (lo + d) (hi + d) (i + d) x"
  unfolding jump_in_def by (auto simp: algebra_simps)

lemma jumps_in_shift: "jumps_in lo hi i xs \<Longrightarrow> jumps_in (lo + d) (hi + d) (i + d) xs"
proof (induction xs arbitrary: i)
  case (Cons x xs)
  have "i + d + 1 = i + 1 + d" by simp
  with Cons.IH [of "i + 1"] Cons.prems show ?case by (metis jump_in_shift jumps_in.simps(2))
qed simp

lemma jump_in_mono: "jump_in lo hi i x \<Longrightarrow> lo' \<le> lo \<Longrightarrow> hi \<le> hi' \<Longrightarrow> jump_in lo' hi' i x"
  unfolding jump_in_def by (meson order_trans)

lemma jumps_in_mono: "jumps_in lo hi i xs \<Longrightarrow> lo' \<le> lo \<Longrightarrow> hi \<le> hi' \<Longrightarrow> jumps_in lo' hi' i xs"
  by (induction xs arbitrary: i) (auto intro: jump_in_mono)

text \<open>A list of instructions whose jumps stay in it, when it is short enough for its offsets.\<close>

definition closed :: "instruction list \<Rightarrow> bool" where
  "closed c \<longleftrightarrow> (int (length c) < INT_MAX \<longrightarrow> jumps_in 0 (int (length c)) 0 c)"

lemma closed_in:
  assumes "closed c" and "int (length c) < INT_MAX" and "lo \<le> i" and "i + int (length c) \<le> hi"
  shows "jumps_in lo hi i c"
proof -
  have "jumps_in (0 + i) (int (length c) + i) (0 + i) c"
    using assms(1,2) jumps_in_shift unfolding closed_def by blast
  with assms(3,4) show ?thesis by (auto elim: jumps_in_mono)
qed

lemma sint_small [simp]: "- 2147483648 \<le> v \<Longrightarrow> v < 2147483648 \<Longrightarrow> sint (word_of_int v :: i32) = v"
  by (simp add: signed_take_bit_int_eq_self sint_sbintrunc')

definition is_jump :: "op \<Rightarrow> bool" where
  "is_jump p \<longleftrightarrow> p \<in> {JMP, IF, IFN, CTCH}"

lemma jump_in_other [simp]: "\<not> is_jump (ins_op x) \<Longrightarrow> jump_in lo hi i x"
  by (auto simp: jump_in_def is_jump_def)

lemma jump_in_IV:
  "- 2147483648 \<le> v \<Longrightarrow> v < 2147483648 \<Longrightarrow> lo \<le> i + 1 + v \<Longrightarrow> i + 1 + v \<le> hi \<Longrightarrow> jump_in lo hi i (IV p v)"
  by (simp add: jump_in_def)

text \<open>A generator that emits closed code.\<close>

definition well :: "gen \<Rightarrow> bool" where
  "well g \<longleftrightarrow> (\<exists>c. emits g c \<and> closed c)"

lemma closed_Nil [simp]: "closed []"
  by (simp add: closed_def)

lemma closed_append: "closed a \<Longrightarrow> closed b \<Longrightarrow> closed (a @ b)"
  by (auto simp: closed_in closed_def [of "a @ b"])

lemma closed_single: "\<not> is_jump (ins_op x) \<Longrightarrow> closed [x]"
  by (simp add: closed_def)

end
