(* ===== verification/JumpFacts.thy ===== *)
theory JumpFacts imports CodegenFacts begin

text \<open>
  Every generator built from closed generators is closed: its own jumps have the lengths of the code they
  jump over. A lemma for each construct that computes a jump.
\<close>

named_theorems well_intros

declare gens.simps [simp del]

lemma wellI: "emits g c \<Longrightarrow> closed c \<Longrightarrow> well g"
  unfolding well_def by blast

lemma is_jump_simps [simp]: "is_jump p = (p = JMP \<or> p = IF \<or> p = IFN \<or> p = CTCH)"
  by (simp add: is_jump_def)

lemma well_ins_none [well_intros]: "\<not> is_jump p \<Longrightarrow> well (ins_none p tok)"
  by (rule wellI [OF emits_ins_none]) (simp add: closed_single)

lemma well_ins_text [well_intros]: "\<not> is_jump p \<Longrightarrow> well (ins_text p s tok)"
  by (rule wellI [OF emits_ins_text]) (simp add: closed_single)

lemma well_ins_num [well_intros]: "\<not> is_jump p \<Longrightarrow> well (ins_num p v tok)"
  by (rule wellI [OF emits_ins_num]) (simp add: closed_single)

lemma well_ins_tok [well_intros]: "\<not> is_jump p \<Longrightarrow> well (ins_tok fo p tok)"
  by (rule wellI [OF emits_ins_tok]) (simp add: closed_single)

lemma well_ins_neg [well_intros]: "\<not> is_jump p \<Longrightarrow> well (ins_neg fo p tok)"
  by (rule wellI [OF emits_ins_neg]) (simp add: closed_single)

lemma well_ins_anon [well_intros]: "\<not> is_jump p \<Longrightarrow> well (ins_anon p tok)"
  by (rule wellI [OF emits_ins_anon]) (simp add: closed_single)

lemma well_fails [well_intros]: "well (fails e)"
  by (rule wellI [OF emits_fails [of e "[]"]]) simp

lemma well_Nil [well_intros]: "well (gens [])"
  by (rule wellI [OF emits_Nil]) simp

lemma well_Cons [well_intros]: "well g \<Longrightarrow> well (gens gs) \<Longrightarrow> well (gens (g # gs))"
  unfolding well_def by (blast intro: emits_Cons closed_append)

lemma well_append: "well (gens gs) \<Longrightarrow> well (gens hs) \<Longrightarrow> well (gens (gs @ hs))"
  unfolding well_def by (blast intro: emits_append closed_append)

lemma well_list: "(\<And>g. g \<in> set gs \<Longrightarrow> well g) \<Longrightarrow> well (gens gs)"
  by (induction gs) (auto intro: well_intros)

lemma well_map [well_intros]: "(\<And>x. x \<in> set xs \<Longrightarrow> well (f x)) \<Longrightarrow> well (gens (List.map f xs))"
  by (rule well_list) auto

lemma well_concat [well_intros]:
  "(\<And>x. x \<in> set xs \<Longrightarrow> well (gens (f x))) \<Longrightarrow> well (gens (concat (List.map f xs)))"
  by (induction xs) (auto intro: well_intros well_append)

lemma well_mark [well_intros]: "keeps_code f \<Longrightarrow> well (mark f)"
  by (rule wellI [OF emits_mark]) simp_all

subsection \<open>Loops over bodies on tapes of their own\<close>

lemma run_tape:
  "emits g c \<Longrightarrow> g tape_create = Inr (n, tmp) \<Longrightarrow> holds tmp c \<and> n = int (length c)"
  by (auto dest!: emitsD simp: holds_def tape_create_def)

lemma wellE: "well g \<Longrightarrow> (\<And>c. emits g c \<Longrightarrow> closed c \<Longrightarrow> thesis) \<Longrightarrow> thesis"
  unfolding well_def by blast

lemma choose_list: "(\<And>x. x \<in> set xs \<Longrightarrow> \<exists>y. P x y) \<Longrightarrow> \<exists>ys. list_all2 P xs ys"
  by (induction xs) (auto simp: list_all2_Cons1)

abbreviation total :: "instruction list list \<Rightarrow> int" where
  "total cs \<equiv> int (length (concat cs))"

lemma suffix_tapes_holds:
  "list_all2 (\<lambda>s. emits (bi_exp s)) ss cs \<Longrightarrow> suffix_tapes ss = Inr (n, bs) \<Longrightarrow>
   list_all2 holds (List.map snd bs) cs \<and> n = total cs"
proof (induction ss arbitrary: n bs cs)
  case (Cons s ss)
  obtain tok ty g where s: "s = BiSuffix tok ty g" by (cases s)
  with Cons.prems obtain c cs' where cs: "cs = c # cs'" "emits g c" "list_all2 (\<lambda>s. emits (bi_exp s)) ss cs'"
    by (auto simp: list_all2_Cons1)
  from s Cons.prems(2) obtain k tmp m bs' where g: "g tape_create = Inr (k, tmp)"
    and rest: "suffix_tapes ss = Inr (m, bs')" and nb: "n = k + m" "bs = (tok, tmp) # bs'"
    by (auto simp: andThen_eq_Inr)
  from Cons.IH [OF cs(3) rest] run_tape [OF cs(2) g] show ?case using cs(1) nb by simp
qed simp

fun suffix_code :: "op \<Rightarrow> instruction list list \<Rightarrow> instruction list" where
  "suffix_code p [] = []"
| "suffix_code p (c # cs) = IV p (total (c # cs) + int (length cs)) # c @ suffix_code p cs"

lemma length_suffix_code [simp]: "length (suffix_code p cs) = length (concat cs) + length cs"
  by (induction cs) auto

lemma emits_suffix_jumps:
  "list_all2 holds (List.map snd bs) cs \<Longrightarrow> n = total cs \<Longrightarrow> emits (suffix_jumps p n bs) (suffix_code p cs)"
proof (induction p n bs arbitrary: cs rule: suffix_jumps.induct)
  case (1 p n)
  then show ?case by (simp add: emits_Nil)
next
  case (2 p n tok tmp bs)
  then obtain c cs' where cs: "cs = c # cs'" and c: "holds tmp c"
    and rest: "list_all2 holds (List.map snd bs) cs'" by (auto simp: list_all2_Cons1)
  have len: "length bs = length cs'" using rest by (auto dest: list_all2_lengthD)
  have "emits (suffix_jumps p (n - int (tape_size tmp)) bs) (suffix_code p cs')"
    using "2.IH" [OF rest] "2.prems"(2) cs c by (simp add: holdsD)
  then have "emits (suffix_jumps p n ((tok, tmp) # bs))
      ([IV p (n + int (length bs))] @ c @ suffix_code p cs' @ [])"
    unfolding suffix_jumps.simps
    using c by (intro emits_intros) (auto simp: holdsD)
  then show ?case using "2.prems"(2) cs len by simp
qed

lemma closed_suffix_code: "list_all closed cs \<Longrightarrow> closed (suffix_code p cs)"
proof (induction cs)
  case (Cons c cs)
  show ?case unfolding closed_def
  proof
    assume short: "int (length (suffix_code p (c # cs))) < INT_MAX"
    have "jumps_in 0 (int (length (suffix_code p (c # cs)))) 1 c"
      using Cons.prems short by (intro closed_in) auto
    moreover have "jumps_in 0 (int (length (suffix_code p (c # cs)))) (1 + int (length c)) (suffix_code p cs)"
      using Cons short by (intro closed_in) auto
    moreover have "jump_in 0 (int (length (suffix_code p (c # cs)))) 0 (IV p (total (c # cs) + int (length cs)))"
      using short by (intro jump_in_IV) (auto simp: INT_MAX_def)
    ultimately show "jumps_in 0 (int (length (suffix_code p (c # cs)))) 0 (suffix_code p (c # cs))"
      by simp
  qed
qed simp

lemma emits_suffixes:
  assumes "list_all2 (\<lambda>s. emits (bi_exp s)) ss cs"
  shows "emits (\<lambda>t. andThen (suffix_tapes ss) (\<lambda>(n, bs). suffix_jumps p n bs t)) (suffix_code p cs)"
proof (cases "suffix_tapes ss")
  case (Inl e)
  then show ?thesis by (simp add: emits_def)
next
  case (Inr r)
  then obtain n bs where r: "suffix_tapes ss = Inr (n, bs)" by (cases r) simp
  from emits_suffix_jumps [of bs cs n p] suffix_tapes_holds [OF assms r] show ?thesis by (simp add: r)
qed

lemma well_suffixes [well_intros]:
  assumes "\<And>s. s \<in> set ss \<Longrightarrow> well (bi_exp s)"
  shows "well (\<lambda>t. andThen (suffix_tapes ss) (\<lambda>(n, bs). suffix_jumps p n bs t))"
proof -
  obtain cs where cs: "list_all2 (\<lambda>s c. emits (bi_exp s) c \<and> closed c) ss cs"
    using choose_list [of ss "\<lambda>s c. emits (bi_exp s) c \<and> closed c"] assms unfolding well_def by blast
  have "list_all2 (\<lambda>s. emits (bi_exp s)) ss cs" using cs by (rule list_all2_mono) simp
  moreover have "list_all closed cs" using cs by (induction rule: list_all2_induct) simp_all
  ultimately show ?thesis by (intro wellI [OF emits_suffixes closed_suffix_code])
qed

subsection \<open>Conditionals\<close>

text \<open>The code of conditions and bodies, as pairs.\<close>

definition emits2 :: "token \<times> gen \<times> gen \<Rightarrow> instruction list \<times> instruction list \<Rightarrow> bool" where
  "emits2 x p \<longleftrightarrow> emits (fst (snd x)) (fst p) \<and> emits (snd (snd x)) (snd p)"

definition holds2 :: "token \<times> tape \<times> tape \<Rightarrow> instruction list \<times> instruction list \<Rightarrow> bool" where
  "holds2 x p \<longleftrightarrow> holds (fst (snd x)) (fst p) \<and> holds (snd (snd x)) (snd p)"

lemma emits2_pair [simp]: "emits2 (tok, g, h) (c, b) \<longleftrightarrow> emits g c \<and> emits h b"
  by (simp add: emits2_def)

lemma holds2_pair [simp]: "holds2 (tok, ct, bt) (c, b) \<longleftrightarrow> holds ct c \<and> holds bt b"
  by (simp add: holds2_def)

lemma if_tapes_holds:
  "list_all2 emits2 cs ps \<Longrightarrow> if_tapes cs = Inr (n, m, ts) \<Longrightarrow>
   list_all2 holds2 ts ps \<and> n = total (List.map fst ps) \<and> m = total (List.map snd ps)"
proof (induction cs arbitrary: n m ts ps)
  case (Cons x cs)
  obtain tok c b where x: "x = (tok, c, b)" by (cases x)
  with Cons.prems(1) obtain cc bc qs where ps: "ps = (cc, bc) # qs" "emits c cc" "emits b bc" "list_all2 emits2 cs qs"
    by (auto simp: list_all2_Cons1)
  from x Cons.prems(2) obtain k ct l bt n' m' ts' where c: "c tape_create = Inr (k, ct)"
    and b: "b tape_create = Inr (l, bt)" and rest: "if_tapes cs = Inr (n', m', ts')"
    and eq: "n = k + n'" "m = l + m'" "ts = (tok, ct, bt) # ts'"
    by (auto simp: andThen_eq_Inr)
  from Cons.IH [OF ps(4) rest] run_tape [OF ps(2) c] run_tape [OF ps(3) b] show ?case using eq ps(1) by simp
qed simp

fun conds_code :: "int \<Rightarrow> (instruction list \<times> instruction list) list \<Rightarrow> instruction list" where
  "conds_code all [] = []"
| "conds_code all ((c, b) # ps) = c @ (if ps = [] then IV IFN all
     else IV IF (total (List.map fst ps) + total (List.map snd ps) + 2 * int (length ps))) # conds_code all ps"

fun bodies_code :: "bool \<Rightarrow> int \<Rightarrow> (instruction list \<times> instruction list) list \<Rightarrow> instruction list" where
  "bodies_code has_else ne [] = []"
| "bodies_code has_else ne ((c, b) # ps) = b @ (if ps \<noteq> [] \<or> has_else
     then [IV JMP (ne + total (List.map snd ps) + int (length ps))] else []) @ bodies_code has_else ne ps"

lemma length_conds_code [simp]:
  "length (conds_code all ps) = length (concat (List.map fst ps)) + length ps"
  by (induction all ps rule: conds_code.induct) auto

lemma length_bodies_code:
  "int (length (bodies_code e ne ps)) = total (List.map snd ps) + int (length ps)
     - (if e \<or> ps = [] then 0 else 1)"
  by (induction e ne ps rule: bodies_code.induct) auto

lemma emits_if_conds:
  "list_all2 holds2 ts ps \<Longrightarrow> nc = total (List.map fst ps) \<Longrightarrow> nb = total (List.map snd ps) \<Longrightarrow>
   emits (if_conds all nc nb ts) (conds_code all ps)"
proof (induction all nc nb ts arbitrary: ps rule: if_conds.induct)
  case (1 all nc nb)
  then show ?case by (simp add: emits_Nil)
next
  case (2 all nc nb tok ct bt ts)
  then obtain c b qs where ps: "ps = (c, b) # qs" and c: "holds ct c" and b: "holds bt b"
    and rest: "list_all2 holds2 ts qs" by (auto simp: list_all2_Cons1)
  have len: "length ts = length qs" "ts = [] \<longleftrightarrow> qs = []"
    using rest by (auto dest: list_all2_lengthD)
  have "emits (if_conds all (nc - int (tape_size ct)) (nb - int (tape_size bt)) ts) (conds_code all qs)"
    using "2.IH" [OF rest] "2.prems"(2,3) ps c b by (simp add: holdsD)
  moreover have "emits (if ts = [] then ins_num IFN all tok
      else ins_num IF ((nc - int (tape_size ct)) + (nb - int (tape_size bt)) + 2 * int (length ts)) tok)
      [if qs = [] then IV IFN all
       else IV IF (total (List.map fst qs) + total (List.map snd qs) + 2 * int (length qs))]"
    using "2.prems"(2,3) ps c b len by (auto simp: holdsD emits_ins_num)
  ultimately have "emits (if_conds all nc nb ((tok, ct, bt) # ts)) (c @ [if qs = [] then IV IFN all
       else IV IF (total (List.map fst qs) + total (List.map snd qs) + 2 * int (length qs))] @
       conds_code all qs @ [])"
    unfolding if_conds.simps using c by (intro emits_intros) (auto simp: holdsD)
  then show ?case by (simp add: ps)
qed

lemma emits_if_bodies:
  "list_all2 holds2 ts ps \<Longrightarrow> nb = total (List.map snd ps) \<Longrightarrow>
   emits (if_bodies e ne nb ts) (bodies_code e ne ps)"
proof (induction e ne nb ts arbitrary: ps rule: if_bodies.induct)
  case (1 e ne nb)
  then show ?case by (simp add: emits_Nil)
next
  case (2 e ne nb tok ct bt ts)
  then obtain c b qs where ps: "ps = (c, b) # qs" and b: "holds bt b"
    and rest: "list_all2 holds2 ts qs" by (auto simp: list_all2_Cons1)
  have len: "length ts = length qs" "ts = [] \<longleftrightarrow> qs = []"
    using rest by (auto dest: list_all2_lengthD)
  have "emits (if_bodies e ne (nb - int (tape_size bt)) ts) (bodies_code e ne qs)"
    using "2.IH" [OF rest] "2.prems"(2) ps b by (simp add: holdsD)
  moreover have "emits (if ts \<noteq> [] \<or> e
      then ins_num JMP (ne + (nb - int (tape_size bt)) + int (length ts)) tok else gens [])
      (if qs \<noteq> [] \<or> e then [IV JMP (ne + total (List.map snd qs) + int (length qs))] else [])"
    using "2.prems"(2) ps b len by (simp add: holdsD emits_ins_num emits_Nil)
  ultimately have "emits (if_bodies e ne nb ((tok, ct, bt) # ts)) (b @ (if qs \<noteq> [] \<or> e
      then [IV JMP (ne + total (List.map snd qs) + int (length qs))] else []) @ bodies_code e ne qs @ [])"
    unfolding if_bodies.simps using b by (intro emits_intros) (auto simp: holdsD)
  then show ?case by (simp add: ps)
qed

text \<open>Where the jumps lead: a condition to its body or behind the bodies, a body to the end.\<close>

lemma jumps_conds_code:
  assumes "\<And>c b. (c, b) \<in> set ps \<Longrightarrow> closed c" and "0 \<le> i" and "ps \<noteq> [] \<Longrightarrow> 0 \<le> all"
    and "i + int (length (conds_code all ps)) + all \<le> hi" and "hi < INT_MAX"
    and "ps \<noteq> [] \<Longrightarrow> total (List.map snd ps) + int (length ps) - 1 \<le> all"
  shows "jumps_in 0 hi i (conds_code all ps)"
  using assms
proof (induction all ps arbitrary: i rule: conds_code.induct)
  case (2 all c b ps)
  have "jumps_in 0 hi i c" using 2 by (intro closed_in) auto
  moreover have "jumps_in 0 hi (i + int (length c) + 1) (conds_code all ps)"
    using "2.prems" by (intro "2.IH") auto
  moreover have "jump_in 0 hi (i + int (length c)) (if ps = [] then IV IFN all
      else IV IF (total (List.map fst ps) + total (List.map snd ps) + 2 * int (length ps)))"
    using "2.prems" by (auto intro!: jump_in_IV simp: INT_MAX_def)
  ultimately show ?case by simp
qed simp

lemma jumps_bodies_code:
  assumes "\<And>c b. (c, b) \<in> set ps \<Longrightarrow> closed b" and "0 \<le> i" and "e \<Longrightarrow> 0 \<le> ne" and "\<not> e \<Longrightarrow> ne = - 1"
    and "i + int (length (bodies_code e ne ps)) + (if e then ne else 0) \<le> hi" and "hi < INT_MAX"
  shows "jumps_in 0 hi i (bodies_code e ne ps)"
  using assms
proof (induction e ne ps arbitrary: i rule: bodies_code.induct)
  case (2 e ne c b ps)
  have "0 \<le> (if e then ne else 0)" using "2.prems"(3) by simp
  then have "i + int (length b) \<le> hi" using "2.prems"(5) by simp
  then have "jumps_in 0 hi i b" using "2.prems" by (intro closed_in) auto
  moreover have "jumps_in 0 hi (i + int (length b)) (if ps \<noteq> [] \<or> e
      then [IV JMP (ne + total (List.map snd ps) + int (length ps))] else [])"
    using "2.prems" length_bodies_code [of e ne ps]
    by (cases "ps = []") (auto intro!: jump_in_IV simp: INT_MAX_def split: if_splits)
  moreover have "jumps_in 0 hi (i + int (length b) + (if ps \<noteq> [] \<or> e then 1 else 0)) (bodies_code e ne ps)"
    using "2.prems" by (intro "2.IH") (auto split: if_splits)
  ultimately show ?case by (auto simp: add.commute add.left_commute split: if_splits)
qed simp

definition if_code :: "(instruction list \<times> instruction list) list \<Rightarrow> instruction list option \<Rightarrow> instruction list" where
  "if_code ps e =
     conds_code (total (List.map snd ps) + int (length ps) + (if e = None then - 1 else 0)) ps @
     bodies_code (e \<noteq> None) (case e of None \<Rightarrow> - 1 | Some c \<Rightarrow> int (length c)) (rev ps) @
     (case e of None \<Rightarrow> [] | Some c \<Rightarrow> c)"

lemma total_rev [simp]: "length (concat (rev xs)) = length (concat xs)"
  by (induction xs) auto

lemma length_if_code:
  "ps \<noteq> [] \<Longrightarrow> int (length (if_code ps e)) = total (List.map fst ps) + total (List.map snd ps) +
     2 * int (length ps) + (case e of None \<Rightarrow> - 1 | Some c \<Rightarrow> int (length c))"
  by (auto simp: if_code_def length_bodies_code rev_map [symmetric] split: option.splits)

lemma closed_if_code:
  assumes "ps \<noteq> []" and "\<And>c b. (c, b) \<in> set ps \<Longrightarrow> closed c \<and> closed b"
    and "\<And>c. e = Some c \<Longrightarrow> closed c"
  shows "closed (if_code ps e)"
proof -
  let ?N = "int (length (if_code ps e))"
  let ?all = "total (List.map snd ps) + int (length ps) + (if e = None then - 1 else 0)"
  let ?ne = "case e of None \<Rightarrow> - 1 | Some c \<Rightarrow> int (length c)"
  have len: "0 < length ps" using assms(1) by simp
  then have "0 \<le> total (List.map snd ps) + int (length ps) - 1" by linarith
  then have all: "0 \<le> ?all" by auto
  note N = length_if_code [OF assms(1), of e]
  have bl: "int (length (bodies_code (e \<noteq> None) ?ne (rev ps))) = total (List.map snd ps) + int (length ps)
      - (if e = None then 1 else 0)"
    using assms(1) by (simp add: length_bodies_code rev_map [symmetric])
  {
    assume short: "?N < INT_MAX"
    have "jumps_in 0 ?N 0 (conds_code ?all ps)"
      using assms(1,2) all N short by (intro jumps_conds_code) (auto split: option.splits if_splits)
    moreover have "jumps_in 0 ?N (int (length (conds_code ?all ps))) (bodies_code (e \<noteq> None) ?ne (rev ps))"
      using assms(2) N bl short by (intro jumps_bodies_code) (auto split: option.splits)
    moreover have "jumps_in 0 ?N (int (length (conds_code ?all ps)) +
        int (length (bodies_code (e \<noteq> None) ?ne (rev ps)))) (case e of None \<Rightarrow> [] | Some c \<Rightarrow> c)"
      using assms(3) N bl short by (cases e) (auto intro!: closed_in)
    ultimately have "jumps_in 0 ?N 0 (if_code ps e)" unfolding if_code_def [of ps e] by simp
  }
  then show ?thesis unfolding closed_def by blast
qed

lemma emits_if_else:
  assumes ps: "list_all2 emits2 (conditions ie) ps" and ec: "rel_option emits (else_exp ie) ec"
  shows "emits (produce_if_else ie) (if_code ps ec)"
  unfolding emits_def
proof (intro allI impI)
  fix t k t'
  assume "produce_if_else ie t = Inr (k, t')"
  then obtain nc nb ts en et m where tapes: "if_tapes (conditions ie) = Inr (nc, nb, ts)"
    and els: "(case else_exp ie of None \<Rightarrow> Inr (- 1, None)
        | Some g \<Rightarrow> andThen (g tape_create) (\<lambda>(n, tmp). Inr (n, Some tmp))) = Inr (en, et)"
    and m: "gens [if_conds (nb + int (length ts) + (if et = None then - 1 else 0)) nc nb ts,
        if_bodies (et \<noteq> None) en nb (rev ts),
        (case et of None \<Rightarrow> gens [] | Some tmp \<Rightarrow> append_tape en tmp)] t = Inr (m, t')"
    and k: "k = nc + nb + 2 * int (length ts) + en"
    by (auto simp: produce_if_else_def Let_def andThen_eq_Inr)
  from if_tapes_holds [OF ps tapes] have ts: "list_all2 holds2 ts ps"
    and n: "nc = total (List.map fst ps)" "nb = total (List.map snd ps)" by simp_all
  have len: "length ts = length ps" using ts by (rule list_all2_lengthD)
  have ne: "ps \<noteq> []" using ps by (auto simp: conditions_def)
  from els ec have e: "en = (case ec of None \<Rightarrow> - 1 | Some c \<Rightarrow> int (length c))"
    "et = None \<longleftrightarrow> ec = None" "\<And>tmp. et = Some tmp \<Longrightarrow> \<exists>c. ec = Some c \<and> holds tmp c"
    by (auto simp: option_rel_Some1 andThen_eq_Inr dest: run_tape split: option.splits elim!: option.rel_cases)
  let ?all = "nb + int (length ts) + (if et = None then - 1 else 0)"
  have "emits (if_conds ?all nc nb ts) (conds_code ?all ps)"
    using ts n by (rule emits_if_conds)
  moreover have "emits (if_bodies (et \<noteq> None) en nb (rev ts)) (bodies_code (et \<noteq> None) en (rev ps))"
    using ts n by (intro emits_if_bodies) (simp_all add: rev_map [symmetric])
  moreover have "emits (case et of None \<Rightarrow> gens [] | Some tmp \<Rightarrow> append_tape en tmp)
      (case ec of None \<Rightarrow> [] | Some c \<Rightarrow> c)"
    using e by (cases et) (auto simp: emits_Nil intro!: emits_append_tape)
  ultimately have code: "emits (gens [if_conds ?all nc nb ts, if_bodies (et \<noteq> None) en nb (rev ts),
      (case et of None \<Rightarrow> gens [] | Some tmp \<Rightarrow> append_tape en tmp)]) (if_code ps ec @ [])"
    using n e(1,2) len unfolding if_code_def append_assoc by (intro emits_Cons emits_Nil) auto
  from emitsD [OF code m] k length_if_code [OF ne, of ec] n len e(1)
  show "k = int (length (if_code ps ec)) \<and> t_ins t' = t_ins t @ if_code ps ec \<and>
      length (t_source_map t') = length (t_source_map t) + length (if_code ps ec)" by auto
qed

lemma well_if_else:
  assumes "\<And>tok c b. (tok, c, b) \<in> set (conditions ie) \<Longrightarrow> well c \<and> well b"
    and "\<And>g. else_exp ie = Some g \<Longrightarrow> well g"
  shows "well (produce_if_else ie)"
proof -
  have "\<exists>p. emits2 x p \<and> closed (fst p) \<and> closed (snd p)" if "x \<in> set (conditions ie)" for x
  proof -
    obtain tok c b where x: "x = (tok, c, b)" by (cases x)
    with assms(1) that have wells: "well c" "well b" by auto
    obtain cc where "emits c cc" "closed cc" using wells(1) by (rule wellE)
    moreover obtain cb where "emits b cb" "closed cb" using wells(2) by (rule wellE)
    ultimately show ?thesis using x by (intro exI [of _ "(cc, cb)"]) simp
  qed
  then obtain ps where ps: "list_all2 (\<lambda>x p. emits2 x p \<and> closed (fst p) \<and> closed (snd p)) (conditions ie) ps"
    using choose_list [of "conditions ie" "\<lambda>x p. emits2 x p \<and> closed (fst p) \<and> closed (snd p)"] by blast
  obtain ec where ec: "rel_option emits (else_exp ie) ec" "\<And>c. ec = Some c \<Longrightarrow> closed c"
  proof (cases "else_exp ie")
    case None
    then show ?thesis using that [of None] by simp
  next
    case (Some g)
    with assms(2) have "well g" by blast
    then obtain c where "emits g c" "closed c" by (rule wellE)
    with Some show ?thesis using that [of "Some c"] by simp
  qed
  have "list_all2 emits2 (conditions ie) ps" using ps by (rule list_all2_mono) simp
  moreover have "closed c \<and> closed b" if "(c, b) \<in> set ps" for c b
    using ps that by (induction rule: list_all2_induct) auto
  moreover have "ps \<noteq> []" using ps by (auto simp: conditions_def)
  ultimately show ?thesis using ec by (intro wellI [OF emits_if_else closed_if_code])
qed

subsection \<open>Arguments, functions, exceptions\<close>

lemmas well_blocks = closed_in jump_in_IV

lemma well_on_new:
  assumes "well g" and "\<And>c tmp. closed c \<Longrightarrow> holds tmp c \<Longrightarrow> well (k (int (length c)) tmp)"
  shows "well (on_new g k)"
proof (cases "g tape_create")
  case (Inl e)
  then show ?thesis using well_fails [of e] by (simp add: on_new_def [abs_def] fails_def [abs_def])
next
  case (Inr r)
  then obtain n tmp where r: "g tape_create = Inr (n, tmp)" by (cases r) auto
  obtain c where c: "emits g c" "closed c" using assms(1) by (rule wellE)
  with run_tape [OF c(1) r] show ?thesis using assms(2) [of c tmp] r by (simp add: on_new_def [abs_def])
qed

lemma well_opt_gen [well_intros]: "(\<And>g. e = Some g \<Longrightarrow> well g) \<Longrightarrow> well (opt_gen e)"
  by (cases e) (auto simp: opt_gen_def intro: well_intros)

lemma well_needed [well_intros]: "(\<And>g. e = Some g \<Longrightarrow> well g) \<Longrightarrow> well (needed e)"
  by (cases e) (auto simp: needed_def intro: well_intros)

lemma well_if [well_intros]: "(b \<Longrightarrow> well g) \<Longrightarrow> (\<not> b \<Longrightarrow> well h) \<Longrightarrow> well (if b then g else h)"
  by simp

lemma well_case_option [well_intros]:
  "(x = None \<Longrightarrow> well g) \<Longrightarrow> (\<And>a. x = Some a \<Longrightarrow> well (f a)) \<Longrightarrow> well (case x of None \<Rightarrow> g | Some a \<Rightarrow> f a)"
  by (cases x) auto

lemma well_produce_argument [well_intros]: "well (produce_argument fo a)"
  by (auto simp: produce_argument_def Let_def intro!: well_intros)

text \<open>Code with jumps over the closed parts \<open>c\<close>: a list of instructions and parts is closed when each jump is.\<close>

lemma closedI: "(int (length c) < INT_MAX \<Longrightarrow> jumps_in 0 (int (length c)) 0 c) \<Longrightarrow> closed c"
  by (simp add: closed_def)

lemma well_default:
  assumes "well d" and "\<not> is_jump p"
  shows "well (on_new d (\<lambda>n tmp. gens [ins_num IFN 3 a, ins_none p a, ins_num TGET i a, ins_num JMP n a,
     append_tape n tmp]))"
proof (rule well_on_new [OF assms(1)])
  fix c tmp
  assume c: "closed c" "holds tmp c"
  show "well (gens [ins_num IFN 3 a, ins_none p a, ins_num TGET i a, ins_num JMP (int (length c)) a,
      append_tape (int (length c)) tmp])"
  proof (rule wellI)
    show "emits (gens [ins_num IFN 3 a, ins_none p a, ins_num TGET i a, ins_num JMP (int (length c)) a,
        append_tape (int (length c)) tmp]) ([IV IFN 3] @ [I0 p] @ [IV TGET i] @ [IV JMP (int (length c))] @ c @ [])"
      using c(2) by (intro emits_intros) auto
    show "closed ([IV IFN 3] @ [I0 p] @ [IV TGET i] @ [IV JMP (int (length c))] @ c @ [])"
      using c(1) assms(2) by (intro closedI) (auto intro!: well_blocks simp: INT_MAX_def)
  qed
qed

lemma well_all_arguments:
  "(\<And>a d. a \<in> set as \<Longrightarrow> default_value a = Some d \<Longrightarrow> well d) \<Longrightarrow> well (all_arguments fo tok i as)"
proof (induction fo tok i as rule: all_arguments.induct)
  case (2 fo tok i a as)
  then show ?case unfolding all_arguments.simps
    by (intro well_intros well_default) auto
qed (simp add: well_intros)

lemma well_one_default:
  assumes "well d"
  shows "well (on_new d (\<lambda>n tmp. gens [ins_none PUSH a, ins_num TGTE 1 a, ins_num IF (n + 1) a, append_tape n tmp,
     ins_num JMP 1 a, ins_none RES a, ins_num TGET 0 a]))"
proof (rule well_on_new [OF assms])
  fix c tmp
  assume c: "closed c" "holds tmp c"
  let ?g = "gens [ins_none PUSH a, ins_num TGTE 1 a, ins_num IF (int (length c) + 1) a,
      append_tape (int (length c)) tmp, ins_num JMP 1 a, ins_none RES a, ins_num TGET 0 a]"
  let ?c = "[I0 PUSH] @ [IV TGTE 1] @ [IV IF (int (length c) + 1)] @ c @ [IV JMP 1] @ [I0 RES] @ [IV TGET 0] @ []"
  have "emits ?g ?c" using c(2) by (intro emits_intros) auto
  moreover have "closed ?c"
    using c(1) by (intro closedI) (auto intro!: well_blocks simp: INT_MAX_def)
  ultimately show "well ?g" by (rule wellI)
qed

lemma well_many_arguments:
  assumes "well d" and "well e"
  shows "well (on_new d (\<lambda>dn dtmp. on_new e (\<lambda>nn ntmp t.
     andThen (ins_num JMP nn a dtmp) (\<lambda>(_, dtmp).
       gens [ins_num IFN (dn + 1) a, append_tape (dn + 1) dtmp, append_tape nn ntmp] t))))"
proof (rule well_on_new [OF assms(1)], rule well_on_new [OF assms(2)])
  fix c tmp b btmp
  assume c: "closed c" "holds tmp c" and b: "closed b" "holds btmp b"
  have tmp': "holds (tape_ins_int JMP (word_of_int (int (length b))) a tmp) (c @ [IV JMP (int (length b))])"
    using c(2) by (simp add: holds_def tape_ins_int_def IV_def)
  let ?g = "gens [ins_num IFN (int (length c) + 1) a,
      append_tape (int (length c) + 1) (tape_ins_int JMP (word_of_int (int (length b))) a tmp),
      append_tape (int (length b)) btmp]"
  let ?c = "[IV IFN (int (length c) + 1)] @ (c @ [IV JMP (int (length b))]) @ b @ []"
  have "emits ?g ?c" using tmp' b(2) by (intro emits_intros) auto
  moreover have "closed ?c"
    using c(1) b(1) by (intro closedI) (auto intro!: well_blocks simp: INT_MAX_def)
  ultimately have "well ?g" by (rule wellI)
  then show "well (\<lambda>t. andThen (ins_num JMP (int (length b)) a tmp) (\<lambda>(_, dtmp).
      gens [ins_num IFN (int (length c) + 1) a, append_tape (int (length c) + 1) dtmp,
            append_tape (int (length b)) btmp] t))"
    by (simp add: ins_num_def [abs_def] del: of_int_of_nat_eq)
qed

end
