(* ===== verification/LoopFacts.thy ===== *)
theory LoopFacts imports JumpFacts begin

text \<open>
  The jumps of functions, exceptions and loops; and of every expression: what \<open>produce_instructions\<close> emits
  for a tree is closed.
\<close>

subsection \<open>Postfixes, assignments, functions\<close>

lemma well_postfixes:
  "list_all (\<lambda>p. \<forall>g \<in> set_postfix p. well g) ps \<Longrightarrow> well (produce_postfix fo ps)"
  by (induction fo ps rule: produce_postfix.induct)
     (simp_all add: well_intros well_opt_gen well_needed)

lemma well_produce_postfix [well_intros]:
  "(\<And>p g. p \<in> set ps \<Longrightarrow> g \<in> set_postfix p \<Longrightarrow> well g) \<Longrightarrow> well (produce_postfix fo ps)"
  by (rule well_postfixes) (simp add: list_all_iff)

lemma well_produce_assignment [well_intros]:
  "(\<And>g. g \<in> set_assignment a \<Longrightarrow> well g) \<Longrightarrow> well (produce_assignment fo eq a)"
  "(\<And>a g. a \<in> set as \<Longrightarrow> g \<in> set_assignment a \<Longrightarrow> well g) \<Longrightarrow> well (produce_assignment_multi fo eq n i as)"
proof (induction fo eq a and fo eq n i as rule: produce_assignment_produce_assignment_multi.induct)
  case (2 fo eq e ps)
  have "well (produce_postfix fo (butlast ps))"
    using 2 by (intro well_intros) (auto dest: in_set_butlastD)
  moreover have "g \<in> set_postfix (last ps) \<Longrightarrow> well g" if "ps \<noteq> []" for g
    using 2 that by (meson UN_I assignment.set_intros(2) last_in_set)
  ultimately show ?case using 2
    by (auto intro!: well_intros split: postfix.split)
qed (auto intro!: well_intros)

lemma well_produce_constant_arguments [well_intros]:
  "(\<And>b d. b \<in> set bs \<Longrightarrow> default_value b = Some d \<Longrightarrow> well d) \<Longrightarrow>
   well (gens (concat (List.map (\<lambda>b. [(case default_value b of Some d \<Rightarrow> d
      | None \<Rightarrow> ins_none RNIL (arg_name b)), produce_argument fo b]) bs)))"
  by (auto intro!: well_intros split: option.splits)

lemma set_arguments_default:
  "a \<in> set (args as) \<Longrightarrow> default_value a = Some d \<Longrightarrow> d \<in> set_arguments as"
  by (cases as; cases a) force

lemma well_produce_arguments [well_intros]:
  assumes "\<And>g. g \<in> set_arguments as \<Longrightarrow> well g"
  shows "well (produce_arguments fo as)"
proof -
  have d: "well d" if "a \<in> set (args as)" "default_value a = Some d" for a d
    using assms set_arguments_default [OF that] by blast
  show ?thesis
  proof (cases "args as")
    case Nil
    then show ?thesis by (auto simp: produce_arguments_def intro!: well_intros)
  next
    case (Cons a rest)
    have all: "well (produce_all_arguments fo as)"
      unfolding produce_all_arguments_def by (intro well_all_arguments) (use d in auto)
    have first: "well (gens [ins_none RES (arg_name a), produce_argument fo a,
        gens (concat (List.map (\<lambda>b. [(case default_value b of Some d \<Rightarrow> d
          | None \<Rightarrow> ins_none RNIL (arg_name b)), produce_argument fo b]) rest))])"
      using d Cons by (intro well_intros) auto
    show ?thesis
    proof (cases rest)
      case Nil
      then show ?thesis using Cons d [of a]
        by (auto simp: produce_arguments_def intro!: well_intros well_one_default)
    next
      case (Cons b bs)
      then show ?thesis unfolding produce_arguments_def \<open>args as = a # rest\<close>
        using well_many_arguments [OF first all, of "arg_name a"]
        by (simp, intro well_intros) auto
    qed
  qed
qed

lemma well_opt_arguments [well_intros]:
  "(\<And>a g. e = Some a \<Longrightarrow> g \<in> set_arguments a \<Longrightarrow> well g) \<Longrightarrow> well (opt_arguments fo e)"
  by (cases e) (auto simp: opt_arguments_def intro!: well_intros)

lemma well_produce_function_name [well_intros]: "well (produce_function_name f)"
  unfolding produce_function_name_def
  by (cases "special f") (auto intro!: well_intros emits_intros)

lemma well_fn_parts [well_intros]:
  assumes "\<And>g. g \<in> function_def.set_function_def f \<Longrightarrow> well g"
  shows "well (fn_body f)" and "well (opt_arguments fo (fn_args f))"
  using assms by (cases f; auto intro!: well_intros)+

lemma well_andThen: "(\<And>x. well (g x)) \<Longrightarrow> well (\<lambda>t. andThen r (\<lambda>x. g x t))"
  using well_fails by (cases r) (simp_all add: fails_def [abs_def])

lemma well_produce_function:
  "(\<And>g. g \<in> function_def.set_function_def f \<Longrightarrow> well g) \<Longrightarrow> well (produce_function fo f)"
  unfolding produce_function_def by (intro well_intros) auto

lemma well_produce_anon_function [well_intros]:
  assumes "\<And>g. g \<in> function_def.set_function_def f \<Longrightarrow> well g"
  shows "well (produce_anon_function fo f)"
proof -
  have "well (gens [opt_arguments fo (fn_args f), fn_body f, ins_none RET (def_token f)])"
    using assms by (cases f) (auto intro!: well_intros)
  then obtain c where c: "emits (gens [opt_arguments fo (fn_args f), fn_body f, ins_none RET (def_token f)]) c"
    "closed c" by (rule wellE)
  let ?c = "[IV JMP (int (length c))] @ [] @ c @ [IT RES (anon_fn_for_token (def_token f))] @ []"
  have "emits (produce_anon_function fo f) ?c"
    unfolding produce_anon_function_def by (rule emits_on_new [OF c(1)]) (intro emits_intros; simp)
  moreover have "closed ?c" using c(2) by (intro closedI) (auto intro!: well_blocks simp: INT_MAX_def)
  ultimately show ?thesis by (rule wellI)
qed

lemmas straight_intros = emits_Cons emits_Nil emits_ins_none emits_ins_num emits_ins_text emits_append_tape

lemma well_produce_try_statement:
  assumes "well body" and "\<And>g. g \<in> set_assignment a \<Longrightarrow> well g" and "well cbody"
  shows "well (produce_try_statement fo tok ctok body a cbody)"
proof -
  obtain b where b: "emits body b" "closed b" using assms(1) by (rule wellE)
  obtain c where c: "emits cbody c" "closed c" using assms(3) by (rule wellE)
  have "well (produce_assignment fo ctok a)" using assms(2) by (rule well_intros)
  then obtain x where x: "emits (produce_assignment fo ctok a) x" "closed x" by (rule wellE)
  let ?c = "[I0 NBLK] @ [IV CTCH (int (length b) + 1)] @ b @
    ([IV JMP (int (length c) + int (length x))] @ x @ c @ []) @ [I0 RNIL] @ [IT SET ''$try_goto''] @ [I0 BBLK] @ []"
  have "emits (produce_try_statement fo tok ctok body a cbody) ?c"
    unfolding produce_try_statement_def
    by (rule emits_on_new [OF b(1)], rule emits_on_new [OF c(1)])
       (intro straight_intros emits_on_new [OF x(1)]; simp)
  moreover have "closed ?c"
    using b(2) c(2) x(2) by (intro closedI) (auto intro!: well_blocks simp: INT_MAX_def)
  ultimately show ?thesis by (rule wellI)
qed

subsection \<open>Loops\<close>

lemma length_patch_jumps: "patch_jumps brk cont i xs = Inr ys \<Longrightarrow> length ys = length xs"
  by (induction xs arbitrary: i ys) (auto simp: andThen_eq_Inr)

abbreviation leads :: "int \<Rightarrow> int \<Rightarrow> int \<Rightarrow> int \<Rightarrow> bool" where
  "leads lo hi i v \<equiv> - 2147483648 \<le> v \<and> v < 2147483648 \<and> lo \<le> i + 1 + v \<and> i + 1 + v \<le> hi"

lemma andThen_InrE: "andThen m f = Inr y \<Longrightarrow> (\<And>x. m = Inr x \<Longrightarrow> f x = Inr y \<Longrightarrow> thesis) \<Longrightarrow> thesis"
  by (auto simp: andThen_eq_Inr)

lemma jump_in_set_arg: "leads lo hi i v \<Longrightarrow> jump_in lo hi i (x\<lparr>ins_arg := PrimArg (PInt (word_of_int v))\<rparr>)"
  unfolding jump_in_def by simp

lemma jump_in_patched:
  assumes "andThen (ins_int x) (\<lambda>v. if sint v = 0 then Inr (x\<lparr>ins_arg := PrimArg (PInt (word_of_int b))\<rparr>)
      else if sint v = INT_MAX then Inr (x\<lparr>ins_arg := PrimArg (PInt (word_of_int c))\<rparr>) else Inr x) = Inr y"
    and "jump_in lo hi i x" and "leads lo hi i b \<and> leads lo hi i c"
  shows "jump_in lo hi i y"
proof -
  from assms(1) obtain v where
    "y = x \<or> y = x\<lparr>ins_arg := PrimArg (PInt (word_of_int b))\<rparr> \<or> y = x\<lparr>ins_arg := PrimArg (PInt (word_of_int c))\<rparr>"
    unfolding andThen_eq_Inr by (metis Inr_inject)
  then show ?thesis using assms(2,3) jump_in_set_arg [where lo = lo and hi = hi and i = i and x = x] by metis
qed

lemma jumps_patch_jumps:
  "patch_jumps brk cont i xs = Inr ys \<Longrightarrow> jumps_in lo hi (d + i) xs \<Longrightarrow>
   (\<And>j. i \<le> j \<Longrightarrow> j < i + int (length xs) \<Longrightarrow> leads lo hi (d + j) (brk j) \<and> leads lo hi (d + j) (cont j)) \<Longrightarrow>
   jumps_in lo hi (d + i) ys"
proof (induction xs arbitrary: i ys)
  case (Cons x xs)
  let ?y = "if ins_op x \<noteq> JMP then Inr x else andThen (ins_int x) (\<lambda>v.
      if sint v = 0 then Inr (x\<lparr>ins_arg := PrimArg (PInt (word_of_int (brk i)))\<rparr>)
      else if sint v = INT_MAX then Inr (x\<lparr>ins_arg := PrimArg (PInt (word_of_int (cont i)))\<rparr>) else Inr x)"
  obtain y where y: "?y = Inr y"
    and r: "andThen (patch_jumps brk cont (i + 1) xs) (\<lambda>zs. Inr (y # zs)) = Inr ys"
    using Cons.prems(1) unfolding patch_jumps.simps by (rule andThen_InrE)
  from r obtain zs where zs: "patch_jumps brk cont (i + 1) xs = Inr zs" and ys: "ys = y # zs"
    by (auto simp: andThen_eq_Inr)
  have "jump_in lo hi (d + i) x" using Cons.prems(2) by simp
  moreover have "leads lo hi (d + i) (brk i) \<and> leads lo hi (d + i) (cont i)" using Cons.prems(3) [of i] by simp
  ultimately have "jump_in lo hi (d + i) y"
    using y jump_in_patched [of x "brk i" "cont i" y lo hi "d + i"] by (cases "ins_op x = JMP") simp_all
  moreover have "jumps_in lo hi (d + (i + 1)) zs"
  proof (rule Cons.IH [OF zs])
    show "jumps_in lo hi (d + (i + 1)) xs" using Cons.prems(2) by (simp add: algebra_simps)
    show "leads lo hi (d + j) (brk j) \<and> leads lo hi (d + j) (cont j)"
      if "i + 1 \<le> j" "j < i + 1 + int (length xs)" for j
      using Cons.prems(3) [of j] that by simp
  qed
  ultimately show ?case by (simp add: ys add.assoc)
qed simp

text \<open>The body of a loop after the pass; its content does not matter where the pass fails.\<close>

definition patch :: "(int \<Rightarrow> int) \<Rightarrow> (int \<Rightarrow> int) \<Rightarrow> instruction list \<Rightarrow> instruction list" where
  "patch brk cont c = (case patch_jumps brk cont 0 c of Inr ys \<Rightarrow> ys | Inl e \<Rightarrow> c)"

lemma length_patch [simp]: "length (patch brk cont c) = length c"
  by (auto simp: patch_def length_patch_jumps split: sum.split)

lemma jumps_patch:
  assumes "closed c" and "int (length c) < INT_MAX" and "lo \<le> d" and "d + int (length c) \<le> hi"
    and "\<And>j. 0 \<le> j \<Longrightarrow> j < int (length c) \<Longrightarrow> leads lo hi (d + j) (brk j) \<and> leads lo hi (d + j) (cont j)"
  shows "jumps_in lo hi d (patch brk cont c)"
proof -
  have c: "jumps_in lo hi d c" using assms(1-4) by (rule closed_in)
  show ?thesis
  proof (cases "patch_jumps brk cont 0 c")
    case (Inr ys)
    then show ?thesis using jumps_patch_jumps [of brk cont 0 c ys lo hi d] c assms(5) by (simp add: patch_def)
  qed (simp add: patch_def c)
qed

definition patch_ins :: "(int \<Rightarrow> int) \<Rightarrow> (int \<Rightarrow> int) \<Rightarrow> int \<Rightarrow> instruction \<Rightarrow> instruction" where
  "patch_ins brk cont i x = (case ins_arg x of
     PrimArg (PInt v) \<Rightarrow> if ins_op x = JMP \<and> sint v = 0 then x\<lparr>ins_arg := PrimArg (PInt (word_of_int (brk i)))\<rparr>
       else if ins_op x = JMP \<and> sint v = INT_MAX then x\<lparr>ins_arg := PrimArg (PInt (word_of_int (cont i)))\<rparr> else x
   | _ \<Rightarrow> x)"

lemma patch_jumps_nth:
  "jumps_in lo hi d xs \<Longrightarrow> \<exists>ys. patch_jumps brk cont i xs = Inr ys \<and>
     (\<forall>k < length xs. ys ! k = patch_ins brk cont (i + int k) (xs ! k))"
proof (induction xs arbitrary: d i)
  case (Cons x xs)
  from Cons.prems have x: "jump_in lo hi d x" and xs: "jumps_in lo hi (d + 1) xs" by simp_all
  obtain ys where ys: "patch_jumps brk cont (i + 1) xs = Inr ys"
    "\<forall>k < length xs. ys ! k = patch_ins brk cont (i + 1 + int k) (xs ! k)"
    using Cons.IH [OF xs] by blast
  have "patch_jumps brk cont i (x # xs) = Inr (patch_ins brk cont i x # ys)"
    using x ys(1) by (cases "ins_op x = JMP")
      (auto simp: patch_ins_def jump_in_def ins_int_def ins_val_def pint_def split: operand.split primitive.split)
  moreover have "\<forall>k < length (x # xs). (patch_ins brk cont i x # ys) ! k = patch_ins brk cont (i + int k) ((x # xs) ! k)"
    using ys(2) by (auto simp: All_less_Suc2 add.assoc)
  ultimately show ?case by blast
qed simp

lemma patch_nth:
  "closed c \<Longrightarrow> int (length c) < INT_MAX \<Longrightarrow> k < length c \<Longrightarrow> patch brk cont c ! k = patch_ins brk cont (int k) (c ! k)"
  using patch_jumps_nth [of 0 "int (length c)" 0 c brk cont 0] by (auto simp: closed_def patch_def)

lemma emits_patched:
  assumes "holds tmp c" and "\<And>tmp. holds tmp (patch brk cont c) \<Longrightarrow> emits (k tmp) d"
  shows "emits (patched brk cont tmp k) d"
proof (cases "patch_jumps brk cont 0 c")
  case (Inl e)
  then show ?thesis using assms(1) by (simp add: emits_def patched_def holds_def)
next
  case (Inr ys)
  then have "holds (tmp\<lparr>t_ins := ys\<rparr>) (patch brk cont c)"
    using assms(1) by (simp add: holds_def patch_def length_patch_jumps)
  then have "emits (k (tmp\<lparr>t_ins := ys\<rparr>)) d" by (rule assms(2))
  moreover have "patched brk cont tmp k = k (tmp\<lparr>t_ins := ys\<rparr>)"
    using Inr assms(1) by (simp add: fun_eq_iff patched_def holds_def)
  ultimately show ?thesis by simp
qed

lemma well_produce_foreach_statement:
  assumes "\<And>g. g \<in> set_assignment a \<Longrightarrow> well g" and "well iterable" and "well body"
  shows "well (produce_foreach_statement fo ftok itok a iterable body)"
proof -
  let ?b = "gens [ins_none DUP ftok, ins_text CALL ''next'' itok, produce_assignment fo itok a, body]"
  have "well ?b" using assms by (auto intro!: well_intros)
  then obtain b where b: "emits ?b b" "closed b" by (rule wellE)
  let ?p = "patch (\<lambda>i. int (length b) - i) (\<lambda>i. int (length b) - i - 1) b"
  let ?g = "on_new ?b (\<lambda>bn btmp. gens [ins_none DUP itok, ins_text CALL ''has_next'' itok, ins_num IFN (bn + 1) itok,
      patched (\<lambda>i. bn - i) (\<lambda>i. bn - i - 1) btmp (\<lambda>btmp. append_tape bn btmp),
      ins_num JMP (- (3 + bn + 1)) itok, ins_none RES itok, ins_none BBLK ftok])"
  let ?c = "[I0 DUP] @ [IT CALL ''has_next''] @ [IV IFN (int (length b) + 1)] @ ?p @
      [IV JMP (- (3 + int (length b) + 1))] @ [I0 RES] @ [I0 BBLK] @ []"
  have "emits ?g ?c"
    by (rule emits_on_new [OF b(1)]) (intro straight_intros emits_patched; simp)
  moreover have "closed ?c"
    using b(2) by (intro closedI) (auto intro!: jump_in_IV jumps_patch simp: INT_MAX_def)
  ultimately have "well ?g" by (rule wellI)
  with assms(2) show ?thesis unfolding produce_foreach_statement_def
    by (intro well_intros) auto
qed

lemma well_produce_for_statement:
  assumes "well init" and "well cond" and "well inc" and "well body"
  shows "well (produce_for_statement tok init cond inc body)"
proof -
  obtain a where a: "emits init a" "closed a" using assms(1) by (rule wellE)
  obtain c where c: "emits cond c" "closed c" using assms(2) by (rule wellE)
  obtain j where j: "emits inc j" "closed j" using assms(3) by (rule wellE)
  obtain b where b: "emits body b" "closed b" using assms(4) by (rule wellE)
  let ?b = "int (length b)" and ?j = "int (length j)"
  let ?p = "patch (\<lambda>i. ?b + ?j - i) (\<lambda>i. ?b - i - 1) (b @ j)"
  let ?k = "\<lambda>tmp. gens [patched (\<lambda>i. ?b + ?j - i) (\<lambda>i. ?b - i - 1) tmp (\<lambda>tmp. gens [ins_num IFN (?b + ?j + 1) tok,
      append_tape (?b + ?j) tmp]), ins_num JMP (- (?b + int (length c) + ?j + 1 + 1)) tok, ins_none BBLK tok]"
  let ?d = "([IV IFN (?b + ?j + 1)] @ ?p @ []) @ [IV JMP (- (?b + int (length c) + ?j + 1 + 1))] @ [I0 BBLK] @ []"
  have k: "emits (?k tmp) ?d" if "holds tmp (b @ j)" for tmp
    by (intro straight_intros emits_patched [OF that]; simp)
  have start: "emits (gens [ins_none NBLK tok, init]) ([I0 NBLK] @ a @ [])" using a(1) by (intro emits_intros)
  let ?c = "([I0 NBLK] @ a @ []) @ c @ ?d"
  have "emits (produce_for_statement tok init cond inc body) ?c"
    unfolding emits_def
  proof (intro allI impI)
    fix t n t'
    assume "produce_for_statement tok init cond inc body t = Inr (n, t')"
    then obtain n0 t1 cn t2 bn tmp jn tmp' m where
      1: "gens [ins_none NBLK tok, init] t = Inr (n0, t1)" and 2: "cond t1 = Inr (cn, t2)"
      and 3: "body tape_create = Inr (bn, tmp)" "inc tmp = Inr (jn, tmp')"
      and 4: "gens [patched (\<lambda>i. bn + jn - i) (\<lambda>i. bn - i - 1) tmp' (\<lambda>tmp. gens [ins_num IFN (bn + jn + 1) tok,
          append_tape (bn + jn) tmp]), ins_num JMP (- (bn + cn + jn + 1 + 1)) tok, ins_none BBLK tok] t2 = Inr (m, t')"
      and n: "n = n0 + cn + m"
      unfolding produce_for_statement_def by (auto simp: andThen_eq_Inr)
    note * = emitsD [OF start 1] emitsD [OF c(1) 2] emitsD [OF b(1) 3(1)] emitsD [OF j(1) 3(2)]
    then have "holds tmp' (b @ j)" by (simp add: holds_def tape_create_def)
    from emitsD [OF k [OF this], of t2 m t'] 4 * n
    show "n = int (length ?c) \<and> t_ins t' = t_ins t @ ?c \<and>
        length (t_source_map t') = length (t_source_map t) + length ?c" by simp
  qed
  moreover have "closed ?c"
    by (intro closedI) (auto intro!: jump_in_IV jumps_patch [OF closed_append [OF b(2) j(2)]]
        closed_in [OF a(2)] closed_in [OF c(2)] simp: INT_MAX_def)
  ultimately show ?thesis by (rule wellI)
qed

definition while_code :: "instruction list \<Rightarrow> instruction list \<Rightarrow> instruction list" where
  "while_code c b = [I0 NBLK] @ c @ [IV IFN (int (length b) + 1)] @
     patch (\<lambda>i. int (length b) - i) (\<lambda>i. - (i + 1)) b @
     [IV JMP (- (2 + int (length c) + int (length b))), I0 BBLK]"

lemma emits_while [emits_intros]:
  assumes c: "emits cond c" and b: "emits body b"
  shows "emits (produce_while_statement tok cond body) (while_code c b)"
proof -
  let ?b = "int (length b)"
  let ?p = "patch (\<lambda>i. ?b - i) (\<lambda>i. - (i + 1)) b"
  let ?k = "\<lambda>tmp. gens [patched (\<lambda>i. ?b - i) (\<lambda>i. - (i + 1)) tmp (\<lambda>tmp. gens [ins_num IFN (?b + 1) tok,
      append_tape ?b tmp])]"
  let ?d = "([IV IFN (?b + 1)] @ ?p @ []) @ []"
  let ?e = "[IV JMP (- (2 + int (length c) + ?b))] @ [I0 BBLK] @ []"
  have k: "emits (?k tmp) ?d" if "holds tmp b" for tmp
    by (intro straight_intros emits_patched [OF that]; simp)
  have start: "emits (gens [ins_none NBLK tok, cond]) ([I0 NBLK] @ c @ [])" using c by (intro emits_intros)
  have fin: "emits (gens [ins_num JMP (- (2 + int (length c) + ?b)) tok, ins_none BBLK tok]) ?e"
    by (intro straight_intros)
  show ?thesis
    unfolding emits_def
  proof (intro allI impI)
    fix t n t'
    assume "produce_while_statement tok cond body t = Inr (n, t')"
    then obtain n0 t1 bn tmp m t2 l where
      1: "gens [ins_none NBLK tok, cond] t = Inr (n0, t1)" and 2: "body tape_create = Inr (bn, tmp)"
      and 3: "gens [patched (\<lambda>i. bn - i) (\<lambda>i. - (i + 1)) tmp (\<lambda>tmp. gens [ins_num IFN (bn + 1) tok,
          append_tape bn tmp])] t1 = Inr (m, t2)"
      and 4: "gens [ins_num JMP (- (n0 + m)) tok, ins_none BBLK tok] t2 = Inr (l, t')"
      and n: "n = n0 + m + l"
      unfolding produce_while_statement_def by (auto simp: andThen_eq_Inr)
    note * = emitsD [OF start 1] emitsD [OF b 2]
    then have "holds tmp b" by (simp add: holds_def tape_create_def)
    from emitsD [OF k [OF this], of t1 m t2] 3 * have m: "m = 1 + ?b"
      "t_ins t2 = t_ins t1 @ ?d" "length (t_source_map t2) = length (t_source_map t1) + length ?d" by auto
    then have "n0 + m = 2 + int (length c) + ?b" using * by simp
    with emitsD [OF fin, of t2 l t'] 4 have "l = 2" "t_ins t' = t_ins t2 @ ?e"
      "length (t_source_map t') = length (t_source_map t2) + 2" by auto
    with * m n show "n = int (length (while_code c b)) \<and> t_ins t' = t_ins t @ while_code c b \<and>
        length (t_source_map t') = length (t_source_map t) + length (while_code c b)" by (simp add: while_code_def)
  qed
qed

lemma closed_while_code:
  assumes "closed c" and "closed b"
  shows "closed (while_code c b)"
  unfolding while_code_def
  by (intro closedI) (auto intro!: jump_in_IV jumps_patch [OF assms(2)] closed_in [OF assms(1)] simp: INT_MAX_def)

lemma well_produce_while_statement: "well cond \<Longrightarrow> well body \<Longrightarrow> well (produce_while_statement tok cond body)"
  unfolding well_def by (blast intro: emits_while closed_while_code)

subsection \<open>Classes and modules\<close>

lemma well_produce_class:
  assumes "\<And>g. g \<in> set_class_def c \<Longrightarrow> well g"
  shows "well (produce_class fo c)"
proof -
  have m: "well (produce_function fo m)" if "m \<in> set (methods c)" for m
    by (rule well_produce_function) (use assms that in \<open>cases c; auto\<close>)
  have f: "well (opt_arguments fo (fn_args f))" "well (fn_body f)" if "constructor c = Some f" for f
    using assms that by (cases c; auto intro!: well_intros)+
  have k: "well (produce_constructor fo c)" unfolding produce_constructor_def Let_def
    by (auto intro!: well_intros well_andThen emits_intros f split: option.split)
  show ?thesis unfolding produce_class_def Let_def
    using m k by (auto intro!: well_intros emits_intros)
qed

lemma well_produce_annotation:
  assumes "\<And>g. g \<in> set_annotation a \<Longrightarrow> well g"
  shows "well (produce_annotation fo cn a)"
  using assms unfolding produce_annotation_def with_name_def
  by (cases a) (auto intro!: well_intros split: option.splits)

lemma well_produce_module_def:
  assumes "\<And>g. g \<in> set_module_def m \<Longrightarrow> well g"
  shows "well (produce_module_def fo m)"
proof -
  have "well (produce_class fo c)" "annot c = Some a \<Longrightarrow> well (produce_annotation fo (class_token c) a)"
    if "c \<in> set (mod_classes m)" for c a
    by (intro well_produce_class well_produce_annotation; use assms that in \<open>cases m; cases c; force\<close>)+
  moreover have "well (produce_function fo f)" if "f \<in> set (mod_functions m)" for f
    by (rule well_produce_function) (use assms that in \<open>cases m; auto\<close>)
  moreover have "well g" if "g \<in> set (mod_statements m)" for g
    using assms that by (cases m) auto
  moreover from this have "well (gens (mod_statements m))" by (rule well_list)
  ultimately show ?thesis unfolding produce_module_def_def
    by (auto intro!: well_intros emits_intros split: option.split prod.split list.split)
qed

subsection \<open>Expressions\<close>

lemma well_tuple_helper [well_intros]:
  "(\<And>g. g \<in> set gs \<Longrightarrow> well g) \<Longrightarrow> well (tuple_expression_helper tok gs)"
  unfolding tuple_expression_helper_def by (rule well_concat) (auto intro!: well_intros)

lemma well_produce_identifier [well_intros]: "well (produce_identifier fo tok)"
  unfolding produce_identifier_def by (auto intro!: well_intros)

lemma well_produce_bi:
  assumes "well g" and "\<And>s. s \<in> set ss \<Longrightarrow> well (bi_exp s)"
  shows "well (produce_bi_expression g ss)"
proof -
  have "\<not> is_jump (bi_to_ins ty)" for ty by (cases ty) simp_all
  moreover have "well e" if "BiSuffix tok ty e \<in> set ss" for tok ty e
    using assms(2) [OF that] by simp
  ultimately show ?thesis unfolding produce_bi_expression_def
    by (auto intro!: well_intros assms(1) split: bi_suffix.split)
qed

lemma set_conditions:
  "(tok, c, b) \<in> set (conditions ie) \<Longrightarrow> c \<in> set_if_else ie \<and> b \<in> set_if_else ie"
  by (cases ie) (force simp: conditions_def prod_set_defs)

lemma well_conditions:
  assumes "\<And>g. g \<in> set_if_else ie \<Longrightarrow> well g"
  shows "well (produce_if_else ie)"
proof (rule well_if_else)
  show "well c \<and> well b" if "(tok, c, b) \<in> set (conditions ie)" for tok c b
    using assms set_conditions [OF that] by blast
  show "well g" if "else_exp ie = Some g" for g
    using assms [of g] that by (cases ie) simp
qed

lemma well_produce_instructions: "well (produce_instructions fo e)"
proof (induction fo e rule: produce_instructions.induct)
  case (4 fo tok es)
  then show ?case by (auto simp: produce_tuple_expression_def intro!: well_intros)
next
  case (5 fo tok e)
  show ?case
  proof (cases e)
    case (Some x)
    then show ?thesis using 5
      by (cases x) (auto simp: produce_array_declaration_def intro!: well_intros)
  qed (simp add: produce_array_declaration_def well_intros)
next
  case (6 fo tok rtok es)
  then show ?case by (auto simp: produce_map_declaration_def intro!: well_intros)
next
  case (9 fo e ps)
  then show ?case by (auto simp: produce_postfix_expression_def postfix.set_map intro!: well_intros)
next
  case (10 fo tok s f inc)
  then show ?case by (cases inc) (auto simp: produce_range_expression_def intro!: well_intros)
next
  case (11 fo tok ty e)
  then show ?case
    by (cases ty; cases "constant_token e") (auto simp: produce_unary_expression_def intro!: well_intros)
next
  case (12 fo k e ss)
  have "well (bi_exp (map_bi_suffix (produce_instructions fo) s))" if "s \<in> set ss" for s
    using 12 that by (cases s) auto
  then show ?case using "12.IH"(1)
    by (cases k) (auto simp: produce_and_expression_def produce_or_expression_def intro!: well_intros well_produce_bi)
next
  case (15 fo ie)
  then show ?case by (auto simp: if_else.set_map intro!: well_conditions)
next
  case (16 fo f)
  then show ?case by (auto simp: function_def.set_map intro!: well_produce_anon_function)
next
  case (17 fo eq a rhs)
  then show ?case
    by (auto simp: produce_assignment_expression_def assignment.set_map intro!: well_intros)
next
  case (18 fo ftok itok a it body)
  then show ?case by (auto simp: assignment.set_map intro!: well_produce_foreach_statement)
next
  case (22 fo tok ctok body a cbody)
  then show ?case by (auto simp: assignment.set_map intro!: well_produce_try_statement)
next
  case (24 fo ie)
  then show ?case by (auto simp: if_else.set_map intro!: well_conditions)
next
  case (25 fo tok e)
  then show ?case by (cases e) (auto simp: produce_jump_statement_def intro!: well_intros)
next
  case (26 fo tok b)
  show ?case unfolding produce_instructions.simps produce_break_statement_def
    by (rule wellI [OF emits_ins_num]) (auto simp: closed_def jump_in_def INT_MAX_def)
next
  case (28 fo m)
  then show ?case by (auto simp: module_def.set_map intro!: well_produce_module_def)
qed (auto simp: produce_in_expression_def produce_is_expression_def produce_compound_statement_def
    produce_raise_statement_def produce_exit_statement_def
    intro!: well_intros well_produce_for_statement well_produce_while_statement)

end
