(* ===== verification/Serialize.thy ===== *)
theory Serialize imports TapeFacts begin

text \<open>
  \<open>program/serialization/\<close>: the write buffer over a file, the serialisers of primitives, strings and
  instructions, and their deserialisers over the bytes of a file. A file is the list of the bytes
  written to it or left to read. A serialiser's result is the list of the byte blocks it hands to
  \<open>buffer_write\<close>, in order. \<open>serialize_primitive\<close> hands over eight bytes from the address of a four
  byte variable: the four bytes behind it are the parameter \<open>junk\<close>. A read that meets the end of
  the file leaves its variable uninitialised and is undefined here.
\<close>

subsection \<open>The write buffer\<close>

text \<open>\<open>wb_buff\<close> holds the \<open>pos\<close> bytes in use.\<close>

(* src/program/serialization/buffer.h [12-16] WBuffer *)
record wbuffer =
  wb_file :: "byte list"
  wb_buff :: "byte list"
  wb_size :: nat

(* src/program/serialization/buffer.c buffer_init *)
definition buffer_init :: "byte list \<Rightarrow> nat \<Rightarrow> wbuffer" where
  "buffer_init file sz = \<lparr>wb_file = file, wb_buff = [], wb_size = sz\<rparr>"

(* src/program/serialization/buffer.c buffer_flush *)
definition buffer_flush :: "wbuffer \<Rightarrow> wbuffer" where
  "buffer_flush b = b\<lparr>wb_file := wb_file b @ wb_buff b, wb_buff := []\<rparr>"

text \<open>The file \<open>buffer_finalize\<close> leaves behind.\<close>

(* src/program/serialization/buffer.c buffer_finalize *)
definition buffer_finalize :: "wbuffer \<Rightarrow> byte list" where
  "buffer_finalize b = wb_file (buffer_flush b)"

text \<open>One turn of the loop: the buffer after it and the number of bytes it took.\<close>

(* src/program/serialization/buffer.c [43-49] buffer_write *)
definition buffer_write_step :: "wbuffer \<Rightarrow> byte list \<Rightarrow> wbuffer \<times> nat" where
  "buffer_write_step b bytes =
     (let b = (if wb_size b = length (wb_buff b) then buffer_flush b else b);
          write_amount = min (wb_size b - length (wb_buff b)) (length bytes)
      in (b\<lparr>wb_buff := wb_buff b @ take write_amount bytes\<rparr>, write_amount))"

text \<open>The loop itself; a buffer of size 0 makes it run forever.\<close>

(* src/program/serialization/buffer.c buffer_write *)
partial_function (option) buffer_write :: "wbuffer \<Rightarrow> byte list \<Rightarrow> wbuffer option" where
  "buffer_write b bytes =
     (if bytes = [] then Some b
      else (let bn = buffer_write_step b bytes in buffer_write (fst bn) (drop (snd bn) bytes)))"

fun buffer_write_all :: "wbuffer \<Rightarrow> byte list list \<Rightarrow> wbuffer option" where
  "buffer_write_all b [] = Some b"
| "buffer_write_all b (x # xs) = (case buffer_write b x of
     None \<Rightarrow> None | Some b \<Rightarrow> buffer_write_all b xs)"

subsection \<open>Serialising\<close>

definition byte_of_char :: "char \<Rightarrow> byte" where
  "byte_of_char c = of_nat (of_char c)"

definition char_of_byte :: "byte \<Rightarrow> char" where
  "char_of_byte b = char_of (unat b)"

(* src/program/serialization/serialize.c serialize_bytes *)
definition serialize_bytes :: "byte list \<Rightarrow> byte list list" where
  "serialize_bytes bytes = [bytes]"

definition serialize_u8 :: "byte \<Rightarrow> byte list list" where
  "serialize_u8 b = serialize_bytes [b]"

definition serialize_u16 :: "u16 \<Rightarrow> byte list list" where
  "serialize_u16 w = serialize_bytes (u16_bytes w)"

(* src/program/serialization/serialize.c serialize_str *)
definition serialize_str :: "string \<Rightarrow> byte list list" where
  "serialize_str str = serialize_bytes (List.map byte_of_char str @ [0])"

(* src/entity/primitive.h [16-16] PrimitiveType *)
fun type_code :: "prim_type \<Rightarrow> byte" where
  "type_code PT_CHAR = 0" | "type_code PT_INT = 1" | "type_code PT_FLOAT = 2"

(* src/program/serialization/serialize.c serialize_primitive *)
definition serialize_primitive :: "fops \<Rightarrow> byte list \<Rightarrow> primitive \<Rightarrow> byte list list" where
  "serialize_primitive fo junk val = serialize_u8 (type_code (ptype val)) @ (case val of
     PInt i \<Rightarrow> serialize_bytes (u32_bytes i @ junk)
   | PFloat d \<Rightarrow> serialize_bytes (u32_bytes (single_of_f fo d) @ junk)
   | PChar c \<Rightarrow> serialize_u8 c)"

text \<open>Enumerators as numbers.\<close>

definition op_code :: "op \<Rightarrow> byte" where
  "op_code p = (if p = OP_BOUND then 68 else of_nat (length (takeWhile (\<lambda>q. q \<noteq> p) op_list)))"

definition op_of_code :: "byte \<Rightarrow> op option" where
  "op_of_code b =
     (if unat b < 68 then Some (op_list ! unat b) else if b = 68 then Some OP_BOUND else None)"

(* src/program/instruction.h [14-19] InstructionType *)
fun ins_type_code :: "ins_type \<Rightarrow> byte" where
  "ins_type_code INSTRUCTION_NO_ARG = 0" | "ins_type_code INSTRUCTION_ID = 1"
| "ins_type_code INSTRUCTION_STRING = 2" | "ins_type_code INSTRUCTION_PRIMITIVE = 3"

text \<open>The string index maps a string to its position; a missing string reads as position 0.\<close>

type_synonym string_index = "(string \<times> nat) list"

definition index_of :: "string_index \<Rightarrow> string \<Rightarrow> u16" where
  "index_of ix s = (case map_of ix s of Some i \<Rightarrow> of_nat i | None \<Rightarrow> 0)"

definition serialize_ref :: "string_index \<Rightarrow> string \<Rightarrow> byte list list" where
  "serialize_ref ix s =
     (if length ix > 255 then serialize_u16 (index_of ix s) else serialize_u8 (ucast (index_of ix s)))"

(* src/program/serialization/serialize.c serialize_ins *)
definition serialize_ins :: "fops \<Rightarrow> byte list \<Rightarrow> string_index \<Rightarrow> instruction \<Rightarrow> byte list list" where
  "serialize_ins fo junk ix ins =
     serialize_u8 (op_code (ins_op ins)) @ serialize_u8 (ins_type_code (arg_type (ins_arg ins))) @
     (case ins_arg ins of
        PrimArg v \<Rightarrow> serialize_primitive fo junk v
      | StrArg s \<Rightarrow> serialize_ref ix s
      | IdArg s \<Rightarrow> serialize_ref ix s
      | NoArg \<Rightarrow> [])"

subsection \<open>Deserialising\<close>

type_synonym 'a reader = "byte list \<Rightarrow> ('a \<times> byte list) res"

definition end_of_file :: "'a res" where
  "end_of_file = Inl (UB ''uninitialised after a short read'')"

text \<open>\<open>deserialize_type\<close> reads \<open>n\<close> bytes into a variable of \<open>n\<close> bytes.\<close>

(* src/program/serialization/deserialize.c deserialize_bytes *)
definition deserialize_bytes :: "nat \<Rightarrow> byte list reader" where
  "deserialize_bytes n file = (if length file < n then end_of_file else Inr (take n file, drop n file))"

fun deserialize_u8 :: "byte reader" where
  "deserialize_u8 (a # file) = Inr (a, file)"
| "deserialize_u8 _ = end_of_file"

fun deserialize_u16 :: "u16 reader" where
  "deserialize_u16 (a # b # file) = Inr (u16_of_bytes a b, file)"
| "deserialize_u16 _ = end_of_file"

text \<open>
  The characters up to a NUL or the end of the file; \<open>room\<close> is what is left of the caller's buffer,
  which the loop does not check.
\<close>

(* src/program/serialization/deserialize.c deserialize_string *)
fun deserialize_string :: "nat \<Rightarrow> string reader" where
  "deserialize_string 0 file = Inl (UB ''stack buffer overflow'')"
| "deserialize_string (Suc room) [] = Inr ([], [])"
| "deserialize_string (Suc room) (b # file) =
     (if b = 0 then Inr ([], file)
      else andThen (deserialize_string room file) (\<lambda>(s, file). Inr (char_of_byte b # s, file)))"

text \<open>Eight bytes are read over a four byte variable, whose value is the first four.\<close>

definition deserialize_wide :: "u32 reader" where
  "deserialize_wide file = (case deserialize_bytes 8 file of
     Inr (a # b # c # d # _, file) \<Rightarrow> Inr (u32_of_bytes a b c d, file)
   | _ \<Rightarrow> end_of_file)"

(* src/program/serialization/deserialize.c deserialize_val *)
definition deserialize_val :: "fops \<Rightarrow> primitive reader" where
  "deserialize_val fo file =
     andThen (deserialize_u8 file) (\<lambda>(val_type, file).
       if val_type = type_code PT_INT
       then andThen (deserialize_wide file) (\<lambda>(i, file). Inr (primitive_int i, file))
       else if val_type = type_code PT_FLOAT
       then andThen (deserialize_wide file) (\<lambda>(f, file). Inr (primitive_float (f_of_single fo f), file))
       else andThen (deserialize_u8 file) (\<lambda>(c, file). Inr (primitive_char c, file)))"

text \<open>\<open>alist_get(strings, i)\<close>.\<close>

definition string_at :: "string list \<Rightarrow> u16 \<Rightarrow> string res" where
  "string_at strings i =
     (if unat i < length strings then Inr (strings ! unat i) else Inl (UB ''string reference out of range''))"

definition deserialize_ref :: "string list \<Rightarrow> string reader" where
  "deserialize_ref strings file =
     andThen (if length strings > 255 then deserialize_u16 file
              else andThen (deserialize_u8 file) (\<lambda>(r, file). Inr (ucast r, file))) (\<lambda>(ref, file).
     andThen (string_at strings ref) (\<lambda>s. Inr (s, file)))"

text \<open>An opcode or operand type outside its enumeration is left undefined.\<close>

(* src/program/serialization/deserialize.c deserialize_ins *)
definition deserialize_ins :: "fops \<Rightarrow> string list \<Rightarrow> instruction reader" where
  "deserialize_ins fo strings file =
     andThen (deserialize_u8 file) (\<lambda>(code, file).
     andThen (deserialize_u8 file) (\<lambda>(param, file).
     case op_of_code code of
       None \<Rightarrow> Inl (UB ''opcode outside its enumeration'')
     | Some p \<Rightarrow>
         (if param = ins_type_code INSTRUCTION_PRIMITIVE
          then andThen (deserialize_val fo file) (\<lambda>(v, file). Inr (\<lparr>ins_op = p, ins_arg = PrimArg v\<rparr>, file))
          else if param = ins_type_code INSTRUCTION_ID
          then andThen (deserialize_ref strings file) (\<lambda>(s, file). Inr (\<lparr>ins_op = p, ins_arg = IdArg s\<rparr>, file))
          else if param = ins_type_code INSTRUCTION_STRING
          then andThen (deserialize_ref strings file) (\<lambda>(s, file). Inr (\<lparr>ins_op = p, ins_arg = StrArg s\<rparr>, file))
          else if param = ins_type_code INSTRUCTION_NO_ARG
          then Inr (\<lparr>ins_op = p, ins_arg = NoArg\<rparr>, file)
          else Inl (UB ''operand type outside its enumeration''))))"

end
