(* ===== verification/TapeBinary.thy ===== *)
theory TapeBinary imports Serialize "HOL-Library.AList" begin

text \<open>
  \<open>program/tape_binary.c\<close>: the binary file of a tape. The writer collects the strings of the tape in a
  list with an index, and hands blocks of bytes to the write buffer; the reader rebuilds the tape with
  the operations of \<open>program/tape.c\<close>. The parameter \<open>ow\<close> says whether \<open>map_insert\<close> replaces the
  value of a key that is present, \<open>junk n\<close> is the four bytes written behind the operand of
  instruction \<open>n\<close>.
\<close>

definition MAX_STIRNG_SZ :: nat where
  "MAX_STIRNG_SZ = 1024"

subsection \<open>The string table\<close>

definition index_insert :: "bool \<Rightarrow> string_index \<Rightarrow> string \<Rightarrow> nat \<Rightarrow> string_index" where
  "index_insert ow ix s i =
     (if map_of ix s = None then ix @ [(s, i)] else if ow then AList.update s i ix else ix)"

text \<open>The strings with their index. Position 0 is stored as a null pointer and looks absent.\<close>

type_synonym string_table = "string list \<times> string_index"

(* src/program/tape_binary.c _insert_string *)
definition insert_string :: "bool \<Rightarrow> string \<Rightarrow> string_table \<Rightarrow> string_table" where
  "insert_string ow str tbl = (case tbl of (strings, ix) \<Rightarrow>
     (case map_of ix str of
        Some (Suc i) \<Rightarrow> (strings, ix)
      | _ \<Rightarrow> (strings @ [str], index_insert ow ix str (length strings))))"

text \<open>The strings in the order \<open>_intern_all_strings\<close> meets them.\<close>

(* src/program/tape_binary.c [97-115] _intern_all_strings *)
definition class_strings :: "class_ref \<Rightarrow> string list" where
  "class_strings c = cref_supers c @ List.map fref_name (kl_values (cref_funcs c))
     @ List.map fld_name (kl_values (cref_fields c))"

(* src/program/tape_binary.c [122-129] _intern_all_strings *)
definition ins_strings :: "instruction \<Rightarrow> string list" where
  "ins_strings ins = (case ins_arg ins of IdArg s \<Rightarrow> [s] | StrArg s \<Rightarrow> [s] | _ \<Rightarrow> [])"

definition tape_strings :: "string \<Rightarrow> tape \<Rightarrow> string list" where
  "tape_strings m t = m # concat (List.map (\<lambda>(k, c). k # class_strings c) (t_class_refs t))
     @ List.map fref_name (tape_functions t) @ concat (List.map ins_strings (t_ins t))"

(* src/program/tape_binary.c _intern_all_strings *)
definition intern_all_strings :: "bool \<Rightarrow> string \<Rightarrow> tape \<Rightarrow> string_table" where
  "intern_all_strings ow m t = fold (insert_string ow) (tape_strings m t) ([], [])"

subsection \<open>Writing\<close>

(* src/program/tape_binary.c _serialize_all_strings *)
definition serialize_all_strings :: "string list \<Rightarrow> byte list list" where
  "serialize_all_strings strings =
     serialize_u16 (of_nat (length strings)) @ concat (List.map serialize_str strings)"

(* src/program/tape_binary.c _serialize_function_ref *)
definition serialize_function_ref :: "string_index \<Rightarrow> function_ref \<Rightarrow> byte list list" where
  "serialize_function_ref ix f =
     serialize_u16 (index_of ix (fref_name f)) @ serialize_u16 (of_nat (fref_index f))"

text \<open>The end of a class that was never closed is not initialised; it is 0 here.\<close>

(* src/program/tape_binary.c _serialize_class_ref *)
definition serialize_class_ref :: "string_index \<Rightarrow> class_ref \<Rightarrow> byte list list" where
  "serialize_class_ref ix c =
     serialize_u16 (index_of ix (cref_name c)) @ serialize_u16 (of_nat (cref_start c))
     @ serialize_u16 (case cref_end c of Some e \<Rightarrow> of_nat e | None \<Rightarrow> 0)
     @ serialize_u16 (of_nat (length (cref_supers c)))
     @ concat (List.map (\<lambda>p. serialize_u16 (index_of ix p)) (cref_supers c))
     @ serialize_u16 (of_nat (length (cref_funcs c)))
     @ concat (List.map (serialize_function_ref ix) (kl_values (cref_funcs c)))"

text \<open>The instructions: \<open>num_ins\<close> of them, the length of the tape cut to 16 bits.\<close>

(* src/program/tape_binary.c [209-214] tape_write_binary *)
definition serialize_all_ins :: "fops \<Rightarrow> (nat \<Rightarrow> byte list) \<Rightarrow> string_index \<Rightarrow> tape \<Rightarrow> byte list list" where
  "serialize_all_ins fo junk ix t =
     (let num_ins = of_nat (tape_size t) :: u16
      in serialize_u16 num_ins
         @ concat (List.map (\<lambda>i. serialize_ins fo (junk i) ix (t_ins t ! i)) [0..<unat num_ins]))"

definition binary_blocks :: "fops \<Rightarrow> bool \<Rightarrow> (nat \<Rightarrow> byte list) \<Rightarrow> string \<Rightarrow> tape \<Rightarrow> byte list list" where
  "binary_blocks fo ow junk m t =
     (case intern_all_strings ow m t of (strings, ix) \<Rightarrow>
        serialize_all_strings strings
        @ serialize_u16 (of_nat (tape_func_count t))
        @ concat (List.map (serialize_function_ref ix) (tape_functions t))
        @ serialize_u16 (of_nat (tape_class_count t))
        @ concat (List.map (serialize_class_ref ix) (tape_classes t))
        @ serialize_all_ins fo junk ix t)"

text \<open>The bytes of the file; a tape without a module name is a null pointer among the strings.\<close>

(* src/program/tape_binary.c tape_write_binary *)
definition tape_write_binary :: "fops \<Rightarrow> bool \<Rightarrow> (nat \<Rightarrow> byte list) \<Rightarrow> tape \<Rightarrow> byte list option res" where
  "tape_write_binary fo ow junk t = (case t_module_name t of
     None \<Rightarrow> Inl (UB ''null module name'')
   | Some m \<Rightarrow> Inr (map_option buffer_finalize
       (buffer_write_all (buffer_init [] 512) (binary_blocks fo ow junk m t))))"

subsection \<open>Reading\<close>

text \<open>A \<open>for\<close> loop of \<open>n\<close> turns over the file and a state.\<close>

fun read_times :: "nat \<Rightarrow> ('s \<Rightarrow> 's reader) \<Rightarrow> 's \<Rightarrow> 's reader" where
  "read_times 0 f s file = Inr (s, file)"
| "read_times (Suc n) f s file = andThen (f s file) (\<lambda>(s, file). read_times n f s file)"

(* src/program/tape_binary.c [25-33] tape_read_binary *)
definition read_strings :: "string list reader" where
  "read_strings file =
     andThen (deserialize_u16 file) (\<lambda>(num_strings, file).
       read_times (unat num_strings) (\<lambda>strings file.
         andThen (deserialize_string MAX_STIRNG_SZ file) (\<lambda>(s, file). Inr (strings @ [s], file))) [] file)"

text \<open>A function or method reference: its name and its position.\<close>

(* src/program/tape_binary.c [39-45] tape_read_binary *)
definition read_function_ref :: "string list \<Rightarrow> tape \<Rightarrow> tape reader" where
  "read_function_ref strings t file =
     andThen (deserialize_u16 file) (\<lambda>(name_index, file).
     andThen (deserialize_u16 file) (\<lambda>(index, file).
     andThen (string_at strings name_index) (\<lambda>name.
     andThen (tape_start_func_at_index name (unat index) False t) (\<lambda>t. Inr (t, file)))))"

(* src/program/tape_binary.c [57-65] tape_read_binary *)
definition read_parents :: "string list \<Rightarrow> string list reader" where
  "read_parents strings file =
     andThen (deserialize_u16 file) (\<lambda>(num_parents, file).
       read_times (unat num_parents) (\<lambda>supers file.
         andThen (deserialize_u16 file) (\<lambda>(i, file).
         andThen (string_at strings i) (\<lambda>p. Inr (supers @ [p], file)))) [] file)"

text \<open>Appending to the parents of the class just started.\<close>

definition add_supers :: "string list \<Rightarrow> tape \<Rightarrow> tape res" where
  "add_supers supers t = (case t_current_class t of
     None \<Rightarrow> Inl (UB ''no class'')
   | Some k \<Rightarrow>
       (case kl_lookup (t_class_refs t) k of
          None \<Rightarrow> Inl (UB ''no class'')
        | Some c \<Rightarrow> Inr (t\<lparr>t_class_refs :=
              kl_put k (c\<lparr>cref_supers := cref_supers c @ supers\<rparr>) (t_class_refs t)\<rparr>)))"

(* src/program/tape_binary.c [48-77] tape_read_binary *)
definition read_class_ref :: "string list \<Rightarrow> tape \<Rightarrow> tape reader" where
  "read_class_ref strings t file =
     andThen (deserialize_u16 file) (\<lambda>(name_index, file).
     andThen (deserialize_u16 file) (\<lambda>(class_start, file).
     andThen (deserialize_u16 file) (\<lambda>(class_end, file).
     andThen (string_at strings name_index) (\<lambda>class_name.
     andThen (tape_start_class_at_index class_name (unat class_start) t) (\<lambda>t.
     andThen (read_parents strings file) (\<lambda>(supers, file).
     andThen (add_supers supers t) (\<lambda>t.
     andThen (deserialize_u16 file) (\<lambda>(num_methods, file).
     andThen (read_times (unat num_methods) (read_function_ref strings) t file) (\<lambda>(t, file).
     andThen (tape_end_class_at_index (unat class_end) t) (\<lambda>t. Inr (t, file)))))))))))"

(* src/program/tape_binary.c [80-84] tape_read_binary *)
definition read_instruction :: "fops \<Rightarrow> string list \<Rightarrow> tape \<Rightarrow> tape reader" where
  "read_instruction fo strings t file =
     andThen (deserialize_ins fo strings file) (\<lambda>(ins, file). Inr (tape_ins_raw ins t, file))"

(* src/program/tape_binary.c tape_read_binary *)
definition tape_read_binary :: "fops \<Rightarrow> byte list \<Rightarrow> tape \<Rightarrow> tape res" where
  "tape_read_binary fo file t =
     andThen (read_strings file) (\<lambda>(strings, file).
     andThen (string_at strings 0) (\<lambda>module.
     let t = t\<lparr>t_module_name := Some module\<rparr> in
     andThen (deserialize_u16 file) (\<lambda>(num_refs, file).
     andThen (read_times (unat num_refs) (read_function_ref strings) t file) (\<lambda>(t, file).
     andThen (deserialize_u16 file) (\<lambda>(num_classes, file).
     andThen (read_times (unat num_classes) (read_class_ref strings) t file) (\<lambda>(t, file).
     andThen (deserialize_u16 file) (\<lambda>(num_ins, file).
     andThen (read_times (unat num_ins) (read_instruction fo strings) t file) (\<lambda>(t, file).
     Inr t))))))))"

end
