(* ===== verification/TapeBinaryFacts.thy ===== *)
theory TapeBinaryFacts imports TapeBinary begin

text \<open>
  What the binary form promises: the write buffer delivers every byte in order, and a tape within the
  format's limits reads back as itself, but for the fields of classes, the marks of functions and the
  source positions, which the format does not hold.
\<close>

subsection \<open>The write buffer\<close>

lemma buffer_write_step_content:
  assumes "length (wb_buff b) \<le> wb_size b" and "buffer_write_step b bytes = (b', n)"
  shows "buffer_finalize b' = buffer_finalize b @ take n bytes" and "length (wb_buff b') \<le> wb_size b'"
    and "wb_size b' = wb_size b" and "0 < wb_size b \<Longrightarrow> bytes \<noteq> [] \<Longrightarrow> 0 < n"
  using assms by (auto simp: buffer_write_step_def buffer_finalize_def buffer_flush_def Let_def)

lemma buffer_write_content_eq:
  assumes "0 < wb_size b" and "length (wb_buff b) \<le> wb_size b"
  shows "\<exists>b'. buffer_write b bytes = Some b' \<and> buffer_finalize b' = buffer_finalize b @ bytes \<and>
    length (wb_buff b') \<le> wb_size b' \<and> 0 < wb_size b'"
  using assms
proof (induction "length bytes" arbitrary: b bytes rule: less_induct)
  case less
  show ?case
  proof (cases "bytes = []")
    case True
    then show ?thesis using less.prems by (subst buffer_write.simps) simp
  next
    case False
    obtain b' n where st: "buffer_write_step b bytes = (b', n)" by fastforce
    note c = buffer_write_step_content [OF less.prems(2) st]
    have "length (drop n bytes) < length bytes" using c(4) less.prems(1) False by (cases bytes) auto
    moreover have "0 < wb_size b'" using c(3) less.prems(1) by simp
    ultimately obtain b'' where "buffer_write b' (drop n bytes) = Some b''"
      "buffer_finalize b'' = buffer_finalize b' @ drop n bytes"
      "length (wb_buff b'') \<le> wb_size b''" "0 < wb_size b''"
      using less.hyps [of "drop n bytes" b'] c(2) by blast
    then show ?thesis
      using False c(1) st by (subst buffer_write.simps) (simp add: Let_def)
  qed
qed

lemma buffer_write_all_content:
  assumes "0 < wb_size b" and "length (wb_buff b) \<le> wb_size b"
  shows "\<exists>b'. buffer_write_all b blocks = Some b' \<and> buffer_finalize b' = buffer_finalize b @ concat blocks"
  using assms
proof (induction blocks arbitrary: b)
  case Nil
  then show ?case by simp
next
  case (Cons x xs)
  obtain b' where b': "buffer_write b x = Some b'" "buffer_finalize b' = buffer_finalize b @ x"
    "length (wb_buff b') \<le> wb_size b'" "0 < wb_size b'"
    using buffer_write_content_eq [OF Cons.prems] by blast
  from Cons.IH [OF b'(4,3)] b'(1,2) show ?case by auto
qed

text \<open>C36: The write buffer neither loses nor reorders bytes and never runs forever: for a buffer of any
  positive size in any state, \<open>buffer_write\<close> (program/serialization/buffer.c) of any number of bytes
  returns, and closing the buffer then leaves in the file what closing it before would have left,
  followed by exactly those bytes.\<close>

theorem buffer_write_content:
  assumes "0 < wb_size b" and "length (wb_buff b) \<le> wb_size b"
  shows "\<exists>b'. buffer_write b bytes = Some b' \<and> buffer_finalize b' = buffer_finalize b @ bytes \<and>
    length (wb_buff b') \<le> wb_size b'"
  using buffer_write_content_eq [OF assms] by blast

theorem buffer_write_content_witness:
  "\<exists>b'. buffer_write \<lparr>wb_file = [9], wb_buff = [1], wb_size = 2\<rparr> [2, 3, 4, 5] = Some b' \<and>
     buffer_finalize b' = [9, 1, 2, 3, 4, 5]"
  using buffer_write_content [of "\<lparr>wb_file = [9], wb_buff = [1], wb_size = 2\<rparr>" "[2, 3, 4, 5]"]
  by (auto simp: buffer_finalize_def buffer_flush_def)

subsection \<open>Numbers and strings\<close>

lemma char_of_byte_of_char [simp]: "char_of_byte (byte_of_char c) = c"
  by (simp add: char_of_byte_def byte_of_char_def unat_of_nat)

lemma byte_of_char_0_iff [simp]: "byte_of_char c = 0 \<longleftrightarrow> c = CHR 0x00"
proof
  assume "byte_of_char c = 0"
  then have "char_of_byte (byte_of_char c) = char_of_byte 0" by simp
  then show "c = CHR 0x00" by (simp only: char_of_byte_of_char) (simp add: char_of_byte_def char_of_def)
qed (simp add: byte_of_char_def)

lemma read_u16 [simp]: "deserialize_u16 (u16_bytes w @ rest) = Inr (w, rest)"
  by (simp add: u16_bytes_def)

lemma read_u16' [simp]: "deserialize_u16 (concat (serialize_u16 w) @ rest) = Inr (w, rest)"
  by (simp add: serialize_u16_def serialize_bytes_def)

lemma read_u8 [simp]: "deserialize_u8 (concat (serialize_u8 b) @ rest) = Inr (b, rest)"
  by (simp add: serialize_u8_def serialize_bytes_def)

lemma unat_of_nat_u16 [simp]: "n < 65536 \<Longrightarrow> unat (of_nat n :: u16) = n"
  by (simp add: unat_of_nat)

lemma read_string_bytes:
  "CHR 0x00 \<notin> set s \<Longrightarrow> length s < room \<Longrightarrow>
   deserialize_string room (List.map byte_of_char s @ 0 # rest) = Inr (s, rest)"
proof (induction s arbitrary: room)
  case Nil
  then show ?case by (cases room) auto
next
  case (Cons c s)
  then show ?case by (cases room) auto
qed

lemma read_str [simp]:
  "CHR 0x00 \<notin> set s \<Longrightarrow> length s < MAX_STIRNG_SZ \<Longrightarrow>
   deserialize_string MAX_STIRNG_SZ (concat (serialize_str s) @ rest) = Inr (s, rest)"
  by (simp add: serialize_str_def serialize_bytes_def read_string_bytes)

lemma read_wide:
  "length junk = 4 \<Longrightarrow> deserialize_wide (u32_bytes w @ junk @ rest) = Inr (w, rest)"
  by (simp add: deserialize_wide_def deserialize_bytes_def u32_bytes_def)

lemma op_codes: "list_all (\<lambda>p. op_of_code (op_code p) = Some p) op_list"
  by code_simp

lemma op_of_op_code [simp]: "op_of_code (op_code p) = Some p"
proof (cases "p = OP_BOUND")
  case True
  then show ?thesis by (simp add: op_code_def op_of_code_def)
next
  case False
  with not_OP_BOUND [of p] op_codes show ?thesis by (auto simp: list_all_iff)
qed

lemma exact_primitive:
  assumes "length junk = 4" and "\<And>d. v = PFloat d \<Longrightarrow> f_of_single fo (single_of_f fo d) = d"
  shows "deserialize_val fo (concat (serialize_primitive fo junk v) @ rest) = Inr (v, rest)"
  using assms
  by (cases v)
     (simp_all add: serialize_primitive_def serialize_u8_def serialize_bytes_def deserialize_val_def
       read_wide primitive_int_def primitive_char_def primitive_float_def)

subsection \<open>The string table\<close>

definition table_ok :: "string_table \<Rightarrow> bool" where
  "table_ok tbl \<longleftrightarrow> (case tbl of (strings, ix) \<Rightarrow>
     distinct (List.map fst ix) \<and>
     (\<forall>s i. map_of ix s = Some i \<longrightarrow> i < length strings \<and> strings ! i = s))"

lemma map_of_index_insert:
  "map_of (index_insert ow ix s i) =
     (if map_of ix s = None \<or> ow then (map_of ix)(s \<mapsto> i) else map_of ix)"
  by (auto simp: index_insert_def update_conv' map_add_def fun_eq_iff split: option.splits)

lemma distinct_index_insert:
  "distinct (List.map fst ix) \<Longrightarrow> distinct (List.map fst (index_insert ow ix s i))"
  by (auto simp: index_insert_def distinct_update map_of_eq_None_iff)

lemma insert_string_cases:
  obtains (kept) i where "map_of ix s = Some (Suc i)" "insert_string ow s (strings, ix) = (strings, ix)"
    | (added) "insert_string ow s (strings, ix) = (strings @ [s], index_insert ow ix s (length strings))"
        "map_of ix s = None \<or> map_of ix s = Some 0"
proof (cases "map_of ix s")
  case None
  then show thesis by (intro added) (simp_all add: insert_string_def)
next
  case (Some n)
  then show thesis
    by (cases n) (auto simp: insert_string_def intro: kept added)
qed

lemma table_ok_insert:
  assumes "table_ok (strings, ix)" and "insert_string ow s (strings, ix) = (strings', ix')"
  shows "table_ok (strings', ix') \<and> map_of ix' s \<noteq> None \<and> set strings' = insert s (set strings) \<and>
    (\<forall>s'. map_of ix s' \<noteq> None \<longrightarrow> map_of ix' s' \<noteq> None)"
proof -
  have d: "distinct (List.map fst ix)"
    and l: "\<And>s i. map_of ix s = Some i \<Longrightarrow> i < length strings \<and> strings ! i = s"
    using assms(1) unfolding table_ok_def by auto
  show ?thesis
  proof (cases rule: insert_string_cases [of ix s ow strings])
    case (kept i)
    then have "s \<in> set strings" using l [of s] by (metis nth_mem)
    with kept assms show ?thesis by auto
  next
    case added
    then have e: "strings' = strings @ [s]" "ix' = index_insert ow ix s (length strings)"
      using assms(2) by auto
    have "\<forall>s' i. map_of ix' s' = Some i \<longrightarrow> i < length strings' \<and> strings' ! i = s'"
    proof (intro allI impI)
      fix s' i
      assume m: "map_of ix' s' = Some i"
      show "i < length strings' \<and> strings' ! i = s'"
      proof (cases "i = length strings \<and> s' = s")
        case True
        then show ?thesis by (simp add: e)
      next
        case False
        with m have "map_of ix s' = Some i"
          unfolding e map_of_index_insert by (auto split: if_splits)
        then show ?thesis using l [of s' i] by (simp add: e)
      qed
    qed
    moreover have "map_of ix' s \<noteq> None" "\<forall>s'. map_of ix s' \<noteq> None \<longrightarrow> map_of ix' s' \<noteq> None"
      unfolding e map_of_index_insert by auto
    ultimately show ?thesis
      using distinct_index_insert [OF d] unfolding table_ok_def by (simp add: e)
  qed
qed

lemma table_ok_fold:
  assumes "table_ok (strings, ix)" and "fold (insert_string ow) ss (strings, ix) = (strings', ix')"
  shows "table_ok (strings', ix') \<and> set strings' = set ss \<union> set strings \<and>
    (\<forall>s. s \<in> set ss \<or> map_of ix s \<noteq> None \<longrightarrow> map_of ix' s \<noteq> None)"
  using assms
proof (induction ss arbitrary: strings ix)
  case Nil
  then show ?case by simp
next
  case (Cons x ss)
  obtain strings1 ix1 where i: "insert_string ow x (strings, ix) = (strings1, ix1)" by fastforce
  note f = table_ok_insert [OF Cons.prems(1) i]
  with Cons.IH [of strings1 ix1] Cons.prems(2) i show ?case by auto
qed

text \<open>Every string of the tape is found again at the position the index gives.\<close>

lemma intern_all_strings_ok:
  assumes "intern_all_strings ow m t = (strings, ix)"
  shows "table_ok (strings, ix)" and "set strings = set (tape_strings m t)"
    and "s \<in> set (tape_strings m t) \<Longrightarrow> map_of ix s \<noteq> None"
  using table_ok_fold [of "[]" "[]" ow "tape_strings m t" strings ix] assms
  by (auto simp: intern_all_strings_def table_ok_def)

lemma string_at_index:
  assumes "table_ok (strings, ix)" and "map_of ix s \<noteq> None" and "length strings \<le> 65536"
  shows "string_at strings (index_of ix s) = Inr s" and "unat (index_of ix s) < length strings"
proof -
  obtain i where i: "map_of ix s = Some i" using assms(2) by auto
  with assms(1) have l: "i < length strings" "strings ! i = s" unfolding table_ok_def by auto
  with assms(3) have "unat (of_nat i :: u16) = i" by simp
  with i l show "string_at strings (index_of ix s) = Inr s" "unat (index_of ix s) < length strings"
    by (simp_all add: string_at_def index_of_def)
qed

lemma read_ref:
  assumes "table_ok (strings, ix)" and "map_of ix s \<noteq> None" and "length strings \<le> 65536"
    and "length ix > 255 \<longleftrightarrow> length strings > 255"
  shows "deserialize_ref strings (concat (serialize_ref ix s) @ rest) = Inr (s, rest)"
proof (cases "length ix > 255")
  case True
  with assms string_at_index [OF assms(1-3)] show ?thesis
    by (simp add: serialize_ref_def deserialize_ref_def)
next
  case False
  with assms(4) string_at_index(2) [OF assms(1-3)] have "unat (index_of ix s) < 256" by simp
  then have "ucast (ucast (index_of ix s) :: byte) = index_of ix s"
    by (simp add: word_unat_eq_iff unsigned_ucast_eq unsigned_take_bit_eq take_bit_nat_eq_self)
  with False assms(4) string_at_index [OF assms(1-3)] show ?thesis
    by (simp add: serialize_ref_def deserialize_ref_def)
qed

lemma read_ins:
  assumes "table_ok (strings, ix)" and "length strings \<le> 65536"
    and "length ix > 255 \<longleftrightarrow> length strings > 255"
    and "\<forall>s \<in> set (ins_strings ins). map_of ix s \<noteq> None"
    and "length junk = 4" and "\<And>d. ins_arg ins = PrimArg (PFloat d) \<Longrightarrow> f_of_single fo (single_of_f fo d) = d"
  shows "deserialize_ins fo strings (concat (serialize_ins fo junk ix ins) @ rest) = Inr (ins, rest)"
proof (cases "ins_arg ins")
  case NoArg
  then show ?thesis by (cases ins) (simp add: serialize_ins_def deserialize_ins_def)
next
  case (IdArg s)
  with assms read_ref [OF assms(1) _ assms(2,3)] show ?thesis
    by (cases ins) (simp add: serialize_ins_def deserialize_ins_def ins_strings_def)
next
  case (StrArg s)
  with assms read_ref [OF assms(1) _ assms(2,3)] show ?thesis
    by (cases ins) (simp add: serialize_ins_def deserialize_ins_def ins_strings_def)
next
  case (PrimArg v)
  with exact_primitive [OF assms(5), of v fo] assms(6) show ?thesis
    by (cases ins) (simp add: serialize_ins_def deserialize_ins_def)
qed

subsection \<open>Loops\<close>

lemma read_times_list:
  assumes "\<And>ys x zs rest. xs = ys @ x # zs \<Longrightarrow> f (g ys) (enc x @ rest) = Inr (g (ys @ [x]), rest)"
  shows "read_times (length xs) f (g []) (concat (List.map enc xs) @ rest) = Inr (g xs, rest)"
proof -
  have "xs = ys @ zs \<Longrightarrow>
      read_times (length zs) f (g ys) (concat (List.map enc zs) @ rest) = Inr (g xs, rest)" for ys zs
  proof (induction zs arbitrary: ys)
    case Nil
    then show ?case by simp
  next
    case (Cons z zs)
    have "f (g ys) (enc z @ concat (List.map enc zs) @ rest) = Inr (g (ys @ [z]), concat (List.map enc zs) @ rest)"
      by (rule assms [OF Cons.prems])
    with Cons.IH [of "ys @ [z]"] Cons.prems show ?case by simp
  qed
  then show ?thesis by simp
qed

lemma concat_concat_map: "concat (concat (List.map f xs)) = concat (List.map (\<lambda>x. concat (f x)) xs)"
  by (induction xs) auto

lemma read_all_strings:
  assumes "length strings < 65536" and "\<forall>s \<in> set strings. CHR 0x00 \<notin> set s \<and> length s < MAX_STIRNG_SZ"
  shows "read_strings (concat (serialize_all_strings strings) @ rest) = Inr (strings, rest)"
proof -
  have "read_times (length strings) (\<lambda>strings file.
         andThen (deserialize_string MAX_STIRNG_SZ file) (\<lambda>(s, file). Inr (strings @ [s], file))) []
         (concat (List.map (\<lambda>s. concat (serialize_str s)) strings) @ rest) = Inr (strings, rest)"
    using assms(2) by (intro read_times_list [where g = "\<lambda>ys. ys"]) auto
  with assms(1) show ?thesis
    by (simp add: read_strings_def serialize_all_strings_def concat_concat_map)
qed

subsection \<open>What the format keeps\<close>

definition binary_func :: "function_ref \<Rightarrow> function_ref" where
  "binary_func f = f\<lparr>fref_const := False, fref_async := False\<rparr>"

definition binary_class :: "class_ref \<Rightarrow> class_ref" where
  "binary_class c = c\<lparr>cref_funcs := kl_map binary_func (cref_funcs c), cref_fields := []\<rparr>"

definition no_source :: source_mapping where
  "no_source = \<lparr>sm_line = - 1, sm_col = - 1, sm_token = None\<rparr>"

definition binary_tape :: "tape \<Rightarrow> tape" where
  "binary_tape t = \<lparr>t_module_name = t_module_name t, t_ins = t_ins t,
     t_source_map = replicate (tape_size t) no_source,
     t_class_refs = kl_map binary_class (t_class_refs t),
     t_func_refs = kl_map binary_func (t_func_refs t), t_current_class = None\<rparr>"

lemma binary_func_simps [simp]:
  "fref_name (binary_func f) = fref_name f" "fref_index (binary_func f) = fref_index f"
  by (simp_all add: binary_func_def)

lemma binary_func_eq: "\<lparr>fref_name = fref_name f, fref_index = fref_index f, fref_const = False,
    fref_async = False\<rparr> = binary_func f"
  by (simp add: binary_func_def)

text \<open>A keyed list is its values under their names.\<close>

lemma named_values: "named nm kl \<Longrightarrow> kl = List.map (\<lambda>v. (nm v, v)) (kl_values kl)"
  by (induction kl) (auto simp: named_def)

lemma named_distinct_names: "named nm kl \<Longrightarrow> distinct (List.map nm (kl_values kl))"
proof (induction kl)
  case (Cons kv kl)
  obtain k v where "kv = (k, v)" by (cases kv)
  moreover have "List.map nm (kl_values kl) = kl_keys kl" if "named nm kl"
    using that by (induction kl) (auto simp: named_def)
  ultimately show ?case using Cons by (auto simp: named_def)
qed simp

definition named_list :: "('a \<Rightarrow> string) \<Rightarrow> 'a list \<Rightarrow> 'a klist" where
  "named_list nm vs = List.map (\<lambda>v. (nm v, v)) vs"

lemma named_list_simps [simp]:
  "named_list nm [] = []" "named_list nm (xs @ ys) = named_list nm xs @ named_list nm ys"
  "named_list nm [x] = [(nm x, x)]" "kl_keys (named_list nm xs) = List.map nm xs"
  by (simp_all add: named_list_def kl_keys_def)

lemma kl_map_named:
  assumes "named nm kl" and "\<And>v. nm (f v) = nm v"
  shows "kl_map f kl = named_list nm (List.map f (kl_values kl))"
  using assms by (induction kl) (auto simp: named_def named_list_def)

subsection \<open>Reading what was written\<close>

lemma kl_put_last: "k \<notin> set (kl_keys pre) \<Longrightarrow> kl_put k v (pre @ [(k, w)]) = pre @ [(k, v)]"
  by (induction pre) auto

lemma kl_lookup_last: "k \<notin> set (kl_keys pre) \<Longrightarrow> kl_lookup (pre @ [(k, w)]) k = Some w"
  by (induction pre) auto

text \<open>A name that the string table holds, and a reference that fits the format.\<close>

definition known :: "string list \<Rightarrow> string_index \<Rightarrow> string \<Rightarrow> bool" where
  "known strings ix s \<longleftrightarrow> string_at strings (index_of ix s) = Inr s"

definition func_fits :: "string list \<Rightarrow> string_index \<Rightarrow> function_ref \<Rightarrow> bool" where
  "func_fits strings ix f \<longleftrightarrow> known strings ix (fref_name f) \<and> fref_index f < 65536"

lemma read_function_ref_eq:
  assumes "func_fits strings ix f"
  shows "read_function_ref strings t (concat (serialize_function_ref ix f) @ rest) =
    andThen (tape_start_func_at_index (fref_name f) (fref_index f) False t) (\<lambda>t. Inr (t, rest))"
  using assms
  by (simp add: read_function_ref_def serialize_function_ref_def func_fits_def known_def)

lemma read_functions:
  assumes "list_all (func_fits strings ix) fs" and "distinct (List.map fref_name fs)"
    and "t_current_class t = None" and "t_func_refs t = []"
  shows "read_times (length fs) (read_function_ref strings) t
      (concat (concat (List.map (serialize_function_ref ix) fs)) @ rest) =
    Inr (t\<lparr>t_func_refs := named_list fref_name (List.map binary_func fs)\<rparr>, rest)"
proof -
  let ?g = "\<lambda>ys. t\<lparr>t_func_refs := named_list fref_name (List.map binary_func ys)\<rparr>"
  have "read_times (length fs) (read_function_ref strings) (?g [])
      (concat (List.map (\<lambda>f. concat (serialize_function_ref ix f)) fs) @ rest) = Inr (?g fs, rest)"
  proof (rule read_times_list)
    fix ys x zs rest
    assume fs: "fs = ys @ x # zs"
    have "func_fits strings ix x" using assms(1) fs by simp
    moreover have "fref_name x \<notin> set (List.map fref_name ys)" using assms(2) fs by auto
    then have "kl_lookup (named_list fref_name (List.map binary_func ys)) (fref_name x) = None"
      by (simp add: kl_lookup_None_iff comp_def)
    moreover from \<open>fref_name x \<notin> _\<close>
    have "kl_put (fref_name x) v (named_list fref_name (List.map binary_func ys)) =
        named_list fref_name (List.map binary_func ys) @ [(fref_name x, v)]" for v
      by (intro kl_put_new) (simp add: comp_def)
    ultimately show "read_function_ref strings (?g ys) (concat (serialize_function_ref ix x) @ rest) =
        Inr (?g (ys @ [x]), rest)"
      using assms(3) by (simp add: read_function_ref_eq tape_start_func_at_index_def binary_func_eq)
  qed
  moreover have "?g [] = t" using assms(4) by simp
  ultimately show ?thesis by (simp add: concat_concat_map)
qed

lemma read_methods:
  assumes "list_all (func_fits strings ix) fs" and "distinct (List.map fref_name fs)"
    and "t_current_class t = Some k" and "t_class_refs t = pre @ [(k, c)]" and "cref_funcs c = []"
    and "k \<notin> set (kl_keys pre)"
  shows "read_times (length fs) (read_function_ref strings) t
      (concat (concat (List.map (serialize_function_ref ix) fs)) @ rest) =
    Inr (t\<lparr>t_class_refs := pre @ [(k, c\<lparr>cref_funcs := named_list fref_name (List.map binary_func fs)\<rparr>)]\<rparr>, rest)"
proof -
  let ?g = "\<lambda>ys. t\<lparr>t_class_refs := pre @ [(k, c\<lparr>cref_funcs := named_list fref_name (List.map binary_func ys)\<rparr>)]\<rparr>"
  have "read_times (length fs) (read_function_ref strings) (?g [])
      (concat (List.map (\<lambda>f. concat (serialize_function_ref ix f)) fs) @ rest) = Inr (?g fs, rest)"
  proof (rule read_times_list)
    fix ys x zs rest
    assume fs: "fs = ys @ x # zs"
    have "func_fits strings ix x" using assms(1) fs by simp
    moreover have "fref_name x \<notin> set (List.map fref_name ys)" using assms(2) fs by auto
    then have "kl_lookup (named_list fref_name (List.map binary_func ys)) (fref_name x) = None"
      by (simp add: kl_lookup_None_iff comp_def)
    moreover from \<open>fref_name x \<notin> _\<close>
    have "kl_put (fref_name x) v (named_list fref_name (List.map binary_func ys)) =
        named_list fref_name (List.map binary_func ys) @ [(fref_name x, v)]" for v
      by (intro kl_put_new) (simp add: comp_def)
    ultimately show "read_function_ref strings (?g ys) (concat (serialize_function_ref ix x) @ rest) =
        Inr (?g (ys @ [x]), rest)"
      using assms(3,6)
      by (simp add: read_function_ref_eq tape_start_func_at_index_def binary_func_eq kl_put_last
          kl_lookup_last)
  qed
  moreover have "c\<lparr>cref_funcs := []\<rparr> = c" using assms(5) by simp
  then have "?g [] = t" using assms(4) by simp
  ultimately show ?thesis by (simp add: concat_concat_map)
qed

lemma read_supers:
  assumes "list_all (known strings ix) ps" and "length ps < 65536"
  shows "read_parents strings (concat (serialize_u16 (of_nat (length ps))) @
      concat (concat (List.map (\<lambda>p. serialize_u16 (index_of ix p)) ps)) @ rest) = Inr (ps, rest)"
proof -
  have "read_times (length ps) (\<lambda>supers file.
         andThen (deserialize_u16 file) (\<lambda>(i, file).
         andThen (string_at strings i) (\<lambda>p. Inr (supers @ [p], file)))) []
      (concat (List.map (\<lambda>p. concat (serialize_u16 (index_of ix p))) ps) @ rest) = Inr (ps, rest)"
    using assms(1) by (intro read_times_list [where g = "\<lambda>ys. ys"]) (auto simp: known_def)
  with assms(2) show ?thesis by (simp add: read_parents_def concat_concat_map)
qed

definition class_fits :: "string list \<Rightarrow> string_index \<Rightarrow> class_ref \<Rightarrow> bool" where
  "class_fits strings ix c \<longleftrightarrow>
     wf_class c \<and> known strings ix (cref_name c) \<and> cref_start c < 65536 \<and>
     (case cref_end c of None \<Rightarrow> False | Some e \<Rightarrow> e < 65536) \<and>
     length (cref_supers c) < 65536 \<and> list_all (known strings ix) (cref_supers c) \<and>
     length (cref_funcs c) < 65536 \<and> list_all (func_fits strings ix) (kl_values (cref_funcs c))"

lemma length_kl_values [simp]: "length (kl_values kl) = length kl"
  by (simp add: kl_values_def)

lemma read_class:
  assumes "class_fits strings ix c" and "t_current_class t = None"
    and "cref_name c \<notin> set (kl_keys (t_class_refs t))"
  shows "read_class_ref strings t (concat (serialize_class_ref ix c) @ rest) =
    Inr (t\<lparr>t_class_refs := t_class_refs t @ [(cref_name c, binary_class c)]\<rparr>, rest)"
proof -
  let ?k = "cref_name c"
  obtain e where e: "cref_end c = Some e" "e < 65536"
    using assms(1) by (auto simp: class_fits_def split: option.splits)
  let ?c1 = "(classref_init ?k)\<lparr>cref_start := cref_start c, cref_supers := cref_supers c\<rparr>"
  let ?t1 = "t\<lparr>t_class_refs := t_class_refs t @ [(?k, ?c1)], t_current_class := Some ?k\<rparr>"
  let ?fs = "kl_values (cref_funcs c)"
  let ?t2 = "?t1\<lparr>t_class_refs := t_class_refs t @
    [(?k, ?c1\<lparr>cref_funcs := named_list fref_name (List.map binary_func ?fs)\<rparr>)]\<rparr>"
  have nm: "named fref_name (cref_funcs c)" using assms(1) by (simp add: class_fits_def wf_class_def)
  have methods: "read_times (length ?fs) (read_function_ref strings) ?t1
      (concat (concat (List.map (serialize_function_ref ix) ?fs)) @ rest) = Inr (?t2, rest)" for rest
    using assms nm
    by (subst read_methods [where k = ?k and pre = "t_class_refs t" and c = ?c1])
       (auto simp: class_fits_def classref_init_def named_distinct_names)
  have start: "tape_start_class_at_index ?k (cref_start c) t =
      Inr (t\<lparr>t_class_refs := t_class_refs t @ [(?k, (classref_init ?k)\<lparr>cref_start := cref_start c\<rparr>)],
             t_current_class := Some ?k\<rparr>)"
    using assms(3) by (simp add: tape_start_class_at_index_def kl_lookup_None_iff kl_put_new)
  have supers: "add_supers (cref_supers c)
      (t\<lparr>t_class_refs := t_class_refs t @ [(?k, (classref_init ?k)\<lparr>cref_start := cref_start c\<rparr>)],
         t_current_class := Some ?k\<rparr>) = Inr ?t1"
    using assms(3) by (simp add: add_supers_def kl_lookup_last kl_put_last classref_init_def)
  have "binary_class c = ?c1\<lparr>cref_funcs := named_list fref_name (List.map binary_func ?fs), cref_end := Some e\<rparr>"
    using e nm by (simp add: binary_class_def classref_init_def kl_map_named [OF nm])
  then have finish: "tape_end_class_at_index e ?t2 =
      Inr (t\<lparr>t_class_refs := t_class_refs t @ [(?k, binary_class c)]\<rparr>)"
    using assms(2,3) by (cases t) (simp add: tape_end_class_at_index_def kl_lookup_last kl_put_last)
  have kn: "string_at strings (index_of ix ?k) = Inr ?k" "cref_start c < 65536"
    "length (cref_supers c) < 65536" "list_all (known strings ix) (cref_supers c)" "length (cref_funcs c) < 65536"
    using assms(1) by (simp_all add: class_fits_def known_def)
  show ?thesis
    unfolding read_class_ref_def serialize_class_ref_def
    by (simp add: kn e start supers read_supers methods [simplified] finish [simplified] assms(2))
qed

lemma binary_class_name [simp]: "cref_name (binary_class c) = cref_name c"
  by (simp add: binary_class_def)

lemma read_classes:
  assumes "list_all (class_fits strings ix) cs" and "distinct (List.map cref_name cs)"
    and "t_current_class t = None" and "t_class_refs t = []"
  shows "read_times (length cs) (read_class_ref strings) t
      (concat (concat (List.map (serialize_class_ref ix) cs)) @ rest) =
    Inr (t\<lparr>t_class_refs := named_list cref_name (List.map binary_class cs)\<rparr>, rest)"
proof -
  let ?g = "\<lambda>ys. t\<lparr>t_class_refs := named_list cref_name (List.map binary_class ys)\<rparr>"
  have "read_times (length cs) (read_class_ref strings) (?g [])
      (concat (List.map (\<lambda>c. concat (serialize_class_ref ix c)) cs) @ rest) = Inr (?g cs, rest)"
  proof (rule read_times_list)
    fix ys x zs rest
    assume cs: "cs = ys @ x # zs"
    then have "class_fits strings ix x" and "cref_name x \<notin> set (kl_keys (t_class_refs (?g ys)))"
      using assms(1,2) by (auto simp: comp_def)
    then show "read_class_ref strings (?g ys) (concat (serialize_class_ref ix x) @ rest) = Inr (?g (ys @ [x]), rest)"
      using read_class [of strings ix x "?g ys" rest] assms(3) by simp
  qed
  moreover have "?g [] = t" using assms(4) by simp
  ultimately show ?thesis by (simp add: concat_concat_map)
qed

definition ins_fits :: "fops \<Rightarrow> string_index \<Rightarrow> instruction \<Rightarrow> bool" where
  "ins_fits fo ix ins \<longleftrightarrow>
     list_all (\<lambda>s. map_of ix s \<noteq> None) (ins_strings ins) \<and>
     (case ins_arg ins of PrimArg (PFloat d) \<Rightarrow> f_of_single fo (single_of_f fo d) = d | _ \<Rightarrow> True)"

lemma read_instructions:
  assumes "table_ok (strings, ix)" and "length strings \<le> 65536"
    and "length ix > 255 \<longleftrightarrow> length strings > 255"
    and "list_all (ins_fits fo ix) is" and "\<And>i. length (junk i) = 4"
    and "t_ins t = []" and "t_source_map t = []"
  shows "read_times (length is) (read_instruction fo strings) t
      (concat (concat (List.map (\<lambda>i. serialize_ins fo (junk i) ix (is ! i)) [0..<length is])) @ rest) =
    Inr (t\<lparr>t_ins := is, t_source_map := replicate (length is) no_source\<rparr>, rest)"
proof -
  let ?g = "\<lambda>ys. t\<lparr>t_ins := List.map (nth is) ys, t_source_map := replicate (length ys) no_source\<rparr>"
  have "read_times (length [0..<length is]) (read_instruction fo strings) (?g [])
      (concat (List.map (\<lambda>i. concat (serialize_ins fo (junk i) ix (is ! i))) [0..<length is]) @ rest) =
      Inr (?g [0..<length is], rest)"
  proof (rule read_times_list)
    fix ys x zs rest
    assume xs: "[0..<length is] = ys @ x # zs"
    then have "x \<in> set [0..<length is]" by simp
    then have "ins_fits fo ix (is ! x)" using assms(4) by (simp add: list_all_length)
    then have "\<forall>s \<in> set (ins_strings (is ! x)). map_of ix s \<noteq> None"
      and "\<And>d. ins_arg (is ! x) = PrimArg (PFloat d) \<Longrightarrow> f_of_single fo (single_of_f fo d) = d"
      by (auto simp: ins_fits_def list_all_iff)
    from read_ins [OF assms(1-3) this(1) assms(5) this(2)]
    show "read_instruction fo strings (?g ys) (concat (serialize_ins fo (junk x) ix (is ! x)) @ rest) =
        Inr (?g (ys @ [x]), rest)"
      by (simp add: read_instruction_def tape_ins_raw_def tape_add_def no_source_def replicate_append_same)
  qed
  moreover have "?g [] = t" using assms(6,7) by simp
  ultimately show ?thesis by (simp add: concat_concat_map map_nth)
qed

text \<open>
  A tape the binary format can hold: every count, position and string table entry fits 16 bits, every
  string fits the reader's buffer and has no NUL, every class is closed, every float is a single, and
  the writer and the reader agree on the width of a string reference.
\<close>

definition fits :: "fops \<Rightarrow> bool \<Rightarrow> string \<Rightarrow> tape \<Rightarrow> bool" where
  "fits fo ow m t \<longleftrightarrow>
     wf_tape t \<and>
     (case intern_all_strings ow m t of (strings, ix) \<Rightarrow>
        length strings < 65536 \<and> (length ix > 255 \<longleftrightarrow> length strings > 255) \<and>
        list_all (\<lambda>s. CHR 0x00 \<notin> set s \<and> length s < MAX_STIRNG_SZ) strings) \<and>
     tape_size t < 65536 \<and> tape_func_count t < 65536 \<and> tape_class_count t < 65536 \<and>
     list_all (\<lambda>f. fref_index f < 65536) (tape_functions t) \<and>
     list_all (\<lambda>c. cref_start c < 65536 \<and> (case cref_end c of None \<Rightarrow> False | Some e \<Rightarrow> e < 65536) \<and>
       length (cref_supers c) < 65536 \<and> length (cref_funcs c) < 65536 \<and>
       list_all (\<lambda>f. fref_index f < 65536) (kl_values (cref_funcs c))) (tape_classes t) \<and>
     list_all (\<lambda>ins. case ins_arg ins of PrimArg (PFloat d) \<Rightarrow> f_of_single fo (single_of_f fo d) = d
       | _ \<Rightarrow> True) (t_ins t)"

lemma tape_strings_known:
  assumes "wf_tape t"
  shows "m \<in> set (tape_strings m t)"
    and "f \<in> set (tape_functions t) \<Longrightarrow> fref_name f \<in> set (tape_strings m t)"
    and "ins \<in> set (t_ins t) \<Longrightarrow> s \<in> set (ins_strings ins) \<Longrightarrow> s \<in> set (tape_strings m t)"
    and "c \<in> set (tape_classes t) \<Longrightarrow> s \<in> insert (cref_name c) (set (class_strings c)) \<Longrightarrow>
      s \<in> set (tape_strings m t)"
proof -
  show "s \<in> set (tape_strings m t)" if c: "c \<in> set (tape_classes t)" "s \<in> insert (cref_name c) (set (class_strings c))"
  proof -
    obtain k where k: "(k, c) \<in> set (t_class_refs t)" using c(1) by (auto simp: tape_classes_def kl_values_def)
    then have "cref_name c = k" using assms by (auto simp: wf_tape_def named_def)
    with k c(2) show ?thesis by (fastforce simp: tape_strings_def)
  qed
qed (auto simp: tape_strings_def)

lemma read_binary_blocks:
  assumes "fits fo ow m t" and "t_module_name t = Some m" and "\<And>i. length (junk i) = 4"
  shows "tape_read_binary fo (concat (binary_blocks fo ow junk m t)) tape_create = Inr (binary_tape t)"
proof -
  obtain strings ix where tbl: "intern_all_strings ow m t = (strings, ix)" by fastforce
  note ok = intern_all_strings_ok [OF tbl]
  have wf: "wf_tape t" and len: "length strings < 65536" "length ix > 255 \<longleftrightarrow> length strings > 255"
    and strs: "\<forall>s \<in> set strings. CHR 0x00 \<notin> set s \<and> length s < MAX_STIRNG_SZ"
    and sz: "tape_size t < 65536" "length (t_func_refs t) < 65536" "length (t_class_refs t) < 65536"
    using assms(1) tbl by (auto simp: fits_def list_all_iff tape_func_count_def tape_class_count_def)
  have known: "known strings ix s" if "s \<in> set (tape_strings m t)" for s
    using string_at_index(1) [OF ok(1) ok(3) [OF that]] len(1) by (simp add: known_def)
  have fs: "list_all (func_fits strings ix) (tape_functions t)"
    using assms(1) known tape_strings_known(2) [OF wf] by (auto simp: fits_def list_all_iff func_fits_def)
  have cs: "list_all (class_fits strings ix) (tape_classes t)"
    unfolding list_all_iff
  proof
    fix c assume c: "c \<in> set (tape_classes t)"
    then have "wf_class c" using wf by (auto simp: tape_classes_def kl_values_def wf_tape_def)
    moreover have "list_all (known strings ix) (cref_supers c)"
      "list_all (known strings ix) (List.map fref_name (kl_values (cref_funcs c)))" "known strings ix (cref_name c)"
      using known tape_strings_known(4) [OF wf c] by (auto simp: list_all_iff class_strings_def)
    ultimately show "class_fits strings ix c"
      using assms(1) c by (auto simp: fits_def list_all_iff class_fits_def func_fits_def)
  qed
  have ins: "list_all (ins_fits fo ix) (t_ins t)"
    using assms(1) ok(3) tape_strings_known(3) [OF wf] by (auto simp: fits_def list_all_iff ins_fits_def)
  have m: "string_at strings 0 = Inr m"
  proof -
    have "fold (insert_string ow) ss (x # xs, ix0) = (ys, ix1) \<Longrightarrow> hd ys = x \<and> ys \<noteq> []"
      for ss x xs ix0 ys and ix1 :: string_index
    proof (induction ss arbitrary: xs ix0)
      case (Cons s ss)
      then show ?case by (cases rule: insert_string_cases [of ix0 s ow "x # xs"]) auto
    qed auto
    moreover have "\<exists>ss. fold (insert_string ow) ss ([m], [(m, 0)]) = (strings, ix)"
    proof -
      have "fold (insert_string ow) (tl (tape_strings m t)) ([m], [(m, 0)]) = (strings, ix)"
        using tbl
        by (simp add: intern_all_strings_def tape_strings_def insert_string_def index_insert_def)
      then show ?thesis by blast
    qed
    ultimately have "hd strings = m \<and> strings \<noteq> []" by blast
    then show ?thesis by (cases strings) (auto simp: string_at_def)
  qed
  have d: "distinct (List.map fref_name (tape_functions t))" "distinct (List.map cref_name (tape_classes t))"
    using wf by (auto simp: wf_tape_def tape_functions_def tape_classes_def named_distinct_names)
  have kf: "kl_map binary_func (t_func_refs t) = named_list fref_name (List.map binary_func (tape_functions t))"
    "kl_map binary_class (t_class_refs t) = named_list cref_name (List.map binary_class (tape_classes t))"
    using wf by (auto simp: wf_tape_def tape_functions_def tape_classes_def kl_map_named)
  have lens: "length (tape_functions t) = length (t_func_refs t)" "length (tape_classes t) = length (t_class_refs t)"
    by (simp_all add: tape_functions_def tape_classes_def)
  have ri: "read_times (length (t_ins t)) (read_instruction fo strings) u
      (concat (concat (List.map (\<lambda>i. serialize_ins fo (junk i) ix (t_ins t ! i)) [0..<length (t_ins t)]))) =
      Inr (u\<lparr>t_ins := t_ins t, t_source_map := replicate (length (t_ins t)) no_source\<rparr>, [])"
    if "t_ins u = []" "t_source_map u = []" for u
    using read_instructions [where junk = junk and t = u and rest = "[]", OF ok(1) _ len(2) ins assms(3) that]
      len(1) by simp
  show ?thesis
    using sz len(1)
    by (simp add: tape_read_binary_def binary_blocks_def tbl read_all_strings strs m tape_func_count_def
        tape_class_count_def read_functions [OF fs d(1), unfolded lens] read_classes [OF cs d(2), unfolded lens]
        tape_create_def serialize_all_ins_def Let_def)
       (simp add: tape_size_def binary_tape_def kf assms(2) ri)
qed

lemma tape_write_binary_blocks:
  assumes "t_module_name t = Some m"
  shows "tape_write_binary fo ow junk t = Inr (Some (concat (binary_blocks fo ow junk m t)))"
  using assms buffer_write_all_content [of "buffer_init [] 512" "binary_blocks fo ow junk m t"]
  by (auto simp: tape_write_binary_def buffer_init_def buffer_finalize_def buffer_flush_def)



subsection \<open>Where the writer and the reader disagree\<close>

lemma insert_fresh:
  assumes "map_of ix s = None"
  shows "insert_string ow s (strings, ix) = (strings @ [s], ix @ [(s, length strings)])"
  using assms by (simp add: insert_string_def index_insert_def)

lemma fold_insert_fresh:
  assumes "distinct ss" and "\<forall>s \<in> set ss. map_of ix s = None"
  shows "\<exists>new. fold (insert_string ow) ss (strings, ix) = (strings @ ss, ix @ new) \<and>
    List.map fst new = ss"
  using assms
proof (induction ss arbitrary: strings ix)
  case Nil
  then show ?case by simp
next
  case (Cons s ss)
  have "\<forall>s' \<in> set ss. map_of (ix @ [(s, length strings)]) s' = None"
    using Cons.prems by (auto simp: map_add_def)
  with Cons.IH [of "ix @ [(s, length strings)]" "strings @ [s]"] Cons.prems
  show ?case by (auto simp: insert_fresh)
qed

lemma length_index_insert: "map_of ix s \<noteq> None \<Longrightarrow> length (index_insert ow ix s i) = length ix"
proof -
  have "length (AList.update s i ix) = length ix" if "map_of ix s \<noteq> None" for ix :: string_index
    using that by (induction ix) (auto split: if_splits)
  then show "map_of ix s \<noteq> None \<Longrightarrow> ?thesis" by (auto simp: index_insert_def)
qed

lemma module_name_again:
  assumes "distinct (m # ss)" and "tape_strings m t = m # ss @ [m]"
  shows "\<exists>strings ix. intern_all_strings ow m t = (strings, ix) \<and> length strings = length ss + 2 \<and>
    length ix = length ss + 1"
proof -
  have "\<forall>s \<in> set ss. map_of [(m, 0)] s = None" using assms(1) by auto
  from fold_insert_fresh [OF _ this, of ow "[m]"] obtain new
    where n: "fold (insert_string ow) ss ([m], [(m, 0)]) = (m # ss, (m, 0) # new)" "List.map fst new = ss"
    using assms(1) by auto
  let ?ix = "index_insert ow ((m, 0) # new) m (length (m # ss))"
  have "intern_all_strings ow m t = (m # ss @ [m], ?ix)"
    using assms(2) n(1) by (simp add: intern_all_strings_def insert_string_def) (simp add: index_insert_def)
  moreover have "length ?ix = length ss + 1"
    using arg_cong [OF n(2), of length] by (subst length_index_insert) simp_all
  ultimately show ?thesis by auto
qed

text \<open>The two ends of the binary format disagree on one kind of tape. When the module's name is used
  again in a tape with 255 different strings, the writer's index counts 255 of them and its list
  256 (position 0 is stored as a null pointer, so the name looks absent and is listed twice). Then
  \<open>serialize_ins\<close> writes every string reference in one byte and \<open>deserialize_ins\<close> reads it as two,
  taking the byte of whatever follows.\<close>

theorem binary_width_clash:
  assumes "distinct (m # ss)" and "tape_strings m t = m # ss @ [m]" and "length ss = 254"
  shows "\<exists>strings ix. intern_all_strings ow m t = (strings, ix) \<and>
    (\<forall>s b rest. length (concat (serialize_ref ix s)) = 1 \<and>
       deserialize_ref strings (concat (serialize_ref ix s) @ b # rest) =
         andThen (string_at strings (u16_of_bytes (ucast (index_of ix s)) b)) (\<lambda>s'. Inr (s', rest)))"
proof -
  obtain strings ix where "intern_all_strings ow m t = (strings, ix)" "length strings = 256" "length ix = 255"
    using module_name_again [OF assms(1,2), of ow] assms(3) by auto
  then show ?thesis
    by (intro exI [of _ strings] exI [of _ ix])
       (simp add: serialize_ref_def deserialize_ref_def serialize_u8_def serialize_bytes_def)
qed

text \<open>A tape that mentions given names in its instructions.\<close>

definition naming_tape :: "string list \<Rightarrow> tape" where
  "naming_tape ss = tape_create\<lparr>t_ins := List.map (\<lambda>s. \<lparr>ins_op = RES, ins_arg = IdArg s\<rparr>) ss\<rparr>"

lemma naming_tape_strings: "tape_strings m (naming_tape ss) = m # ss"
  by (induction ss)
     (auto simp: tape_strings_def naming_tape_def tape_create_def tape_functions_def ins_strings_def)

theorem binary_width_clash_witness:
  "\<exists>strings ix.
     intern_all_strings True [] (naming_tape (List.map (\<lambda>i. replicate i (CHR ''a'')) [1..<255] @ [[]])) = (strings, ix) \<and>
     length (concat (serialize_ref ix ''a'')) = 1 \<and>
     deserialize_ref strings (concat (serialize_ref ix ''a'') @ [7]) =
       andThen (string_at strings (u16_of_bytes (ucast (index_of ix ''a'')) 7)) (\<lambda>s'. Inr (s', []))"
proof -
  let ?ss = "List.map (\<lambda>i. replicate i (CHR ''a'')) [1..<255]"
  have d: "distinct ([] # ?ss)"
    by (auto simp: distinct_map inj_on_def replicate_eq_replicate)
  have l: "length ?ss = 254" by simp
  from binary_width_clash [OF d naming_tape_strings l, of True] show ?thesis by blast
qed

end
