(* ===== verification/Optimizer.thy ===== *)
theory Optimizer imports TapeBinaryFacts begin

text \<open>
  \<open>program/optimization/\<close>: the adjustments a pass requests (\<open>optimizer.c\<close>), the passes
  (\<open>optimizers.c\<close>), and the driver with the resolution of the adjustments into a new tape and the
  retargeting of its jumps (\<open>optimize.c\<close>). Maps from instruction positions are functions; the
  parameter \<open>ow\<close> says whether \<open>map_insert\<close> replaces the value of a key that is present. A jump
  with operand \<open>v\<close> at position \<open>i\<close> continues after position \<open>i + v\<close>, so \<open>i + v\<close> is what the
  code calls its target. \<open>deliver\<close> is the order in which \<open>Q_dequeue\<close> hands over what \<open>Q_enqueue\<close>
  stored.
\<close>

type_synonym 'v imap = "int \<Rightarrow> 'v option"

definition imap_put :: "bool \<Rightarrow> int \<Rightarrow> 'v \<Rightarrow> 'v imap \<Rightarrow> 'v imap" where
  "imap_put ow k v m = (if m k \<noteq> None \<and> \<not> ow then m else m(k \<mapsto> v))"

subsection \<open>Adjustments\<close>

(* src/program/optimization/optimizer.h [16-26] Adjustment *)
datatype adjustment =
    ASetOp op | ARemove | ASetVal op primitive | AReplace instruction

text \<open>The start, end and position of code to be moved.\<close>

(* src/program/optimization/optimizer.h [22-24] Adjustment *)
record insertion =
  adj_start :: nat
  adj_end :: nat
  adj_pos :: nat

text \<open>A goto is known by its position; position 0 is a null pointer when looked up.\<close>

(* src/program/optimization/optimizer.h [28-33] OptimizeHelper *)
record optimize_helper =
  oh_tape :: tape
  oh_adj :: "adjustment imap"
  oh_gotos :: "nat imap"
  oh_inserts :: "insertion imap"
  oh_refs :: "function_ref imap"
  oh_class_starts :: "string imap"
  oh_class_ends :: "string imap"

(* src/program/optimization/optimizer.c add_adjustment *)
definition add_adjustment :: "bool \<Rightarrow> adjustment \<Rightarrow> nat \<Rightarrow> optimize_helper \<Rightarrow> optimize_helper" where
  "add_adjustment ow a index oh = oh\<lparr>oh_adj := imap_put ow (int index) a (oh_adj oh)\<rparr>"

(* src/program/optimization/optimizer.c add_insertion *)
definition add_insertion :: "bool \<Rightarrow> insertion \<Rightarrow> optimize_helper \<Rightarrow> optimize_helper" where
  "add_insertion ow a oh = oh\<lparr>oh_inserts := imap_put ow (int (adj_pos a)) a (oh_inserts oh)\<rparr>"

(* src/program/optimization/optimizer.c o_Remove *)
definition o_Remove :: "bool \<Rightarrow> nat \<Rightarrow> optimize_helper \<Rightarrow> optimize_helper" where
  "o_Remove ow index = add_adjustment ow ARemove index"

(* src/program/optimization/optimizer.c o_Replace *)
definition o_Replace :: "bool \<Rightarrow> nat \<Rightarrow> instruction \<Rightarrow> optimize_helper \<Rightarrow> optimize_helper" where
  "o_Replace ow index ins = add_adjustment ow (AReplace ins) index"

(* src/program/optimization/optimizer.c o_SetOp *)
definition o_SetOp :: "bool \<Rightarrow> nat \<Rightarrow> op \<Rightarrow> optimize_helper \<Rightarrow> optimize_helper" where
  "o_SetOp ow index p = add_adjustment ow (ASetOp p) index"

(* src/program/optimization/optimizer.c o_SetVal *)
definition o_SetVal :: "bool \<Rightarrow> nat \<Rightarrow> op \<Rightarrow> primitive \<Rightarrow> optimize_helper \<Rightarrow> optimize_helper" where
  "o_SetVal ow index p v = add_adjustment ow (ASetVal p v) index"

(* src/program/optimization/optimizer.c o_Shift *)
definition o_Shift :: "bool \<Rightarrow> nat \<Rightarrow> nat \<Rightarrow> nat \<Rightarrow> optimize_helper \<Rightarrow> optimize_helper" where
  "o_Shift ow start_index end_index insert_pos oh =
     fold (o_Remove ow) [start_index..<end_index]
       (add_insertion ow \<lparr>adj_start = start_index, adj_end = end_index, adj_pos = insert_pos\<rparr> oh)"

subsection \<open>The helper of a pass\<close>

(* src/program/optimization/optimize.c [24-25] is_goto *)
definition is_goto :: "op \<Rightarrow> bool" where
  "is_goto p \<longleftrightarrow> p = JMP \<or> p = IFN \<or> p = IF \<or> p = CTCH"

(* src/program/optimization/optimize.c _populate_gotos *)
definition populate_gotos :: "bool \<Rightarrow> tape \<Rightarrow> nat imap res" where
  "populate_gotos ow t = foldRes (\<lambda>i gotos.
     if \<not> is_goto (ins_op (t_ins t ! i)) then Inr gotos
     else andThen (ins_int (t_ins t ! i)) (\<lambda>v. Inr (imap_put ow (int i + sint v) i gotos)))
     [0..<tape_size t] (\<lambda>_. None)"

(* src/program/optimization/optimize.c _tape_populate_mappings *)
definition populate_refs :: "bool \<Rightarrow> tape \<Rightarrow> function_ref imap" where
  "populate_refs ow t =
     fold (\<lambda>f. imap_put ow (int (fref_index f)) f)
       (tape_functions t @ concat (List.map (\<lambda>c. kl_values (cref_funcs c)) (tape_classes t))) (\<lambda>_. None)"

(* src/program/optimization/optimize.c [76-79] _tape_populate_mappings *)
definition populate_class_starts :: "bool \<Rightarrow> tape \<Rightarrow> string imap" where
  "populate_class_starts ow t =
     fold (\<lambda>c. imap_put ow (int (cref_start c)) (cref_name c)) (tape_classes t) (\<lambda>_. None)"

text \<open>A class that was not closed has no defined end; it is not entered.\<close>

(* src/program/optimization/optimize.c [76-80] _tape_populate_mappings *)
definition populate_class_ends :: "bool \<Rightarrow> tape \<Rightarrow> string imap" where
  "populate_class_ends ow t =
     fold (\<lambda>c. case cref_end c of None \<Rightarrow> id | Some e \<Rightarrow> imap_put ow (int e) (cref_name c))
       (tape_classes t) (\<lambda>_. None)"

(* src/program/optimization/optimize.c oh_init *)
definition oh_init :: "bool \<Rightarrow> tape \<Rightarrow> optimize_helper res" where
  "oh_init ow t = andThen (populate_gotos ow t) (\<lambda>gotos.
     Inr \<lparr>oh_tape = t, oh_adj = (\<lambda>_. None), oh_gotos = gotos, oh_inserts = (\<lambda>_. None),
          oh_refs = populate_refs ow t, oh_class_starts = populate_class_starts ow t,
          oh_class_ends = populate_class_ends ow t\<rparr>)"

text \<open>\<open>NULL != map_lookup(&oh->i_gotos, k)\<close>.\<close>

definition goes_to :: "optimize_helper \<Rightarrow> nat \<Rightarrow> bool" where
  "goes_to oh k = (case oh_gotos oh (int k) of None \<Rightarrow> False | Some i \<Rightarrow> i \<noteq> 0)"

subsection \<open>The passes\<close>

(* src/program/optimization/optimizers.c _for_op *)
definition for_op :: "op \<Rightarrow> instruction" where
  "for_op p = \<lparr>ins_op = p, ins_arg = NoArg\<rparr>"

text \<open>\<open>ins->id\<close> or \<open>ins->str\<close>: the two share their place in the union.\<close>

definition ins_id :: "instruction \<Rightarrow> string res" where
  "ins_id ins = (case ins_arg ins of
     IdArg s \<Rightarrow> Inr s | StrArg s \<Rightarrow> Inr s | _ \<Rightarrow> Inl (UB ''ins->id read under another tag''))"

definition no_arg :: "instruction \<Rightarrow> bool" where
  "no_arg ins = (ins_arg ins = NoArg)"

definition id_arg :: "instruction \<Rightarrow> bool" where
  "id_arg ins = (arg_type (ins_arg ins) = INSTRUCTION_ID)"

text \<open>A pass over neighbouring instructions: \<open>f\<close> acts on the pair that ends at position \<open>i\<close>.\<close>

type_synonym pass = "tape \<Rightarrow> nat \<Rightarrow> nat \<Rightarrow> optimize_helper \<Rightarrow> optimize_helper res"

definition for_pairs ::
  "(nat \<Rightarrow> instruction \<Rightarrow> instruction \<Rightarrow> optimize_helper \<Rightarrow> optimize_helper) \<Rightarrow> pass" where
  "for_pairs f t start end oh = foldRes (\<lambda>i oh.
     andThen (tape_get t (i - 1)) (\<lambda>first.
     andThen (tape_get t i) (\<lambda>second. Inr (f i first second oh)))) [start + 1..<end] oh"

(* src/program/optimization/optimizers.c optimizer_ResPush *)
function optimizer_ResPush_from :: "bool \<Rightarrow> tape \<Rightarrow> nat \<Rightarrow> nat \<Rightarrow> optimize_helper \<Rightarrow> optimize_helper res" where
  "optimizer_ResPush_from ow t i end oh =
     (if i < end
      then andThen (tape_get t (i - 1)) (\<lambda>first.
           andThen (tape_get t i) (\<lambda>second.
             if ins_op first = RES \<and> \<not> no_arg first \<and> ins_op second = PUSH \<and> no_arg second
             then optimizer_ResPush_from ow t (i + 2) end (o_Remove ow i (o_SetOp ow (i - 1) PUSH oh))
             else optimizer_ResPush_from ow t (i + 1) end oh))
      else Inr oh)"
  by pat_completeness auto
termination by (relation "measure (\<lambda>(ow, t, i, end, oh). end - i)") auto

declare optimizer_ResPush_from.simps [simp del]

definition same_id :: "instruction \<Rightarrow> instruction \<Rightarrow> bool" where
  "same_id first second = (id_arg first \<and> id_arg second \<and> ins_arg first = ins_arg second)"

(* src/program/optimization/optimizers.c optimizer_SetRes *)
definition optimizer_SetRes :: "bool \<Rightarrow> pass" where
  "optimizer_SetRes ow = for_pairs (\<lambda>i first second oh.
     if (ins_op first = SET \<or> ins_op first = LET) \<and> ins_op second = RES \<and> same_id first second \<and>
        \<not> goes_to oh (i - 1)
     then o_Remove ow i oh else oh)"

(* src/program/optimization/optimizers.c optimizer_SetPush *)
definition optimizer_SetPush :: "bool \<Rightarrow> pass" where
  "optimizer_SetPush ow = for_pairs (\<lambda>i first second oh.
     if (ins_op first = SET \<or> ins_op first = LET) \<and> ins_op second = PUSH \<and> same_id first second \<and>
        \<not> goes_to oh (i - 1)
     then o_Replace ow i (for_op PUSH) oh else oh)"

(* src/program/optimization/optimizers.c optimizer_GetPush *)
definition optimizer_GetPush :: "bool \<Rightarrow> pass" where
  "optimizer_GetPush ow = for_pairs (\<lambda>i first second oh.
     if ins_op first = GET \<and> \<not> no_arg first \<and> ins_op second = PUSH \<and> no_arg second \<and>
        \<not> goes_to oh (i - 1)
     then o_SetOp ow (i - 1) GTSH (o_Remove ow i oh) else oh)"

text \<open>A negative position is a large \<open>uint32_t\<close>, which \<open>tape_get\<close> refuses.\<close>

definition tape_get_int :: "tape \<Rightarrow> int \<Rightarrow> instruction res" where
  "tape_get_int t i =
     (if i < 0 then Inl (Fatal ''index < tape_size(tape)'') else tape_get t (nat i))"

(* src/program/optimization/optimizers.c [100-116] optimizer_JmpRes *)
definition jmp_res_step ::
  "bool \<Rightarrow> tape \<Rightarrow> nat \<Rightarrow> optimize_helper \<Rightarrow> optimize_helper res" where
  "jmp_res_step ow t i oh =
     andThen (tape_get t (i - 1)) (\<lambda>first.
     andThen (tape_get t i) (\<lambda>second.
       if ins_op first \<noteq> SET \<or> ins_op second \<noteq> JMP then Inr oh
       else andThen (ins_int second) (\<lambda>jmp_val.
         if sint jmp_val \<ge> 0 then Inr oh
         else andThen (tape_get_int t (int i + sint jmp_val - 1)) (\<lambda>jump_to_parent.
              andThen (tape_get_int t (int i + sint jmp_val)) (\<lambda>jump_to.
                if ins_op jump_to_parent \<noteq> SET then Inr oh
                else andThen (ins_id jump_to_parent) (\<lambda>p.
                     andThen (ins_id first) (\<lambda>f.
                       if p \<noteq> f \<or> ins_op jump_to \<noteq> RES \<or> \<not> id_arg jump_to then Inr oh
                       else andThen (ins_id jump_to) (\<lambda>j.
                         if f \<noteq> j then Inr oh
                         else Inr (o_Remove ow (nat (int i + sint jmp_val)) oh)))))))))"

(* src/program/optimization/optimizers.c optimizer_JmpRes *)
definition optimizer_JmpRes :: "bool \<Rightarrow> pass" where
  "optimizer_JmpRes ow t start end oh = foldRes (jmp_res_step ow t) [start + 1..<end] oh"

text \<open>The operands of the two instructions, of the same type, are equal.\<close>

(* src/program/optimization/optimizers.c [130-142] optimizer_PushRes *)
definition same_operand :: "fops \<Rightarrow> operand \<Rightarrow> operand \<Rightarrow> bool" where
  "same_operand fo a b = (case (a, b) of
     (StrArg s, StrArg s') \<Rightarrow> s = s'
   | (IdArg s, IdArg s') \<Rightarrow> s = s'
   | (PrimArg v, PrimArg w) \<Rightarrow> primitive_equals fo v w
   | (NoArg, NoArg) \<Rightarrow> True
   | _ \<Rightarrow> False)"

(* src/program/optimization/optimizers.c optimizer_PushRes *)
definition optimizer_PushRes :: "fops \<Rightarrow> bool \<Rightarrow> pass" where
  "optimizer_PushRes fo ow = for_pairs (\<lambda>i first second oh.
     if ins_op first \<noteq> PUSH \<or> ins_op second \<noteq> RES \<or>
        arg_type (ins_arg first) \<noteq> arg_type (ins_arg second) \<or> goes_to oh i \<or>
        \<not> same_operand fo (ins_arg first) (ins_arg second)
     then oh
     else o_Remove ow i (o_SetOp ow (i - 1) PSRS oh))"

(* src/program/optimization/optimizers.c optimizer_ResPush2 *)
definition optimizer_ResPush2 :: "bool \<Rightarrow> pass" where
  "optimizer_ResPush2 ow = for_pairs (\<lambda>i first second oh.
     if ins_op first = RES \<and> no_arg first \<and> ins_op second = PUSH \<and> no_arg second \<and>
        \<not> goes_to oh (i - 1)
     then o_Remove ow i (o_SetOp ow (i - 1) PEEK oh) else oh)"

(* src/program/optimization/optimizers.c optimizer_RetRet *)
definition optimizer_RetRet :: "bool \<Rightarrow> pass" where
  "optimizer_RetRet ow = for_pairs (\<lambda>i first second oh.
     if ins_op first = RET \<and> no_arg first \<and> ins_op second = RET \<and> no_arg second \<and>
        \<not> goes_to oh (i - 1)
     then o_Remove ow i oh else oh)"

(* src/program/optimization/optimizers.c optimizer_PeekRes *)
definition optimizer_PeekRes :: "bool \<Rightarrow> pass" where
  "optimizer_PeekRes ow = for_pairs (\<lambda>i first second oh.
     if ins_op first = PEEK \<and> (ins_op second = RES \<or> ins_op second = TLEN) \<and> \<not> goes_to oh (i - 1)
     then o_Remove ow (i - 1) oh else oh)"

(* src/program/optimization/optimizers.c [202-219] optimizer_Increment *)
definition increment_step4 :: "bool \<Rightarrow> tape \<Rightarrow> nat \<Rightarrow> optimize_helper \<Rightarrow> optimize_helper res" where
  "increment_step4 ow t i oh =
     andThen (tape_get t (i - 3)) (\<lambda>first.
     andThen (tape_get t (i - 2)) (\<lambda>second.
     andThen (tape_get t (i - 1)) (\<lambda>third.
     andThen (tape_get t i) (\<lambda>fourth.
       Inr (if ins_op first = PUSH \<and> id_arg first \<and> ins_op second = PUSH \<and>
               ins_arg second = PrimArg (PInt 1) \<and>
               (ins_op third = ADD \<or> ins_op third = SUB) \<and> ins_op fourth = SET \<and>
               same_id first fourth \<and> \<not> goes_to oh i \<and> \<not> goes_to oh (i - 1) \<and>
               \<not> goes_to oh (i - 2) \<and> \<not> goes_to oh (i - 3)
            then o_Remove ow i (o_Remove ow (i - 1) (o_Remove ow (i - 2)
                   (o_SetOp ow (i - 3) (if ins_op third = ADD then INC else DEC) oh)))
            else oh)))))"

(* src/program/optimization/optimizers.c [227-241] optimizer_Increment *)
definition increment_step3 :: "bool \<Rightarrow> tape \<Rightarrow> nat \<Rightarrow> optimize_helper \<Rightarrow> optimize_helper res" where
  "increment_step3 ow t i oh =
     andThen (tape_get t (i - 2)) (\<lambda>first.
     andThen (tape_get t (i - 1)) (\<lambda>second.
     andThen (tape_get t i) (\<lambda>third.
       Inr (if ins_op first = RES \<and> id_arg first \<and> (ins_op second = ADD \<or> ins_op second = SUB) \<and>
               ins_arg second = PrimArg (PInt 1) \<and> ins_op third = SET \<and>
               same_id first third \<and> \<not> goes_to oh i \<and> \<not> goes_to oh (i - 1) \<and> \<not> goes_to oh (i - 2)
            then o_Remove ow i (o_Remove ow (i - 1)
                   (o_SetOp ow (i - 2) (if ins_op second = ADD then INC else DEC) oh))
            else oh))))"

(* src/program/optimization/optimizers.c optimizer_Increment *)
definition optimizer_Increment :: "bool \<Rightarrow> pass" where
  "optimizer_Increment ow t start end oh =
     andThen (foldRes (increment_step4 ow t) [start + 3..<end] oh)
       (foldRes (increment_step3 ow t) [start + 2..<end])"

(* src/program/optimization/optimizers.c optimizer_SetEmpty *)
definition optimizer_SetEmpty :: "bool \<Rightarrow> pass" where
  "optimizer_SetEmpty ow = for_pairs (\<lambda>i first second oh.
     if ins_op first = TGET \<and> arg_type (ins_arg first) = INSTRUCTION_PRIMITIVE \<and>
        (ins_op second = SET \<or> ins_op second = LET) \<and> ins_arg second = IdArg ''_'' \<and>
        \<not> goes_to oh (i - 1)
     then o_Remove ow i (o_Remove ow (i - 1) oh) else oh)"

(* src/program/optimization/optimizers.c optimizer_PushResEmpty *)
definition optimizer_PushResEmpty :: "bool \<Rightarrow> pass" where
  "optimizer_PushResEmpty ow = for_pairs (\<lambda>i first second oh.
     if ins_op first = PUSH \<and> no_arg first \<and> ins_op second = RES \<and> no_arg second \<and>
        \<not> goes_to oh (i - 1)
     then o_Remove ow i (o_Remove ow (i - 1) oh) else oh)"

(* src/program/optimization/optimizers.c optimizer_PeekPeek *)
definition optimizer_PeekPeek :: "bool \<Rightarrow> pass" where
  "optimizer_PeekPeek ow = for_pairs (\<lambda>i first second oh.
     if ins_op first = PEEK \<and> no_arg first \<and> ins_op second = PEEK \<and> no_arg second \<and>
        \<not> goes_to oh (i - 1)
     then o_Remove ow (i - 1) oh else oh)"

(* src/program/optimization/optimizers.c optimizer_PushRes2 *)
definition optimizer_PushRes2 :: "bool \<Rightarrow> pass" where
  "optimizer_PushRes2 ow = for_pairs (\<lambda>i first second oh.
     if ins_op first = PUSH \<and> ins_op second = RES \<and> no_arg first \<and> no_arg second \<and> \<not> goes_to oh i
     then o_Remove ow i (o_Remove ow (i - 1) oh) else oh)"

(* src/program/optimization/optimizers.c is_math_op *)
definition is_math_op :: "op \<Rightarrow> bool" where
  "is_math_op p \<longleftrightarrow> p = ADD \<or> p = SUB \<or> p = DIV \<or> p = MULT \<or> p = MOD \<or> p = LT \<or> p = LTE \<or>
     p = GTE \<or> p = GT \<or> p = EQ"

(* src/program/optimization/optimizers.c [330-345] optimizer_SimpleMath *)
definition simple_math_step :: "bool \<Rightarrow> tape \<Rightarrow> nat \<Rightarrow> optimize_helper \<Rightarrow> optimize_helper res" where
  "simple_math_step ow t i oh =
     andThen (tape_get t (i - 2)) (\<lambda>first.
     andThen (tape_get t (i - 1)) (\<lambda>second.
     andThen (tape_get t i) (\<lambda>third.
       Inr (if ins_op first = PUSH \<and> ins_op second = PUSH \<and> is_math_op (ins_op third) \<and>
               (arg_type (ins_arg second) = INSTRUCTION_PRIMITIVE \<or> id_arg second) \<and>
               \<not> goes_to oh i \<and> \<not> goes_to oh (i - 1)
            then o_Remove ow i (o_SetOp ow (i - 1) (ins_op third)
                   (if no_arg first then o_Remove ow (i - 2) oh else o_SetOp ow (i - 2) RES oh))
            else oh))))"

(* src/program/optimization/optimizers.c optimizer_SimpleMath *)
definition optimizer_SimpleMath :: "bool \<Rightarrow> pass" where
  "optimizer_SimpleMath ow t start end oh = foldRes (simple_math_step ow t) [start + 2..<end] oh"

definition NIL_KEYWORD :: string where
  "NIL_KEYWORD = ''None''"

(* src/program/optimization/optimizers.c optimizer_Nil *)
definition optimizer_Nil :: "bool \<Rightarrow> pass" where
  "optimizer_Nil ow t start end oh = foldRes (\<lambda>i oh. andThen (tape_get t i) (\<lambda>insc.
     Inr (if (ins_op insc = RES \<or> ins_op insc = PUSH) \<and> ins_arg insc = IdArg NIL_KEYWORD
          then o_Replace ow i (for_op (if ins_op insc = RES then RNIL else PNIL)) oh
          else oh))) [start..<end] oh"

end
