(* ===== verification/Optimize.thy ===== *)
theory Optimize imports Optimizer begin

text \<open>
  \<open>program/optimization/optimize.c\<close>: resolving the adjustments of a pass into a new tape, with the
  old position of every new instruction, the new position of every old one and the retargeting of the
  jumps between them; and the sequence of passes.
\<close>

text \<open>The new tape, \<open>old_index\<close> and \<open>new_index\<close>.\<close>

(* src/program/optimization/optimize.c [106-113] _oh_resolve *)
record resolve_state =
  rs_tape :: tape
  rs_old :: "nat list"
  rs_new :: "int list"

definition on_tape :: "(tape \<Rightarrow> tape res) \<Rightarrow> resolve_state \<Rightarrow> resolve_state res" where
  "on_tape f rs = andThen (f (rs_tape rs)) (\<lambda>t. Inr (rs\<lparr>rs_tape := t\<rparr>))"

definition word_token :: "string \<Rightarrow> token" where
  "word_token s = token_fill WORD 0 0 s"

(* src/program/optimization/optimize.c [115-120] _oh_resolve *)
definition resolve_class_end :: "optimize_helper \<Rightarrow> nat \<Rightarrow> tape \<Rightarrow> tape res" where
  "resolve_class_end oh i new_tape = (case oh_class_ends oh (int i) of
     None \<Rightarrow> Inr new_tape
   | Some s \<Rightarrow> tape_endclass (word_token s) new_tape)"

(* src/program/optimization/optimize.c [121-142] _oh_resolve *)
definition resolve_class_start ::
  "(string list \<Rightarrow> string list) \<Rightarrow> optimize_helper \<Rightarrow> nat \<Rightarrow> tape \<Rightarrow> tape res" where
  "resolve_class_start deliver oh i new_tape = (case oh_class_starts oh (int i) of
     None \<Rightarrow> Inr new_tape
   | Some s \<Rightarrow>
       (case tape_get_class (oh_tape oh) s of
          None \<Rightarrow> Inl (UB ''null class'')
        | Some cref \<Rightarrow>
            andThen (if cref_supers cref = [] then tape_class (word_token s) new_tape
                     else tape_class_with_parents (word_token s) (deliver (cref_supers cref)) new_tape)
              (foldRes (\<lambda>f. tape_field (fld_name f)) (kl_values (cref_fields cref)))))"

(* src/program/optimization/optimize.c [143-150] _oh_resolve *)
definition resolve_label :: "optimize_helper \<Rightarrow> nat \<Rightarrow> tape \<Rightarrow> tape res" where
  "resolve_label oh i new_tape = (case oh_refs oh (int i) of
     None \<Rightarrow> Inr new_tape
   | Some fref \<Rightarrow> (if fref_async fref then tape_label_text_async (fref_name fref) new_tape
                   else tape_label_text (fref_name fref) new_tape))"

text \<open>A new instruction with a source position; the old position it comes from.\<close>

definition add_new :: "instruction \<Rightarrow> source_mapping \<Rightarrow> nat \<Rightarrow> resolve_state \<Rightarrow> resolve_state" where
  "add_new ins sm old rs =
     rs\<lparr>rs_tape := tape_add_source sm (tape_add ins (rs_tape rs)), rs_old := rs_old rs @ [old]\<rparr>"

(* src/program/optimization/optimize.c [160-170] _oh_resolve *)
definition resolve_insert :: "optimize_helper \<Rightarrow> nat \<Rightarrow> resolve_state \<Rightarrow> resolve_state res" where
  "resolve_insert oh i rs = (case oh_inserts oh (int i) of
     None \<Rightarrow> Inr rs
   | Some ins \<Rightarrow>
       (let new_len = int (tape_size (rs_tape rs)) in
        foldRes (\<lambda>j rs.
          andThen (tape_get (oh_tape oh) j) (\<lambda>new_ins.
          andThen (tape_get_source (oh_tape oh) j) (\<lambda>sm.
            Inr ((add_new new_ins sm j rs)\<lparr>rs_new := rs_new rs @ [new_len]\<rparr>))))
          [adj_start ins..<adj_end ins] rs))"

(* src/program/optimization/optimize.c [182-193] _oh_resolve *)
definition adjusted :: "adjustment option \<Rightarrow> instruction \<Rightarrow> instruction" where
  "adjusted a ins = (case a of
     None \<Rightarrow> ins
   | Some (ASetOp p) \<Rightarrow> ins\<lparr>ins_op := p\<rparr>
   | Some (ASetVal p v) \<Rightarrow> \<lparr>ins_op = p, ins_arg = PrimArg v\<rparr>
   | Some (AReplace r) \<Rightarrow> r
   | Some ARemove \<Rightarrow> ins)"

(* src/program/optimization/optimize.c [155-193] _oh_resolve *)
definition resolve_ins :: "optimize_helper \<Rightarrow> nat \<Rightarrow> resolve_state \<Rightarrow> resolve_state res" where
  "resolve_ins oh i rs =
     andThen (tape_get (oh_tape oh) i) (\<lambda>ins.
       let new_len = int (tape_size (rs_tape rs)); a = oh_adj oh (int i) in
       andThen (resolve_insert oh i rs) (\<lambda>rs.
         if a = Some ARemove then Inr (rs\<lparr>rs_new := rs_new rs @ [new_len - 1]\<rparr>)
         else andThen (tape_get_source (oh_tape oh) i) (\<lambda>sm.
              Inr ((add_new (adjusted a ins) sm i rs)\<lparr>rs_new := rs_new rs @ [new_len]\<rparr>))))"

(* src/program/optimization/optimize.c [114-194] _oh_resolve *)
definition resolve_step ::
  "(string list \<Rightarrow> string list) \<Rightarrow> optimize_helper \<Rightarrow> nat \<Rightarrow> resolve_state \<Rightarrow> resolve_state res" where
  "resolve_step deliver oh i rs =
     andThen (on_tape (resolve_class_end oh i) rs) (\<lambda>rs.
     andThen (on_tape (resolve_class_start deliver oh i) rs) (\<lambda>rs.
     andThen (on_tape (resolve_label oh i) rs) (\<lambda>rs.
       if i \<ge> tape_size (oh_tape oh) then Inr rs else resolve_ins oh i rs)))"

text \<open>One turn of the second loop: the new operand of a jump.\<close>

(* src/program/optimization/optimize.c [196-207] _oh_resolve *)
definition retarget :: "nat list \<Rightarrow> int list \<Rightarrow> nat \<Rightarrow> instruction \<Rightarrow> instruction res" where
  "retarget old_index new_index i ins =
     (if \<not> is_goto (ins_op ins) then Inr ins
      else assert_that (arg_type (ins_arg ins) = INSTRUCTION_PRIMITIVE) ''INSTRUCTION_PRIMITIVE == ins->type''
        (andThen (ins_int ins) (\<lambda>diff.
           let old_goto_i = int (old_index ! i) + sint diff in
           if i < length old_index \<and> 0 \<le> old_goto_i \<and> old_goto_i < int (length new_index)
           then Inr (ins\<lparr>ins_arg := PrimArg (primitive_int (word_of_int (new_index ! nat old_goto_i - int i)))\<rparr>)
           else Inl (UB ''index out of range''))))"

definition retarget_all :: "resolve_state \<Rightarrow> tape res" where
  "retarget_all rs = foldRes (\<lambda>i t.
     andThen (retarget (rs_old rs) (rs_new rs) i (t_ins t ! i)) (\<lambda>ins.
       Inr (t\<lparr>t_ins := (t_ins t)[i := ins]\<rparr>)))
     [0..<tape_size (rs_tape rs)] (rs_tape rs)"

(* src/program/optimization/optimize.c _oh_resolve *)
definition oh_resolve :: "(string list \<Rightarrow> string list) \<Rightarrow> optimize_helper \<Rightarrow> tape \<Rightarrow> tape res" where
  "oh_resolve deliver oh new_tape =
     (let t = oh_tape oh;
          rs = \<lparr>rs_tape = new_tape\<lparr>t_module_name := t_module_name t\<rparr>, rs_old = [], rs_new = []\<rparr>
      in andThen (foldRes (resolve_step deliver oh) [0..<Suc (tape_size t)] rs) retarget_all)"

subsection \<open>The sequence of passes\<close>

(* src/program/optimization/optimize.c optimize_init *)
definition optimizers :: "fops \<Rightarrow> bool \<Rightarrow> pass list" where
  "optimizers fo ow =
     [optimizer_SetRes ow, optimizer_SetPush ow, optimizer_JmpRes ow, optimizer_PushRes fo ow,
      optimizer_ResPush2 ow, optimizer_RetRet ow, optimizer_PeekRes ow, optimizer_SetEmpty ow,
      optimizer_PeekPeek ow, optimizer_PushResEmpty ow, optimizer_PeekRes ow, optimizer_PushRes2 ow,
      optimizer_SimpleMath ow, optimizer_GetPush ow, optimizer_Nil ow]"

(* src/program/optimization/optimize.c [220-226] optimize *)
definition run_pass :: "bool \<Rightarrow> (string list \<Rightarrow> string list) \<Rightarrow> pass \<Rightarrow> tape \<Rightarrow> tape res" where
  "run_pass ow deliver f t =
     andThen (oh_init ow t) (\<lambda>oh.
     andThen (f t 0 (tape_size t) oh) (\<lambda>oh.
     oh_resolve deliver oh tape_create))"

(* src/program/optimization/optimize.c optimize *)
definition optimize :: "fops \<Rightarrow> bool \<Rightarrow> (string list \<Rightarrow> string list) \<Rightarrow> tape \<Rightarrow> tape res" where
  "optimize fo ow deliver t = foldRes (run_pass ow deliver) (optimizers fo ow) t"

end
