(* ===== verification/Compile.thy ===== *)
theory Compile imports Codegen Optimize begin

text \<open>
  \<open>compile/compile.c\<close>: from the lines of a source file to its tape. A file that does not parse gives a
  syntax tree with no children, from which \<open>populate_expression\<close> then reads.
\<close>

text \<open>The result is \<open>None\<close> when \<open>n\<close> nested nonterminals do not suffice for the parser. The optimizer's
  arguments \<open>ow\<close> and \<open>deliver\<close> are as in \<open>optimize\<close>.\<close>

(* src/compile/compile.c _read_file *)
definition read_file ::
    "parselib \<Rightarrow> fops \<Rightarrow> bool \<Rightarrow> (string list \<Rightarrow> string list) \<Rightarrow> nat \<Rightarrow> bool \<Rightarrow> (int \<times> string) list \<Rightarrow> tape res option" where
  "read_file lib fo ow deliver n opt src = map_option (\<lambda>r. andThen r (\<lambda>m. case m of
       None \<Rightarrow> Inl (UB ''NULL child of a syntax tree'')
     | Some stree \<Rightarrow> andThen (populate_expression fo stree) (\<lambda>etree.
         andThen (produce_instructions fo etree tape_create) (\<lambda>(k, tape).
         if opt then optimize fo ow deliver tape else Inr tape))))
     (parse_file lib n src)"

end
