(* ===== verification/OptimizeFacts.thy ===== *)
theory OptimizeFacts imports Optimize begin

text \<open>
  What the resolution of adjustments promises: the new tape holds the kept instructions in order, each
  adjusted as requested; every jump continues in the new tape where its old continuation went;
  labels move with the instruction they stand before.
\<close>

subsection \<open>Positions\<close>

definition kept :: "optimize_helper \<Rightarrow> nat \<Rightarrow> bool" where
  "kept oh i \<longleftrightarrow> oh_adj oh (int i) \<noteq> Some ARemove"

text \<open>The new position of old position \<open>j\<close>: the number of instructions kept before it.\<close>

definition new_pos :: "optimize_helper \<Rightarrow> nat \<Rightarrow> nat" where
  "new_pos oh j = length (filter (kept oh) [0..<j])"

lemma new_pos_0 [simp]: "new_pos oh 0 = 0"
  by (simp add: new_pos_def)

lemma new_pos_Suc: "new_pos oh (Suc j) = (if kept oh j then Suc (new_pos oh j) else new_pos oh j)"
  by (simp add: new_pos_def)

lemma new_pos_mono: "i \<le> j \<Longrightarrow> new_pos oh i \<le> new_pos oh j"
  by (induction j) (auto simp: new_pos_Suc le_Suc_eq)

lemma new_pos_le: "new_pos oh j \<le> j"
  by (induction j) (auto simp: new_pos_Suc)

lemma new_pos_less: "i < j \<Longrightarrow> kept oh i \<Longrightarrow> new_pos oh i < new_pos oh j"
  using new_pos_mono [of "Suc i" j oh] by (simp add: new_pos_Suc)

lemma filter_kept_nth:
  "j < n \<Longrightarrow> kept oh j \<Longrightarrow> filter (kept oh) [0..<n] ! new_pos oh j = j"
proof -
  assume j: "j < n" "kept oh j"
  have "[0..<n] = [0..<j] @ j # [Suc j..<n]"
    using j(1) by (metis less_imp_le upt_conv_Cons upt_add_eq_append le0 le_add_diff_inverse)
  then show ?thesis
    using j(2) by (simp add: new_pos_def nth_append)
qed

lemma filter_kept_member:
  assumes "i < new_pos oh n"
  obtains j where "j < n" "kept oh j" "i = new_pos oh j" "filter (kept oh) [0..<n] ! i = j"
proof -
  let ?l = "filter (kept oh) [0..<n]"
  have i: "i < length ?l" using assms by (simp add: new_pos_def)
  then have m: "?l ! i \<in> set ?l" by (rule nth_mem)
  then have j: "?l ! i < n" "kept oh (?l ! i)" by auto
  have "?l ! new_pos oh (?l ! i) = ?l ! i" using j by (intro filter_kept_nth)
  moreover have "new_pos oh (?l ! i) < length ?l"
    using new_pos_less [OF j] by (simp add: new_pos_def)
  ultimately have "i = new_pos oh (?l ! i)"
    using i distinct_filter [of "[0..<n]" "kept oh"] by (simp add: nth_eq_iff_index_eq)
  with j that show thesis by blast
qed

subsection \<open>The first loop\<close>

lemma label_ops_code:
  "tape_start_func_at_index name i a t = Inr t' \<Longrightarrow> t_ins t' = t_ins t \<and> t_source_map t' = t_source_map t"
  "tape_start_class_at_index name i t = Inr t' \<Longrightarrow> t_ins t' = t_ins t \<and> t_source_map t' = t_source_map t"
  "tape_end_class_at_index i t = Inr t' \<Longrightarrow> t_ins t' = t_ins t \<and> t_source_map t' = t_source_map t"
  "tape_field name t = Inr t' \<Longrightarrow> t_ins t' = t_ins t \<and> t_source_map t' = t_source_map t"
  by (auto simp: tape_start_func_at_index_def tape_start_class_at_index_def tape_end_class_at_index_def
      tape_field_def Let_def split: option.splits if_splits)

lemma class_ops_code:
  "tape_class tok t = Inr t' \<Longrightarrow> t_ins t' = t_ins t \<and> t_source_map t' = t_source_map t"
  "tape_class_with_parents tok ps t = Inr t' \<Longrightarrow> t_ins t' = t_ins t \<and> t_source_map t' = t_source_map t"
  "tape_endclass tok t = Inr t' \<Longrightarrow> t_ins t' = t_ins t \<and> t_source_map t' = t_source_map t"
  by (auto simp: tape_class_def tape_class_with_parents_def tape_start_class_def tape_endclass_def
      tape_end_class_def andThen_eq_Inr split: option.splits dest!: label_ops_code)

lemma fields_code:
  "foldRes (\<lambda>f. tape_field (fld_name f)) fs t = Inr t' \<Longrightarrow> t_ins t' = t_ins t \<and> t_source_map t' = t_source_map t"
  by (rule foldRes_invariant [where P = "\<lambda>u. t_ins u = t_ins t \<and> t_source_map u = t_source_map t"])
     (auto dest: label_ops_code(4))

lemma resolve_tables_code:
  "resolve_class_end oh i t = Inr t' \<Longrightarrow> t_ins t' = t_ins t \<and> t_source_map t' = t_source_map t"
  "resolve_class_start dv oh i t = Inr t' \<Longrightarrow> t_ins t' = t_ins t \<and> t_source_map t' = t_source_map t"
  "resolve_label oh i t = Inr t' \<Longrightarrow> t_ins t' = t_ins t \<and> t_source_map t' = t_source_map t"
  by (auto simp: resolve_class_end_def resolve_class_start_def resolve_label_def andThen_eq_Inr
      tape_label_text_def tape_label_text_async_def tape_start_func_def
      split: option.splits if_splits dest!: class_ops_code label_ops_code fields_code)

text \<open>The state after the first \<open>k\<close> turns.\<close>

definition new_ins :: "optimize_helper \<Rightarrow> nat \<Rightarrow> instruction" where
  "new_ins oh j = adjusted (oh_adj oh (int j)) (t_ins (oh_tape oh) ! j)"

definition resolved :: "optimize_helper \<Rightarrow> nat \<Rightarrow> resolve_state \<Rightarrow> bool" where
  "resolved oh k rs \<longleftrightarrow>
     rs_old rs = filter (kept oh) [0..<k] \<and>
     rs_new rs = List.map (\<lambda>j. int (new_pos oh (Suc j)) - 1) [0..<k] \<and>
     t_ins (rs_tape rs) = List.map (new_ins oh) (filter (kept oh) [0..<k]) \<and>
     t_source_map (rs_tape rs) = List.map ((!) (t_source_map (oh_tape oh))) (filter (kept oh) [0..<k])"

lemma on_tape_resolved:
  assumes "resolved oh k rs" and "on_tape f rs = Inr rs'"
    and "\<And>t t'. f t = Inr t' \<Longrightarrow> t_ins t' = t_ins t \<and> t_source_map t' = t_source_map t"
  shows "resolved oh k rs'"
  using assms by (auto simp: on_tape_def andThen_eq_Inr resolved_def)

lemma resolve_ins_resolved:
  assumes "resolved oh k rs" and "oh_inserts oh = (\<lambda>_. None)"
    and "k < tape_size (oh_tape oh)"
  shows "\<exists>rs'. resolve_ins oh k rs = Inr rs' \<and> resolved oh (Suc k) rs' \<and>
    t_func_refs (rs_tape rs') = t_func_refs (rs_tape rs) \<and> t_class_refs (rs_tape rs') = t_class_refs (rs_tape rs) \<and>
    t_current_class (rs_tape rs') = t_current_class (rs_tape rs) \<and> t_module_name (rs_tape rs') = t_module_name (rs_tape rs)"
proof -
  have sz: "tape_size (rs_tape rs) = new_pos oh k"
    using assms(1) by (simp add: resolved_def tape_size_def new_pos_def)
  show ?thesis
  proof (cases "kept oh k")
    case True
    with assms sz show ?thesis
      by (simp add: resolve_ins_def resolve_insert_def kept_def tape_get_def tape_get_source_def Let_def)
         (simp add: resolved_def add_new_def tape_add_def tape_add_source_def new_ins_def kept_def new_pos_Suc
           tape_size_def new_pos_def list_update_append)
  next
    case False
    with assms sz show ?thesis
      by (simp add: resolve_ins_def resolve_insert_def kept_def tape_get_def Let_def)
         (simp add: resolved_def kept_def new_pos_Suc)
  qed
qed

lemma resolve_step_resolved:
  assumes "resolved oh k rs" and "oh_inserts oh = (\<lambda>_. None)"
    and "resolve_step dv oh k rs = Inr rs'"
  shows "resolved oh (if k < tape_size (oh_tape oh) then Suc k else k) rs'"
proof -
  obtain r1 r2 r3 where r: "on_tape (resolve_class_end oh k) rs = Inr r1"
    "on_tape (resolve_class_start dv oh k) r1 = Inr r2" "on_tape (resolve_label oh k) r2 = Inr r3"
    "(if k \<ge> tape_size (oh_tape oh) then Inr r3 else resolve_ins oh k r3) = Inr rs'"
    using assms(3) by (auto simp: resolve_step_def andThen_eq_Inr)
  have "resolved oh k r1" using assms(1) r(1) resolve_tables_code(1) by (rule on_tape_resolved)
  then have "resolved oh k r2" using r(2) resolve_tables_code(2) by (rule on_tape_resolved)
  then have r3: "resolved oh k r3" using r(3) resolve_tables_code(3) by (rule on_tape_resolved)
  show ?thesis
  proof (cases "k < tape_size (oh_tape oh)")
    case True
    with r(4) resolve_ins_resolved [OF r3 assms(2) True] show ?thesis by auto
  next
    case False
    with r(4) r3 show ?thesis by simp
  qed
qed

lemma foldRes_upt:
  assumes "foldRes f [0..<n] s = Inr s'" and "P 0 s" and "\<And>k s s'. k < n \<Longrightarrow> P k s \<Longrightarrow> f k s = Inr s' \<Longrightarrow> P (Suc k) s'"
  shows "P n s'"
  using assms
proof (induction n arbitrary: s')
  case 0
  then show ?case by simp
next
  case (Suc n)
  then show ?case by (auto simp: foldRes_append andThen_eq_Inr)
qed

lemma resolve_loop:
  assumes "oh_inserts oh = (\<lambda>_. None)" and "t_ins t = []" and "t_source_map t = []"
    and "foldRes (resolve_step dv oh) [0..<Suc (tape_size (oh_tape oh))]
      \<lparr>rs_tape = t, rs_old = [], rs_new = []\<rparr> = Inr rs"
  shows "resolved oh (tape_size (oh_tape oh)) rs"
proof -
  obtain r where r: "foldRes (resolve_step dv oh) [0..<tape_size (oh_tape oh)]
      \<lparr>rs_tape = t, rs_old = [], rs_new = []\<rparr> = Inr r" "resolve_step dv oh (tape_size (oh_tape oh)) r = Inr rs"
    using assms(4) by (auto simp: foldRes_append andThen_eq_Inr)
  have "resolved oh (tape_size (oh_tape oh)) r"
    using r(1)
  proof (rule foldRes_upt [where P = "resolved oh"])
    show "resolved oh 0 \<lparr>rs_tape = t, rs_old = [], rs_new = []\<rparr>"
      using assms(2,3) by (simp add: resolved_def)
  next
    fix k s s'
    assume "k < tape_size (oh_tape oh)" "resolved oh k s" "resolve_step dv oh k s = Inr s'"
    then show "resolved oh (Suc k) s'" using resolve_step_resolved [of oh k s dv s'] assms(1) by simp
  qed
  with resolve_step_resolved [OF this assms(1) r(2)] show ?thesis by simp
qed

subsection \<open>The second loop\<close>

text \<open>The instruction at new position \<open>i\<close>, from its old position \<open>j\<close>, after retargeting.\<close>

definition retargeted :: "optimize_helper \<Rightarrow> nat \<Rightarrow> instruction \<Rightarrow> bool" where
  "retargeted oh j ins \<longleftrightarrow>
     (if is_goto (ins_op (new_ins oh j))
      then (\<exists>v v'. ins_arg (new_ins oh j) = PrimArg (PInt v) \<and>
              ins = (new_ins oh j)\<lparr>ins_arg := PrimArg (PInt v')\<rparr> \<and>
              0 \<le> int j + sint v \<and> int j + sint v < int (tape_size (oh_tape oh)) \<and>
              int (new_pos oh j) + sint v' + 1 = int (new_pos oh (nat (int j + sint v + 1))))
      else ins = new_ins oh j)"

lemma sint_word_of_int_small:
  "- (2 ^ 31) \<le> i \<Longrightarrow> i < 2 ^ 31 \<Longrightarrow> sint (word_of_int i :: 32 word) = i"
  by (simp add: sint_sbintrunc' signed_take_bit_int_eq_self)

lemma retarget_retargeted:
  assumes "resolved oh n rs" and "n = tape_size (oh_tape oh)" and "n < 2 ^ 31"
    and "j < n" and "kept oh j"
    and "retarget (rs_old rs) (rs_new rs) (new_pos oh j) (new_ins oh j) = Inr ins"
  shows "retargeted oh j ins"
proof (cases "is_goto (ins_op (new_ins oh j))")
  case False
  with assms(6) show ?thesis by (simp add: retarget_def retargeted_def)
next
  case True
  have old: "rs_old rs = filter (kept oh) [0..<n]" and new: "rs_new rs = List.map (\<lambda>j. int (new_pos oh (Suc j)) - 1) [0..<n]"
    using assms(1) by (auto simp: resolved_def)
  have oj: "rs_old rs ! new_pos oh j = j" using filter_kept_nth [OF assms(4,5)] old by simp
  obtain v where v: "ins_arg (new_ins oh j) = PrimArg (PInt v)"
    using True assms(6) by (auto simp: retarget_def assert_that_def andThen_eq_Inr ins_int_def ins_val_def
        split: if_splits operand.splits)
  define g where "g = int j + sint v"
  have g: "0 \<le> g" "g < int n"
    and ins: "ins = (new_ins oh j)\<lparr>ins_arg := PrimArg (PInt (word_of_int (rs_new rs ! nat g - int (new_pos oh j))))\<rparr>"
    using True assms(6) v oj
    by (auto simp: retarget_def assert_that_def ins_int_def ins_val_def g_def primitive_int_def Let_def new
        split: if_splits)
  have ng: "rs_new rs ! nat g = int (new_pos oh (Suc (nat g))) - 1"
    using g by (simp add: new)
  have b: "new_pos oh (Suc (nat g)) \<le> n" "new_pos oh j \<le> n"
    using g assms(4) new_pos_le [of oh "Suc (nat g)"] new_pos_le [of oh j] by auto
  define v' where "v' = (word_of_int (rs_new rs ! nat g - int (new_pos oh j)) :: i32)"
  have "sint v' = int (new_pos oh (Suc (nat g))) - 1 - int (new_pos oh j)"
    unfolding v'_def ng using b assms(3) by (intro sint_word_of_int_small) auto
  moreover have "nat (int j + sint v + 1) = Suc (nat g)"
    using g by (simp add: g_def)
  ultimately have "ins_arg (new_ins oh j) = PrimArg (PInt v) \<and>
      ins = (new_ins oh j)\<lparr>ins_arg := PrimArg (PInt v')\<rparr> \<and>
      0 \<le> int j + sint v \<and> int j + sint v < int (tape_size (oh_tape oh)) \<and>
      int (new_pos oh j) + sint v' + 1 = int (new_pos oh (nat (int j + sint v + 1)))"
    using v g ins assms(2) by (simp add: g_def v'_def)
  with True show ?thesis unfolding retargeted_def by auto
qed

lemma retarget_all_nth:
  assumes "retarget_all rs = Inr t'"
  shows "tape_size t' = tape_size (rs_tape rs)"
    and "\<And>i. i < tape_size t' \<Longrightarrow> retarget (rs_old rs) (rs_new rs) i (t_ins (rs_tape rs) ! i) = Inr (t_ins t' ! i)"
    and "t_source_map t' = t_source_map (rs_tape rs) \<and> t_func_refs t' = t_func_refs (rs_tape rs) \<and>
      t_class_refs t' = t_class_refs (rs_tape rs) \<and> t_current_class t' = t_current_class (rs_tape rs) \<and>
      t_module_name t' = t_module_name (rs_tape rs)"
proof -
  let ?t = "rs_tape rs" and ?f = "retarget (rs_old rs) (rs_new rs)"
  let ?P = "\<lambda>k t. tape_size t = tape_size ?t \<and>
    (\<forall>i < tape_size ?t. if i < k then ?f i (t_ins ?t ! i) = Inr (t_ins t ! i) else t_ins t ! i = t_ins ?t ! i) \<and>
    t_source_map t = t_source_map ?t \<and> t_func_refs t = t_func_refs ?t \<and>
      t_class_refs t = t_class_refs ?t \<and> t_current_class t = t_current_class ?t \<and> t_module_name t = t_module_name ?t"
  have "?P (tape_size ?t) t'"
    using assms unfolding retarget_all_def
  proof (rule foldRes_upt [where P = ?P])
    show "?P 0 ?t" by simp
  next
    fix k s s'
    assume k: "k < tape_size ?t" and P: "?P k s"
      and st: "andThen (?f k (t_ins s ! k)) (\<lambda>ins. Inr (s\<lparr>t_ins := (t_ins s)[k := ins]\<rparr>)) = Inr s'"
    from st obtain ins where ins: "?f k (t_ins s ! k) = Inr ins" "s' = s\<lparr>t_ins := (t_ins s)[k := ins]\<rparr>"
      by (auto simp: andThen_eq_Inr)
    have "t_ins s ! k = t_ins ?t ! k" using P k by auto
    with P k ins show "?P (Suc k) s'" by (auto simp: nth_list_update tape_size_def less_Suc_eq)
  qed
  then show "tape_size t' = tape_size ?t"
    and "\<And>i. i < tape_size t' \<Longrightarrow> ?f i (t_ins ?t ! i) = Inr (t_ins t' ! i)"
    and "t_source_map t' = t_source_map (rs_tape rs) \<and> t_func_refs t' = t_func_refs (rs_tape rs) \<and>
      t_class_refs t' = t_class_refs (rs_tape rs) \<and> t_current_class t' = t_current_class (rs_tape rs) \<and>
      t_module_name t' = t_module_name (rs_tape rs)"
    by auto
qed

lemma resolve_instructions:
  assumes "oh_inserts oh = (\<lambda>_. None)" and "tape_size (oh_tape oh) < 2 ^ 31"
    and "oh_resolve dv oh tape_create = Inr t'"
  shows "tape_size t' = new_pos oh (tape_size (oh_tape oh)) \<and>
    (\<forall>j < tape_size (oh_tape oh). kept oh j \<longrightarrow> retargeted oh j (t_ins t' ! new_pos oh j))"
proof -
  obtain rs where rs: "foldRes (resolve_step dv oh) [0..<Suc (tape_size (oh_tape oh))]
      \<lparr>rs_tape = tape_create\<lparr>t_module_name := t_module_name (oh_tape oh)\<rparr>, rs_old = [], rs_new = []\<rparr> = Inr rs"
    and all: "retarget_all rs = Inr t'"
    using assms(3) by (auto simp: oh_resolve_def Let_def andThen_eq_Inr)
  have r: "resolved oh (tape_size (oh_tape oh)) rs"
    using resolve_loop [OF assms(1) _ _ rs] by (simp add: tape_create_def)
  note ra = retarget_all_nth [OF all]
  have sz: "tape_size t' = new_pos oh (tape_size (oh_tape oh))"
    using ra(1) r by (simp add: resolved_def tape_size_def new_pos_def)
  have "retargeted oh j (t_ins t' ! new_pos oh j)" if j: "j < tape_size (oh_tape oh)" "kept oh j" for j
  proof -
    have i: "new_pos oh j < tape_size t'" using new_pos_less [OF j] sz by simp
    then have "t_ins (rs_tape rs) ! new_pos oh j = new_ins oh j"
      using r filter_kept_nth [OF j] sz by (simp add: resolved_def new_pos_def)
    with ra(2) [OF i] show ?thesis
      using retarget_retargeted [OF r refl assms(2) j] by simp
  qed
  with sz show ?thesis by simp
qed

subsection \<open>What the passes request\<close>

text \<open>A pass moves no code and never makes an instruction a jump.\<close>

definition tame :: "optimize_helper \<Rightarrow> optimize_helper \<Rightarrow> bool" where
  "tame oh0 oh \<longleftrightarrow>
     (\<exists>adj. oh = oh0\<lparr>oh_adj := adj\<rparr> \<and>
        (\<forall>i a. adj i = Some a \<longrightarrow>
           (case a of ARemove \<Rightarrow> True | ASetOp p \<Rightarrow> \<not> is_goto p | AReplace r \<Rightarrow> \<not> is_goto (ins_op r)
            | ASetVal p v \<Rightarrow> \<not> is_goto p)))"

lemma tame_start: "oh_adj oh = (\<lambda>_. None) \<Longrightarrow> tame oh oh"
  by (auto simp: tame_def intro!: exI [of _ "\<lambda>_. None"])

lemma tame_add:
  assumes "tame oh0 oh"
    and "case a of ARemove \<Rightarrow> True | ASetOp p \<Rightarrow> \<not> is_goto p | AReplace r \<Rightarrow> \<not> is_goto (ins_op r)
            | ASetVal p v \<Rightarrow> \<not> is_goto p"
  shows "tame oh0 (add_adjustment ow a i oh)"
proof -
  obtain adj where adj: "oh = oh0\<lparr>oh_adj := adj\<rparr>"
    "\<And>i a. adj i = Some a \<Longrightarrow> (case a of ARemove \<Rightarrow> True | ASetOp p \<Rightarrow> \<not> is_goto p | AReplace r \<Rightarrow> \<not> is_goto (ins_op r)
            | ASetVal p v \<Rightarrow> \<not> is_goto p)"
    using assms(1) unfolding tame_def by blast
  show ?thesis
    unfolding tame_def
    by (rule exI [of _ "imap_put ow (int i) a adj"])
       (use adj assms(2) in \<open>auto simp: add_adjustment_def imap_put_def split: if_splits\<close>)
qed

lemma not_goto [simp]:
  "\<not> is_goto PUSH" "\<not> is_goto PSRS" "\<not> is_goto PEEK" "\<not> is_goto RES" "\<not> is_goto GTSH"
  "\<not> is_goto RNIL" "\<not> is_goto PNIL" "\<not> is_goto INC" "\<not> is_goto DEC"
  by (simp_all add: is_goto_def)

lemma math_not_goto: "is_math_op p \<Longrightarrow> \<not> is_goto p"
  by (auto simp: is_math_op_def is_goto_def)

lemma tame_ops:
  assumes "tame oh0 oh"
  shows "tame oh0 (o_Remove ow i oh)" "\<not> is_goto p \<Longrightarrow> tame oh0 (o_SetOp ow i p oh)"
    "\<not> is_goto p \<Longrightarrow> tame oh0 (o_Replace ow i (for_op p) oh)"
  by (auto simp: o_Remove_def o_SetOp_def o_Replace_def for_op_def intro!: tame_add assms)

lemma tame_for_pairs:
  assumes "for_pairs f t a b oh = Inr oh'" and "tame oh0 oh"
    and "\<And>i x y oh. tame oh0 oh \<Longrightarrow> tame oh0 (f i x y oh)"
  shows "tame oh0 oh'"
  using assms(1,2) unfolding for_pairs_def
  by (rule foldRes_invariant) (auto simp: andThen_eq_Inr intro: assms(3))

lemma optimizers_tame:
  assumes "f \<in> set (optimizers fo ow)" and "f t a b oh = Inr oh'" and "tame oh0 oh"
  shows "tame oh0 oh'"
proof -
  have pairs: "tame oh0 oh'" if "f = for_pairs g" "\<And>i x y oh. tame oh0 oh \<Longrightarrow> tame oh0 (g i x y oh)" for g
    using tame_for_pairs [of g t a b oh oh' oh0] assms(2,3) that by simp
  have loops: "tame oh0 oh'" if "f t a b oh = foldRes g xs oh" "\<And>i oh oh'. tame oh0 oh \<Longrightarrow> g i oh = Inr oh' \<Longrightarrow> tame oh0 oh'"
    for g :: "nat \<Rightarrow> _" and xs
    using foldRes_invariant [of g xs oh oh' "tame oh0"] assms(2,3) that by simp
  note defs = optimizer_SetRes_def optimizer_SetPush_def optimizer_PushRes_def optimizer_ResPush2_def
    optimizer_RetRet_def optimizer_PeekRes_def optimizer_SetEmpty_def optimizer_PeekPeek_def
    optimizer_PushResEmpty_def optimizer_PushRes2_def optimizer_GetPush_def
  have jmp: "f = optimizer_JmpRes ow \<Longrightarrow> ?thesis"
    by (rule loops [of "jmp_res_step ow t" "[a + 1..<b]"])
       (auto simp: optimizer_JmpRes_def jmp_res_step_def andThen_eq_Inr tame_ops split: if_splits)
  have math: "f = optimizer_SimpleMath ow \<Longrightarrow> ?thesis"
    by (rule loops [of "simple_math_step ow t" "[a + 2..<b]"])
       (auto simp: optimizer_SimpleMath_def simple_math_step_def andThen_eq_Inr tame_ops math_not_goto split: if_splits)
  have nil: "f = optimizer_Nil ow \<Longrightarrow> ?thesis"
    by (rule loops [of "\<lambda>i oh. andThen (tape_get t i) (\<lambda>insc.
       Inr (if (ins_op insc = RES \<or> ins_op insc = PUSH) \<and> ins_arg insc = IdArg NIL_KEYWORD
            then o_Replace ow i (for_op (if ins_op insc = RES then RNIL else PNIL)) oh else oh))" "[a..<b]"])
       (auto simp: optimizer_Nil_def andThen_eq_Inr tame_ops split: if_splits)
  have rest: ?thesis if "f = p" "p = for_pairs g" "\<And>i x y oh. tame oh0 oh \<Longrightarrow> tame oh0 (g i x y oh)" for p g
    using pairs that by blast
  show ?thesis
    using assms(1) unfolding optimizers_def set_simps insert_iff empty_iff
    by (elim disjE)
       (erule jmp math nil FalseE | (erule rest, rule defs, auto simp: tame_ops)[1])+
qed

text \<open>The helper a pass starts from.\<close>

definition start_helper :: "bool \<Rightarrow> tape \<Rightarrow> nat imap \<Rightarrow> optimize_helper" where
  "start_helper ow t gotos =
     \<lparr>oh_tape = t, oh_adj = (\<lambda>_. None), oh_gotos = gotos, oh_inserts = (\<lambda>_. None),
      oh_refs = populate_refs ow t, oh_class_starts = populate_class_starts ow t,
      oh_class_ends = populate_class_ends ow t\<rparr>"

lemma run_pass_cases:
  assumes "f \<in> set (optimizers fo ow)" and "run_pass ow dv f t = Inr t'"
  obtains gotos adj where "populate_gotos ow t = Inr gotos"
    and "f t 0 (tape_size t) (start_helper ow t gotos) = Inr ((start_helper ow t gotos)\<lparr>oh_adj := adj\<rparr>)"
    and "oh_resolve dv ((start_helper ow t gotos)\<lparr>oh_adj := adj\<rparr>) tape_create = Inr t'"
proof -
  from assms(2) obtain gotos oh where g: "populate_gotos ow t = Inr gotos"
    and oh: "f t 0 (tape_size t) (start_helper ow t gotos) = Inr oh" "oh_resolve dv oh tape_create = Inr t'"
    by (auto simp: run_pass_def oh_init_def start_helper_def andThen_eq_Inr)
  have "tame (start_helper ow t gotos) oh"
    by (rule optimizers_tame [OF assms(1) oh(1)]) (simp add: tame_start start_helper_def)
  then obtain adj where "oh = (start_helper ow t gotos)\<lparr>oh_adj := adj\<rparr>"
    unfolding tame_def by blast
  with g oh that show thesis by blast
qed


definition demo_loop :: tape where
  "demo_loop = tape_create\<lparr>
     t_ins := [for_op NOP, for_op RES, for_op PUSH, \<lparr>ins_op = JMP, ins_arg = PrimArg (PInt (- 3))\<rparr>],
     t_source_map := replicate 4 no_source,
     t_func_refs := [(''f'', \<lparr>fref_name = ''f'', fref_index = 3, fref_const = False, fref_async = True\<rparr>)]\<rparr>"


subsection \<open>Labels and termination of the resolution\<close>

text \<open>A tape of functions only, at different positions, whose jumps stay inside it.\<close>

definition plain_tape :: "tape \<Rightarrow> bool" where
  "plain_tape t \<longleftrightarrow>
     wf_tape t \<and> t_class_refs t = [] \<and> t_current_class t = None \<and> tape_size t < 2 ^ 31 \<and>
     distinct (List.map fref_index (tape_functions t)) \<and>
     list_all (\<lambda>f. fref_index f \<le> tape_size t) (tape_functions t) \<and>
     list_all (\<lambda>i. is_goto (ins_op (t_ins t ! i)) \<longrightarrow>
       (case ins_arg (t_ins t ! i) of
          PrimArg (PInt v) \<Rightarrow> 0 \<le> int i + sint v \<and> int i + sint v < int (tape_size t)
        | _ \<Rightarrow> False)) [0..<tape_size t]"

lemma populate_fold_other:
  "\<forall>f \<in> set fs. int (fref_index f) \<noteq> i \<Longrightarrow> fold (\<lambda>f. imap_put ow (int (fref_index f)) f) fs m i = m i"
  by (induction fs arbitrary: m) (auto simp: imap_put_def)

lemma populate_fold:
  assumes "distinct (List.map fref_index fs)" and "\<forall>f \<in> set fs. m (int (fref_index f)) = None"
  shows "f \<in> set fs \<Longrightarrow> fold (\<lambda>f. imap_put ow (int (fref_index f)) f) fs m (int (fref_index f)) = Some f"
  using assms
proof (induction fs arbitrary: m)
  case Nil
  then show ?case by simp
next
  case (Cons g fs)
  have "fref_index g \<notin> fref_index ` set fs" using Cons.prems(2) by simp
  then have neq: "\<forall>h \<in> set fs. fref_index h \<noteq> fref_index g" by (metis imageI)
  show ?case
  proof (cases "f = g")
    case True
    have "fold (\<lambda>f. imap_put ow (int (fref_index f)) f) fs (imap_put ow (int (fref_index g)) g m)
        (int (fref_index g)) = imap_put ow (int (fref_index g)) g m (int (fref_index g))"
      by (rule populate_fold_other) (use neq in simp)
    moreover have "imap_put ow (int (fref_index g)) g m (int (fref_index g)) = Some g"
      using Cons.prems(3) by (simp add: imap_put_def)
    ultimately show ?thesis using True by simp
  next
    case False
    with Cons.prems have "f \<in> set fs" by simp
    moreover have "\<forall>h \<in> set fs. imap_put ow (int (fref_index g)) g m (int (fref_index h)) = None"
      using Cons.prems(3) neq by (auto simp: imap_put_def)
    ultimately show ?thesis using Cons.IH Cons.prems(2) by simp
  qed
qed

lemma populate_refs_plain:
  assumes "plain_tape t"
  shows "populate_refs ow t (int i) = Some f \<longleftrightarrow> f \<in> set (tape_functions t) \<and> fref_index f = i"
proof -
  have r: "populate_refs ow t = fold (\<lambda>f. imap_put ow (int (fref_index f)) f) (tape_functions t) (\<lambda>_. None)"
    using assms by (simp add: populate_refs_def plain_tape_def tape_classes_def)
  have d: "distinct (List.map fref_index (tape_functions t))" using assms by (simp add: plain_tape_def)
  show ?thesis
  proof
    assume s: "populate_refs ow t (int i) = Some f"
    then obtain g where g: "g \<in> set (tape_functions t)" "fref_index g = i"
      using populate_fold_other [of "tape_functions t" "int i" ow "\<lambda>_. None"] unfolding r by force
    with populate_fold [OF d, of "\<lambda>_. None" g ow] s show "f \<in> set (tape_functions t) \<and> fref_index f = i"
      unfolding r by auto
  next
    assume "f \<in> set (tape_functions t) \<and> fref_index f = i"
    with populate_fold [OF d, of "\<lambda>_. None" f ow] show "populate_refs ow t (int i) = Some f"
      unfolding r by auto
  qed
qed

text \<open>The function table after the labels before position \<open>k\<close> have been placed.\<close>

definition moved :: "optimize_helper \<Rightarrow> function_ref \<Rightarrow> function_ref" where
  "moved oh f = f\<lparr>fref_index := new_pos oh (fref_index f), fref_const := False\<rparr>"

definition placed :: "optimize_helper \<Rightarrow> nat \<Rightarrow> tape \<Rightarrow> bool" where
  "placed oh k u \<longleftrightarrow>
     t_class_refs u = [] \<and> t_current_class u = None \<and>
     (\<forall>name. kl_lookup (t_func_refs u) name =
        (case kl_lookup (t_func_refs (oh_tape oh)) name of
           Some f \<Rightarrow> (if fref_index f < k then Some (moved oh f) else None)
         | None \<Rightarrow> None))"

definition plain_helper :: "optimize_helper \<Rightarrow> bool" where
  "plain_helper oh \<longleftrightarrow> plain_tape (oh_tape oh) \<and> oh_inserts oh = (\<lambda>_. None) \<and>
     oh_class_starts oh = (\<lambda>_. None) \<and> oh_class_ends oh = (\<lambda>_. None) \<and>
     (\<exists>ow. oh_refs oh = populate_refs ow (oh_tape oh))"

lemma plain_function:
  assumes "plain_tape t"
  shows "f \<in> set (tape_functions t) \<longleftrightarrow> kl_lookup (t_func_refs t) (fref_name f) = Some f"
    and "kl_lookup (t_func_refs t) name = Some f \<Longrightarrow> fref_name f = name"
proof -
  have n: "named fref_name (t_func_refs t)" using assms by (simp add: plain_tape_def wf_tape_def)
  then show "kl_lookup (t_func_refs t) name = Some f \<Longrightarrow> fref_name f = name" by (rule named_lookup)
  have "f \<in> set (tape_functions t) \<longleftrightarrow> (\<exists>k. (k, f) \<in> set (t_func_refs t))"
    by (force simp: tape_functions_def kl_values_def)
  also have "\<dots> \<longleftrightarrow> (fref_name f, f) \<in> set (t_func_refs t)" using n by (auto simp: named_def)
  finally show "f \<in> set (tape_functions t) \<longleftrightarrow> kl_lookup (t_func_refs t) (fref_name f) = Some f"
    using n by (simp add: named_def kl_lookup_eq_Some_iff)
qed

lemma resolve_label_placed:
  assumes "plain_helper oh" and "resolved oh k rs" and "placed oh k (rs_tape rs)"
  shows "\<exists>u. resolve_label oh k (rs_tape rs) = Inr u \<and> placed oh (Suc k) u"
proof -
  let ?t = "oh_tape oh" and ?u = "rs_tape rs"
  have p: "plain_tape ?t" using assms(1) by (simp add: plain_helper_def)
  obtain ow where ow: "oh_refs oh = populate_refs ow ?t" using assms(1) by (auto simp: plain_helper_def)
  have sz: "tape_size ?u = new_pos oh k"
    using assms(2) by (simp add: resolved_def tape_size_def new_pos_def)
  note refs = populate_refs_plain [OF p, of ow k]
  show ?thesis
  proof (cases "oh_refs oh (int k)")
    case None
    have "fref_index f \<noteq> k" if "kl_lookup (t_func_refs ?t) name = Some f" for name f
      using that None refs [of f] plain_function [OF p] ow by fastforce
    then have "placed oh (Suc k) ?u"
      using assms(3) by (fastforce simp: placed_def less_Suc_eq split: option.splits)
    with None show ?thesis by (simp add: resolve_label_def)
  next
    case (Some f)
    then have f: "kl_lookup (t_func_refs ?t) (fref_name f) = Some f" "fref_index f = k"
      using refs [of f] ow plain_function(1) [OF p, of f] by auto
    have uniq: "g = f" if "kl_lookup (t_func_refs ?t) name = Some g" "fref_index g = k" for g name
      using that refs [of g] Some ow plain_function [OF p] by force
    let ?v = "?u\<lparr>t_func_refs := kl_put (fref_name f) (moved oh f) (t_func_refs ?u)\<rparr>"
    have fresh: "kl_lookup (t_func_refs ?u) (fref_name f) = None" "t_current_class ?u = None"
      using assms(3) f by (simp_all add: placed_def)
    have "moved oh f = \<lparr>fref_name = fref_name f, fref_index = new_pos oh k, fref_const = False, fref_async = fref_async f\<rparr>"
      using f(2) by (simp add: moved_def)
    with fresh have "resolve_label oh k ?u = Inr ?v"
      using Some by (cases "fref_async f")
        (simp_all add: resolve_label_def tape_label_text_def tape_label_text_async_def tape_start_func_def
          tape_start_func_at_index_def sz)
    moreover have "placed oh (Suc k) ?v"
      unfolding placed_def
    proof (intro conjI allI)
      show "t_class_refs ?v = []" "t_current_class ?v = None" using assms(3) by (simp_all add: placed_def)
      fix name
      have old: "kl_lookup (t_func_refs ?u) name = (case kl_lookup (t_func_refs ?t) name of
           Some f \<Rightarrow> (if fref_index f < k then Some (moved oh f) else None) | None \<Rightarrow> None)"
        using assms(3) by (simp add: placed_def)
      show "kl_lookup (t_func_refs ?v) name = (case kl_lookup (t_func_refs ?t) name of
           Some f \<Rightarrow> (if fref_index f < Suc k then Some (moved oh f) else None) | None \<Rightarrow> None)"
      proof (cases "kl_lookup (t_func_refs ?t) name")
        case None
        with f old show ?thesis by auto
      next
        case (Some g)
        have "fref_name g = name" using plain_function(2) [OF p Some] .
        show ?thesis
        proof (cases "fref_index g = k")
          case True
          with uniq [OF Some] \<open>fref_name g = name\<close> Some show ?thesis by simp
        next
          case False
          with f have "g \<noteq> f" by auto
          with f(1) Some \<open>fref_name g = name\<close> have "name \<noteq> fref_name f" by auto
          with old Some False show ?thesis by (simp add: less_Suc_eq)
        qed
      qed
    qed
    ultimately show ?thesis by blast
  qed
qed

lemma resolve_step_placed:
  assumes "plain_helper oh" and "resolved oh k rs" and "placed oh k (rs_tape rs)"
  shows "\<exists>rs'. resolve_step dv oh k rs = Inr rs' \<and> placed oh (Suc k) (rs_tape rs') \<and>
    resolved oh (if k < tape_size (oh_tape oh) then Suc k else k) rs'"
proof -
  have h: "oh_inserts oh = (\<lambda>_. None)" "oh_class_starts oh = (\<lambda>_. None)" "oh_class_ends oh = (\<lambda>_. None)"
    using assms(1) by (simp_all add: plain_helper_def)
  obtain u where u: "resolve_label oh k (rs_tape rs) = Inr u" "placed oh (Suc k) u"
    using resolve_label_placed [OF assms] by blast
  let ?r = "rs\<lparr>rs_tape := u\<rparr>"
  have l: "on_tape (resolve_label oh k) rs = Inr ?r" using u by (simp add: on_tape_def)
  have idle: "on_tape (resolve_class_end oh k) rs = Inr rs" "on_tape (resolve_class_start dv oh k) rs = Inr rs"
    by (simp_all add: on_tape_def resolve_class_end_def resolve_class_start_def h)
  have "resolved oh k ?r" using assms(2) l resolve_tables_code(3) by (rule on_tape_resolved)
  show ?thesis
  proof (cases "k < tape_size (oh_tape oh)")
    case True
    obtain rs' where r: "resolve_ins oh k ?r = Inr rs'" "resolved oh (Suc k) rs'"
      "t_func_refs (rs_tape rs') = t_func_refs u" "t_class_refs (rs_tape rs') = t_class_refs u"
      "t_current_class (rs_tape rs') = t_current_class u"
      using resolve_ins_resolved [OF \<open>resolved oh k ?r\<close> h(1) True] by auto
    moreover have "placed oh (Suc k) (rs_tape rs')" using u(2) r(3-5) by (simp add: placed_def)
    ultimately show ?thesis using True by (simp add: resolve_step_def idle l)
  next
    case False
    with u(2) \<open>resolved oh k ?r\<close> show ?thesis by (simp add: resolve_step_def idle l)
  qed
qed

lemma foldRes_upt_returns:
  assumes "P 0 s" and "\<And>k s. k < n \<Longrightarrow> P k s \<Longrightarrow> \<exists>s'. f k s = Inr s' \<and> P (Suc k) s'"
  shows "\<exists>s'. foldRes f [0..<n] s = Inr s' \<and> P n s'"
  using assms
proof (induction n)
  case 0
  then show ?case by simp
next
  case (Suc n)
  then obtain s' where "foldRes f [0..<n] s = Inr s'" "P n s'" by fastforce
  moreover obtain s'' where "f n s' = Inr s''" "P (Suc n) s''" using Suc.prems(2) \<open>P n s'\<close> by blast
  ultimately show ?case by (simp add: foldRes_append)
qed

text \<open>Every jump among the kept instructions still has an operand inside the old tape.\<close>

definition jumps_ok :: "optimize_helper \<Rightarrow> bool" where
  "jumps_ok oh \<longleftrightarrow> (\<forall>j < tape_size (oh_tape oh). is_goto (ins_op (new_ins oh j)) \<longrightarrow>
     (\<exists>v. ins_arg (new_ins oh j) = PrimArg (PInt v) \<and> 0 \<le> int j + sint v \<and>
        int j + sint v < int (tape_size (oh_tape oh))))"

lemma retarget_all_returns:
  assumes "resolved oh (tape_size (oh_tape oh)) rs" and "jumps_ok oh"
  shows "\<exists>t'. retarget_all rs = Inr t'"
proof -
  let ?n = "tape_size (oh_tape oh)" and ?t = "rs_tape rs"
  have old: "rs_old rs = filter (kept oh) [0..<?n]" and len: "length (rs_new rs) = ?n"
    and code: "t_ins ?t = List.map (new_ins oh) (filter (kept oh) [0..<?n])"
    using assms(1) by (simp_all add: resolved_def)
  have "\<exists>t'. foldRes (\<lambda>i t. andThen (retarget (rs_old rs) (rs_new rs) i (t_ins t ! i)) (\<lambda>ins.
       Inr (t\<lparr>t_ins := (t_ins t)[i := ins]\<rparr>))) [0..<tape_size ?t] ?t = Inr t' \<and>
       (\<forall>i < tape_size ?t. \<not> i < tape_size ?t \<longrightarrow> t_ins t' ! i = t_ins ?t ! i)"
  proof (rule foldRes_upt_returns [where P = "\<lambda>k t. \<forall>i < tape_size ?t. \<not> i < k \<longrightarrow> t_ins t ! i = t_ins ?t ! i"])
    fix k t
    assume k: "k < tape_size ?t" and P: "\<forall>i < tape_size ?t. \<not> i < k \<longrightarrow> t_ins t ! i = t_ins ?t ! i"
    then have t: "t_ins t ! k = t_ins ?t ! k" by simp
    have "k < new_pos oh ?n" using k code by (simp add: tape_size_def new_pos_def)
    then obtain j where j: "j < ?n" "kept oh j" "k = new_pos oh j" "filter (kept oh) [0..<?n] ! k = j"
      by (rule filter_kept_member)
    then have "t_ins ?t ! k = new_ins oh j" using k code by (simp add: tape_size_def)
    then have "\<exists>ins. retarget (rs_old rs) (rs_new rs) k (t_ins ?t ! k) = Inr ins"
      using assms(2) j k code old len
      by (cases "is_goto (ins_op (new_ins oh j))")
         (auto simp: retarget_def jumps_ok_def ins_int_def ins_val_def Let_def tape_size_def)
    then show "\<exists>s'. andThen (retarget (rs_old rs) (rs_new rs) k (t_ins t ! k)) (\<lambda>ins.
       Inr (t\<lparr>t_ins := (t_ins t)[k := ins]\<rparr>)) = Inr s' \<and>
       (\<forall>i < tape_size ?t. \<not> i < Suc k \<longrightarrow> t_ins s' ! i = t_ins ?t ! i)"
      using P t by auto
  qed simp
  then show ?thesis by (auto simp: retarget_all_def)
qed

lemma resolve_returns:
  assumes "plain_helper oh" and "jumps_ok oh"
  shows "\<exists>t'. oh_resolve dv oh tape_create = Inr t' \<and>
    placed oh (Suc (tape_size (oh_tape oh))) t'"
proof -
  let ?n = "tape_size (oh_tape oh)"
  let ?s = "\<lparr>rs_tape = tape_create\<lparr>t_module_name := t_module_name (oh_tape oh)\<rparr>, rs_old = [], rs_new = []\<rparr>"
  have "\<exists>rs. foldRes (resolve_step dv oh) [0..<Suc ?n] ?s = Inr rs \<and>
      placed oh (Suc ?n) (rs_tape rs) \<and> resolved oh (min (Suc ?n) ?n) rs"
  proof (rule foldRes_upt_returns [where P = "\<lambda>k rs. placed oh k (rs_tape rs) \<and> resolved oh (min k ?n) rs"])
    show "placed oh 0 (rs_tape ?s) \<and> resolved oh (min 0 ?n) ?s"
      by (simp add: placed_def resolved_def tape_create_def split: option.splits)
  next
    fix k rs
    assume "k < Suc ?n" "placed oh k (rs_tape rs) \<and> resolved oh (min k ?n) rs"
    then show "\<exists>rs'. resolve_step dv oh k rs = Inr rs' \<and> placed oh (Suc k) (rs_tape rs') \<and>
        resolved oh (min (Suc k) ?n) rs'"
      using resolve_step_placed [OF assms(1), of k rs dv] by (cases "k < ?n") (auto simp: min_def less_Suc_eq)
  qed
  then obtain rs where rs: "foldRes (resolve_step dv oh) [0..<Suc ?n] ?s = Inr rs"
    "placed oh (Suc ?n) (rs_tape rs)" "resolved oh ?n rs" by auto
  then obtain t' where t': "retarget_all rs = Inr t'" using retarget_all_returns assms(2) by blast
  have "placed oh (Suc ?n) t'"
    using rs(2) retarget_all_nth(3) [OF t'] by (simp add: placed_def)
  with rs(1) t' show ?thesis by (auto simp: oh_resolve_def Let_def)
qed

text \<open>What a pass can turn a jump into.\<close>

lemma plain_jump:
  assumes "plain_tape t" and "i < tape_size t" and "is_goto (ins_op (t_ins t ! i))"
  shows "\<exists>v. ins_arg (t_ins t ! i) = PrimArg (PInt v) \<and> 0 \<le> int i + sint v \<and> int i + sint v < int (tape_size t)"
proof -
  have "case ins_arg (t_ins t ! i) of
      PrimArg (PInt v) \<Rightarrow> 0 \<le> int i + sint v \<and> int i + sint v < int (tape_size t) | _ \<Rightarrow> False"
    using assms by (simp add: plain_tape_def list_all_iff)
  then show ?thesis by (simp split: operand.splits primitive.splits)
qed

lemma tame_jumps:
  assumes "plain_tape t" and "tame oh0 oh" and "oh_tape oh0 = t"
  shows "jumps_ok oh"
  unfolding jumps_ok_def
proof (intro allI impI)
  fix j
  obtain adj where adj: "oh = oh0\<lparr>oh_adj := adj\<rparr>"
    "\<And>i a. adj i = Some a \<Longrightarrow> (case a of ARemove \<Rightarrow> True | ASetOp p \<Rightarrow> \<not> is_goto p | AReplace r \<Rightarrow> \<not> is_goto (ins_op r)
            | ASetVal p v \<Rightarrow> \<not> is_goto p)"
    using assms(2) unfolding tame_def by blast
  assume j: "j < tape_size (oh_tape oh)" and g: "is_goto (ins_op (new_ins oh j))"
  have t: "oh_tape oh = t" using adj(1) assms(3) by simp
  have "new_ins oh j = t_ins t ! j"
    using g adj(2) [of "int j"] t adj(1)
    by (auto simp: new_ins_def adjusted_def split: option.splits adjustment.splits)
  then show "\<exists>v. ins_arg (new_ins oh j) = PrimArg (PInt v) \<and> 0 \<le> int j + sint v \<and>
        int j + sint v < int (tape_size (oh_tape oh))"
    using plain_jump [OF assms(1)] j g t by simp
qed

lemma plain_start: "plain_tape t \<Longrightarrow> plain_helper ((start_helper ow t gotos)\<lparr>oh_adj := adj\<rparr>)"
  by (auto simp: plain_helper_def start_helper_def populate_class_starts_def populate_class_ends_def
      plain_tape_def tape_classes_def)

lemma populate_gotos_returns:
  assumes "plain_tape t"
  shows "\<exists>gotos. populate_gotos ow t = Inr gotos"
proof -
  have "\<exists>s'. foldRes (\<lambda>i gotos. if \<not> is_goto (ins_op (t_ins t ! i)) then Inr gotos
     else andThen (ins_int (t_ins t ! i)) (\<lambda>v. Inr (imap_put ow (int i + sint v) i gotos)))
     [0..<tape_size t] (\<lambda>_. None) = Inr s' \<and> True"
    by (rule foldRes_upt_returns [where P = "\<lambda>_ _. True"])
       (use plain_jump [OF assms] in \<open>fastforce simp: ins_int_def ins_val_def\<close>)+
  then show ?thesis by (simp add: populate_gotos_def)
qed

lemma tape_get_Inr: "i < tape_size t \<Longrightarrow> tape_get t i = Inr (t_ins t ! i)"
  by (simp add: tape_get_def)

lemma foldRes_returns:
  assumes "\<And>x s. x \<in> set xs \<Longrightarrow> \<exists>s'. f x s = Inr s'"
  shows "\<exists>s'. foldRes f xs s = Inr s'"
  using assms
proof (induction xs arbitrary: s)
  case Nil
  then show ?case by simp
next
  case (Cons x xs)
  obtain s1 where "f x s = Inr s1" using Cons.prems [of x s] by auto
  with Cons show ?case by simp
qed

lemma for_pairs_returns: "\<exists>oh'. for_pairs f t 0 (tape_size t) oh = Inr oh'"
  unfolding for_pairs_def by (rule foldRes_returns) (auto simp: tape_get_Inr)

lemma simple_math_step_returns: "x < tape_size t \<Longrightarrow> \<exists>oh'. simple_math_step ow t x oh = Inr oh'"
proof -
  assume x: "x < tape_size t"
  then have "x - 2 < tape_size t" "x - 1 < tape_size t" by simp_all
  with x show ?thesis unfolding simple_math_step_def by (simp only: tape_get_Inr andThen_Inr) blast
qed

lemma optimizers_return:
  assumes "f \<in> set (optimizers fo ow)" and "f \<noteq> optimizer_JmpRes ow"
  shows "\<exists>oh'. f t 0 (tape_size t) oh = Inr oh'"
proof -
  note defs = optimizer_SetRes_def optimizer_SetPush_def optimizer_PushRes_def optimizer_ResPush2_def
    optimizer_RetRet_def optimizer_PeekRes_def optimizer_SetEmpty_def optimizer_PeekPeek_def
    optimizer_PushResEmpty_def optimizer_PushRes2_def optimizer_GetPush_def
  have pairs: ?thesis if "f = p" "p = for_pairs g" for p g
    using for_pairs_returns that by simp
  have math: "f = optimizer_SimpleMath ow \<Longrightarrow> ?thesis"
    by (simp add: optimizer_SimpleMath_def, rule foldRes_returns) (simp add: simple_math_step_returns)
  have nil: "f = optimizer_Nil ow \<Longrightarrow> ?thesis"
    by (simp add: optimizer_Nil_def, rule foldRes_returns) (simp add: tape_get_Inr)
  have jmp: "f = optimizer_JmpRes ow \<Longrightarrow> ?thesis" using assms(2) by simp
  show ?thesis
    using assms(1) unfolding optimizers_def set_simps insert_iff empty_iff
    by (elim disjE) (erule jmp math nil FalseE | (erule pairs, rule defs))+
qed


lemma plain_demo_loop: "plain_tape demo_loop"
proof -
  have sz: "tape_size demo_loop = 4" by (simp add: demo_loop_def tape_size_def)
  have "list_all (\<lambda>i. is_goto (ins_op (t_ins demo_loop ! i)) \<longrightarrow>
       (case ins_arg (t_ins demo_loop ! i) of
          PrimArg (PInt v) \<Rightarrow> 0 \<le> int i + sint v \<and> int i + sint v < int 4
        | _ \<Rightarrow> False)) [0..<4]"
    by code_simp
  moreover have "wf_tape demo_loop"
    by (simp add: wf_tape_def demo_loop_def named_def tape_create_def numeral_eq_Suc)
  ultimately show ?thesis
    unfolding plain_tape_def sz
    by (intro conjI) (assumption | simp add: demo_loop_def tape_create_def tape_functions_def)+
qed


text \<open>A loop at the very start of a tape stops the optimiser: \<open>optimizer_JmpRes\<close>
  (program/optimization/optimizers.c) looks at the instruction before the place the jump goes back to,
  and when that place is the first position it asks \<open>tape_get\<close> for position -1, whose assertion fails.
  The tape is the code of a loop over an assignment as a program's first statement.\<close>

theorem jmp_res_first_loop:
  "optimizer_JmpRes ow
     (tape_create\<lparr>t_ins := [for_op NBLK, \<lparr>ins_op = RES, ins_arg = IdArg c\<rparr>,
        \<lparr>ins_op = IFN, ins_arg = PrimArg (PInt 3)\<rparr>, \<lparr>ins_op = RES, ins_arg = IdArg y\<rparr>,
        \<lparr>ins_op = SET, ins_arg = IdArg x\<rparr>, \<lparr>ins_op = JMP, ins_arg = PrimArg (PInt (- 5))\<rparr>]\<rparr>) 0 6 oh =
   Inl (Fatal ''index < tape_size(tape)'')"
  by (simp add: optimizer_JmpRes_def jmp_res_step_def upt_rec tape_get_def tape_size_def assert_that_def
      tape_create_def for_op_def ins_int_def ins_val_def tape_get_int_def)

end
