(* ===== verification/Entity.thy ===== *)
theory Entity imports OptimizeFacts begin

text \<open>
  The data of the virtual machine: values (\<open>entity/entity.[ch]\<close>), objects, classes, modules and
  functions (\<open>entity/object.h\<close>), and contexts, tasks and the process
  (\<open>vm/process/processes.h\<close>).

  Objects, classes, functions, modules, contexts and tasks are handed out by arenas and known by
  pointers; here each kind has a store, a list that only grows, and a pointer is a position in it.
  \<open>NULL\<close> is \<open>None\<close>. Memory is never reused: what the garbage collector of the external memory graph
  does is outside the model, but each call that tells it about an edge is logged in \<open>s_edges\<close>.
\<close>

type_synonym obj_id = nat
type_synonym cls_id = nat
type_synonym fun_id = nat
type_synonym mod_id = nat
type_synonym ctx_id = nat
type_synonym task_id = nat

subsection \<open>Values\<close>

(* src/entity/entity.h [14-24] Entity *)
datatype entity = ENone | EPrim primitive | EObj obj_id

(* src/entity/entity.h [17-17] EntityType *)
datatype entity_type = ET_NONE | ET_PRIMITIVE | ET_OBJECT

(* src/entity/entity.c etype *)
fun etype :: "entity \<Rightarrow> entity_type" where
  "etype ENone = ET_NONE"
| "etype (EPrim p) = ET_PRIMITIVE"
| "etype (EObj obj) = ET_OBJECT"

(* src/entity/entity.c entity_char *)
definition entity_char :: "i8 \<Rightarrow> entity" where
  "entity_char c = EPrim (PChar c)"

(* src/entity/entity.c entity_int *)
definition entity_int :: "i32 \<Rightarrow> entity" where
  "entity_int i = EPrim (PInt i)"

(* src/entity/entity.c entity_float *)
definition entity_float :: "f64 \<Rightarrow> entity" where
  "entity_float d = EPrim (PFloat d)"

(* src/entity/entity.c entity_primitive *)
definition entity_primitive :: "primitive \<Rightarrow> entity" where
  "entity_primitive p = EPrim p"

(* src/entity/entity.c entity_object *)
definition entity_object :: "obj_id \<Rightarrow> entity" where
  "entity_object obj = EObj obj"

lemmas entity_makers [simp] =
  entity_char_def entity_int_def entity_float_def entity_primitive_def entity_object_def

subsection \<open>Objects, classes, modules, functions\<close>

text \<open>
  What the union at the end of \<open>struct _Object\<close> holds: the reflected module, class or function, or
  the internal object of the classes the machine knows itself. \<open>IRaw\<close> is the content of memory that
  nothing has been stored to, \<open>IOther\<close> the internal object of a native class.
\<close>

(* src/entity/object.h [39-44] _Object *)
datatype internal =
    IRaw | INull
  | IModule mod_id | IClass cls_id | IFunction fun_id
  | IString string
  | IArray "entity list"
  | ITuple "entity list"
  | IFuncRef obj_id fun_id "ctx_id option"
  | IFuture "task_id option" bool bool
  | IStackLine mod_id "fun_id option" "token option"
  | ITask task_id
  | IProcess
  | IRange i32 i32 i32
  | IOther nat

(* src/entity/object.h [33-45] _Object *)
record object =
  o_class :: cls_id
  o_members :: "entity klist"
  o_internal :: internal

text \<open>The initialiser of a class stores an internal object in a new instance; the other three
  function pointers of a class do not change what the machine computes and are left out.\<close>

(* src/entity/object.h [51-63] _Class *)
record jclass =
  k_reflection :: "obj_id option"
  k_name :: string
  k_super :: "cls_id option"
  k_module :: mod_id
  k_fields :: "string klist"
  k_functions :: "fun_id klist"
  k_init :: "internal option"

(* src/entity/object.h [65-74] _Module *)
record jmodule =
  m_reflection :: "obj_id option"
  m_name :: "string option"
  m_tape :: tape
  m_classes :: "cls_id klist"
  m_functions :: "fun_id klist"
  m_initialized :: bool

text \<open>A native function is known by a number.\<close>

(* src/entity/object.h [76-92] _Function *)
record jfunction =
  f_reflection :: "obj_id option"
  f_name :: string
  f_module :: mod_id
  f_parent_class :: "cls_id option"
  f_is_native :: bool
  f_is_anon :: bool
  f_is_async :: bool
  f_is_const :: bool
  f_is_background :: bool
  f_ins_pos :: nat
  f_native_fn :: "nat option"

subsection \<open>Contexts, tasks, the process\<close>

(* src/vm/process/processes.h [23-37] __Context *)
record jcontext =
  x_task :: task_id
  x_previous :: "ctx_id option"
  x_member_obj :: obj_id
  x_self :: obj_id
  x_module :: mod_id
  x_tape :: tape
  x_func :: "fun_id option"
  x_ins :: u32
  x_error :: "obj_id option"
  x_catch_ins :: i32

(* src/vm/process/processes.h [39-45] TaskState *)
datatype task_state = TASK_NEW | TASK_RUNNING | TASK_WAITING | TASK_COMPLETE | TASK_ERROR

(* src/vm/process/processes.h [47-52] WaitReason *)
datatype wait_reason =
  NOT_WAITING | WAITING_TO_START | WAITING_ON_FN_CALL | WAITING_ON_FUTURE

(* src/vm/process/processes.h [54-72] __Task *)
record task =
  a_state :: task_state
  a_wait :: wait_reason
  a_current :: "ctx_id option"
  a_resval :: entity
  a_stack :: "entity list"
  a_parent :: "task_id option"
  a_dependents :: "task_id list"
  a_child_error :: bool
  a_refl :: "obj_id option"

text \<open>The calls that tell the memory graph about an edge from a parent to a child.\<close>

datatype edge = Inc obj_id obj_id | Dec obj_id obj_id

text \<open>A native function that the thread pool has been given: task, context, function and self.\<close>

(* src/vm/virtual_machine.c [568-573] BackgroundThreadArgs *)
record bg_args =
  b_task :: task_id
  b_context :: "ctx_id option"
  b_func :: fun_id
  b_self :: obj_id

text \<open>
  The process with the stores. \<open>s_queue\<close>, \<open>s_waiting\<close> and \<open>s_completed\<close> are the task queue and the
  two task sets; a set is a list without repetitions. \<open>s_background\<close> holds the native functions that
  the thread pool has not finished.
\<close>

(* src/vm/process/processes.h [74-95] __Process *)
record machine =
  s_objects :: "object list"
  s_classes :: "jclass list"
  s_functions :: "jfunction list"
  s_modules :: "jmodule list"
  s_contexts :: "jcontext list"
  s_tasks :: "task list"
  s_edges :: "edge list"
  s_current_task :: "task_id option"
  s_queue :: "task_id list"
  s_waiting :: "task_id list"
  s_completed :: "task_id list"
  s_reflection :: obj_id
  s_background :: "bg_args list"

text \<open>
  What the machine takes from outside the modelled code: floating point (\<open>en_fo\<close>), the native
  functions (given task, context, self and the argument, they return the new state and a result),
  \<open>modulemanager_lookup\<close>, the classes and modules the machine knows by global variables, what
  \<open>malloc\<close>ed tasks, internal objects and tuple slots contain before anything is stored there, the growth
  of an array that is written beyond its end, the end of the queue that \<open>Q_pop\<close> takes from (\<open>en_pop\<close>
  splits a queue that is not empty), and the order in which a set is iterated.
\<close>

record env =
  en_fo :: fops
  en_native :: "nat \<Rightarrow> task_id \<Rightarrow> ctx_id option \<Rightarrow> obj_id \<Rightarrow> entity \<Rightarrow> machine \<Rightarrow> (entity \<times> machine) res"
  en_module :: "string \<Rightarrow> machine \<Rightarrow> (mod_id option \<times> machine) res"
  Class_Object :: cls_id
  Class_Class :: cls_id
  Class_Function :: cls_id
  Class_FunctionRef :: cls_id
  Class_Module :: cls_id
  Class_Array :: cls_id
  Class_String :: cls_id
  Class_Tuple :: cls_id
  Class_Error :: cls_id
  Class_StackLine :: cls_id
  Class_Future :: cls_id
  Class_Task :: cls_id
  Module_builtin :: mod_id
  Module_io :: mod_id
  en_raw_task :: task
  en_raw_slot :: entity
  en_grow :: "entity list \<Rightarrow> nat \<Rightarrow> entity list"
  en_pop :: "task_id list \<Rightarrow> task_id \<times> task_id list"
  en_order :: "task_id list \<Rightarrow> task_id list"

subsection \<open>Reading and writing the stores\<close>

abbreviation obj_at :: "machine \<Rightarrow> obj_id \<Rightarrow> object" where "obj_at m i \<equiv> s_objects m ! i"
abbreviation cls_at :: "machine \<Rightarrow> cls_id \<Rightarrow> jclass" where "cls_at m i \<equiv> s_classes m ! i"
abbreviation fun_at :: "machine \<Rightarrow> fun_id \<Rightarrow> jfunction" where "fun_at m i \<equiv> s_functions m ! i"
abbreviation mod_at :: "machine \<Rightarrow> mod_id \<Rightarrow> jmodule" where "mod_at m i \<equiv> s_modules m ! i"
abbreviation ctx_at :: "machine \<Rightarrow> ctx_id \<Rightarrow> jcontext" where "ctx_at m i \<equiv> s_contexts m ! i"
abbreviation task_at :: "machine \<Rightarrow> task_id \<Rightarrow> task" where "task_at m i \<equiv> s_tasks m ! i"

definition upd_obj :: "obj_id \<Rightarrow> (object \<Rightarrow> object) \<Rightarrow> machine \<Rightarrow> machine" where
  "upd_obj i f m = m\<lparr>s_objects := (s_objects m)[i := f (obj_at m i)]\<rparr>"

definition upd_cls :: "cls_id \<Rightarrow> (jclass \<Rightarrow> jclass) \<Rightarrow> machine \<Rightarrow> machine" where
  "upd_cls i f m = m\<lparr>s_classes := (s_classes m)[i := f (cls_at m i)]\<rparr>"

definition upd_fun :: "fun_id \<Rightarrow> (jfunction \<Rightarrow> jfunction) \<Rightarrow> machine \<Rightarrow> machine" where
  "upd_fun i f m = m\<lparr>s_functions := (s_functions m)[i := f (fun_at m i)]\<rparr>"

definition upd_mod :: "mod_id \<Rightarrow> (jmodule \<Rightarrow> jmodule) \<Rightarrow> machine \<Rightarrow> machine" where
  "upd_mod i f m = m\<lparr>s_modules := (s_modules m)[i := f (mod_at m i)]\<rparr>"

definition upd_ctx :: "ctx_id \<Rightarrow> (jcontext \<Rightarrow> jcontext) \<Rightarrow> machine \<Rightarrow> machine" where
  "upd_ctx i f m = m\<lparr>s_contexts := (s_contexts m)[i := f (ctx_at m i)]\<rparr>"

definition upd_task :: "task_id \<Rightarrow> (task \<Rightarrow> task) \<Rightarrow> machine \<Rightarrow> machine" where
  "upd_task i f m = m\<lparr>s_tasks := (s_tasks m)[i := f (task_at m i)]\<rparr>"

definition note_edge :: "edge \<Rightarrow> machine \<Rightarrow> machine" where
  "note_edge e m = m\<lparr>s_edges := e # s_edges m\<rparr>"

text \<open>Following a pointer that may be \<open>NULL\<close>.\<close>

definition deref :: "'a option \<Rightarrow> 'a res" where
  "deref p = (case p of None \<Rightarrow> Inl (UB ''null pointer'') | Some x \<Rightarrow> Inr x)"

lemma deref_simps [simp, res_simps]:
  "deref (Some x) = Inr x" "deref None = Inl (UB ''null pointer'')" "deref p = Inr x \<longleftrightarrow> p = Some x"
  by (auto simp: deref_def split: option.splits)

end
