(* ===== verification/Heap.thy ===== *)
theory Heap imports Entity "HOL-Library.Multiset" begin

text \<open>
  \<open>heap/heap.c\<close>, \<open>entity/tuple/tuple.c\<close>, \<open>entity/string/string_helper.c\<close> and \<open>object_get\<close>: objects
  with their members, arrays and tuples, and the edges the memory graph is told about. A store to an
  object must tell the graph of the edge to the object stored and of the end of the edge to the object
  that was there; the last part shows which operations keep this account and which one does not.
\<close>

subsection \<open>Creation\<close>

(* src/heap/heap.c _object_create *)
definition object_create :: "cls_id \<Rightarrow> machine \<Rightarrow> object" where
  "object_create c m = \<lparr>o_class = c, o_members = [],
     o_internal = (case k_init (cls_at m c) of None \<Rightarrow> IRaw | Some i \<Rightarrow> i)\<rparr>"

(* src/heap/heap.c heap_new *)
definition heap_new :: "cls_id \<Rightarrow> machine \<Rightarrow> obj_id \<times> machine" where
  "heap_new c m = (length (s_objects m), m\<lparr>s_objects := s_objects m @ [object_create c m]\<rparr>)"

(* src/entity/string/string.c __string_init *)
definition string_init :: "obj_id \<Rightarrow> string \<Rightarrow> machine \<Rightarrow> machine" where
  "string_init obj str = upd_obj obj (\<lambda>x. x\<lparr>o_internal := IString str\<rparr>)"

(* src/entity/string/string_helper.c string_new *)
definition string_new :: "env \<Rightarrow> string \<Rightarrow> machine \<Rightarrow> obj_id \<times> machine" where
  "string_new e src m =
     (let (str, m1) = heap_new (Class_String e) m in (str, string_init str src m1))"

subsection \<open>Members\<close>

(* src/entity/entity.c object_get *)
definition object_get :: "obj_id \<Rightarrow> string \<Rightarrow> machine \<Rightarrow> entity option" where
  "object_get obj field m = kl_lookup (o_members (obj_at m obj)) field"

text \<open>\<open>mgraph_dec\<close> for what a slot held, \<open>mgraph_inc\<close> for what is stored into it.\<close>

definition dec_old :: "obj_id \<Rightarrow> entity option \<Rightarrow> machine \<Rightarrow> machine" where
  "dec_old parent old m = (case old of Some (EObj x) \<Rightarrow> note_edge (Dec parent x) m | _ \<Rightarrow> m)"

definition inc_new :: "obj_id \<Rightarrow> entity \<Rightarrow> machine \<Rightarrow> machine" where
  "inc_new parent child m = (case child of EObj x \<Rightarrow> note_edge (Inc parent x) m | _ \<Rightarrow> m)"

(* src/heap/heap.c object_set_member *)
definition object_set_member :: "obj_id \<Rightarrow> string \<Rightarrow> entity \<Rightarrow> machine \<Rightarrow> machine" where
  "object_set_member parent key child m =
     (let old_member = object_get parent key m;
          m1 = dec_old parent old_member m;
          m2 = inc_new parent child m1
      in upd_obj parent (\<lambda>x. x\<lparr>o_members := kl_put key child (o_members x)\<rparr>) m2)"

(* src/heap/heap.c object_set_member_obj *)
definition object_set_member_obj :: "obj_id \<Rightarrow> string \<Rightarrow> obj_id \<Rightarrow> machine \<Rightarrow> machine" where
  "object_set_member_obj parent key child m =
     (let old_member = object_get parent key m;
          m1 = dec_old parent old_member m;
          m2 = note_edge (Inc parent child) m1
      in upd_obj parent (\<lambda>x. x\<lparr>o_members := kl_put key (EObj child) (o_members x)\<rparr>) m2)"

(* src/heap/heap.c heap_inc_edge *)
definition heap_inc_edge :: "obj_id \<Rightarrow> obj_id \<Rightarrow> machine \<Rightarrow> machine" where
  "heap_inc_edge parent child = note_edge (Inc parent child)"

(* src/heap/heap.c heap_dec_edge *)
definition heap_dec_edge :: "obj_id \<Rightarrow> obj_id \<Rightarrow> machine \<Rightarrow> machine" where
  "heap_dec_edge parent child = note_edge (Dec parent child)"

subsection \<open>Arrays and tuples\<close>

text \<open>The internal object of an array and of a tuple; under another class the cast is undefined.\<close>

definition array_of :: "obj_id \<Rightarrow> machine \<Rightarrow> entity list res" where
  "array_of obj m = (case o_internal (obj_at m obj) of
     IArray xs \<Rightarrow> Inr xs | _ \<Rightarrow> Inl (UB ''not an array''))"

definition tuple_of :: "obj_id \<Rightarrow> machine \<Rightarrow> entity list res" where
  "tuple_of obj m = (case o_internal (obj_at m obj) of
     ITuple xs \<Rightarrow> Inr xs | _ \<Rightarrow> Inl (UB ''not a tuple''))"

definition set_internal :: "obj_id \<Rightarrow> internal \<Rightarrow> machine \<Rightarrow> machine" where
  "set_internal obj i = upd_obj obj (\<lambda>x. x\<lparr>o_internal := i\<rparr>)"

(* src/heap/heap.c array_add *)
definition array_add :: "obj_id \<Rightarrow> entity \<Rightarrow> machine \<Rightarrow> machine res" where
  "array_add array child m = andThen (array_of array m) (\<lambda>xs.
     Inr (inc_new array child (set_internal array (IArray (xs @ [child])) m)))"

text \<open>\<open>Array_set_ref\<close> makes the array long enough; what a new slot contains is the library's.\<close>

(* src/heap/heap.c array_set *)
definition array_set :: "env \<Rightarrow> obj_id \<Rightarrow> i32 \<Rightarrow> entity \<Rightarrow> machine \<Rightarrow> machine res" where
  "array_set e array index child m =
     assert_that (0 \<le> sint index) ''index >= 0'' (andThen (array_of array m) (\<lambda>xs.
       let i = nat (sint index);
           ys = (if i < length xs then xs else en_grow e xs i);
           m1 = dec_old array (Some (ys ! i)) m;
           m2 = set_internal array (IArray (ys[i := child])) m1
       in Inr (inc_new array child m2)))"

(* src/entity/tuple/tuple.c tuple_create *)
definition tuple_create :: "env \<Rightarrow> nat \<Rightarrow> internal" where
  "tuple_create e n = ITuple (replicate n (en_raw_slot e))"

(* src/entity/tuple/tuple.c tuple_size *)
definition tuple_size :: "obj_id \<Rightarrow> machine \<Rightarrow> nat res" where
  "tuple_size obj m = andThen (tuple_of obj m) (\<lambda>xs. Inr (length xs))"

(* src/entity/tuple/tuple.c tuple_get_mutable *)
definition tuple_get :: "obj_id \<Rightarrow> nat \<Rightarrow> machine \<Rightarrow> entity res" where
  "tuple_get obj index m = andThen (tuple_of obj m) (\<lambda>xs.
     assert_that (index < length xs) ''index < t->size'' (Inr (xs ! index)))"

text \<open>The store \<open>*tuple_get_mutable(t, i) = e\<close>, which tells the memory graph nothing.\<close>

(* src/entity/tuple/tuple.c tuple_get_mutable *)
definition tuple_put :: "obj_id \<Rightarrow> nat \<Rightarrow> entity \<Rightarrow> machine \<Rightarrow> machine res" where
  "tuple_put obj index child m = andThen (tuple_of obj m) (\<lambda>xs.
     assert_that (index < length xs) ''index < t->size''
       (Inr (set_internal obj (ITuple (xs[index := child])) m)))"

(* src/heap/heap.c tuple_set *)
definition tuple_set :: "obj_id \<Rightarrow> i32 \<Rightarrow> entity \<Rightarrow> machine \<Rightarrow> machine res" where
  "tuple_set array index child m = andThen (tuple_size array m) (\<lambda>n.
     assert_that (0 \<le> sint index \<and> sint index < int n) ''index < tuple_size''
       (andThen (tuple_put array (nat (sint index)) child m) (\<lambda>m1.
         Inr (inc_new array child m1))))"

subsection \<open>Frame facts\<close>

named_theorems heap_simps \<open>what heap operations leave alone\<close>

lemma upd_obj_simps [simp]:
  "s_classes (upd_obj i f m) = s_classes m" "s_functions (upd_obj i f m) = s_functions m"
  "s_modules (upd_obj i f m) = s_modules m" "s_contexts (upd_obj i f m) = s_contexts m"
  "s_tasks (upd_obj i f m) = s_tasks m" "s_edges (upd_obj i f m) = s_edges m"
  "s_current_task (upd_obj i f m) = s_current_task m" "s_queue (upd_obj i f m) = s_queue m"
  "s_waiting (upd_obj i f m) = s_waiting m" "s_completed (upd_obj i f m) = s_completed m"
  "s_reflection (upd_obj i f m) = s_reflection m" "s_background (upd_obj i f m) = s_background m"
  "length (s_objects (upd_obj i f m)) = length (s_objects m)"
  by (simp_all add: upd_obj_def)

lemma obj_at_upd_obj:
  "i < length (s_objects m) \<Longrightarrow> obj_at (upd_obj i f m) j = (if j = i then f (obj_at m i) else obj_at m j)"
  by (simp add: upd_obj_def)

lemma obj_at_upd_same [simp]:
  "i < length (s_objects m) \<Longrightarrow> obj_at (upd_obj i f m) i = f (obj_at m i)"
  by (simp add: obj_at_upd_obj)

lemma obj_at_upd_other [simp]: "j \<noteq> i \<Longrightarrow> obj_at (upd_obj i f m) j = obj_at m j"
  by (simp add: upd_obj_def)

lemma note_edge_simps [simp]:
  "s_objects (note_edge d m) = s_objects m"
  "s_classes (note_edge d m) = s_classes m" "s_functions (note_edge d m) = s_functions m"
  "s_modules (note_edge d m) = s_modules m" "s_contexts (note_edge d m) = s_contexts m"
  "s_tasks (note_edge d m) = s_tasks m" "s_edges (note_edge d m) = d # s_edges m"
  "s_current_task (note_edge d m) = s_current_task m" "s_queue (note_edge d m) = s_queue m"
  "s_waiting (note_edge d m) = s_waiting m" "s_completed (note_edge d m) = s_completed m"
  "s_reflection (note_edge d m) = s_reflection m" "s_background (note_edge d m) = s_background m"
  by (simp_all add: note_edge_def)

lemma dec_old_simps [simp]:
  "s_objects (dec_old p x m) = s_objects m"
  "s_classes (dec_old p x m) = s_classes m" "s_functions (dec_old p x m) = s_functions m"
  "s_modules (dec_old p x m) = s_modules m" "s_contexts (dec_old p x m) = s_contexts m"
  "s_tasks (dec_old p x m) = s_tasks m"
  "s_current_task (dec_old p x m) = s_current_task m" "s_queue (dec_old p x m) = s_queue m"
  "s_waiting (dec_old p x m) = s_waiting m" "s_completed (dec_old p x m) = s_completed m"
  "s_reflection (dec_old p x m) = s_reflection m" "s_background (dec_old p x m) = s_background m"
  by (simp_all add: dec_old_def split: option.split entity.split)

lemma inc_new_simps [simp]:
  "s_objects (inc_new p x m) = s_objects m"
  "s_classes (inc_new p x m) = s_classes m" "s_functions (inc_new p x m) = s_functions m"
  "s_modules (inc_new p x m) = s_modules m" "s_contexts (inc_new p x m) = s_contexts m"
  "s_tasks (inc_new p x m) = s_tasks m"
  "s_current_task (inc_new p x m) = s_current_task m" "s_queue (inc_new p x m) = s_queue m"
  "s_waiting (inc_new p x m) = s_waiting m" "s_completed (inc_new p x m) = s_completed m"
  "s_reflection (inc_new p x m) = s_reflection m" "s_background (inc_new p x m) = s_background m"
  by (simp_all add: inc_new_def split: entity.split)

lemma object_set_member_obj_eq:
  "object_set_member_obj p k c m = object_set_member p k (EObj c) m"
  by (simp add: object_set_member_obj_def object_set_member_def inc_new_def)

lemma object_set_member_simps [simp]:
  "s_classes (object_set_member p k x m) = s_classes m"
  "s_functions (object_set_member p k x m) = s_functions m"
  "s_modules (object_set_member p k x m) = s_modules m"
  "s_contexts (object_set_member p k x m) = s_contexts m"
  "s_tasks (object_set_member p k x m) = s_tasks m"
  "s_current_task (object_set_member p k x m) = s_current_task m"
  "s_queue (object_set_member p k x m) = s_queue m"
  "s_waiting (object_set_member p k x m) = s_waiting m"
  "s_completed (object_set_member p k x m) = s_completed m"
  "s_reflection (object_set_member p k x m) = s_reflection m"
  "s_background (object_set_member p k x m) = s_background m"
  "length (s_objects (object_set_member p k x m)) = length (s_objects m)"
  by (simp_all add: object_set_member_def Let_def)

lemma obj_at_object_set_member:
  "p < length (s_objects m) \<Longrightarrow> obj_at (object_set_member p k x m) i =
     (if i = p then (obj_at m p)\<lparr>o_members := kl_put k x (o_members (obj_at m p))\<rparr> else obj_at m i)"
  by (simp add: object_set_member_def Let_def upd_obj_def)

lemma object_get_set_member:
  "p < length (s_objects m) \<Longrightarrow> object_get p' k' (object_set_member p k x m) =
     (if p' = p \<and> k' = k then Some x else object_get p' k' m)"
  by (simp add: object_get_def obj_at_object_set_member)

lemma heap_new_simps [simp]:
  "fst (heap_new c m) = length (s_objects m)"
  "s_objects (snd (heap_new c m)) = s_objects m @ [object_create c m]"
  "s_classes (snd (heap_new c m)) = s_classes m" "s_functions (snd (heap_new c m)) = s_functions m"
  "s_modules (snd (heap_new c m)) = s_modules m" "s_contexts (snd (heap_new c m)) = s_contexts m"
  "s_tasks (snd (heap_new c m)) = s_tasks m" "s_edges (snd (heap_new c m)) = s_edges m"
  "s_current_task (snd (heap_new c m)) = s_current_task m" "s_queue (snd (heap_new c m)) = s_queue m"
  "s_waiting (snd (heap_new c m)) = s_waiting m" "s_completed (snd (heap_new c m)) = s_completed m"
  "s_reflection (snd (heap_new c m)) = s_reflection m"
  "s_background (snd (heap_new c m)) = s_background m"
  by (simp_all add: heap_new_def)

subsection \<open>The contract of named cells\<close>

text \<open>
  What users of objects rely on: an object is a dictionary, a store to one entry of one object is read
  back and changes no other entry and no other object.
\<close>

locale cell_store =
  fixes live :: "'i \<Rightarrow> 's \<Rightarrow> bool"
    and look :: "'i \<Rightarrow> string \<Rightarrow> 's \<Rightarrow> 'v option"
    and store :: "'i \<Rightarrow> string \<Rightarrow> 'v \<Rightarrow> 's \<Rightarrow> 's"
  assumes look_store: "live i s \<Longrightarrow>
      look i' k' (store i k v s) = (if i' = i \<and> k' = k then Some v else look i' k' s)"
    and live_store: "live i' (store i k v s) = live i' s"
begin

lemma look_store_same: "live i s \<Longrightarrow> look i k (store i k v s) = Some v"
  by (simp add: look_store)

lemma look_store_other: "live i s \<Longrightarrow> i' \<noteq> i \<or> k' \<noteq> k \<Longrightarrow> look i' k' (store i k v s) = look i' k' s"
  by (auto simp: look_store)

lemma look_store_twice:
  "live i s \<Longrightarrow> look i' k' (store i k v (store i k w s)) = look i' k' (store i k v s)"
  by (simp add: look_store live_store)

lemma look_store_swap:
  "live i s \<Longrightarrow> live j s \<Longrightarrow> i \<noteq> j \<or> k \<noteq> l \<Longrightarrow>
     look i' k' (store i k v (store j l w s)) = look i' k' (store j l w (store i k v s))"
  by (auto simp: look_store live_store)

end

interpretation members: cell_store "\<lambda>i m. i < length (s_objects m)" object_get object_set_member
  by unfold_locales (auto simp: object_get_set_member)

subsection \<open>The account of edges\<close>

text \<open>The entities an object holds, and the number of edges from \<open>p\<close> to \<open>c\<close> the graph knows.\<close>

fun slots :: "internal \<Rightarrow> entity list" where
  "slots (IArray xs) = xs"
| "slots (ITuple xs) = xs"
| "slots i = []"

definition children :: "object \<Rightarrow> entity multiset" where
  "children x = mset (kl_values (o_members x)) + mset (slots (o_internal x))"

definition edge_count :: "obj_id \<Rightarrow> obj_id \<Rightarrow> edge list \<Rightarrow> int" where
  "edge_count p c es = int (count_list es (Inc p c)) - int (count_list es (Dec p c))"

definition edges_at :: "obj_id \<Rightarrow> machine \<Rightarrow> bool" where
  "edges_at p m \<longleftrightarrow> (\<forall>c. edge_count p c (s_edges m) = int (count (children (obj_at m p)) (EObj c)))"

definition edges_ok :: "machine \<Rightarrow> bool" where
  "edges_ok m \<longleftrightarrow> (\<forall>p < length (s_objects m). p \<noteq> s_reflection m \<longrightarrow> edges_at p m)"

text \<open>The edges logged by the two halves of a store.\<close>

fun weight :: "obj_id \<Rightarrow> entity \<Rightarrow> int" where
  "weight c (EObj x) = (if x = c then 1 else 0)"
| "weight c x = 0"

lemma edge_count_inc_new [simp]:
  "edge_count p c (s_edges (inc_new q x m)) =
     edge_count p c (s_edges m) + (if p = q then weight c x else 0)"
  by (cases x) (auto simp: inc_new_def edge_count_def)

lemma edge_count_dec_old [simp]:
  "edge_count p c (s_edges (dec_old q old m)) =
     edge_count p c (s_edges m) - (if p = q then (case old of None \<Rightarrow> 0 | Some x \<Rightarrow> weight c x) else 0)"
  by (auto simp: dec_old_def edge_count_def split: option.split entity.split)

lemma count_weight: "int (count (add_mset x M) (EObj c)) = int (count M (EObj c)) + weight c x"
  by (cases x) auto

lemma mset_kl_put:
  "mset (kl_values (kl_put k v kl)) =
     add_mset v (mset (kl_values kl) - (case kl_lookup kl k of None \<Rightarrow> {#} | Some w \<Rightarrow> {#w#}))"
proof (induction k v kl rule: kl_put.induct)
  case (1 k v)
  then show ?case by simp
next
  case (2 k v k' v' kl)
  have mem: "kl_lookup kl k = Some w \<Longrightarrow> w \<in># mset (kl_values kl)" for w
    using kl_lookup_in_set [of kl k w] by (force simp: kl_values_def)
  show ?case
  proof (cases "k = k'")
    case True
    then show ?thesis by simp
  next
    case False
    with 2 show ?thesis
      by (cases "kl_lookup kl k") (auto dest: mem simp: multiset_eq_iff)
  qed
qed

lemma count_kl_put:
  "int (count (mset (kl_values (kl_put k v kl))) (EObj c)) =
     int (count (mset (kl_values kl)) (EObj c)) + weight c v -
     (case kl_lookup kl k of None \<Rightarrow> 0 | Some w \<Rightarrow> weight c w)"
proof (cases "kl_lookup kl k")
  case None
  then show ?thesis by (simp add: mset_kl_put count_weight del: count_add_mset)
next
  case (Some w)
  then have "w \<in># mset (kl_values kl)"
    using kl_lookup_in_set [of kl k w] by (force simp: kl_values_def)
  then obtain M where "mset (kl_values kl) = add_mset w M"
    by (metis multi_member_split)
  with Some show ?thesis
    by (simp add: mset_kl_put count_weight del: count_add_mset)
qed

lemma count_update_slot:
  assumes "i < length xs"
  shows "int (count (mset (xs[i := v])) (EObj c)) =
     int (count (mset xs) (EObj c)) + weight c v - weight c (xs ! i)"
proof -
  from assms have "mset (xs[i := v]) = add_mset v (mset xs - {#xs ! i#})"
    by (simp add: mset_update)
  moreover from assms obtain M where "mset xs = add_mset (xs ! i) M"
    by (metis multi_member_split nth_mem_mset)
  ultimately show ?thesis
    by (simp add: count_weight del: count_add_mset)
qed

text \<open>A step that stores \<open>x\<close> where \<open>old\<close> was, in the object \<open>p\<close>, and tells the graph about both.\<close>

lemma edges_ok_store:
  assumes ok: "edges_ok m" and p: "p < length (s_objects m)"
    and obj: "s_objects m' = (s_objects m)[p := y]" and refl: "s_reflection m' = s_reflection m"
    and edges: "\<And>q c. edge_count q c (s_edges m') = edge_count q c (s_edges m) +
       (if q = p then weight c x - (case old of None \<Rightarrow> 0 | Some w \<Rightarrow> weight c w) else 0)"
    and kids: "\<And>c. int (count (children y) (EObj c)) = int (count (children (obj_at m p)) (EObj c)) +
       weight c x - (case old of None \<Rightarrow> 0 | Some w \<Rightarrow> weight c w)"
  shows "edges_ok m'"
  unfolding edges_ok_def
proof (intro allI impI)
  fix q
  assume "q < length (s_objects m')" and "q \<noteq> s_reflection m'"
  with ok obj refl have *: "edges_at q m" by (simp add: edges_ok_def)
  show "edges_at q m'"
  proof (cases "q = p")
    case True
    with * p obj show ?thesis by (auto simp: edges_at_def edges kids)
  next
    case False
    with * obj show ?thesis by (simp add: edges_at_def edges)
  qed
qed

lemma object_set_member_objects:
  "s_objects (object_set_member p k x m) =
     (s_objects m)[p := (obj_at m p)\<lparr>o_members := kl_put k x (o_members (obj_at m p))\<rparr>]"
  by (simp add: object_set_member_def Let_def upd_obj_def)

lemma object_set_member_edges:
  "edge_count q c (s_edges (object_set_member p k x m)) = edge_count q c (s_edges m) +
     (if q = p then weight c x - (case object_get p k m of None \<Rightarrow> 0 | Some w \<Rightarrow> weight c w) else 0)"
  by (simp add: object_set_member_def Let_def)

lemma edges_ok_set_member:
  assumes "edges_ok m" and "p < length (s_objects m)"
  shows "edges_ok (object_set_member p k x m)"
  using assms object_set_member_objects
  by (rule edges_ok_store [where x = x and old = "object_get p k m"])
     (simp_all add: object_set_member_edges children_def count_kl_put object_get_def)

lemma edges_ok_new:
  assumes ok: "edges_ok m" and fresh: "\<And>c. edge_count (length (s_objects m)) c (s_edges m) = 0"
    and init: "case k_init (cls_at m cls) of None \<Rightarrow> True | Some i \<Rightarrow> slots i = []"
  shows "edges_ok (snd (heap_new cls m))"
  unfolding edges_ok_def
proof (intro allI impI)
  fix q
  assume q: "q < length (s_objects (snd (heap_new cls m)))" "q \<noteq> s_reflection (snd (heap_new cls m))"
  show "edges_at q (snd (heap_new cls m))"
  proof (cases "q = length (s_objects m)")
    case True
    with fresh init show ?thesis
      by (auto simp: edges_at_def children_def object_create_def split: option.splits)
  next
    case False
    with q ok show ?thesis by (simp add: edges_ok_def edges_at_def nth_append)
  qed
qed

lemma array_of_eq_Inr: "array_of a m = Inr xs \<longleftrightarrow> o_internal (obj_at m a) = IArray xs"
  by (auto simp: array_of_def split: internal.splits)

lemma tuple_of_eq_Inr: "tuple_of a m = Inr xs \<longleftrightarrow> o_internal (obj_at m a) = ITuple xs"
  by (auto simp: tuple_of_def split: internal.splits)

lemma set_internal_objects:
  "s_objects (set_internal p i m) = (s_objects m)[p := (obj_at m p)\<lparr>o_internal := i\<rparr>]"
  by (simp add: set_internal_def upd_obj_def)

lemma set_internal_simps [simp]:
  "s_edges (set_internal p i m) = s_edges m" "s_reflection (set_internal p i m) = s_reflection m"
  "s_classes (set_internal p i m) = s_classes m" "s_functions (set_internal p i m) = s_functions m"
  "s_modules (set_internal p i m) = s_modules m" "s_contexts (set_internal p i m) = s_contexts m"
  "s_tasks (set_internal p i m) = s_tasks m" "s_current_task (set_internal p i m) = s_current_task m"
  "s_queue (set_internal p i m) = s_queue m" "s_waiting (set_internal p i m) = s_waiting m"
  "s_completed (set_internal p i m) = s_completed m"
  "s_background (set_internal p i m) = s_background m"
  "length (s_objects (set_internal p i m)) = length (s_objects m)"
  by (simp_all add: set_internal_def)

lemma edges_ok_array_add:
  assumes "edges_ok m" and "p < length (s_objects m)" and "array_add p x m = Inr m'"
  shows "edges_ok m'"
proof -
  from assms(3) obtain xs where xs: "o_internal (obj_at m p) = IArray xs"
    and m': "m' = inc_new p x (set_internal p (IArray (xs @ [x])) m)"
    by (auto simp: array_add_def andThen_eq_Inr array_of_eq_Inr)
  have objs: "s_objects m' = (s_objects m)[p := (obj_at m p)\<lparr>o_internal := IArray (xs @ [x])\<rparr>]"
    by (simp add: m' set_internal_objects)
  show ?thesis
    using assms(1,2) objs
    by (rule edges_ok_store [where x = x and old = None])
       (auto simp: m' children_def xs count_weight simp del: count_add_mset)
qed

text \<open>What the code relies on when an array is written beyond its end: the elements stay, and the new
  slots contain no object.\<close>

definition grows :: "env \<Rightarrow> bool" where
  "grows e \<longleftrightarrow> (\<forall>xs i. \<exists>ys. en_grow e xs i = xs @ ys \<and> i < length xs + length ys \<and>
     (\<forall>y \<in> set ys. etype y \<noteq> ET_OBJECT))"

lemma weight_nonobject: "etype y \<noteq> ET_OBJECT \<Longrightarrow> weight c y = 0"
  by (cases y) auto

lemma count_nonobjects: "\<forall>y \<in> set ys. etype y \<noteq> ET_OBJECT \<Longrightarrow> count_list ys (EObj c) = 0"
  by (induction ys) auto

lemma edges_ok_array_set:
  assumes "edges_ok m" and "p < length (s_objects m)" and "array_set e p i x m = Inr m'" and "grows e"
  shows "edges_ok m'"
proof -
  from assms(3) obtain xs where xs: "o_internal (obj_at m p) = IArray xs"
    by (auto simp: array_set_def assert_that_eq_Inr andThen_eq_Inr array_of_eq_Inr)
  define n where "n = nat (sint i)"
  define ys where "ys = (if n < length xs then xs else en_grow e xs n)"
  from assms(4) obtain zs where grow: "en_grow e xs n = xs @ zs" "n < length xs + length zs"
    "\<forall>y \<in> set zs. etype y \<noteq> ET_OBJECT" unfolding grows_def by blast
  have m': "m' = inc_new p x (set_internal p (IArray (ys[n := x])) (dec_old p (Some (ys ! n)) m))"
    using assms(3) xs
    by (auto simp: array_set_def assert_that_eq_Inr andThen_eq_Inr array_of_eq_Inr Let_def ys_def n_def)
  have n: "n < length ys" using grow by (simp add: ys_def)
  have count: "count (mset ys) (EObj c) = count (mset xs) (EObj c)" for c
    using grow by (simp add: ys_def count_mset count_nonobjects)
  have objs: "s_objects m' = (s_objects m)[p := (obj_at m p)\<lparr>o_internal := IArray (ys[n := x])\<rparr>]"
    by (simp add: m' set_internal_objects)
  show ?thesis
    using assms(1,2) objs
    by (rule edges_ok_store [where x = x and old = "Some (ys ! n)"])
       (auto simp: m' children_def xs count_update_slot n count simp del: mset_update)
qed

lemma edges_ok_tuple_set:
  assumes "edges_ok m" and "p < length (s_objects m)" and "tuple_set p i x m = Inr m'"
    and "tuple_get p (nat (sint i)) m = Inr old" and "etype old \<noteq> ET_OBJECT"
  shows "edges_ok m'"
proof -
  define n where "n = nat (sint i)"
  from assms(3,4) obtain xs where xs: "o_internal (obj_at m p) = ITuple xs" and n: "n < length xs"
    and old: "xs ! n = old" and m': "m' = inc_new p x (set_internal p (ITuple (xs[n := x])) m)"
    by (auto simp: tuple_set_def tuple_get_def tuple_put_def tuple_size_def assert_that_eq_Inr
        andThen_eq_Inr tuple_of_eq_Inr n_def)
  have objs: "s_objects m' = (s_objects m)[p := (obj_at m p)\<lparr>o_internal := ITuple (xs[n := x])\<rparr>]"
    by (simp add: m' set_internal_objects)
  show ?thesis
    using assms(1,2) objs
    by (rule edges_ok_store [where x = x and old = None])
       (auto simp: m' children_def xs count_update_slot n old
         weight_nonobject [OF assms(5)] simp del: mset_update)
qed

text \<open>Overwriting an object in a tuple leaves its edge in the graph.\<close>

lemma tuple_set_leaks:
  assumes ok: "edges_at p m" and p: "p < length (s_objects m)"
    and set: "tuple_set p i x m = Inr m'" and get: "tuple_get p (nat (sint i)) m = Inr (EObj c)"
  shows "edge_count p c (s_edges m') = int (count (children (obj_at m' p)) (EObj c)) + 1"
proof -
  define n where "n = nat (sint i)"
  from set get obtain xs where xs: "o_internal (obj_at m p) = ITuple xs" and n: "n < length xs"
    and old: "xs ! n = EObj c" and m': "m' = inc_new p x (set_internal p (ITuple (xs[n := x])) m)"
    by (auto simp: tuple_set_def tuple_get_def tuple_put_def tuple_size_def assert_that_eq_Inr
        andThen_eq_Inr tuple_of_eq_Inr n_def)
  have obj: "obj_at m' p = (obj_at m p)\<lparr>o_internal := ITuple (xs[n := x])\<rparr>"
    using p by (simp add: m' set_internal_objects)
  have edges: "edge_count p c (s_edges m') = edge_count p c (s_edges m) + weight c x"
    by (simp add: m')
  show ?thesis
    using ok by (simp add: edges_at_def obj edges children_def xs count_update_slot n old del: mset_update)
qed

end
