(* ===== verification/Classes.thy ===== *)
theory Classes imports Heap begin

text \<open>
  \<open>entity/class/class.c\<close>, \<open>entity/module/module.c\<close>, the constructor of functions
  (\<open>entity/function/function.c\<close>), and the part of \<open>vm/module_manager.c\<close> that turns a tape into a
  module: \<open>_modulemanager_hydrate\<close> and the reflections of modules, classes and functions.
\<close>

subsection \<open>Functions\<close>

(* src/entity/function/function.c is_anon *)
definition is_anon :: "string \<Rightarrow> bool" where
  "is_anon name \<longleftrightarrow> take 6 name = ''$anon_''"

(* src/entity/function/function.c function_init *)
definition function_init :: "string \<Rightarrow> mod_id \<Rightarrow> nat \<Rightarrow> bool \<Rightarrow> bool \<Rightarrow> bool \<Rightarrow> jfunction" where
  "function_init name md ins_pos anon is_const is_async =
     \<lparr>f_reflection = None, f_name = name, f_module = md, f_parent_class = None,
      f_is_native = False, f_is_anon = anon, f_is_async = is_async, f_is_const = is_const,
      f_is_background = False, f_ins_pos = ins_pos, f_native_fn = None\<rparr>"

definition new_function :: "jfunction \<Rightarrow> machine \<Rightarrow> fun_id \<times> machine" where
  "new_function f m = (length (s_functions m), m\<lparr>s_functions := s_functions m @ [f]\<rparr>)"

subsection \<open>Classes\<close>

(* src/entity/class/class.c class_init *)
definition class_init :: "string \<Rightarrow> cls_id option \<Rightarrow> mod_id \<Rightarrow> jclass" where
  "class_init name super md =
     \<lparr>k_reflection = None, k_name = name, k_super = super, k_module = md, k_fields = [],
      k_functions = [], k_init = None\<rparr>"

(* src/entity/class/class.c class_add_function *)
definition class_add_function ::
    "cls_id \<Rightarrow> string \<Rightarrow> nat \<Rightarrow> bool \<Rightarrow> bool \<Rightarrow> machine \<Rightarrow> (fun_id \<times> machine) res" where
  "class_add_function cls name ins_pos is_const is_async m =
     (if kl_lookup (k_functions (cls_at m cls)) name \<noteq> None
      then Inl (Fatal ''Adding function to class that already has a function by this name.'')
      else let f = (function_init name (k_module (cls_at m cls)) ins_pos (is_anon name) is_const
                      is_async)\<lparr>f_parent_class := Some cls\<rparr>;
               (fid, m1) = new_function f m
           in Inr (fid, upd_cls cls (\<lambda>c. c\<lparr>k_functions := kl_put name fid (k_functions c)\<rparr>) m1))"

(* src/entity/class/class.c class_add_field *)
definition class_add_field :: "cls_id \<Rightarrow> string \<Rightarrow> machine \<Rightarrow> machine res" where
  "class_add_field cls name m =
     (if kl_lookup (k_fields (cls_at m cls)) name \<noteq> None
      then Inl (Fatal ''Adding function to class that already has a function by this name.'')
      else Inr (upd_cls cls (\<lambda>c. c\<lparr>k_fields := kl_put name name (k_fields c)\<rparr>) m))"

text \<open>
  The walks up the chain of superclasses. A chain longer than the number of classes meets a class
  twice and the C loop would never end: the first argument counts down from that number.
\<close>

(* src/entity/class/class.c class_get_function *)
fun find_function :: "nat \<Rightarrow> jclass list \<Rightarrow> cls_id option \<Rightarrow> string \<Rightarrow> fun_id option res" where
  "find_function n cs None name = Inr None"
| "find_function 0 cs (Some cls) name = Inl (UB ''endless chain of superclasses'')"
| "find_function (Suc n) cs (Some cls) name =
     (case kl_lookup (k_functions (cs ! cls)) name of
        Some f \<Rightarrow> Inr (Some f)
      | None \<Rightarrow> find_function n cs (k_super (cs ! cls)) name)"

(* src/entity/class/class.c class_get_function *)
definition class_get_function :: "cls_id \<Rightarrow> string \<Rightarrow> machine \<Rightarrow> fun_id option res" where
  "class_get_function cls name m =
     find_function (length (s_classes m)) (s_classes m) (Some cls) name"

(* src/entity/class/class.c inherits_from *)
fun find_super :: "nat \<Rightarrow> jclass list \<Rightarrow> cls_id option \<Rightarrow> cls_id \<Rightarrow> bool res" where
  "find_super n cs None possible_super = Inr False"
| "find_super 0 cs (Some cls) possible_super = Inl (UB ''endless chain of superclasses'')"
| "find_super (Suc n) cs (Some cls) possible_super =
     (if cls = possible_super then Inr True else find_super n cs (k_super (cs ! cls)) possible_super)"

(* src/entity/class/class.c inherits_from *)
definition inherits_from :: "cls_id \<Rightarrow> cls_id \<Rightarrow> machine \<Rightarrow> bool res" where
  "inherits_from cls possible_super m =
     find_super (length (s_classes m)) (s_classes m) (Some cls) possible_super"

subsection \<open>Modules\<close>

(* src/entity/module/module.c module_init *)
definition module_init :: "string option \<Rightarrow> tape \<Rightarrow> jmodule" where
  "module_init name t = \<lparr>m_reflection = None, m_name = name, m_tape = t, m_classes = [],
     m_functions = [], m_initialized = False\<rparr>"

(* src/entity/module/module.c module_add_function *)
definition module_add_function ::
    "mod_id \<Rightarrow> string \<Rightarrow> nat \<Rightarrow> bool \<Rightarrow> bool \<Rightarrow> machine \<Rightarrow> (fun_id \<times> machine) res" where
  "module_add_function md name ins_pos is_const is_async m =
     (if kl_lookup (m_functions (mod_at m md)) name \<noteq> None
      then Inl (Fatal ''Adding function to module that already has a function by this name.'')
      else let (fid, m1) = new_function
                 (function_init name md ins_pos (is_anon name) is_const is_async) m
           in Inr (fid, upd_mod md (\<lambda>x. x\<lparr>m_functions := kl_put name fid (m_functions x)\<rparr>) m1))"

text \<open>A class that exists is returned as it is.\<close>

(* src/entity/module/module.c module_add_class *)
definition module_add_class ::
    "mod_id \<Rightarrow> string \<Rightarrow> cls_id option \<Rightarrow> machine \<Rightarrow> cls_id \<times> machine" where
  "module_add_class md name super m =
     (case kl_lookup (m_classes (mod_at m md)) name of
        Some old \<Rightarrow> (old, m)
      | None \<Rightarrow>
          (let c = length (s_classes m);
               m1 = m\<lparr>s_classes := s_classes m @ [class_init name super md]\<rparr>
           in (c, upd_mod md (\<lambda>x. x\<lparr>m_classes := kl_put name c (m_classes x)\<rparr>) m1)))"

(* src/entity/module/module.c module_lookup_class *)
definition module_lookup_class :: "mod_id \<Rightarrow> string \<Rightarrow> machine \<Rightarrow> cls_id option" where
  "module_lookup_class md name m = kl_lookup (m_classes (mod_at m md)) name"

(* src/entity/module/module.c module_lookup *)
definition module_lookup :: "mod_id \<Rightarrow> string \<Rightarrow> machine \<Rightarrow> obj_id option" where
  "module_lookup md name m =
     (case Option.bind (kl_lookup (m_classes (mod_at m md)) name) (\<lambda>c. k_reflection (cls_at m c)) of
        Some r \<Rightarrow> Some r
      | None \<Rightarrow>
          Option.bind (kl_lookup (m_functions (mod_at m md)) name) (\<lambda>f. f_reflection (fun_at m f)))"

subsection \<open>From a tape to a module\<close>

text \<open>
  \<open>_hydrate_class\<close> answers whether it could: the first superclass must be a class of the same module
  that has been made already. The second and later superclasses are ignored.
\<close>

(* src/vm/module_manager.c _hydrate_class *)
definition hydrate_class :: "env \<Rightarrow> mod_id \<Rightarrow> class_ref \<Rightarrow> machine \<Rightarrow> (bool \<times> machine) res" where
  "hydrate_class e md cref m =
     (let super = (case cref_supers cref of
            [] \<Rightarrow> Some (Class_Object e)
          | s # _ \<Rightarrow> module_lookup_class md s m)
      in case super of
        None \<Rightarrow> Inr (False, m)
      | Some sc \<Rightarrow>
          (let (cls, m1) = module_add_class md (cref_name cref) (Some sc) m
           in andThen (foldRes (\<lambda>fld. class_add_field cls (fld_name fld))
                         (kl_values (cref_fields cref)) m1)
                (\<lambda>m2. andThen (foldRes (\<lambda>f m. andThen
                         (class_add_function cls (fref_name f) (fref_index f) (fref_const f)
                            (fref_async f) m) (\<lambda>(_, m'). Inr m'))
                         (kl_values (cref_funcs cref)) m2)
                (\<lambda>m3. Inr (True, m3)))))"

text \<open>The first pass over the classes: those that could not be made are queued.\<close>

(* src/vm/module_manager.c [122-127] _modulemanager_hydrate *)
definition hydrate_pass ::
    "env \<Rightarrow> mod_id \<Rightarrow> class_ref list \<Rightarrow> machine \<Rightarrow> (nat list \<times> machine) res" where
  "hydrate_pass e md crefs m = foldRes (\<lambda>i (q, m).
     andThen (hydrate_class e md (crefs ! i) m) (\<lambda>(ok, m'). Inr (if ok then q else q @ [i], m')))
     [0..<length crefs] ([], m)"

text \<open>The loop over the queue, for at most \<open>n\<close> rounds; \<open>None\<close>: not done by then.\<close>

(* src/vm/module_manager.c [128-133] _modulemanager_hydrate *)
fun hydrate_queue ::
    "nat \<Rightarrow> env \<Rightarrow> mod_id \<Rightarrow> class_ref list \<Rightarrow> nat list \<Rightarrow> machine \<Rightarrow> machine res option" where
  "hydrate_queue n e md crefs [] m = Some (Inr m)"
| "hydrate_queue 0 e md crefs (i # q) m = None"
| "hydrate_queue (Suc n) e md crefs (i # q) m =
     (let (j, q') = en_pop e (i # q)
      in case hydrate_class e md (crefs ! j) m of
           Inl err \<Rightarrow> Some (Inl err)
         | Inr (ok, m') \<Rightarrow> hydrate_queue n e md crefs (if ok then q' else q' @ [j]) m')"

(* src/vm/module_manager.c _modulemanager_hydrate *)
definition modulemanager_hydrate :: "nat \<Rightarrow> env \<Rightarrow> tape \<Rightarrow> machine \<Rightarrow> (mod_id \<times> machine) res option" where
  "modulemanager_hydrate n e t m =
     (let md = length (s_modules m);
          m0 = m\<lparr>s_modules := s_modules m @ [module_init (t_module_name t) t]\<rparr>;
          crefs = tape_classes t
      in case andThen (foldRes (\<lambda>f m. andThen
                (module_add_function md (fref_name f) (fref_index f) (fref_const f) (fref_async f) m)
                (\<lambda>(_, m'). Inr m')) (tape_functions t) m0)
              (hydrate_pass e md crefs) of
           Inl err \<Rightarrow> Some (Inl err)
         | Inr (q, m2) \<Rightarrow> map_option (\<lambda>r. andThen r (\<lambda>m3. Inr (md, m3)))
                            (hydrate_queue n e md crefs q m2))"

subsection \<open>Reflections\<close>

(* src/vm/module_manager.c add_reflection_to_function *)
definition add_reflection_to_function :: "env \<Rightarrow> obj_id \<Rightarrow> fun_id \<Rightarrow> machine \<Rightarrow> machine" where
  "add_reflection_to_function e parent f m =
     (let (r, m1) = (case f_reflection (fun_at m f) of
            Some r \<Rightarrow> (r, m)
          | None \<Rightarrow> (let (r, m') = heap_new (Class_Function e) m
                     in (r, upd_fun f (\<lambda>x. x\<lparr>f_reflection := Some r\<rparr>) m')))
      in object_set_member_obj parent (f_name (fun_at m f)) r (set_internal r (IFunction f) m1))"

(* src/vm/module_manager.c _add_reflection_to_class *)
definition add_reflection_to_class :: "env \<Rightarrow> mod_id \<Rightarrow> cls_id \<Rightarrow> machine \<Rightarrow> machine res" where
  "add_reflection_to_class e md cls m =
     (let (r, m1) = (case k_reflection (cls_at m cls) of
            Some r \<Rightarrow> (r, m)
          | None \<Rightarrow> (let (r, m') = heap_new (Class_Class e) m
                     in (r, upd_cls cls (\<lambda>x. x\<lparr>k_reflection := Some r\<rparr>) m')));
          m2 = (if k_super (cls_at m1 cls) = None \<and> cls \<noteq> Class_Object e
                then upd_cls cls (\<lambda>x. x\<lparr>k_super := Some (Class_Object e)\<rparr>) m1 else m1);
          m3 = set_internal r (IClass cls) m2
      in andThen (deref (m_reflection (mod_at m3 md))) (\<lambda>mr.
         let m4 = object_set_member_obj mr (k_name (cls_at m3 cls)) r m3;
             m5 = fold (add_reflection_to_function e r) (kl_values (k_functions (cls_at m4 cls))) m4;
             (arr, m6) = heap_new (Class_Array e) m5;
             m7 = object_set_member_obj r ''_fields'' arr m6
         in foldRes (\<lambda>field m. let (str, m') = string_new e field m in array_add arr (EObj str) m')
              (kl_values (k_fields (cls_at m7 cls))) m7))"

(* src/vm/module_manager.c add_reflection_to_module *)
definition add_reflection_to_module :: "env \<Rightarrow> mod_id \<Rightarrow> machine \<Rightarrow> machine res" where
  "add_reflection_to_module e md m =
     (let (r, m1) = heap_new (Class_Module e) m;
          m2 = upd_mod md (\<lambda>x. x\<lparr>m_reflection := Some r\<rparr>) m1;
          m3 = set_internal r (IModule md) m2
      in andThen (foldRes (\<lambda>f m. andThen (deref (m_reflection (mod_at m (f_module (fun_at m f)))))
                    (\<lambda>mr. Inr (add_reflection_to_function e mr f m)))
                    (kl_values (m_functions (mod_at m3 md))) m3)
           (\<lambda>m4. foldRes (add_reflection_to_class e md) (kl_values (m_classes (mod_at m4 md))) m4))"

subsection \<open>Native functions and classes\<close>

(* src/entity/native/native.c native_method *)
definition native_method :: "cls_id \<Rightarrow> string \<Rightarrow> nat \<Rightarrow> machine \<Rightarrow> (fun_id \<times> machine) res" where
  "native_method cls name native_fn m =
     andThen (class_add_function cls name 0 False False m) (\<lambda>(f, m1).
       Inr (f, upd_fun f (\<lambda>x. x\<lparr>f_is_native := True, f_native_fn := Some native_fn\<rparr>) m1))"

(* src/entity/native/native.c native_background_method *)
definition native_background_method :: "cls_id \<Rightarrow> string \<Rightarrow> nat \<Rightarrow> machine \<Rightarrow> (fun_id \<times> machine) res" where
  "native_background_method cls name native_fn m =
     andThen (native_method cls name native_fn m) (\<lambda>(f, m1).
       Inr (f, upd_fun f (\<lambda>x. x\<lparr>f_is_background := True, f_is_async := True\<rparr>) m1))"

(* src/entity/native/native.c native_function *)
definition native_function :: "mod_id \<Rightarrow> string \<Rightarrow> nat \<Rightarrow> machine \<Rightarrow> (fun_id \<times> machine) res" where
  "native_function md name native_fn m =
     andThen (module_add_function md name 0 False False m) (\<lambda>(f, m1).
       Inr (f, upd_fun f (\<lambda>x. x\<lparr>f_is_native := True, f_native_fn := Some native_fn\<rparr>) m1))"

(* src/entity/native/native.c native_background_function *)
definition native_background_function ::
    "mod_id \<Rightarrow> string \<Rightarrow> nat \<Rightarrow> machine \<Rightarrow> (fun_id \<times> machine) res" where
  "native_background_function md name native_fn m =
     andThen (native_function md name native_fn m) (\<lambda>(f, m1).
       Inr (f, upd_fun f (\<lambda>x. x\<lparr>f_is_background := True, f_is_async := True\<rparr>) m1))"

(* src/entity/native/native.c native_class *)
definition native_class ::
    "env \<Rightarrow> mod_id \<Rightarrow> string \<Rightarrow> internal option \<Rightarrow> machine \<Rightarrow> cls_id \<times> machine" where
  "native_class e md name init_fn m =
     (let (cls, m1) = module_add_class md name (Some (Class_Object e)) m
      in (cls, upd_cls cls (\<lambda>x. x\<lparr>k_init := init_fn\<rparr>) m1))"

end
