(* ===== verification/Process.thy ===== *)
theory Process imports Classes begin

text \<open>
  \<open>vm/process/task.c\<close>, \<open>vm/process/process.c\<close> and the life of contexts (\<open>vm/process/context.c\<close>):
  tasks with their value stacks and context chains, and the queue and sets of tasks of a process. The
  locks protect single operations and leave no trace in the model. The stack is a list with its top
  first.
\<close>

subsection \<open>Tasks\<close>

text \<open>
  \<open>task_init\<close> on memory \<open>raw\<close>. The second store puts the wait reason \<open>WAITING_TO_START\<close> into the state,
  whose value of that number is \<open>TASK_RUNNING\<close>; the wait reason and the result value stay as they were.
\<close>

(* src/vm/process/task.c task_init *)
definition task_init :: "task \<Rightarrow> task" where
  "task_init raw = raw\<lparr>a_state := TASK_RUNNING, a_stack := [], a_parent := None, a_dependents := [],
     a_child_error := False, a_current := None, a_refl := None\<rparr>"

(* src/vm/process/task.c task_get_resval *)
definition task_get_resval :: "task_id \<Rightarrow> machine \<Rightarrow> entity" where
  "task_get_resval t m = a_resval (task_at m t)"

(* src/vm/process/task.c task_mutable_resval *)
definition task_set_resval :: "task_id \<Rightarrow> entity \<Rightarrow> machine \<Rightarrow> machine" where
  "task_set_resval t v = upd_task t (\<lambda>x. x\<lparr>a_resval := v\<rparr>)"

(* src/vm/process/task.c task_pushstack *)
definition task_pushstack :: "task_id \<Rightarrow> entity \<Rightarrow> machine \<Rightarrow> machine" where
  "task_pushstack t v = upd_task t (\<lambda>x. x\<lparr>a_stack := v # a_stack x\<rparr>)"

(* src/vm/process/task.c task_peekstack *)
definition task_peekstack :: "task_id \<Rightarrow> machine \<Rightarrow> entity res" where
  "task_peekstack t m = (case a_stack (task_at m t) of
     [] \<Rightarrow> Inl (Fatal ''alist_len(&task->entity_stack) > 0'') | v # _ \<Rightarrow> Inr v)"

(* src/vm/process/task.c task_peekstack_n *)
definition task_peekstack_n :: "task_id \<Rightarrow> nat \<Rightarrow> machine \<Rightarrow> entity res" where
  "task_peekstack_n t n m =
     assert_that (n < length (a_stack (task_at m t))) ''alist_len(&task->entity_stack) > n''
       (Inr (a_stack (task_at m t) ! n))"

(* src/vm/process/task.c task_dropstack *)
definition task_dropstack :: "task_id \<Rightarrow> machine \<Rightarrow> machine" where
  "task_dropstack t = upd_task t (\<lambda>x. x\<lparr>a_stack := tl (a_stack x)\<rparr>)"

(* src/vm/process/task.c task_popstack *)
definition task_popstack :: "task_id \<Rightarrow> machine \<Rightarrow> (entity \<times> machine) res" where
  "task_popstack t m = andThen (task_peekstack t m) (\<lambda>v. Inr (v, task_dropstack t m))"

definition set_insert :: "'a \<Rightarrow> 'a list \<Rightarrow> 'a list" where
  "set_insert x xs = (if x \<in> set xs then xs else xs @ [x])"

text \<open>\<open>set_insert(&other->dependent_tasks, t)\<close>: \<open>t\<close> waits for \<open>other\<close>.\<close>

definition add_dependent :: "task_id \<Rightarrow> task_id \<Rightarrow> machine \<Rightarrow> machine" where
  "add_dependent other t = upd_task other (\<lambda>x. x\<lparr>a_dependents := set_insert t (a_dependents x)\<rparr>)"

subsection \<open>Contexts\<close>

(* src/vm/process/context.c context_init *)
definition context_init :: "obj_id \<Rightarrow> obj_id \<Rightarrow> mod_id \<Rightarrow> u32 \<Rightarrow> machine \<Rightarrow> jcontext" where
  "context_init self member_obj md ins m =
     \<lparr>x_task = 0, x_previous = None, x_member_obj = member_obj, x_self = self, x_module = md,
      x_tape = m_tape (mod_at m md), x_func = None, x_ins = ins, x_error = None,
      x_catch_ins = - 1\<rparr>"

(* src/vm/process/task.c task_create_context *)
definition task_create_context ::
    "env \<Rightarrow> task_id \<Rightarrow> obj_id \<Rightarrow> mod_id \<Rightarrow> u32 \<Rightarrow> machine \<Rightarrow> ctx_id \<times> machine" where
  "task_create_context e t self md ins m =
     (let c = length (s_contexts m);
          (members_obj, m1) = heap_new (Class_Object e) m;
          ctx = (context_init self members_obj md ins m1)
                  \<lparr>x_task := t, x_previous := a_current (task_at m1 t)\<rparr>;
          m2 = m1\<lparr>s_contexts := s_contexts m1 @ [ctx]\<rparr>
      in (c, upd_task t (\<lambda>x. x\<lparr>a_current := Some c\<rparr>) m2))"

text \<open>The position is handed from the context that is left to the one below it.\<close>

(* src/vm/process/task.c task_back_context *)
definition task_back_context :: "task_id \<Rightarrow> machine \<Rightarrow> (ctx_id option \<times> machine) res" where
  "task_back_context t m = andThen (deref (a_current (task_at m t))) (\<lambda>cur.
     let ins = x_ins (ctx_at m cur);
         prev = x_previous (ctx_at m cur);
         m1 = upd_task t (\<lambda>x. x\<lparr>a_current := prev\<rparr>) m
     in Inr (case prev of
          None \<Rightarrow> (None, m1)
        | Some p \<Rightarrow> (Some p, upd_ctx p (\<lambda>x. x\<lparr>x_ins := ins\<rparr>) m1)))"

(* src/vm/process/context.c context_ins *)
definition context_ins :: "ctx_id \<Rightarrow> machine \<Rightarrow> instruction res" where
  "context_ins ctx m = tape_get (x_tape (ctx_at m ctx)) (unat (x_ins (ctx_at m ctx)))"

(* src/vm/process/context.c context_set_function *)
definition context_set_function :: "ctx_id \<Rightarrow> fun_id \<Rightarrow> machine \<Rightarrow> machine" where
  "context_set_function ctx f = upd_ctx ctx (\<lambda>x. x\<lparr>x_func := Some f\<rparr>)"

subsection \<open>The process\<close>

(* src/vm/process/process.c _task_add_reflection *)
definition task_add_reflection :: "env \<Rightarrow> task_id \<Rightarrow> machine \<Rightarrow> machine" where
  "task_add_reflection e t m =
     (let (r, m1) = heap_new (Class_Task e) m
      in set_internal r (ITask t) (upd_task t (\<lambda>x. x\<lparr>a_refl := Some r\<rparr>) m1))"

(* src/vm/process/process.c process_create_unqueued_task *)
definition process_create_unqueued_task :: "env \<Rightarrow> machine \<Rightarrow> task_id \<times> machine" where
  "process_create_unqueued_task e m =
     (let t = length (s_tasks m);
          m1 = m\<lparr>s_tasks := s_tasks m @ [task_init (en_raw_task e)]\<rparr>;
          m2 = task_add_reflection e t m1
      in (t, heap_inc_edge (s_reflection m2) (length (s_objects m1)) m2))"

(* src/vm/process/process.c process_enqueue_task *)
definition process_enqueue_task :: "task_id \<Rightarrow> machine \<Rightarrow> machine" where
  "process_enqueue_task t m = m\<lparr>s_queue := s_queue m @ [t]\<rparr>"

(* src/vm/process/process.c process_create_task *)
definition process_create_task :: "env \<Rightarrow> machine \<Rightarrow> task_id \<times> machine" where
  "process_create_task e m =
     (let (t, m1) = process_create_unqueued_task e m in (t, process_enqueue_task t m1))"

(* src/vm/process/process.c process_pop_task *)
definition process_pop_task :: "env \<Rightarrow> machine \<Rightarrow> task_id option \<times> machine" where
  "process_pop_task e m =
     (if s_queue m = [] then (None, m)
      else let (t, q) = en_pop e (s_queue m) in (Some t, m\<lparr>s_queue := q\<rparr>))"

(* src/vm/process/process.c process_queue_size *)
definition process_queue_size :: "machine \<Rightarrow> nat" where
  "process_queue_size m = length (s_queue m)"

(* src/vm/process/process.c process_insert_waiting_task *)
definition process_insert_waiting_task :: "task_id \<Rightarrow> machine \<Rightarrow> machine" where
  "process_insert_waiting_task t m = m\<lparr>s_waiting := set_insert t (s_waiting m)\<rparr>"

(* src/vm/process/process.c process_remove_waiting_task *)
definition process_remove_waiting_task :: "task_id \<Rightarrow> machine \<Rightarrow> machine" where
  "process_remove_waiting_task t m = m\<lparr>s_waiting := removeAll t (s_waiting m)\<rparr>"

(* src/vm/process/process.c process_mark_task_complete *)
definition process_mark_task_complete :: "task_id \<Rightarrow> machine \<Rightarrow> machine" where
  "process_mark_task_complete t m = m\<lparr>s_completed := set_insert t (s_completed m)\<rparr>"

subsection \<open>Frame facts\<close>

lemma upd_task_simps [simp]:
  "s_objects (upd_task i f m) = s_objects m" "s_classes (upd_task i f m) = s_classes m"
  "s_functions (upd_task i f m) = s_functions m" "s_modules (upd_task i f m) = s_modules m"
  "s_contexts (upd_task i f m) = s_contexts m" "s_edges (upd_task i f m) = s_edges m"
  "s_current_task (upd_task i f m) = s_current_task m" "s_queue (upd_task i f m) = s_queue m"
  "s_waiting (upd_task i f m) = s_waiting m" "s_completed (upd_task i f m) = s_completed m"
  "s_reflection (upd_task i f m) = s_reflection m" "s_background (upd_task i f m) = s_background m"
  "length (s_tasks (upd_task i f m)) = length (s_tasks m)"
  by (simp_all add: upd_task_def)

lemma task_at_upd_task:
  "i < length (s_tasks m) \<Longrightarrow> task_at (upd_task i f m) j = (if j = i then f (task_at m i) else task_at m j)"
  by (simp add: upd_task_def)

lemma task_at_upd_same [simp]:
  "i < length (s_tasks m) \<Longrightarrow> task_at (upd_task i f m) i = f (task_at m i)"
  by (simp add: task_at_upd_task)

lemma task_at_upd_other [simp]: "j \<noteq> i \<Longrightarrow> task_at (upd_task i f m) j = task_at m j"
  by (simp add: upd_task_def)

lemma upd_ctx_simps [simp]:
  "s_objects (upd_ctx i f m) = s_objects m" "s_classes (upd_ctx i f m) = s_classes m"
  "s_functions (upd_ctx i f m) = s_functions m" "s_modules (upd_ctx i f m) = s_modules m"
  "s_tasks (upd_ctx i f m) = s_tasks m" "s_edges (upd_ctx i f m) = s_edges m"
  "s_current_task (upd_ctx i f m) = s_current_task m" "s_queue (upd_ctx i f m) = s_queue m"
  "s_waiting (upd_ctx i f m) = s_waiting m" "s_completed (upd_ctx i f m) = s_completed m"
  "s_reflection (upd_ctx i f m) = s_reflection m" "s_background (upd_ctx i f m) = s_background m"
  "length (s_contexts (upd_ctx i f m)) = length (s_contexts m)"
  by (simp_all add: upd_ctx_def)

lemma ctx_at_upd_ctx:
  "i < length (s_contexts m) \<Longrightarrow> ctx_at (upd_ctx i f m) j = (if j = i then f (ctx_at m i) else ctx_at m j)"
  by (simp add: upd_ctx_def)

lemma ctx_at_upd_same [simp]:
  "i < length (s_contexts m) \<Longrightarrow> ctx_at (upd_ctx i f m) i = f (ctx_at m i)"
  by (simp add: ctx_at_upd_ctx)

lemma ctx_at_upd_other [simp]: "j \<noteq> i \<Longrightarrow> ctx_at (upd_ctx i f m) j = ctx_at m j"
  by (simp add: upd_ctx_def)

lemma set_set_insert [simp]: "set (set_insert x xs) = insert x (set xs)"
  by (auto simp: set_insert_def)

lemma distinct_set_insert [simp]: "distinct (set_insert x xs) \<longleftrightarrow> distinct xs"
  by (simp add: set_insert_def)

end
