(* ===== verification/Contexts.thy ===== *)
theory Contexts imports Process begin

text \<open>
  Names: reading and writing variables through the chain of contexts, the object, its class, the module
  and the builtin module (\<open>vm/process/context.c\<close>), and reading the field of an object
  (\<open>object_get_maybe_wrap\<close>, \<open>vm/vm.c\<close>).
\<close>

subsection \<open>Function references\<close>

(* src/entity/function/function.c __function_ref_init *)
definition function_ref_init :: "obj_id \<Rightarrow> obj_id \<Rightarrow> fun_id \<Rightarrow> ctx_id option \<Rightarrow> machine \<Rightarrow> machine" where
  "function_ref_init fn_ref obj f parent_context = set_internal fn_ref (IFuncRef obj f parent_context)"

definition func_ref_of :: "obj_id \<Rightarrow> machine \<Rightarrow> (obj_id \<times> fun_id \<times> ctx_id option) res" where
  "func_ref_of x m = (case o_internal (obj_at m x) of
     IFuncRef obj f c \<Rightarrow> Inr (obj, f, c) | _ \<Rightarrow> Inl (UB ''not a function reference''))"

(* src/entity/function/function.c function_ref_get_object *)
definition function_ref_get_object :: "obj_id \<Rightarrow> machine \<Rightarrow> obj_id res" where
  "function_ref_get_object x m = andThen (func_ref_of x m) (\<lambda>(obj, f, c). Inr obj)"

(* src/entity/function/function.c function_ref_get_func *)
definition function_ref_get_func :: "obj_id \<Rightarrow> machine \<Rightarrow> fun_id res" where
  "function_ref_get_func x m = andThen (func_ref_of x m) (\<lambda>(obj, f, c). Inr f)"

(* src/entity/function/function.c function_ref_get_parent_context *)
definition function_ref_get_parent_context :: "obj_id \<Rightarrow> machine \<Rightarrow> ctx_id option res" where
  "function_ref_get_parent_context x m = andThen (func_ref_of x m) (\<lambda>(obj, f, c). Inr c)"

text \<open>\<open>obj->_function_obj\<close>, \<open>obj->_class_obj\<close> and \<open>obj->_module_obj\<close>.\<close>

definition function_obj :: "obj_id \<Rightarrow> machine \<Rightarrow> fun_id res" where
  "function_obj x m = (case o_internal (obj_at m x) of
     IFunction f \<Rightarrow> Inr f | _ \<Rightarrow> Inl (UB ''not a function''))"

definition class_obj :: "obj_id \<Rightarrow> machine \<Rightarrow> cls_id res" where
  "class_obj x m = (case o_internal (obj_at m x) of
     IClass c \<Rightarrow> Inr c | _ \<Rightarrow> Inl (UB ''not a class''))"

definition module_obj :: "obj_id \<Rightarrow> machine \<Rightarrow> mod_id res" where
  "module_obj x m = (case o_internal (obj_at m x) of
     IModule md \<Rightarrow> Inr md | _ \<Rightarrow> Inl (UB ''not a module''))"

abbreviation class_of :: "machine \<Rightarrow> obj_id \<Rightarrow> cls_id" where "class_of m x \<equiv> o_class (obj_at m x)"

(* src/vm/process/context.c wrap_function_in_ref *)
definition wrap_function_in_ref ::
    "env \<Rightarrow> fun_id \<Rightarrow> obj_id \<Rightarrow> ctx_id option \<Rightarrow> machine \<Rightarrow> obj_id \<times> machine" where
  "wrap_function_in_ref e f obj ctx m =
     (let (fn_ref, m1) = heap_new (Class_FunctionRef e) m
      in (fn_ref, function_ref_init fn_ref obj f (if f_is_anon (fun_at m f) then ctx else None) m1))"

subsection \<open>Reading a variable\<close>

text \<open>
  The nearest of the contexts from \<open>c\<close> outwards that has the variable. A chain longer than the number
  of contexts would be endless.
\<close>

(* src/vm/process/context.c [68-75] context_lookup *)
fun enclosing :: "nat \<Rightarrow> ctx_id option \<Rightarrow> string \<Rightarrow> machine \<Rightarrow> (ctx_id \<times> entity) option res" where
  "enclosing n None name m = Inr None"
| "enclosing 0 (Some c) name m = Inl (UB ''endless chain of contexts'')"
| "enclosing (Suc n) (Some c) name m =
     (case object_get (x_member_obj (ctx_at m c)) name m of
        Some v \<Rightarrow> Inr (Some (c, v))
      | None \<Rightarrow> enclosing n (x_previous (ctx_at m c)) name m)"

text \<open>A member of \<open>self\<close> that is an anonymous function is wrapped at each reading.\<close>

(* src/vm/process/context.c [77-86] context_lookup *)
definition self_member :: "env \<Rightarrow> ctx_id \<Rightarrow> entity \<Rightarrow> machine \<Rightarrow> (entity \<times> machine) res" where
  "self_member e ctx mem m =
     (case mem of
        EObj x \<Rightarrow>
          if class_of m x = Class_Function e
          then andThen (function_obj x m) (\<lambda>f.
            if f_is_anon (fun_at m f)
            then let (r, m1) = wrap_function_in_ref e f (x_self (ctx_at m ctx)) (Some ctx) m
                 in Inr (EObj r, m1)
            else Inr (mem, m))
          else Inr (mem, m)
      | _ \<Rightarrow> Inr (mem, m))"

(* src/vm/process/context.c [94-120] context_lookup *)
definition lookup_module :: "env \<Rightarrow> ctx_id \<Rightarrow> string \<Rightarrow> machine \<Rightarrow> (entity option \<times> machine) res" where
  "lookup_module e ctx name m =
     (let md = x_module (ctx_at m ctx); self = x_self (ctx_at m ctx) in
      andThen (deref (m_reflection (mod_at m md))) (\<lambda>mr.
      case object_get mr name m of
        Some v \<Rightarrow> Inr (Some v, m)
      | None \<Rightarrow>
      (case module_lookup md name m of
        Some obj \<Rightarrow>
          (if class_of m obj = Class_Function e
           then andThen (function_obj obj m) (\<lambda>f.
             if f_is_anon (fun_at m f)
             then let (r, m1) = wrap_function_in_ref e f self (Some ctx) m in Inr (Some (EObj r), m1)
             else Inr (Some (EObj obj), object_set_member_obj mr name obj m))
           else Inr (Some (EObj obj), object_set_member_obj mr name obj m))
      | None \<Rightarrow>
      andThen (deref (m_reflection (mod_at m (Module_builtin e)))) (\<lambda>br.
      case object_get br name m of
        Some v \<Rightarrow> Inr (Some v, m)
      | None \<Rightarrow>
      (case module_lookup (Module_builtin e) name m of
        Some obj \<Rightarrow> Inr (Some (EObj obj), object_set_member_obj br name obj m)
      | None \<Rightarrow> Inr (None, m))))))"

(* src/vm/process/context.c context_lookup *)
definition context_lookup :: "env \<Rightarrow> ctx_id \<Rightarrow> string \<Rightarrow> machine \<Rightarrow> (entity option \<times> machine) res" where
  "context_lookup e ctx name m =
     (let self = x_self (ctx_at m ctx) in
      if name = ''self'' then Inr (Some (EObj self), m)
      else case object_get (x_member_obj (ctx_at m ctx)) name m of
        Some v \<Rightarrow> Inr (Some v, m)
      | None \<Rightarrow>
      andThen (enclosing (length (s_contexts m)) (x_previous (ctx_at m ctx)) name m) (\<lambda>found.
      case found of
        Some (c, v) \<Rightarrow> Inr (Some v, m)
      | None \<Rightarrow>
      (case object_get self name m of
        Some v \<Rightarrow> andThen (self_member e ctx v m) (\<lambda>(v', m'). Inr (Some v', m'))
      | None \<Rightarrow>
      andThen (class_get_function (class_of m self) name m) (\<lambda>f.
      case f of
        Some f \<Rightarrow>
          (let (r, m1) = wrap_function_in_ref e f self (Some ctx) m
           in Inr (Some (EObj r), object_set_member_obj self name r m1))
      | None \<Rightarrow> lookup_module e ctx name m))))"

subsection \<open>Writing a variable\<close>

(* src/vm/process/context.c context_let *)
definition context_let :: "ctx_id \<Rightarrow> string \<Rightarrow> entity \<Rightarrow> machine \<Rightarrow> machine" where
  "context_let ctx name v m = object_set_member (x_member_obj (ctx_at m ctx)) name v m"

(* src/vm/process/context.c context_set *)
definition context_set :: "ctx_id \<Rightarrow> string \<Rightarrow> entity \<Rightarrow> machine \<Rightarrow> machine res" where
  "context_set ctx name v m =
     (let own = x_member_obj (ctx_at m ctx) in
      if object_get own name m \<noteq> None then Inr (object_set_member own name v m)
      else andThen (enclosing (length (s_contexts m)) (x_previous (ctx_at m ctx)) name m) (\<lambda>found.
      case found of
        Some (c, old) \<Rightarrow> Inr (object_set_member (x_member_obj (ctx_at m c)) name v m)
      | None \<Rightarrow>
          if object_get (x_self (ctx_at m ctx)) name m \<noteq> None
          then Inr (object_set_member (x_self (ctx_at m ctx)) name v m)
          else Inr (object_set_member own name v m)))"

subsection \<open>Reading a field\<close>

text \<open>
  The loop walks up the superclasses but looks at the reflection of the class it started from each
  time. A member that is no object is read as one.
\<close>

(* src/vm/vm.c class_get_function_ref *)
fun find_function_ref ::
    "nat \<Rightarrow> env \<Rightarrow> cls_id \<Rightarrow> cls_id option \<Rightarrow> string \<Rightarrow> machine \<Rightarrow> obj_id option res" where
  "find_function_ref n e cls None name m = Inr None"
| "find_function_ref 0 e cls (Some k) name m = Inl (UB ''endless chain of superclasses'')"
| "find_function_ref (Suc n) e cls (Some k) name m =
     andThen (deref (k_reflection (cls_at m cls))) (\<lambda>r.
       case object_get r name m of
         Some (EObj x) \<Rightarrow>
           (if class_of m x = Class_FunctionRef e then Inr (Some x)
            else find_function_ref n e cls (k_super (cls_at m k)) name m)
       | Some _ \<Rightarrow> Inl (UB ''fref->obj read of a member that is no object'')
       | None \<Rightarrow> find_function_ref n e cls (k_super (cls_at m k)) name m)"

(* src/vm/vm.c class_get_function_ref *)
definition class_get_function_ref :: "env \<Rightarrow> cls_id \<Rightarrow> string \<Rightarrow> machine \<Rightarrow> obj_id option res" where
  "class_get_function_ref e cls name m =
     find_function_ref (length (s_classes m)) e cls (Some cls) name m"

text \<open>\<open>member\<close> is an entity; a method without reflection is a null object, whose class is then read.\<close>

(* src/vm/vm.c object_get_maybe_wrap *)
definition object_get_maybe_wrap ::
    "env \<Rightarrow> obj_id \<Rightarrow> string \<Rightarrow> ctx_id option \<Rightarrow> machine \<Rightarrow> (entity \<times> machine) res" where
  "object_get_maybe_wrap e obj field ctx m =
     (let cls = class_of m obj;
          wrap = (\<lambda>mem. case mem of
            EObj x \<Rightarrow>
              (if class_of m x = Class_Function e
               then andThen (function_obj x m) (\<lambda>f.
                 let (r, m1) = wrap_function_in_ref e f obj ctx m in Inr (EObj r, m1))
               else Inr (mem, m))
          | _ \<Rightarrow> Inr (mem, m))
      in case (if cls = Class_Class e then None else object_get obj field m) of
           Some mem \<Rightarrow> wrap mem
         | None \<Rightarrow>
             andThen (class_get_function cls field m) (\<lambda>found.
               case found of
                 Some f \<Rightarrow> andThen (deref (f_reflection (fun_at m f))) (\<lambda>r. wrap (EObj r))
               | None \<Rightarrow> andThen (class_get_function_ref e cls field m) (\<lambda>fref.
                   case fref of None \<Rightarrow> Inr (ENone, m) | Some x \<Rightarrow> Inr (EObj x, m))))"

end
