(* ===== verification/Errors.thy ===== *)
theory Errors imports Contexts begin

text \<open>
  Raising errors with their stack traces (\<open>entity/native/error.c\<close>) and futures
  (\<open>entity/native/async.c\<close>), the two native modules the machine itself calls.
\<close>

subsection \<open>Errors\<close>

text \<open>The contexts of a task from the innermost outwards, and the tasks from one to the first.\<close>

fun context_chain :: "nat \<Rightarrow> machine \<Rightarrow> ctx_id option \<Rightarrow> ctx_id list res" where
  "context_chain n m None = Inr []"
| "context_chain 0 m (Some c) = Inl (UB ''endless chain of contexts'')"
| "context_chain (Suc n) m (Some c) =
     andThen (context_chain n m (x_previous (ctx_at m c))) (\<lambda>cs. Inr (c # cs))"

fun task_chain :: "nat \<Rightarrow> machine \<Rightarrow> task_id option \<Rightarrow> task_id list res" where
  "task_chain n m None = Inr []"
| "task_chain 0 m (Some t) = Inl (UB ''endless chain of tasks'')"
| "task_chain (Suc n) m (Some t) =
     andThen (task_chain n m (a_parent (task_at m t))) (\<lambda>ts. Inr (t # ts))"

(* src/entity/native/error.c [106-115] _error_constructor *)
definition add_stackline :: "env \<Rightarrow> obj_id \<Rightarrow> ctx_id \<Rightarrow> machine \<Rightarrow> machine res" where
  "add_stackline e stacktrace c m =
     (let (stackline, m1) = heap_new (Class_StackLine e) m;
          x = ctx_at m1 c
      in andThen (tape_get_source (x_tape x) (unat (x_ins x))) (\<lambda>src.
         array_add stacktrace (EObj stackline)
           (set_internal stackline (IStackLine (x_module x) (x_func x) (sm_token src)) m1)))"

text \<open>The constructor on a string.\<close>

(* src/entity/native/error.c _error_constructor *)
definition error_fill :: "env \<Rightarrow> task_id \<Rightarrow> obj_id \<Rightarrow> obj_id \<Rightarrow> machine \<Rightarrow> machine res" where
  "error_fill e t obj msg m =
     (let m1 = object_set_member_obj obj ''message'' msg m;
          (stacktrace, m2) = heap_new (Class_Array e) m1
      in andThen (task_chain (length (s_tasks m2)) m2 (Some t)) (\<lambda>ts.
         andThen (foldRes (\<lambda>t' m.
             andThen (context_chain (length (s_contexts m)) m (a_current (task_at m t'))) (\<lambda>cs.
               foldRes (add_stackline e stacktrace) cs m)) ts m2) (\<lambda>m3.
         Inr (object_set_member_obj obj ''stacktrace'' stacktrace m3))))"

(* src/entity/native/error.c error_new *)
definition error_new :: "env \<Rightarrow> task_id \<Rightarrow> obj_id \<Rightarrow> machine \<Rightarrow> (obj_id \<times> machine) res" where
  "error_new e t msg m =
     (let (err, m1) = heap_new (Class_Error e) m
      in andThen (error_fill e t err msg m1) (\<lambda>m2. Inr (err, m2)))"

(* src/entity/native/error.c raise_error_with_object *)
definition raise_error_with_object :: "task_id \<Rightarrow> ctx_id \<Rightarrow> obj_id \<Rightarrow> machine \<Rightarrow> machine" where
  "raise_error_with_object t ctx err m =
     task_set_resval t (EObj err) (upd_ctx ctx (\<lambda>x. x\<lparr>x_error := Some err\<rparr>) m)"

text \<open>\<open>msg\<close> is the text that \<open>vsprintf\<close> writes into a buffer of 1024 characters.\<close>

(* src/entity/native/error.c raise_error *)
definition raise_error :: "env \<Rightarrow> task_id \<Rightarrow> ctx_id \<Rightarrow> string \<Rightarrow> machine \<Rightarrow> machine res" where
  "raise_error e t ctx msg m =
     (if 1024 \<le> length msg then Inl (UB ''vsprintf past the end of buffer'')
      else let (error_msg, m1) = string_new e msg m
           in andThen (error_new e t error_msg m1) (\<lambda>(err, m2).
              Inr (raise_error_with_object t ctx err m2)))"

(* src/entity/native/error.c _error_constructor *)
definition error_constructor ::
    "env \<Rightarrow> task_id \<Rightarrow> ctx_id \<Rightarrow> obj_id \<Rightarrow> entity \<Rightarrow> machine \<Rightarrow> (entity \<times> machine) res" where
  "error_constructor e t ctx obj args m =
     (case args of
        EObj x \<Rightarrow>
          if class_of m x = Class_String e
          then andThen (error_fill e t obj x m) (\<lambda>m1. Inr (EObj obj, m1))
          else andThen (raise_error e t ctx ''Error argument is not a String.'' m)
                 (\<lambda>m1. Inr (task_get_resval t m1, m1))
      | _ \<Rightarrow> andThen (raise_error e t ctx ''Error argument is not a String.'' m)
                 (\<lambda>m1. Inr (task_get_resval t m1, m1)))"

subsection \<open>Futures\<close>

(* src/entity/native/async.c [13-16] _Future *)
definition future_of :: "obj_id \<Rightarrow> machine \<Rightarrow> (task_id option \<times> bool \<times> bool) res" where
  "future_of obj m = (case o_internal (obj_at m obj) of
     IFuture t complete rset \<Rightarrow> Inr (t, complete, rset) | _ \<Rightarrow> Inl (UB ''not a future''))"

text \<open>What the initialiser of the class \<open>Future\<close> stores.\<close>

(* src/entity/native/async.c _future_init *)
definition future_init :: internal where
  "future_init = IFuture None False False"

(* src/entity/native/async.c future_create *)
definition future_create :: "env \<Rightarrow> task_id \<Rightarrow> machine \<Rightarrow> (obj_id \<times> machine) res" where
  "future_create e t m =
     (let (obj, m1) = heap_new (Class_Future e) m
      in andThen (future_of obj m1) (\<lambda>(_, complete, rset).
         Inr (obj, set_internal obj (IFuture (Some t) complete rset) m1)))"

(* src/entity/native/async.c future_is_complete *)
definition future_is_complete :: "obj_id \<Rightarrow> machine \<Rightarrow> (bool \<times> machine) res" where
  "future_is_complete obj m = andThen (future_of obj m) (\<lambda>(t, complete, rset).
     if complete then Inr (True, m)
     else andThen (deref t) (\<lambda>t'.
       let c = (a_state (task_at m t') = TASK_COMPLETE \<or> a_state (task_at m t') = TASK_ERROR)
       in Inr (c, set_internal obj (IFuture t c rset) m)))"

(* src/entity/native/async.c future_get_task *)
definition future_get_task :: "obj_id \<Rightarrow> machine \<Rightarrow> task_id res" where
  "future_get_task obj m = andThen (future_of obj m) (\<lambda>(t, _, _). deref t)"

(* src/entity/native/async.c _future_value *)
definition future_value :: "env \<Rightarrow> entity \<Rightarrow> machine \<Rightarrow> (entity \<times> machine) res" where
  "future_value e args m =
     (let (f_obj, m1) = heap_new (Class_Future e) m
      in andThen (future_of f_obj m1) (\<lambda>(t, _, _).
         let m2 = set_internal f_obj (IFuture t True True) m1
         in Inr (EObj f_obj, object_set_member f_obj ''$resval'' args m2)))"

(* src/entity/native/async.c future_get_value *)
definition future_get_value :: "env \<Rightarrow> obj_id \<Rightarrow> machine \<Rightarrow> (entity \<times> machine) res" where
  "future_get_value e obj m =
     assert_that (class_of m obj = Class_Future e) ''obj->_class == Class_Future''
       (andThen (future_of obj m) (\<lambda>(t, complete, rset).
          if rset then andThen (deref (object_get obj ''$resval'' m)) (\<lambda>v. Inr (v, m))
          else andThen (deref t) (\<lambda>t'.
            let v = task_get_resval t' m;
                m1 = object_set_member obj ''$resval'' v m
            in Inr (v, set_internal obj (IFuture t complete True) m1))))"

end
