(* ===== verification/Machine.thy ===== *)
theory Machine imports Errors begin

text \<open>
  The instructions of \<open>vm/virtual_machine.c\<close>: one definition per \<open>_execute_\<close> function, on the task
  \<open>t\<close>, the context \<open>c\<close> and the instruction. An operation that returns a \<open>bool\<close> in the code answers
  whether the task must now wait for another. \<open>raise_error\<close> is an ordinary outcome: it leaves the error
  in the context, where the loop finds it. What C leaves undefined (signed overflow, division by zero, a
  null pointer read) is an outcome \<open>UB\<close>.
\<close>

subsection \<open>Arithmetic\<close>

definition checked :: "int \<Rightarrow> i32 res" where
  "checked i = (if - (2 ^ 31) \<le> i \<and> i < 2 ^ 31 then Inr (word_of_int i)
                else Inl (UB ''signed overflow''))"

definition c_bool :: "bool \<Rightarrow> i32" where
  "c_bool b = (if b then 1 else 0)"

definition c_quot :: "int \<Rightarrow> int \<Rightarrow> int" where
  "c_quot a b = sgn a * sgn b * (\<bar>a\<bar> div \<bar>b\<bar>)"

text \<open>The C operators on \<open>int\<close> that the macros are given.\<close>

fun c_int_op :: "op \<Rightarrow> i32 \<Rightarrow> i32 \<Rightarrow> i32 res" where
  "c_int_op ADD a b = checked (sint a + sint b)"
| "c_int_op SUB a b = checked (sint a - sint b)"
| "c_int_op MULT a b = checked (sint a * sint b)"
| "c_int_op DIV a b = (if b = 0 then Inl (UB ''division by zero'')
                       else checked (c_quot (sint a) (sint b)))"
| "c_int_op MOD a b = (if b = 0 then Inl (UB ''division by zero'')
                       else andThen (checked (c_quot (sint a) (sint b)))
                              (\<lambda>q. checked (sint a - sint b * sint q)))"
| "c_int_op LT a b = Inr (c_bool (sint a < sint b))"
| "c_int_op GT a b = Inr (c_bool (sint b < sint a))"
| "c_int_op LTE a b = Inr (c_bool (sint a \<le> sint b))"
| "c_int_op GTE a b = Inr (c_bool (sint b \<le> sint a))"
| "c_int_op AND_O a b = Inr (c_bool (a \<noteq> 0 \<and> b \<noteq> 0))"
| "c_int_op OR_O a b = Inr (c_bool (a \<noteq> 0 \<or> b \<noteq> 0))"
| "c_int_op BAND a b = Inr (a AND b)"
| "c_int_op BXOR a b = Inr (a XOR b)"
| "c_int_op BOR a b = Inr (a OR b)"
| "c_int_op _ a b = Inl (Fatal ''no such operation'')"

text \<open>The operators on \<open>double\<close>; a comparison yields an \<open>int\<close> that becomes a \<open>double\<close> again.\<close>

fun c_float_op :: "fops \<Rightarrow> op \<Rightarrow> f64 \<Rightarrow> f64 \<Rightarrow> f64 res" where
  "c_float_op fo ADD a b = Inr (fadd fo a b)"
| "c_float_op fo SUB a b = Inr (fsub fo a b)"
| "c_float_op fo MULT a b = Inr (fmul fo a b)"
| "c_float_op fo DIV a b = Inr (fdiv fo a b)"
| "c_float_op fo LT a b = Inr (f_of_i32 fo (c_bool (flt fo a b)))"
| "c_float_op fo GT a b = Inr (f_of_i32 fo (c_bool (flt fo b a)))"
| "c_float_op fo LTE a b = Inr (f_of_i32 fo (c_bool (fle fo a b)))"
| "c_float_op fo GTE a b = Inr (f_of_i32 fo (c_bool (fle fo b a)))"
| "c_float_op fo _ a b = Inl (Fatal ''Op not valid for FP types.'')"

text \<open>\<open>_execute_primitive_<op>\<close>: \<open>MATH_OP\<close> and \<open>MATH_OP_INT\<close> differ only in the answer for floats.\<close>

(* src/vm/virtual_machine.c [80-102] MATH_OP *)
definition execute_primitive :: "fops \<Rightarrow> op \<Rightarrow> primitive \<Rightarrow> primitive \<Rightarrow> primitive res" where
  "execute_primitive fo p p1 p2 =
     (if PT_FLOAT = ptype p1 \<or> PT_FLOAT = ptype p2
      then andThen (c_float_op fo p (float_of fo p1) (float_of fo p2)) (\<lambda>r. Inr (primitive_float r))
      else if PT_INT = ptype p1 \<or> PT_INT = ptype p2
      then andThen (c_int_op p (int_of fo p1) (int_of fo p2)) (\<lambda>r. Inr (primitive_int r))
      else andThen (c_int_op p (scast (char_of_prim fo p1)) (scast (char_of_prim fo p2)))
             (\<lambda>r. Inr (primitive_int r)))"

text \<open>The operands of an operation; \<open>None\<close> when an error was raised instead.\<close>

(* src/vm/virtual_machine.c [108-147] PRIMITIVE_OP *)
definition primitive_operands :: "env \<Rightarrow> string \<Rightarrow> task_id \<Rightarrow> ctx_id \<Rightarrow> operand \<Rightarrow> machine \<Rightarrow>
    ((primitive \<times> primitive) option \<times> machine) res" where
  "primitive_operands e name t c arg m =
     (let lhs_error = (\<lambda>m. andThen (raise_error e t c
            (''LHS for op '' @ [CHR 0x27] @ name @ [CHR 0x27] @ '' must be primitive.'') m)
            (\<lambda>m'. Inr (None, m')));
          rhs_error = (\<lambda>m. andThen (raise_error e t c
            (''RHS for op '' @ [CHR 0x27] @ name @ [CHR 0x27] @ '' must be primitive.'') m)
            (\<lambda>m'. Inr (None, m')))
      in case arg of
        NoArg \<Rightarrow> andThen (task_popstack t m) (\<lambda>(second, m1).
          case second of
            EPrim q \<Rightarrow> andThen (task_popstack t m1) (\<lambda>(first, m2).
              (case first of EPrim p \<Rightarrow> Inr (Some (p, q), m2) | _ \<Rightarrow> lhs_error m2))
          | _ \<Rightarrow> rhs_error m1)
      | IdArg name' \<Rightarrow>
          (case task_get_resval t m of
             EPrim p \<Rightarrow> andThen (context_lookup e c name' m) (\<lambda>(lookup, m1).
               case lookup of
                 None \<Rightarrow> Inl (UB ''null pointer'')
               | Some (EPrim q) \<Rightarrow> Inr (Some (p, q), m1)
               | Some _ \<Rightarrow> rhs_error m1)
           | _ \<Rightarrow> lhs_error m)
      | PrimArg q \<Rightarrow>
          (case task_get_resval t m of
             EPrim p \<Rightarrow> Inr (Some (p, q), m) | _ \<Rightarrow> lhs_error m)
      | StrArg s \<Rightarrow> Inl (Fatal ''Invalid arg type''))"

(* src/vm/virtual_machine.c [104-151] PRIMITIVE_OP *)
definition primitive_op :: "env \<Rightarrow> string \<Rightarrow> op \<Rightarrow> task_id \<Rightarrow> ctx_id \<Rightarrow> operand \<Rightarrow> machine \<Rightarrow> machine res" where
  "primitive_op e name p t c arg m = andThen (primitive_operands e name t c arg m) (\<lambda>(ops, m1).
     case ops of
       None \<Rightarrow> Inr m1
     | Some (a, b) \<Rightarrow> andThen (execute_primitive (en_fo e) p a b) (\<lambda>r.
         Inr (task_set_resval t (entity_primitive r) m1)))"

(* src/vm/virtual_machine.c [153-204] PRIMITIVE_BOOL_OP *)
definition primitive_bool_op ::
    "env \<Rightarrow> string \<Rightarrow> op \<Rightarrow> task_id \<Rightarrow> ctx_id \<Rightarrow> operand \<Rightarrow> machine \<Rightarrow> machine res" where
  "primitive_bool_op e name p t c arg m = andThen (primitive_operands e name t c arg m) (\<lambda>(ops, m1).
     case ops of
       None \<Rightarrow> Inr m1
     | Some (a, b) \<Rightarrow> andThen (execute_primitive (en_fo e) p a b) (\<lambda>r.
         Inr (task_set_resval t (if int_of (en_fo e) r = 0 then ENone else entity_primitive r) m1)))"

text \<open>The instances of the two macros.\<close>

(* src/vm/virtual_machine.c [206-219] PRIMITIVE_OP *)
definition execute_math :: "env \<Rightarrow> op \<Rightarrow> task_id \<Rightarrow> ctx_id \<Rightarrow> operand \<Rightarrow> machine \<Rightarrow> machine res" where
  "execute_math e p t c arg m = (case p of
     ADD \<Rightarrow> primitive_op e ''ADD'' ADD t c arg m
   | SUB \<Rightarrow> primitive_op e ''SUB'' SUB t c arg m
   | MULT \<Rightarrow> primitive_op e ''MULT'' MULT t c arg m
   | DIV \<Rightarrow> primitive_op e ''DIV'' DIV t c arg m
   | LT \<Rightarrow> primitive_bool_op e ''LT'' LT t c arg m
   | GT \<Rightarrow> primitive_bool_op e ''GT'' GT t c arg m
   | LTE \<Rightarrow> primitive_bool_op e ''LTE'' LTE t c arg m
   | GTE \<Rightarrow> primitive_bool_op e ''GTE'' GTE t c arg m
   | MOD \<Rightarrow> primitive_op e ''MOD'' MOD t c arg m
   | AND_O \<Rightarrow> primitive_op e ''AND'' AND_O t c arg m
   | OR_O \<Rightarrow> primitive_op e ''OR'' OR_O t c arg m
   | BAND \<Rightarrow> primitive_op e ''BAND'' BAND t c arg m
   | BXOR \<Rightarrow> primitive_op e ''BXOR'' BXOR t c arg m
   | BOR \<Rightarrow> primitive_op e ''BOR'' BOR t c arg m
   | _ \<Rightarrow> Inl (Fatal ''no such operation''))"

definition or_none :: "entity option \<Rightarrow> entity" where
  "or_none v = (case v of None \<Rightarrow> ENone | Some x \<Rightarrow> x)"

(* src/vm/virtual_machine.c _execute_BOR_with_obj *)
definition execute_BOR_with_obj :: "env \<Rightarrow> task_id \<Rightarrow> ctx_id \<Rightarrow> operand \<Rightarrow> machine \<Rightarrow> machine res" where
  "execute_BOR_with_obj e t c arg m =
     (case arg of
        NoArg \<Rightarrow> andThen (task_peekstack_n t 1 m) (\<lambda>tmp.
          if etype tmp = ET_PRIMITIVE then execute_math e BOR t c arg m
          else andThen (task_popstack t m) (\<lambda>(second, m1).
               andThen (task_popstack t m1) (\<lambda>(first, m2).
               Inr (task_set_resval t (if first = ENone then second else first) m2))))
      | IdArg name \<Rightarrow>
          (case task_get_resval t m of
             EPrim p \<Rightarrow> execute_math e BOR t c arg m
           | EObj x \<Rightarrow> Inr (task_set_resval t (EObj x) m)
           | ENone \<Rightarrow> andThen (context_lookup e c name m) (\<lambda>(tmp, m1).
               Inr (task_set_resval t (or_none tmp) m1)))
      | PrimArg v \<Rightarrow>
          (case task_get_resval t m of
             EPrim p \<Rightarrow> execute_math e BOR t c arg m
           | EObj x \<Rightarrow> Inr m
           | ENone \<Rightarrow> Inr (task_set_resval t (entity_primitive v) m))
      | StrArg s \<Rightarrow> Inl (Fatal ''Invalid arg type for BOR.''))"

subsection \<open>Moving values\<close>

text \<open>\<open>__string_init(str, ins->str + 1, strlen(ins->str) - 2)\<close>: the literal without its quotes.\<close>

definition new_literal :: "env \<Rightarrow> string \<Rightarrow> machine \<Rightarrow> (obj_id \<times> machine) res" where
  "new_literal e s m =
     (let (str, m1) = heap_new (Class_String e) m
      in if length s < 2 then Inl (UB ''strlen(ins->str) - 2'')
         else Inr (str, string_init str (take (length s - 2) (drop 1 s)) m1))"

(* src/vm/virtual_machine.c _execute_RES *)
definition execute_RES :: "env \<Rightarrow> task_id \<Rightarrow> ctx_id \<Rightarrow> operand \<Rightarrow> machine \<Rightarrow> machine res" where
  "execute_RES e t c arg m =
     (case arg of
        NoArg \<Rightarrow> andThen (task_popstack t m) (\<lambda>(v, m1). Inr (task_set_resval t v m1))
      | IdArg name \<Rightarrow> andThen (context_lookup e c name m) (\<lambda>(v, m1).
          Inr (task_set_resval t (or_none v) m1))
      | PrimArg v \<Rightarrow> Inr (task_set_resval t (entity_primitive v) m)
      | StrArg s \<Rightarrow> andThen (new_literal e s m) (\<lambda>(str, m1).
          Inr (task_set_resval t (entity_object str) m1)))"

(* src/vm/virtual_machine.c _execute_PEEK *)
definition execute_PEEK :: "env \<Rightarrow> task_id \<Rightarrow> ctx_id \<Rightarrow> operand \<Rightarrow> machine \<Rightarrow> machine res" where
  "execute_PEEK e t c arg m =
     (case arg of
        NoArg \<Rightarrow> andThen (task_peekstack t m) (\<lambda>v. Inr (task_set_resval t v m))
      | IdArg name \<Rightarrow> andThen (context_lookup e c name m) (\<lambda>(v, m1).
          Inr (task_set_resval t (or_none v) m1))
      | _ \<Rightarrow> Inl (Fatal ''Invalid arg type for PEEK.''))"

(* src/vm/virtual_machine.c _execute_DUP *)
definition execute_DUP :: "task_id \<Rightarrow> operand \<Rightarrow> machine \<Rightarrow> machine res" where
  "execute_DUP t arg m =
     assert_that (arg = NoArg) ''Invalid arg type for DUP.''
       (andThen (task_peekstack t m) (\<lambda>peek. Inr (task_pushstack t peek m)))"

(* src/vm/virtual_machine.c _execute_PUSH *)
definition execute_PUSH :: "env \<Rightarrow> task_id \<Rightarrow> ctx_id \<Rightarrow> operand \<Rightarrow> machine \<Rightarrow> machine res" where
  "execute_PUSH e t c arg m =
     (case arg of
        NoArg \<Rightarrow> Inr (task_pushstack t (task_get_resval t m) m)
      | IdArg name \<Rightarrow> andThen (context_lookup e c name m) (\<lambda>(v, m1).
          Inr (task_pushstack t (or_none v) m1))
      | PrimArg v \<Rightarrow> Inr (task_pushstack t (entity_primitive v) m)
      | StrArg s \<Rightarrow> andThen (new_literal e s m) (\<lambda>(str, m1).
          Inr (task_pushstack t (entity_object str) m1)))"

(* src/vm/virtual_machine.c _execute_PNIL *)
definition execute_PNIL :: "task_id \<Rightarrow> operand \<Rightarrow> machine \<Rightarrow> machine res" where
  "execute_PNIL t arg m =
     assert_that (arg = NoArg) ''Invalid arg type for PNIL.'' (Inr (task_pushstack t ENone m))"

(* src/vm/virtual_machine.c _execute_RNIL *)
definition execute_RNIL :: "task_id \<Rightarrow> operand \<Rightarrow> machine \<Rightarrow> machine res" where
  "execute_RNIL t arg m =
     assert_that (arg = NoArg) ''Invalid arg type for RNIL.'' (Inr (task_set_resval t ENone m))"

subsection \<open>Variables and fields\<close>

(* src/vm/virtual_machine.c _execute_FLD *)
definition execute_FLD :: "env \<Rightarrow> task_id \<Rightarrow> ctx_id \<Rightarrow> operand \<Rightarrow> machine \<Rightarrow> machine res" where
  "execute_FLD e t c arg m =
     (case arg of
        IdArg name \<Rightarrow>
          (case task_get_resval t m of
             EObj x \<Rightarrow> andThen (task_popstack t m) (\<lambda>(v, m1). Inr (object_set_member x name v m1))
           | _ \<Rightarrow> raise_error e t c (''Attempted to set field '' @ [CHR 0x27] @ name @ [CHR 0x27] @
                    '' on something not an object.'') m)
      | _ \<Rightarrow> Inl (Fatal ''Invalid arg type for FLD.''))"

(* src/vm/virtual_machine.c _execute_LET *)
definition execute_LET :: "task_id \<Rightarrow> ctx_id \<Rightarrow> operand \<Rightarrow> machine \<Rightarrow> machine res" where
  "execute_LET t c arg m =
     (case arg of
        IdArg name \<Rightarrow> Inr (context_let c name (task_get_resval t m) m)
      | _ \<Rightarrow> Inl (Fatal ''Invalid arg type for LET.''))"

(* src/vm/virtual_machine.c _execute_SET *)
definition execute_SET :: "task_id \<Rightarrow> ctx_id \<Rightarrow> operand \<Rightarrow> machine \<Rightarrow> machine res" where
  "execute_SET t c arg m =
     (case arg of
        IdArg name \<Rightarrow> context_set c name (task_get_resval (x_task (ctx_at m c)) m) m
      | _ \<Rightarrow> Inl (Fatal ''Invalid arg type for SET.''))"

definition get_error :: "string \<Rightarrow> entity \<Rightarrow> string" where
  "get_error name v = ''Attempted to get field '' @ [CHR 0x27] @ name @ [CHR 0x27] @ '' from a '' @
     (if v = ENone then ''None'' else ''Primtive'') @ ''.''"

(* src/vm/virtual_machine.c _execute_GET *)
definition execute_GET :: "env \<Rightarrow> task_id \<Rightarrow> ctx_id \<Rightarrow> operand \<Rightarrow> machine \<Rightarrow> machine res" where
  "execute_GET e t c arg m =
     (case arg of
        IdArg name \<Rightarrow>
          (case task_get_resval t m of
             EObj x \<Rightarrow> andThen (object_get_maybe_wrap e x name (Some c) m) (\<lambda>(v, m1).
               Inr (task_set_resval t v m1))
           | v \<Rightarrow> raise_error e t c (get_error name v) m)
      | _ \<Rightarrow> Inl (Fatal ''Invalid arg type for GET.''))"

(* src/vm/virtual_machine.c _execute_GTSH *)
definition execute_GTSH :: "env \<Rightarrow> task_id \<Rightarrow> ctx_id \<Rightarrow> operand \<Rightarrow> machine \<Rightarrow> machine res" where
  "execute_GTSH e t c arg m =
     (case arg of
        IdArg name \<Rightarrow>
          (case task_get_resval t m of
             EObj x \<Rightarrow> andThen (object_get_maybe_wrap e x name (Some c) m) (\<lambda>(v, m1).
               Inr (task_pushstack t v m1))
           | v \<Rightarrow> raise_error e t c (get_error name v) m)
      | _ \<Rightarrow> Inl (Fatal ''Invalid arg type for GTSH.''))"

subsection \<open>Blocks and jumps\<close>

text \<open>\<open>ins->val._int_val\<close>.\<close>

definition jump_val :: "primitive \<Rightarrow> i32 res" where
  "jump_val v = (case v of PInt i \<Rightarrow> Inr i | _ \<Rightarrow> Inl (UB ''_int_val of another type''))"

(* src/vm/virtual_machine.c _execute_NBLK *)
definition execute_NBLK :: "env \<Rightarrow> ctx_id \<Rightarrow> operand \<Rightarrow> machine \<Rightarrow> (ctx_id \<times> machine) res" where
  "execute_NBLK e c arg m =
     assert_that (arg = NoArg) ''Invalid arg type for NBLK.''
       (let x = ctx_at m c in Inr (task_create_context e (x_task x) (x_self x) (x_module x) (x_ins x) m))"

(* src/vm/virtual_machine.c _execute_BBLK *)
definition execute_BBLK :: "task_id \<Rightarrow> operand \<Rightarrow> machine \<Rightarrow> (ctx_id option \<times> machine) res" where
  "execute_BBLK t arg m =
     assert_that (arg = NoArg) ''Invalid arg type for BBLK.'' (task_back_context t m)"

definition skip_ins :: "ctx_id \<Rightarrow> u32 \<Rightarrow> machine \<Rightarrow> machine" where
  "skip_ins c n = upd_ctx c (\<lambda>x. x\<lparr>x_ins := x_ins x + n\<rparr>)"

(* src/vm/virtual_machine.c _execute_JMP *)
definition execute_JMP :: "ctx_id \<Rightarrow> operand \<Rightarrow> machine \<Rightarrow> machine res" where
  "execute_JMP c arg m =
     (case arg of
        PrimArg v \<Rightarrow> andThen (jump_val v) (\<lambda>n. Inr (skip_ins c n m))
      | _ \<Rightarrow> Inl (Fatal ''Invalid arg type for JMP.''))"

(* src/vm/virtual_machine.c _execute_IF *)
definition execute_IF :: "op \<Rightarrow> task_id \<Rightarrow> ctx_id \<Rightarrow> operand \<Rightarrow> machine \<Rightarrow> machine res" where
  "execute_IF p t c arg m =
     (case arg of
        PrimArg v \<Rightarrow>
          (let is_false = (task_get_resval t m = ENone)
           in if (is_false \<and> p = IFN) \<or> (\<not> is_false \<and> p = IF)
              then andThen (jump_val v) (\<lambda>n. Inr (skip_ins c n m))
              else Inr m)
      | _ \<Rightarrow> Inl (Fatal ''Invalid arg type for IF.''))"

(* src/vm/virtual_machine.c _execute_EXIT *)
definition execute_EXIT :: "task_id \<Rightarrow> ctx_id \<Rightarrow> operand \<Rightarrow> machine \<Rightarrow> machine res" where
  "execute_EXIT t c arg m =
     (case arg of
        PrimArg v \<Rightarrow> Inr (skip_ins c 1
          (upd_task t (\<lambda>x. x\<lparr>a_state := TASK_COMPLETE\<rparr>) (task_set_resval t (entity_primitive v) m)))
      | _ \<Rightarrow> Inl (Fatal ''Invalid resval type.''))"

(* src/vm/virtual_machine.c _execute_RET *)
definition execute_RET :: "env \<Rightarrow> task_id \<Rightarrow> ctx_id \<Rightarrow> operand \<Rightarrow> machine \<Rightarrow> machine res" where
  "execute_RET e t c arg m =
     (case arg of
        NoArg \<Rightarrow> Inr m
      | IdArg name \<Rightarrow> andThen (context_lookup e c name m) (\<lambda>(v, m1).
          andThen (deref v) (\<lambda>x. Inr (task_set_resval t x m1)))
      | PrimArg v \<Rightarrow> Inr (task_set_resval t (entity_primitive v) m)
      | StrArg s \<Rightarrow> Inl (Fatal ''Invalid arg type for RET.''))"

(* src/vm/virtual_machine.c _execute_NOT *)
definition execute_NOT :: "task_id \<Rightarrow> operand \<Rightarrow> machine \<Rightarrow> machine res" where
  "execute_NOT t arg m =
     assert_that (arg = NoArg) ''Invalid arg type for NOT.''
       (Inr (task_set_resval t (if task_get_resval t m = ENone then entity_int 1 else ENone) m))"

end
