(* ===== verification/Calls.thy ===== *)
theory Calls imports Machine begin

text \<open>
  The instructions of \<open>vm/virtual_machine.c\<close> that start tasks or build objects: calls, methods and
  constructors, comparison, indexing, arrays and tuples, type tests, modules, errors and futures.
\<close>

subsection \<open>Starting tasks\<close>

(* src/vm/virtual_machine.c _execute_as_new_task *)
definition execute_as_new_task ::
    "env \<Rightarrow> task_id \<Rightarrow> obj_id \<Rightarrow> mod_id \<Rightarrow> u32 \<Rightarrow> machine \<Rightarrow> ctx_id \<times> machine" where
  "execute_as_new_task e t self md ins_pos m =
     (let (new_task, m1) = process_create_task e m;
          m2 = upd_task new_task (\<lambda>x. x\<lparr>a_parent := Some t\<rparr>) m1;
          (ctx, m3) = task_create_context e new_task self md ins_pos m2
      in (ctx, task_set_resval new_task (task_get_resval t m3) m3))"

text \<open>
  The answer tells whether the calling task must wait. A native function runs at once, unless it is a
  background function: that one is handed to the thread pool with a task of its own.
\<close>

(* src/vm/virtual_machine.c _call_function_base *)
definition call_function_base :: "env \<Rightarrow> task_id \<Rightarrow> ctx_id option \<Rightarrow> fun_id \<Rightarrow> obj_id \<Rightarrow> ctx_id option \<Rightarrow>
    machine \<Rightarrow> (bool \<times> machine) res" where
  "call_function_base e t ctx f self parent_context m =
     (let func = fun_at m f in
      if f_is_native func
      then (case f_native_fn func of
        None \<Rightarrow> Inl (Fatal ''Invalid native function.'')
      | Some native_fn \<Rightarrow>
          if f_is_background func
          then (let (new_task, m1) = process_create_unqueued_task e m;
                    m2 = upd_task new_task (\<lambda>x. x\<lparr>a_parent := Some t\<rparr>) m1
                in assert_that (f_is_async func) ''func->_is_async''
                  (let m3 = task_set_resval new_task (task_get_resval t m2) m2
                   in andThen (future_create e new_task m3) (\<lambda>(future, m4).
                     let m5 = task_set_resval t (entity_object future) m4
                     in Inr (False, m5\<lparr>s_background := s_background m5 @
                          [\<lparr>b_task = new_task, b_context = ctx, b_func = f, b_self = self\<rparr>]\<rparr>))))
          else andThen (en_native e native_fn t ctx self (task_get_resval t m) m) (\<lambda>(v, m1).
                 Inr (False, task_set_resval t v m1)))
      else (let (fn_ctx, m1) = execute_as_new_task e t self (f_module func) (of_nat (f_ins_pos func)) m;
                m2 = context_set_function fn_ctx f m1;
                m3 = (if f_is_anon func
                      then upd_ctx fn_ctx (\<lambda>x. x\<lparr>x_previous := parent_context\<rparr>) m2 else m2);
                new_task = x_task (ctx_at m3 fn_ctx)
            in if f_is_async func
               then andThen (future_create e new_task m3) (\<lambda>(future, m4).
                      Inr (False, task_set_resval t (entity_object future) m4))
               else Inr (True, add_dependent new_task t m3)))"

text \<open>\<open>raise_error\<close> and \<open>return false\<close>.\<close>

definition fail_with :: "env \<Rightarrow> task_id \<Rightarrow> ctx_id \<Rightarrow> string \<Rightarrow> machine \<Rightarrow> (bool \<times> machine) res" where
  "fail_with e t c msg m = andThen (raise_error e t c msg m) (\<lambda>m1. Inr (False, m1))"

definition quoted :: "string \<Rightarrow> string" where
  "quoted s = [CHR 0x27] @ s @ [CHR 0x27]"

definition call_func_ref :: "env \<Rightarrow> task_id \<Rightarrow> obj_id \<Rightarrow> ctx_id \<Rightarrow> machine \<Rightarrow> (bool \<times> machine) res" where
  "call_func_ref e t ref c m =
     andThen (function_ref_get_func ref m) (\<lambda>f.
     andThen (function_ref_get_object ref m) (\<lambda>obj.
     andThen (function_ref_get_parent_context ref m) (\<lambda>pc.
       call_function_base e t (Some c) f obj pc m)))"

(* src/vm/virtual_machine.c _call_method *)
definition call_method ::
    "env \<Rightarrow> task_id \<Rightarrow> obj_id \<Rightarrow> ctx_id \<Rightarrow> string \<Rightarrow> machine \<Rightarrow> (bool \<times> machine) res" where
  "call_method e t obj c name m =
     (let cname = k_name (cls_at m (class_of m obj)) in
      andThen (object_get_maybe_wrap e obj name (Some c) m) (\<lambda>(method, m1).
      case method of
        ENone \<Rightarrow> fail_with e t c (''Failed to find method '' @ quoted name @ '' on '' @ cname) m1
      | EPrim p \<Rightarrow> fail_with e t c
          (''Attempted to treat '' @ quoted name @ '' on '' @ cname @ '' as a method.'') m1
      | EObj x \<Rightarrow>
          if class_of m1 x \<noteq> Class_FunctionRef e
          then fail_with e t c (''Attempted to treat '' @ quoted name @ '' of type '' @ quoted [] @
                 '' on '' @ k_name (cls_at m1 (class_of m1 x)) @ '' as a method.'') m1
          else call_func_ref e t x c m1))"

(* src/vm/virtual_machine.c _call_function *)
definition call_function ::
    "env \<Rightarrow> task_id \<Rightarrow> ctx_id option \<Rightarrow> fun_id \<Rightarrow> machine \<Rightarrow> (bool \<times> machine) res" where
  "call_function e t ctx f m =
     andThen (deref (m_reflection (mod_at m (f_module (fun_at m f))))) (\<lambda>self.
       call_function_base e t ctx f self ctx m)"

text \<open>\<open>CLLN\<close> calls without argument.\<close>

definition clear_arg :: "op \<Rightarrow> task_id \<Rightarrow> machine \<Rightarrow> machine" where
  "clear_arg p t m = (if p = CLLN then task_set_resval t ENone m else m)"

(* src/vm/virtual_machine.c [690-727] _execute_CALL *)
definition call_value :: "env \<Rightarrow> op \<Rightarrow> task_id \<Rightarrow> ctx_id \<Rightarrow> entity \<Rightarrow> machine \<Rightarrow> (bool \<times> machine) res" where
  "call_value e p t c fn m =
     (case fn of
        EObj x \<Rightarrow>
          (if class_of m x = Class_Class e
           then andThen (class_obj x m) (\<lambda>cls.
             let (obj, m1) = heap_new cls m
             in andThen (class_get_function cls ''new'' m1) (\<lambda>constructor.
               case constructor of
                 None \<Rightarrow> Inr (False, task_set_resval t (entity_object obj) m1)
               | Some f \<Rightarrow> call_function_base e t (Some c) f obj (Some c) (clear_arg p t m1)))
           else if class_of m x = Class_FunctionRef e
           then call_func_ref e t x c (clear_arg p t m)
           else if class_of m x \<noteq> Class_Function e
           then fail_with e t c (''Attempted to call something not a function (class='' @
                  k_name (cls_at m (class_of m x)) @ '').'') m
           else andThen (function_obj x m) (\<lambda>f. call_function e t (Some c) f (clear_arg p t m)))
      | _ \<Rightarrow> fail_with e t c ''Attempted to call something not a function (not an object).'' m)"

(* src/vm/virtual_machine.c _execute_CALL *)
definition execute_CALL :: "env \<Rightarrow> op \<Rightarrow> task_id \<Rightarrow> ctx_id \<Rightarrow> operand \<Rightarrow> machine \<Rightarrow> (bool \<times> machine) res" where
  "execute_CALL e p t c arg m =
     (case arg of
        IdArg name \<Rightarrow> andThen (task_popstack t (clear_arg p t m)) (\<lambda>(obj, m1).
          case obj of
            EObj x \<Rightarrow>
              (if class_of m1 x = Class_Module e
               then andThen (module_obj x m1) (\<lambda>md.
                 case module_lookup md name m1 of
                   None \<Rightarrow> call_method e t x c name m1
                 | Some fn \<Rightarrow> call_value e p t c (EObj fn) m1)
               else call_method e t x c name m1)
          | _ \<Rightarrow> fail_with e t c ''Calling function on non-object.'' m1)
      | NoArg \<Rightarrow> andThen (task_popstack t m) (\<lambda>(fn, m1). call_value e p t c fn m1)
      | _ \<Rightarrow> Inl (Fatal ''INSTRUCTION_NO_ARG == ins->type''))"

(* src/vm/virtual_machine.c _execute_WAIT *)
definition execute_WAIT :: "env \<Rightarrow> task_id \<Rightarrow> machine \<Rightarrow> (bool \<times> machine) res" where
  "execute_WAIT e t m =
     (case task_get_resval t m of
        EObj x \<Rightarrow>
          if class_of m x \<noteq> Class_Future e then Inr (False, m)
          else andThen (future_is_complete x m) (\<lambda>(complete, m1).
            if \<not> complete
            then andThen (future_get_task x m1) (\<lambda>ft. Inr (True, add_dependent ft t m1))
            else andThen (future_get_value e x m1) (\<lambda>(v, m2). Inr (False, task_set_resval t v m2)))
      | _ \<Rightarrow> Inr (False, m))"

subsection \<open>Comparison\<close>

definition truth :: "bool \<Rightarrow> entity" where
  "truth b = (if b then entity_int 1 else ENone)"

(* src/vm/virtual_machine.c _execute_EQ *)
definition execute_EQ :: "env \<Rightarrow> op \<Rightarrow> task_id \<Rightarrow> ctx_id \<Rightarrow> operand \<Rightarrow> machine \<Rightarrow> (bool \<times> machine) res" where
  "execute_EQ e p t c arg m =
     (let rhs_error = fail_with e t c (''RHS for op '' @ quoted ''EQ'' @ '' must be primitive.'');
          lhs_error = fail_with e t c (''LHS for op '' @ quoted ''EQ'' @ '' must be primitive.'');
          answer = (\<lambda>a b m. Inr (False, task_set_resval t
             (truth (if p = EQ then primitive_equals (en_fo e) a b
                     else \<not> primitive_equals (en_fo e) a b)) m));
          compare = (\<lambda>first second m. case second of
             EPrim b \<Rightarrow> (case first of EPrim a \<Rightarrow> answer a b m | _ \<Rightarrow> lhs_error m)
           | _ \<Rightarrow> rhs_error m)
      in case arg of
        NoArg \<Rightarrow> andThen (task_popstack t m) (\<lambda>(second, m1).
          andThen (task_popstack t m1) (\<lambda>(first, m2).
          case first of
            EObj x \<Rightarrow> andThen (class_get_function (class_of m2 x)
                (if p = EQ then ''__eq__'' else ''__neq__'') m2) (\<lambda>f.
              case f of
                Some f \<Rightarrow> call_function_base e t (Some c) f x (Some c) (task_set_resval t second m2)
              | None \<Rightarrow> compare first second m2)
          | _ \<Rightarrow> compare first second m2))
      | IdArg name \<Rightarrow>
          (case task_get_resval t m of
             EPrim a \<Rightarrow> andThen (context_lookup e c name m) (\<lambda>(lookup, m1).
               case lookup of
                 None \<Rightarrow> Inl (UB ''null pointer'')
               | Some (EPrim b) \<Rightarrow> Inl (UB ''first is not initialised'')
               | Some _ \<Rightarrow> rhs_error m1)
           | _ \<Rightarrow> lhs_error m)
      | PrimArg b \<Rightarrow>
          (case task_get_resval t m of EPrim a \<Rightarrow> answer a b m | _ \<Rightarrow> lhs_error m)
      | StrArg s \<Rightarrow> Inl (Fatal ''Invalid arg type for EQ.''))"

subsection \<open>Arrays and tuples\<close>

(* src/vm/virtual_machine.c _execute_ANEW *)
definition execute_ANEW :: "env \<Rightarrow> task_id \<Rightarrow> operand \<Rightarrow> machine \<Rightarrow> machine res" where
  "execute_ANEW e t arg m =
     (let (array_obj, m1) = heap_new (Class_Array e) m;
          m2 = task_set_resval t (entity_object array_obj) m1
      in case arg of
        IdArg name \<Rightarrow> Inl (Fatal ''Invalid ANEW, ID type.'')
      | NoArg \<Rightarrow> Inr m2
      | PrimArg (PInt n) \<Rightarrow> foldRes (\<lambda>i m. andThen (task_popstack t m) (\<lambda>(v, m'). array_add array_obj v m'))
          [0..<nat (sint n)] m2
      | _ \<Rightarrow> Inl (Fatal ''Invalid ANEW requires int primitive.''))"

text \<open>The value an array or tuple is indexed with; any other index is an error.\<close>

definition index_of :: "entity \<Rightarrow> nat option" where
  "index_of v = (case v of
     EPrim (PInt i) \<Rightarrow> if 0 \<le> sint i then Some (nat (sint i)) else None | _ \<Rightarrow> None)"

(* src/vm/virtual_machine.c [886-925] _execute_AIDX *)
definition index_object ::
    "env \<Rightarrow> task_id \<Rightarrow> ctx_id \<Rightarrow> obj_id \<Rightarrow> entity \<Rightarrow> machine \<Rightarrow> (bool \<times> machine) res" where
  "index_object e t c arr index m =
     (if class_of m arr = Class_Array e
      then andThen (array_of arr m) (\<lambda>xs.
        case index_of index of
          None \<Rightarrow> fail_with e t c ''Invalid array index.'' m
        | Some i \<Rightarrow>
            if length xs \<le> i then fail_with e t c ''Invalid array index.'' m
            else Inr (False, task_set_resval t (xs ! i) m))
      else if class_of m arr = Class_Tuple e
      then andThen (tuple_of arr m) (\<lambda>xs.
        case index_of index of
          None \<Rightarrow> fail_with e t c ''Invalid tuple index.'' m
        | Some i \<Rightarrow>
            if length xs \<le> i then fail_with e t c ''Invalid tuple index.'' m
            else Inr (False, task_set_resval t (xs ! i) m))
      else andThen (class_get_function (class_of m arr) ''__index__'' m) (\<lambda>f.
        case f of
          Some f \<Rightarrow> call_function_base e t (Some c) f arr (Some c) m
        | None \<Rightarrow> fail_with e t c ''Invalid array index on non-indexable.'' m))"

(* src/vm/virtual_machine.c _execute_AIDX *)
definition execute_AIDX :: "env \<Rightarrow> task_id \<Rightarrow> ctx_id \<Rightarrow> operand \<Rightarrow> machine \<Rightarrow> (bool \<times> machine) res" where
  "execute_AIDX e t c arg m = andThen (task_popstack t m) (\<lambda>(arr_entity, m1).
     case arr_entity of
       EObj arr \<Rightarrow>
         (case arg of
            NoArg \<Rightarrow> index_object e t c arr (task_get_resval t m1) m1
          | IdArg name \<Rightarrow> andThen (context_lookup e c name m1) (\<lambda>(index, m2).
              case index of
                None \<Rightarrow> fail_with e t c ''Invalid array index.'' m2
              | Some v \<Rightarrow> index_object e t c arr v m2)
          | PrimArg v \<Rightarrow>
              if index_of (EPrim v) = None then fail_with e t c ''Invalid array index.'' m1
              else index_object e t c arr (entity_primitive v) m1
          | StrArg s \<Rightarrow> Inl (Fatal ''Invalid arg type for AIDX.''))
     | _ \<Rightarrow> fail_with e t c ''Invalid array index on non-indexable.'' m1)"

(* src/vm/virtual_machine.c _execute_ASET *)
definition execute_ASET :: "env \<Rightarrow> task_id \<Rightarrow> ctx_id \<Rightarrow> machine \<Rightarrow> (bool \<times> machine) res" where
  "execute_ASET e t c m = andThen (task_popstack t m) (\<lambda>(arr_entity, m1).
     andThen (task_popstack t m1) (\<lambda>(new_val, m2).
     let index = task_get_resval t m2 in
     case arr_entity of
       EObj arr \<Rightarrow>
         (if class_of m2 arr = Class_Array e
          then (case index of
            EPrim (PInt i) \<Rightarrow>
              if sint i < 0
              then fail_with e t c (''Array index out of bounds: '' @ dec_of_int (sint i)) m2
              else andThen (array_set e arr i new_val m2) (\<lambda>m3. Inr (False, m3))
          | _ \<Rightarrow> fail_with e t c ''Cannot index with non-int.'' m2)
          else andThen (class_get_function (class_of m2 arr) ''__set__'' m2) (\<lambda>f.
            case f of
              Some f \<Rightarrow>
                (let (args, m3) = heap_new (Class_Tuple e) m2;
                     m4 = set_internal args (tuple_create e 2) m3
                 in andThen (tuple_put args 0 index m4) (\<lambda>m5.
                    andThen (tuple_put args 1 new_val m5) (\<lambda>m6.
                    call_function_base e t (Some c) f arr (Some c)
                      (task_set_resval t (entity_object args) m6))))
            | None \<Rightarrow> fail_with e t c ''Cannot set index value on non-indexable.'' m2))
     | _ \<Rightarrow> fail_with e t c ''Cannot set index value on non-indexable.'' m2))"

text \<open>The operand is read as an int before the test that there is one.\<close>

(* src/vm/virtual_machine.c _execute_TUPL *)
definition execute_TUPL :: "env \<Rightarrow> task_id \<Rightarrow> instruction \<Rightarrow> machine \<Rightarrow> machine res" where
  "execute_TUPL e t ins m =
     assert_that (arg_type (ins_arg ins) \<noteq> INSTRUCTION_ID) ''Invalid TUPL, ID type.''
       (andThen (ins_int ins) (\<lambda>num_args.
         let (tuple_obj, m1) = heap_new (Class_Tuple e) m;
             m2 = set_internal tuple_obj (tuple_create e (unat num_args)) m1;
             m3 = task_set_resval t (entity_object tuple_obj) m2
         in foldRes (\<lambda>i m. andThen (task_popstack t m) (\<lambda>(v, m'). tuple_set tuple_obj (of_nat i) v m'))
              [0..<unat num_args] m3))"

(* src/vm/virtual_machine.c _execute_TLEN *)
definition execute_TLEN :: "env \<Rightarrow> task_id \<Rightarrow> operand \<Rightarrow> machine \<Rightarrow> machine res" where
  "execute_TLEN e t arg m =
     assert_that (arg = NoArg) ''Invalid TLEN type.''
       (andThen (task_peekstack t m) (\<lambda>v.
         case v of
           EObj x \<Rightarrow>
             if class_of m x \<noteq> Class_Tuple e then Inr (task_set_resval t (entity_int (- 1)) m)
             else andThen (tuple_size x m) (\<lambda>n. Inr (task_set_resval t (entity_int (of_nat n)) m))
         | _ \<Rightarrow> Inr (task_set_resval t (entity_int (- 1)) m)))"

text \<open>The comparison of the length with the operand is one of unsigned numbers.\<close>

(* src/vm/virtual_machine.c _execute_TGTE *)
definition execute_TGTE :: "env \<Rightarrow> task_id \<Rightarrow> ctx_id \<Rightarrow> operand \<Rightarrow> machine \<Rightarrow> machine res" where
  "execute_TGTE e t c arg m =
     (case arg of
        PrimArg (PInt test_len) \<Rightarrow>
          (let v = task_get_resval t m in
           if test_len = 1 then Inr (task_set_resval t (truth (v \<noteq> ENone)) m)
           else case v of
             EObj x \<Rightarrow>
               if class_of m x \<noteq> Class_Tuple e then Inr (task_set_resval t ENone m)
               else andThen (tuple_size x m) (\<lambda>n.
                 Inr (task_set_resval t (truth (test_len \<le> (of_nat n :: u32))) m))
           | _ \<Rightarrow> Inr (task_set_resval t ENone m))
      | _ \<Rightarrow> raise_error e t c ''Invalid TLEN type.'' m)"

(* src/vm/virtual_machine.c _execute_TGET *)
definition execute_TGET :: "env \<Rightarrow> task_id \<Rightarrow> ctx_id \<Rightarrow> operand \<Rightarrow> machine \<Rightarrow> machine res" where
  "execute_TGET e t c arg m =
     (case arg of
        PrimArg (PInt index) \<Rightarrow>
          (let not_tuple = (if index = 0 then Inr m
             else raise_error e t c ''Attempted to index something not a tuple.''
                    (task_set_resval t (entity_int (- 1)) m))
           in case task_get_resval t m of
             EObj x \<Rightarrow>
               if class_of m x \<noteq> Class_Tuple e then not_tuple
               else andThen (tuple_size x m) (\<lambda>n.
                 if sint index < 0 \<or> int n \<le> sint index
                 then raise_error e t c (''Tuple index out of bounds. Index='' @ dec_of_int (sint index) @
                        '', Tuple.len='' @ dec_of_int (int n) @ ''.'') m
                 else andThen (tuple_get x (nat (sint index)) m) (\<lambda>v. Inr (task_set_resval t v m)))
           | _ \<Rightarrow> not_tuple)
      | _ \<Rightarrow> raise_error e t c ''Invalid TGET type.'' m)"

subsection \<open>Types, modules, errors\<close>

(* src/vm/virtual_machine.c _execute_IS *)
definition execute_IS :: "env \<Rightarrow> task_id \<Rightarrow> ctx_id \<Rightarrow> operand \<Rightarrow> machine \<Rightarrow> machine res" where
  "execute_IS e t c arg m =
     assert_that (arg = NoArg) ''Weird type for IS.''
       (andThen (task_popstack t m) (\<lambda>(rhs, m1).
        andThen (task_popstack t m1) (\<lambda>(lhs, m2).
        let no_class = raise_error e t c ''Cannot perform type-check against a non-object type.'' m2
        in case rhs of
          EObj r \<Rightarrow>
            if class_of m2 r \<noteq> Class_Class e then no_class
            else (case lhs of
              EObj l \<Rightarrow> andThen (class_obj r m2) (\<lambda>cls.
                andThen (inherits_from (class_of m2 l) cls m2) (\<lambda>b.
                Inr (task_set_resval t (truth b) m2)))
            | _ \<Rightarrow> Inr (task_set_resval t ENone m2))
        | _ \<Rightarrow> no_class)))"

(* src/vm/virtual_machine.c _execute_LMDL *)
definition execute_LMDL :: "env \<Rightarrow> task_id \<Rightarrow> ctx_id \<Rightarrow> operand \<Rightarrow> machine \<Rightarrow> (bool \<times> machine) res" where
  "execute_LMDL e t c arg m =
     (case arg of
        IdArg name \<Rightarrow> andThen (en_module e name m) (\<lambda>(found, m1).
          case found of
            None \<Rightarrow> fail_with e t c (''Module '' @ quoted name @ '' not found.'') m1
          | Some md \<Rightarrow>
              andThen (deref (m_reflection (mod_at m1 (x_module (ctx_at m1 c))))) (\<lambda>here.
              andThen (deref (m_reflection (mod_at m1 md))) (\<lambda>there.
              let m2 = object_set_member_obj here name there m1 in
              if m_initialized (mod_at m2 md) then Inr (False, m2)
              else let m3 = upd_mod md (\<lambda>x. x\<lparr>m_initialized := True\<rparr>) m2;
                       (new_ctx, m4) = execute_as_new_task e t there md 0 m3
                   in Inr (True, add_dependent (x_task (ctx_at m4 new_ctx)) t m4))))
      | _ \<Rightarrow> Inl (Fatal ''Weird type for LMDL.''))"

(* src/vm/virtual_machine.c _execute_CTCH *)
definition execute_CTCH :: "ctx_id \<Rightarrow> operand \<Rightarrow> machine \<Rightarrow> machine res" where
  "execute_CTCH c arg m =
     (case arg of
        PrimArg v \<Rightarrow> andThen (jump_val v) (\<lambda>n.
          Inr (upd_ctx c (\<lambda>x. x\<lparr>x_catch_ins := x_ins x + n + 1\<rparr>) m))
      | _ \<Rightarrow> Inl (Fatal ''Invalid arg type for CTCH.''))"

(* src/vm/virtual_machine.c _execute_RAIS *)
definition execute_RAIS :: "env \<Rightarrow> task_id \<Rightarrow> ctx_id \<Rightarrow> machine \<Rightarrow> machine res" where
  "execute_RAIS e t c m =
     (let not_error = raise_error e t c ''raise can only be invoked with an Error().'' m in
      case task_get_resval t m of
        EObj x \<Rightarrow> andThen (inherits_from (class_of m x) (Class_Error e) m) (\<lambda>b.
          if b then Inr (raise_error_with_object t c x m) else not_error)
      | _ \<Rightarrow> not_error)"

end
