(* ===== verification/Scheduler.thy ===== *)
theory Scheduler imports Calls begin

text \<open>
  The interpreter loop and the scheduler of \<open>vm/virtual_machine.c\<close>: catching errors, executing a task
  until it completes, fails or waits, and running the tasks of a process.
\<close>

subsection \<open>Catching errors\<close>

text \<open>
  Contexts are left until one has a handler. The handler's context is the task's current one from then
  on; the caller's own pointer is not changed.
\<close>

(* src/vm/virtual_machine.c _attemp_catch_error *)
fun attemp_catch_error :: "nat \<Rightarrow> task_id \<Rightarrow> ctx_id \<Rightarrow> machine \<Rightarrow> (bool \<times> machine) res" where
  "attemp_catch_error n t ctx m =
     (if sint (x_catch_ins (ctx_at m ctx)) < 0
      then andThen (task_back_context t m) (\<lambda>(prev, m1).
        case prev of
          None \<Rightarrow> Inr (False, upd_task t (\<lambda>x. x\<lparr>a_state := TASK_ERROR\<rparr>) m1)
        | Some ctx' \<Rightarrow>
            (case n of
               0 \<Rightarrow> Inl (UB ''endless chain of contexts'')
             | Suc n' \<Rightarrow> attemp_catch_error n' t ctx' m1))
      else Inr (True, upd_ctx ctx (\<lambda>x. x\<lparr>x_ins := x_catch_ins x, x_error := None, x_catch_ins := - 1\<rparr>) m))"

declare attemp_catch_error.simps [simp del]

subsection \<open>One instruction\<close>

text \<open>After an instruction the loop goes on in a context, or leaves with the task's state.\<close>

datatype outcome = Continue ctx_id | Stop

definition go_on :: "ctx_id \<Rightarrow> machine res \<Rightarrow> (outcome \<times> machine) res" where
  "go_on c r = andThen r (\<lambda>m. Inr (Continue c, skip_ins c 1 m))"

definition wait_or_go :: "task_id \<Rightarrow> ctx_id \<Rightarrow> wait_reason \<Rightarrow> (bool \<times> machine) res \<Rightarrow> (outcome \<times> machine) res" where
  "wait_or_go t c reason r = andThen r (\<lambda>(must_wait, m).
     if must_wait
     then Inr (Stop, skip_ins c 1 (upd_task t (\<lambda>x. x\<lparr>a_state := TASK_WAITING, a_wait := reason\<rparr>) m))
     else Inr (Continue c, skip_ins c 1 m))"

(* src/vm/virtual_machine.c [1163-1340] vm_execute_task *)
definition execute_ins :: "env \<Rightarrow> task_id \<Rightarrow> ctx_id \<Rightarrow> instruction \<Rightarrow> machine \<Rightarrow> (outcome \<times> machine) res" where
  "execute_ins e t c ins m =
     (let arg = ins_arg ins; p = ins_op ins in
      case p of
        RES \<Rightarrow> go_on c (execute_RES e t c arg m)
      | RNIL \<Rightarrow> go_on c (execute_RNIL t arg m)
      | PUSH \<Rightarrow> go_on c (execute_PUSH e t c arg m)
      | PNIL \<Rightarrow> go_on c (execute_PNIL t arg m)
      | PEEK \<Rightarrow> go_on c (execute_PEEK e t c arg m)
      | DUP \<Rightarrow> go_on c (execute_DUP t arg m)
      | FLD \<Rightarrow> go_on c (execute_FLD e t c arg m)
      | LET \<Rightarrow> go_on c (execute_LET t c arg m)
      | SET \<Rightarrow> go_on c (execute_SET t c arg m)
      | GET \<Rightarrow> go_on c (execute_GET e t c arg m)
      | GTSH \<Rightarrow> go_on c (execute_GTSH e t c arg m)
      | CALL \<Rightarrow> wait_or_go t c WAITING_ON_FN_CALL (execute_CALL e p t c arg m)
      | CLLN \<Rightarrow> wait_or_go t c WAITING_ON_FN_CALL (execute_CALL e p t c arg m)
      | RET \<Rightarrow> andThen (execute_RET e t c arg m) (\<lambda>m1.
          Inr (Stop, skip_ins c 1 (upd_task t (\<lambda>x. x\<lparr>a_state := TASK_COMPLETE\<rparr>) m1)))
      | NBLK \<Rightarrow> andThen (execute_NBLK e c arg m) (\<lambda>(c', m1). Inr (Continue c', skip_ins c' 1 m1))
      | BBLK \<Rightarrow> andThen (execute_BBLK t arg m) (\<lambda>(prev, m1).
          andThen (deref prev) (\<lambda>c'. Inr (Continue c', skip_ins c' 1 m1)))
      | JMP \<Rightarrow> go_on c (execute_JMP c arg m)
      | IF \<Rightarrow> go_on c (execute_IF p t c arg m)
      | IFN \<Rightarrow> go_on c (execute_IF p t c arg m)
      | EXIT \<Rightarrow> andThen (execute_EXIT t c arg m) (\<lambda>m1. Inr (Stop, m1))
      | ADD \<Rightarrow> go_on c (execute_math e p t c arg m)
      | SUB \<Rightarrow> go_on c (execute_math e p t c arg m)
      | MULT \<Rightarrow> go_on c (execute_math e p t c arg m)
      | DIV \<Rightarrow> go_on c (execute_math e p t c arg m)
      | MOD \<Rightarrow> go_on c (execute_math e p t c arg m)
      | AND_O \<Rightarrow> go_on c (execute_math e p t c arg m)
      | OR_O \<Rightarrow> go_on c (execute_math e p t c arg m)
      | BAND \<Rightarrow> go_on c (execute_math e p t c arg m)
      | BXOR \<Rightarrow> go_on c (execute_math e p t c arg m)
      | BOR \<Rightarrow> go_on c (execute_BOR_with_obj e t c arg m)
      | LT \<Rightarrow> go_on c (execute_math e p t c arg m)
      | GT \<Rightarrow> go_on c (execute_math e p t c arg m)
      | LTE \<Rightarrow> go_on c (execute_math e p t c arg m)
      | GTE \<Rightarrow> go_on c (execute_math e p t c arg m)
      | EQ \<Rightarrow> wait_or_go t c WAITING_ON_FN_CALL (execute_EQ e p t c arg m)
      | NEQ \<Rightarrow> wait_or_go t c WAITING_ON_FN_CALL (execute_EQ e p t c arg m)
      | IS \<Rightarrow> go_on c (execute_IS e t c arg m)
      | NOT_O \<Rightarrow> go_on c (execute_NOT t arg m)
      | ANEW \<Rightarrow> go_on c (execute_ANEW e t arg m)
      | AIDX \<Rightarrow> wait_or_go t c WAITING_ON_FN_CALL (execute_AIDX e t c arg m)
      | ASET \<Rightarrow> wait_or_go t c WAITING_ON_FN_CALL (execute_ASET e t c m)
      | TUPL \<Rightarrow> go_on c (execute_TUPL e t ins m)
      | TLEN \<Rightarrow> go_on c (execute_TLEN e t arg m)
      | TGET \<Rightarrow> go_on c (execute_TGET e t c arg m)
      | TGTE \<Rightarrow> go_on c (execute_TGTE e t c arg m)
      | CTCH \<Rightarrow> go_on c (execute_CTCH c arg m)
      | RAIS \<Rightarrow> go_on c (execute_RAIS e t c m)
      | LMDL \<Rightarrow> wait_or_go t c WAITING_ON_FN_CALL (execute_LMDL e t c arg m)
      | WAIT \<Rightarrow> wait_or_go t c WAITING_ON_FUTURE (execute_WAIT e t m)
      | _ \<Rightarrow> Inl (Fatal ''Unknown instruction''))"

text \<open>One turn of the loop in the context \<open>c\<close>.\<close>

(* src/vm/virtual_machine.c [1152-1157] vm_execute_task *)
definition loop_turn :: "env \<Rightarrow> task_id \<Rightarrow> ctx_id \<Rightarrow> machine \<Rightarrow> (outcome \<times> machine) res" where
  "loop_turn e t c m =
     (if x_error (ctx_at m c) = None
      then andThen (context_ins c m) (\<lambda>ins. execute_ins e t c ins m)
      else andThen (attemp_catch_error (length (s_contexts m)) t c m) (\<lambda>(caught, m1).
        if \<not> caught then Inr (Stop, m1)
        else andThen (context_ins c m1) (\<lambda>ins. execute_ins e t c ins m1)))"

text \<open>The loop for at most \<open>n\<close> turns; \<open>None\<close>: the task is still running then.\<close>

(* src/vm/virtual_machine.c [1151-1343] vm_execute_task *)
fun execute_loop :: "nat \<Rightarrow> env \<Rightarrow> task_id \<Rightarrow> ctx_id \<Rightarrow> machine \<Rightarrow> machine res option" where
  "execute_loop 0 e t c m = None"
| "execute_loop (Suc n) e t c m =
     (case loop_turn e t c m of
        Inl err \<Rightarrow> Some (Inl err)
      | Inr (Stop, m1) \<Rightarrow> Some (Inr m1)
      | Inr (Continue c', m1) \<Rightarrow> execute_loop n e t c' m1)"

text \<open>An error of a child task becomes an error of the current context.\<close>

(* src/vm/virtual_machine.c [1144-1150] vm_execute_task *)
definition take_child_error :: "env \<Rightarrow> task_id \<Rightarrow> ctx_id \<Rightarrow> machine \<Rightarrow> machine res" where
  "take_child_error e t c m =
     (if a_child_error (task_at m t)
      then (case task_get_resval t m of
        EObj x \<Rightarrow> assert_that (class_of m x = Class_Error e) ''Class_Error == error_e->obj->_class''
          (Inr (upd_task t (\<lambda>x. x\<lparr>a_child_error := False\<rparr>) (upd_ctx c (\<lambda>y. y\<lparr>x_error := Some x\<rparr>) m)))
      | _ \<Rightarrow> Inl (Fatal ''OBJECT == error_e->type''))
      else Inr m)"

(* src/vm/virtual_machine.c vm_execute_task *)
definition vm_execute_task :: "nat \<Rightarrow> env \<Rightarrow> task_id \<Rightarrow> machine \<Rightarrow> (task_state \<times> machine) res option" where
  "vm_execute_task n e t m =
     (let m1 = upd_task t (\<lambda>x. x\<lparr>a_state := TASK_RUNNING, a_wait := NOT_WAITING\<rparr>) m
      in case a_current (task_at m1 t) of
        None \<Rightarrow> Some (Inr (TASK_COMPLETE, m1))
      | Some c \<Rightarrow>
          (case take_child_error e t c m1 of
             Inl err \<Rightarrow> Some (Inl err)
           | Inr m2 \<Rightarrow> map_option (\<lambda>r. andThen r (\<lambda>m3. Inr (a_state (task_at m3 t), m3)))
                         (execute_loop n e t c m2)))"

subsection \<open>The scheduler\<close>

(* src/vm/virtual_machine.c [1350-1359] _mark_task_complete *)
definition wake_dependent :: "task_id \<Rightarrow> task_id \<Rightarrow> machine \<Rightarrow> machine" where
  "wake_dependent t d m =
     (if a_state (task_at m d) \<noteq> TASK_WAITING then m
      else process_remove_waiting_task d (process_enqueue_task d
             (task_set_resval d (task_get_resval t m) m)))"

(* src/vm/virtual_machine.c _mark_task_complete *)
definition mark_task_complete :: "env \<Rightarrow> task_id \<Rightarrow> machine \<Rightarrow> machine" where
  "mark_task_complete e t m =
     (let m1 = process_mark_task_complete t m
      in fold (wake_dependent t) (en_order e (a_dependents (task_at m1 t))) m1)"

text \<open>What is done with a task that \<open>vm_execute_task\<close> returned from.\<close>

(* src/vm/virtual_machine.c [1388-1407] process_run *)
definition after_task :: "env \<Rightarrow> task_id \<Rightarrow> task_state \<Rightarrow> machine \<Rightarrow> machine res" where
  "after_task e t state m =
     (case state of
        TASK_WAITING \<Rightarrow> Inr (process_insert_waiting_task t m)
      | TASK_ERROR \<Rightarrow>
          (case a_parent (task_at m t) of
             None \<Rightarrow>
               (case module_lookup (Module_io e) ''errorln'' m of
                  None \<Rightarrow> Inl (Fatal ''errorln'')
                | Some errorln \<Rightarrow>
                    assert_that (class_of m errorln = Class_Function e) ''Class_Function == errorln->_class''
                      (andThen (function_obj errorln m) (\<lambda>f.
                       andThen (call_function e t None f m) (\<lambda>(_, m1). Inr m1))))
           | Some parent \<Rightarrow>
               Inr (mark_task_complete e t (upd_task parent (\<lambda>x. x\<lparr>a_child_error := True\<rparr>) m)))
      | TASK_COMPLETE \<Rightarrow> Inr (mark_task_complete e t m)
      | _ \<Rightarrow> Inl (Fatal ''Some unknown TaskState.''))"

text \<open>One turn of the loop over the queue: \<open>None\<close> inside when the queue is empty.\<close>

(* src/vm/virtual_machine.c [1379-1408] process_run *)
definition run_next :: "nat \<Rightarrow> env \<Rightarrow> machine \<Rightarrow> (bool \<times> machine) res option" where
  "run_next n e m =
     (case process_pop_task e m of
        (None, m1) \<Rightarrow> Some (Inr (False, m1))
      | (Some t, m1) \<Rightarrow>
          map_option (\<lambda>r. andThen r (\<lambda>(state, m2). andThen (after_task e t state m2)
              (\<lambda>m3. Inr (True, m3))))
            (vm_execute_task n e t (m1\<lparr>s_current_task := Some t\<rparr>)))"

(* src/vm/virtual_machine.c [1375-1408] process_run *)
fun run_queue :: "nat \<Rightarrow> nat \<Rightarrow> env \<Rightarrow> machine \<Rightarrow> machine res option" where
  "run_queue 0 n e m = None"
| "run_queue (Suc k) n e m =
     (case run_next n e m of
        None \<Rightarrow> None
      | Some (Inl err) \<Rightarrow> Some (Inl err)
      | Some (Inr (again, m1)) \<Rightarrow> if again then run_queue k n e m1 else Some (Inr m1))"

(* src/vm/virtual_machine.c _process_is_done *)
definition process_is_done :: "machine \<Rightarrow> bool" where
  "process_is_done m \<longleftrightarrow> s_waiting m = [] \<and> s_queue m = []"

text \<open>A background function finishes: its result is stored, and those who wait for it are woken.\<close>

(* src/vm/virtual_machine.c [575-586] _execute_in_background *)
definition finish_background :: "env \<Rightarrow> bg_args \<Rightarrow> machine \<Rightarrow> machine res" where
  "finish_background e b m =
     andThen (deref (f_native_fn (fun_at m (b_func b)))) (\<lambda>native_fn.
     andThen (en_native e native_fn (b_task b) (b_context b) (b_self b) (task_get_resval (b_task b) m) m)
       (\<lambda>(v, m1).
         let m2 = task_set_resval (b_task b) v m1;
             m3 = upd_task (b_task b) (\<lambda>x. x\<lparr>a_state := TASK_COMPLETE\<rparr>) m2
         in Inr (mark_task_complete e (b_task b) m3)))"

text \<open>
  A process with its thread pool: the process runs the next task of the queue, or one of the background
  functions finishes; each is one step. When the queue is empty and tasks still wait, only a background
  function can go on: this is the wait for \<open>task_wait_cond\<close>.
\<close>

(* src/vm/virtual_machine.c process_run *)
inductive process_step :: "env \<Rightarrow> machine \<Rightarrow> machine \<Rightarrow> bool" for e where
  run_task: "run_next n e m = Some (Inr (True, m')) \<Longrightarrow> process_step e m m'"
| background: "s_background m = bs @ b # bs' \<Longrightarrow>
    finish_background e b (m\<lparr>s_background := bs @ bs'\<rparr>) = Inr m' \<Longrightarrow> process_step e m m'"

inductive_cases process_stepE: "process_step e m m'"

end
