(* ===== verification/Demo.thy ===== *)
theory Demo imports Scheduler begin

text \<open>
  A small concrete world, for evaluating closed examples: the classes and modules the machine knows,
  one module whose code is given, no native functions, a first-in-first-out queue. No theorem assumes it.
\<close>

definition demo_raw_task :: task where
  "demo_raw_task = \<lparr>a_state = TASK_NEW, a_wait = NOT_WAITING, a_current = None, a_resval = ENone,
     a_stack = [], a_parent = None, a_dependents = [], a_child_error = False, a_refl = None\<rparr>"

definition demo_env :: env where
  "demo_env = \<lparr>en_fo = int_fops,
     en_native = (\<lambda>n t c self v m. Inl (Fatal ''no native functions'')),
     en_module = (\<lambda>name m. Inr (None, m)),
     Class_Object = 0, Class_Class = 1, Class_Function = 2, Class_FunctionRef = 3, Class_Module = 4,
     Class_Array = 5, Class_String = 6, Class_Tuple = 7, Class_Error = 8, Class_StackLine = 9,
     Class_Future = 10, Class_Task = 11, Module_builtin = 0, Module_io = 0,
     en_raw_task = demo_raw_task, en_raw_slot = ENone,
     en_grow = (\<lambda>xs i. xs @ replicate (Suc i - length xs) ENone),
     en_pop = (\<lambda>q. (hd q, tl q)), en_order = (\<lambda>xs. xs)\<rparr>"

definition demo_class :: "string \<Rightarrow> internal option \<Rightarrow> jclass" where
  "demo_class name init = (class_init name (if name = ''Object'' then None else Some 0) 0)\<lparr>k_init := init\<rparr>"

definition demo_classes :: "jclass list" where
  "demo_classes = [demo_class ''Object'' None, demo_class ''Class'' None, demo_class ''Function'' None,
     demo_class ''FunctionRef'' (Some INull), demo_class ''Module'' None,
     demo_class ''Array'' (Some (IArray [])), demo_class ''String'' (Some INull),
     demo_class ''Tuple'' None, demo_class ''Error'' None, demo_class ''StackLine'' None,
     demo_class ''Future'' (Some future_init), demo_class ''Task'' None]"

definition demo_object :: "cls_id \<Rightarrow> internal \<Rightarrow> object" where
  "demo_object c i = \<lparr>o_class = c, o_members = [], o_internal = i\<rparr>"

text \<open>Module 0 is the builtin module, module 1 has the code; object 3 is an error.\<close>

definition demo_machine :: "instruction list \<Rightarrow> machine" where
  "demo_machine code = \<lparr>
     s_objects = [demo_object 4 (IModule 0), demo_object 4 (IModule 1), demo_object 0 IProcess,
                  demo_object 8 IRaw],
     s_classes = demo_classes, s_functions = [],
     s_modules = [(module_init (Some ''builtin'') tape_create)\<lparr>m_reflection := Some 0\<rparr>,
                  (module_init (Some ''main'') (fold tape_add code tape_create))\<lparr>m_reflection := Some 1\<rparr>],
     s_contexts = [], s_tasks = [], s_edges = [], s_current_task = None, s_queue = [], s_waiting = [],
     s_completed = [], s_reflection = 2, s_background = []\<rparr>"

(* src/run/run.c [78-79] run *)
definition run_start :: "env \<Rightarrow> mod_id \<Rightarrow> obj_id \<Rightarrow> machine \<Rightarrow> machine" where
  "run_start e md self m =
     (let (t, m1) = process_create_task e m in snd (task_create_context e t self md 0 m1))"

definition demo_start :: "instruction list \<Rightarrow> machine" where
  "demo_start code = run_start demo_env 1 1 (demo_machine code)"

lemma demo_exit_runs:
  "case run_next 5 demo_env (demo_start [\<lparr>ins_op = RES, ins_arg = PrimArg (PInt 7)\<rparr>,
      \<lparr>ins_op = EXIT, ins_arg = PrimArg (PInt 0)\<rparr>]) of
     Some (Inr (True, m)) \<Rightarrow> s_completed m = [0] \<and> s_queue m = [] | _ \<Rightarrow> False"
  by code_simp

end
