(* ===== verification/CompileFacts.thy ===== *)
theory CompileFacts imports LoopFacts Compile Demo begin

text \<open>
  What the code generator promises, and where it does not do what it means to.
\<close>

declare gens.simps [simp del] produce_instructions.simps [simp del]

lemma jumps_in_nth:
  "jumps_in lo hi i c \<longleftrightarrow> (\<forall>j < length c. jump_in lo hi (i + int j) (c ! j))"
proof (induction c arbitrary: i)
  case (Cons x c)
  have "(\<forall>j < length (x # c). jump_in lo hi (i + int j) ((x # c) ! j)) \<longleftrightarrow>
      jump_in lo hi i x \<and> (\<forall>j < length c. jump_in lo hi (i + 1 + int j) (c ! j))"
    by (simp add: All_less_Suc2 add.assoc)
  then show ?case by (simp add: Cons.IH)
qed simp

text \<open>C4: For every expression tree there is one list of instructions which \<open>produce_instructions\<close>
  (semantics.c and the generators) appends, whatever is on the tape, when it succeeds: it returns their number, keeps
  the source map as long as the code, and every jump of the appended code (to \<open>i + 1 + v\<close> from position \<open>i\<close>) leads into the
  code or right behind it, unless it is a \<open>continue\<close> outside of a loop, as long as the code has less than \<open>INT_MAX\<close>
  instructions. So the lengths which the generators compute for the parts they jump over are right.\<close>

theorem generated_code_closed:
  "\<exists>c. \<forall>t n t'. produce_instructions fo e t = Inr (n, t') \<longrightarrow>
     n = int (length c) \<and> t_ins t' = t_ins t @ c \<and>
     length (t_source_map t') = length (t_source_map t) + length c \<and>
     (n < INT_MAX \<longrightarrow> (\<forall>i < length c. ins_op (c ! i) \<in> {JMP, IF, IFN, CTCH} \<longrightarrow>
        (\<exists>v. ins_arg (c ! i) = PrimArg (PInt v) \<and>
           (ins_op (c ! i) = JMP \<and> sint v = INT_MAX \<or> 0 \<le> int i + 1 + sint v \<and> int i + 1 + sint v \<le> n))))"
proof -
  obtain c where c: "emits (produce_instructions fo e) c" and cl: "closed c"
    using well_produce_instructions by (rule wellE)
  have "\<forall>i < length c. jump_in 0 (int (length c)) (int i) (c ! i)" if "int (length c) < INT_MAX"
    using cl that jumps_in_nth [of 0 "int (length c)" 0 c] by (simp add: closed_def)
  with emitsD [OF c] show ?thesis unfolding jump_in_def by (intro exI [of _ c]) blast
qed

definition demo_expression :: expression_tree where
  "demo_expression = While_statement demo_token (Identifier demo_token)
     (Compound_statement [Break_statement demo_token True])"

theorem generated_code_closed_witness:
  "(case produce_instructions int_fops demo_expression tape_create of Inr (n, t) \<Rightarrow> n = 6 \<and> length (t_ins t) = 6 | _ \<Rightarrow> False) \<and>
   (\<exists>c. \<forall>n t'. produce_instructions int_fops demo_expression tape_create = Inr (n, t') \<longrightarrow> t_ins t' = c)"
proof
  show "case produce_instructions int_fops demo_expression tape_create of Inr (n, t) \<Rightarrow> n = 6 \<and> length (t_ins t) = 6 | _ \<Rightarrow> False"
    by code_simp
  from generated_code_closed [of int_fops demo_expression] obtain c where
    "\<forall>t n t'. produce_instructions int_fops demo_expression t = Inr (n, t') \<longrightarrow> t_ins t' = t_ins t @ c" by blast
  then show "\<exists>c. \<forall>n t'. produce_instructions int_fops demo_expression tape_create = Inr (n, t') \<longrightarrow> t_ins t' = c"
    by (intro exI [of _ "t_ins tape_create @ c"]) simp
qed


lemmas ran_simps = gens.simps ins_none_def ins_num_def ins_tok_def tape_ins_def on_new_def append_tape_def demo_token_def

lemma counted: "(case r of Inr (n, t) \<Rightarrow> n = k | _ \<Rightarrow> False) \<Longrightarrow> (\<And>t. r = Inr (k, t) \<Longrightarrow> thesis) \<Longrightarrow> thesis"
  by (cases r) auto

subsection \<open>Loops\<close>

lemma emits_one_if:
  assumes "emits d cd" and "emits b cb" and "emits g ce"
  shows "emits (produce_if_else (IfElse (tok, d, b) [] (Some g)))
     (cd @ [IV IFN (int (length cb) + 1)] @ cb @ [IV JMP (int (length ce))] @ ce)"
  using emits_if_else [of "IfElse (tok, d, b) [] (Some g)" "[(cd, cb)]" "Some ce"] assms
  by (simp add: conditions_def if_code_def)

lemma patch_last:
  assumes "closed (xs @ [IV JMP v])" and "int (length xs) + 1 < INT_MAX"
  shows "\<exists>ys. length ys = length xs \<and> patch brk cont (xs @ [IV JMP v]) = ys @ [patch_ins brk cont (int (length xs)) (IV JMP v)]"
proof (intro exI conjI)
  let ?p = "patch brk cont (xs @ [IV JMP v])"
  show "length (butlast ?p) = length xs" by simp
  have "?p \<noteq> []" by (metis length_0_conv length_patch snoc_eq_iff_butlast)
  then have "last ?p = ?p ! length xs" by (simp add: last_conv_nth)
  also have "\<dots> = patch_ins brk cont (int (length xs)) (IV JMP v)"
    using patch_nth [OF assms(1), of "length xs"] assms(2) by (simp add: nth_append)
  finally show "?p = butlast ?p @ [patch_ins brk cont (int (length xs)) (IV JMP v)]"
    using \<open>?p \<noteq> []\<close> by (metis append_butlast_last_id)
qed

text \<open>A conditional with an empty \<open>else\<close> at the end of the body of a \<open>while\<close> leaves the loop: the jump over the empty
  \<open>else\<close> has the offset 0, which the pass over the body (loops.c) takes for a \<open>break\<close>. The code of the
  loop ends with \<open>JMP 1\<close> over the jump back to the condition.\<close>

theorem empty_else_leaves_loop:
  assumes "produce_instructions fo (While_statement tok c
      (Selection_statement (IfElse (itok, d, b) [] (Some (Compound_statement []))))) t = Inr (n, t')"
    and "n < INT_MAX"
  shows "\<exists>pre. t_ins t' = t_ins t @ pre @ [IV JMP 1, IV JMP (2 - n), I0 BBLK] \<and> n = int (length pre) + 3"
proof -
  obtain cc where cc: "emits (produce_instructions fo c) cc" using well_produce_instructions by (rule wellE)
  obtain cd where cd: "emits (produce_instructions fo d) cd" "closed cd" using well_produce_instructions by (rule wellE)
  obtain cb where cb: "emits (produce_instructions fo b) cb" "closed cb" using well_produce_instructions by (rule wellE)
  let ?x = "cd @ [IV IFN (int (length cb) + 1)] @ cb"
  have "emits (produce_compound_statement []) []" by (simp add: produce_compound_statement_def emits_Nil)
  from emits_one_if [OF cd(1) cb(1) this, of itok]
  have body: "emits (produce_instructions fo (Selection_statement (IfElse (itok, d, b) [] (Some (Compound_statement [])))))
      (?x @ [IV JMP 0])" by (simp add: produce_instructions.simps)
  note w = emitsD [OF emits_while [OF cc body, of tok], of t n t'] assms(1) [unfolded produce_instructions.simps(20)]
  have n: "n = int (length cc) + int (length ?x) + 5" using w by (simp add: while_code_def)
  have "closed (?x @ [IV JMP 0])"
    using cd(2) cb(2) by (intro closedI) (auto intro!: jump_in_IV closed_in simp: INT_MAX_def)
  from patch_last [OF this, of "\<lambda>i. int (length (?x @ [IV JMP 0])) - i" "\<lambda>i. - (i + 1)"] obtain ys where
    "length ys = length ?x" "patch (\<lambda>i. int (length (?x @ [IV JMP 0])) - i) (\<lambda>i. - (i + 1)) (?x @ [IV JMP 0]) = ys @ [IV JMP 1]"
    using n assms(2) by (auto simp: patch_ins_def IV_def)
  then show ?thesis using w n
    by (intro exI [of _ "[I0 NBLK] @ cc @ [IV IFN (int (length ?x) + 2)] @ ys"])
       (simp add: while_code_def algebra_simps)
qed

definition demo_empty_else :: expression_tree where
  "demo_empty_else = While_statement demo_token (Identifier demo_token) (Selection_statement
     (IfElse (demo_token, Identifier demo_token, Exit_statement demo_token) [] (Some (Compound_statement []))))"

theorem empty_else_leaves_loop_witness:
  "\<exists>n t' pre. produce_instructions int_fops demo_empty_else tape_create = Inr (n, t') \<and>
     t_ins t' = pre @ [IV JMP 1, IV JMP (2 - n), I0 BBLK]"
proof -
  have "case produce_instructions int_fops demo_empty_else tape_create of Inr (n, t) \<Rightarrow> n = 9 | _ \<Rightarrow> False"
    by code_simp
  then obtain t' where t': "produce_instructions int_fops demo_empty_else tape_create = Inr (9, t')"
    by (rule counted)
  from empty_else_leaves_loop [OF t' [unfolded demo_empty_else_def]] obtain pre where
    "t_ins t' = t_ins tape_create @ pre @ [IV JMP 1, IV JMP (2 - 9), I0 BBLK]" by (auto simp: INT_MAX_def)
  with t' show ?thesis by (metis append_assoc)
qed

text \<open>C40: A \<open>continue\<close> at the end of the body of a \<open>while\<close> does not test the condition again: it jumps to the
  first instruction of the body, right behind the \<open>IFN\<close> that tests it (loops.c computes \<open>-(i + 1)\<close>; the loop of
  \<open>for\<close> and \<open>foreach\<close> go to the increment or the jump back).\<close>

theorem continue_skips_condition:
  assumes "produce_instructions fo (While_statement tok c (Compound_statement [b, Break_statement btok False])) t = Inr (n, t')"
    and "n < INT_MAX"
  shows "\<exists>pre v body. t_ins t' = t_ins t @ pre @ [IV IFN v] @ body @ [IV JMP (- int (length body) - 1), IV JMP (2 - n), I0 BBLK] \<and>
    n = int (length pre) + int (length body) + 4"
proof -
  obtain cc where cc: "emits (produce_instructions fo c) cc" using well_produce_instructions by (rule wellE)
  obtain cb where cb: "emits (produce_instructions fo b) cb" "closed cb" using well_produce_instructions by (rule wellE)
  have "emits (produce_instructions fo (Compound_statement [b, Break_statement btok False])) (cb @ [IV JMP INT_MAX] @ [])"
    unfolding produce_instructions.simps produce_compound_statement_def produce_break_statement_def list.map
    using cb(1) by (intro emits_Cons emits_Nil) (simp_all add: emits_ins_num)
  then have body: "emits (produce_instructions fo (Compound_statement [b, Break_statement btok False])) (cb @ [IV JMP INT_MAX])"
    by simp
  note w = emitsD [OF emits_while [OF cc body, of tok], of t n t'] assms(1) [unfolded produce_instructions.simps(20)]
  have n: "n = int (length cc) + int (length cb) + 5" using w by (simp add: while_code_def)
  have "closed [IV JMP INT_MAX]" by (simp add: closed_def jump_in_def INT_MAX_def)
  then have "closed (cb @ [IV JMP INT_MAX])" using cb(2) by (rule closed_append [rotated])
  from patch_last [OF this, of "\<lambda>i. int (length (cb @ [IV JMP INT_MAX])) - i" "\<lambda>i. - (i + 1)"] obtain ys where
    "length ys = length cb" "patch (\<lambda>i. int (length (cb @ [IV JMP INT_MAX])) - i) (\<lambda>i. - (i + 1)) (cb @ [IV JMP INT_MAX]) =
       ys @ [IV JMP (- int (length cb) - 1)]"
    using n assms(2) by (auto simp: patch_ins_def IV_def INT_MAX_def)
  then show ?thesis using w n
    by (intro exI [of _ "[I0 NBLK] @ cc"] exI [of _ "int (length cb) + 2"] exI [of _ ys])
       (simp add: while_code_def algebra_simps)
qed

definition demo_continue :: expression_tree where
  "demo_continue = While_statement demo_token (Identifier demo_token)
     (Compound_statement [Exit_statement demo_token, Break_statement demo_token False])"

theorem continue_skips_condition_witness:
  "\<exists>n t' pre v body. produce_instructions int_fops demo_continue tape_create = Inr (n, t') \<and>
     t_ins t' = pre @ [IV IFN v] @ body @ [IV JMP (- int (length body) - 1), IV JMP (2 - n), I0 BBLK]"
proof -
  have "case produce_instructions int_fops demo_continue tape_create of Inr (n, t) \<Rightarrow> n = 7 | _ \<Rightarrow> False"
    by code_simp
  then obtain t' where t': "produce_instructions int_fops demo_continue tape_create = Inr (7, t')"
    by (rule counted)
  have "(7::int) < INT_MAX" by (simp add: INT_MAX_def)
  from continue_skips_condition [OF t' [unfolded demo_continue_def] this] obtain pre v body where
    "t_ins t' = (t_ins tape_create @ pre) @ [IV IFN v] @ body @ [IV JMP (- int (length body) - 1), IV JMP (2 - 7), I0 BBLK]"
    by auto
  with t' show ?thesis by blast
qed

subsection \<open>Arguments and assignments\<close>

text \<open>The default value of a function's only argument is not what is assigned: the jump behind its code
  (files.c, \<open>produce_arguments\<close>) skips the \<open>RES\<close> but not the \<open>TGET 0\<close> that is meant for a passed tuple, so a
  default that is a tuple is replaced by its first element, and the argument stays on the stack.\<close>

theorem default_is_indexed:
  assumes "produce_arguments fo (map_arguments (produce_instructions fo) (Arguments tok r k [Argument None None x (Some d)])) t =
    Inr (n, t')"
  shows "\<exists>code. t_ins t' = t_ins t @ [I0 PUSH, IV TGTE 1, IV IF (int (length code) + 1)] @ code @
    [IV JMP 1, I0 RES, IV TGET 0, \<lparr>ins_op = LET, ins_arg = token_arg fo x\<rparr>]"
proof -
  obtain c where c: "emits (produce_instructions fo d) c" using well_produce_instructions by (rule wellE)
  let ?k = "\<lambda>n tmp. gens [ins_none PUSH x, ins_num TGTE 1 x, ins_num IF (n + 1) x, append_tape n tmp,
      ins_num JMP 1 x, ins_none RES x, ins_num TGET 0 x]"
  let ?d = "[I0 PUSH] @ [IV TGTE 1] @ [IV IF (int (length c) + 1)] @ c @ [IV JMP 1] @ [I0 RES] @ [IV TGET 0] @ []"
  have "emits (on_new (produce_instructions fo d) ?k) ?d"
    by (rule emits_on_new [OF c]) (intro straight_intros; simp)
  then have "emits (produce_arguments fo (map_arguments (produce_instructions fo) (Arguments tok r k [Argument None None x (Some d)])))
      (?d @ [\<lparr>ins_op = LET, ins_arg = token_arg fo x\<rparr>] @ [])"
    by (simp only: produce_arguments_def arguments.map arguments.sel argument.map argument.sel list.map option.map
        list.case option.case) (intro emits_Cons emits_Nil; simp add: produce_argument_def emits_ins_tok)
  from emitsD [OF this assms] show ?thesis by (intro exI [of _ c]) simp
qed

theorem default_is_indexed_witness:
  "\<exists>n t' code. produce_arguments int_fops (map_arguments (produce_instructions int_fops)
       (Arguments demo_token 0 1 [Argument None None demo_token (Some (Identifier demo_token))])) tape_create = Inr (n, t') \<and>
     t_ins t' = [I0 PUSH, IV TGTE 1, IV IF (int (length code) + 1)] @ code @
       [IV JMP 1, I0 RES, IV TGET 0, \<lparr>ins_op = LET, ins_arg = IdArg ''C''\<rparr>]"
proof -
  obtain n t' where t': "produce_arguments int_fops (map_arguments (produce_instructions int_fops)
       (Arguments demo_token 0 1 [Argument None None demo_token (Some (Identifier demo_token))])) tape_create = Inr (n, t')"
    by (simp add: produce_arguments_def produce_argument_def produce_instructions.simps produce_identifier_def ran_simps)
  from default_is_indexed [OF t'] obtain code where "t_ins t' = t_ins tape_create @
      [I0 PUSH, IV TGTE 1, IV IF (int (length code) + 1)] @ code @
      [IV JMP 1, I0 RES, IV TGET 0, \<lparr>ins_op = LET, ins_arg = token_arg int_fops demo_token\<rparr>]" by blast
  moreover have "t_ins tape_create = []" "token_arg int_fops demo_token = IdArg ''C''"
    by (simp_all add: tape_create_def token_arg_def demo_token_def)
  ultimately show ?thesis using t' by (metis append_Nil)
qed

fun assignments_code :: "fops \<Rightarrow> nat \<Rightarrow> nat \<Rightarrow> token list \<Rightarrow> instruction list" where
  "assignments_code fo len i [] = []"
| "assignments_code fo len i (v # vs) = [I0 (if int i < int len - int i then PEEK else RES), I0 PUSH, IV RES (int i), I0 AIDX,
     \<lparr>ins_op = SET, ins_arg = token_arg fo v\<rparr>] @ assignments_code fo len (i + 1) vs"

lemma emits_assignments:
  "emits (produce_assignment_multi fo eq len i (List.map (\<lambda>v. SingleAssignment_var v None) vs)) (assignments_code fo len i vs)"
proof (induction vs arbitrary: i)
  case (Cons v vs)
  have "emits (produce_assignment_multi fo eq len i (List.map (\<lambda>v. SingleAssignment_var v None) (v # vs)))
      ([I0 (if int i < int len - int i then PEEK else RES)] @ [I0 PUSH] @ [IV RES (int i)] @ [I0 AIDX] @
        [\<lparr>ins_op = SET, ins_arg = token_arg fo v\<rparr>] @ assignments_code fo len (i + 1) vs @ [])"
    unfolding list.map produce_assignment_multi.simps
    by (intro straight_intros Cons) (simp add: emits_ins_tok)
  then show ?case by simp
qed (simp add: emits_Nil)

lemma pops_assignments:
  "i + length vs = len \<Longrightarrow>
   length (filter (\<lambda>x. x = I0 RES) (assignments_code fo len i vs)) = card {k. i \<le> k \<and> k < len \<and> len \<le> 2 * k}"
proof (induction vs arbitrary: i)
  case Nil
  then have "{k. i \<le> k \<and> k < len \<and> len \<le> 2 * k} = {}" by auto
  then show ?case by simp
next
  case (Cons v vs)
  have "{k. i \<le> k \<and> k < len \<and> len \<le> 2 * k} =
      (if len \<le> 2 * i then {i} else {}) \<union> {k. i + 1 \<le> k \<and> k < len \<and> len \<le> 2 * k}"
    using Cons.prems by (auto simp: le_Suc_eq Suc_le_eq order_le_less)
  then have "card {k. i \<le> k \<and> k < len \<and> len \<le> 2 * k} =
      (if len \<le> 2 * i then 1 else 0) + card {k. i + 1 \<le> k \<and> k < len \<and> len \<le> 2 * k}"
    by (simp add: card_insert_if)
  moreover have "IV RES (int i) \<noteq> I0 RES" by (simp add: IV_def)
  ultimately show ?case using Cons.IH [of "i + 1"] Cons.prems by auto
qed

text \<open>Destructuring is not balanced: for \<open>k\<close> variables the code of the assignment (assignment.c,
  \<open>produce_assignment_multi\<close>) pushes the value once, and once more for every \<open>AIDX\<close> which pops it again, but takes the value
  itself from the stack \<open>k div 2\<close> times instead of once: with one variable it stays there, with four or more
  what lies below is taken for it.\<close>

theorem destructuring_pops:
  assumes "produce_assignment fo eq (Assignment_tuple (List.map (\<lambda>v. SingleAssignment_var v None) vs)) t = Inr (n, t')"
  shows "\<exists>code. t_ins t' = t_ins t @ code \<and>
    length (filter (\<lambda>x. x = I0 PUSH) code) = 1 + length vs \<and>
    length (filter (\<lambda>x. x = I0 AIDX) code) = length vs \<and>
    length (filter (\<lambda>x. x = I0 RES) code) = length vs div 2"
proof -
  let ?c = "[I0 PUSH] @ assignments_code fo (length vs) 0 vs @ []"
  have "emits (produce_assignment fo eq (Assignment_tuple (List.map (\<lambda>v. SingleAssignment_var v None) vs))) ?c"
    unfolding produce_assignment.simps length_map
    by (intro straight_intros emits_assignments)
  from emitsD [OF this assms] have "t_ins t' = t_ins t @ ?c" by blast
  moreover have "length (filter (\<lambda>x. x = I0 PUSH) (assignments_code fo len i vs)) = length vs"
    "length (filter (\<lambda>x. x = I0 AIDX) (assignments_code fo len i vs)) = length vs" for len i
    by (induction vs arbitrary: i) (auto simp: IV_def)
  moreover have "{k. 0 \<le> k \<and> k < length vs \<and> length vs \<le> 2 * k} = {(length vs + 1) div 2..<length vs}" by auto
  then have "card {k. 0 \<le> k \<and> k < length vs \<and> length vs \<le> 2 * k} = length vs div 2" by simp
  ultimately show ?thesis using pops_assignments [of 0 vs "length vs" fo] by (intro exI [of _ ?c]) (simp del: One_nat_def)
qed

theorem destructuring_pops_witness:
  "\<exists>n t'. produce_assignment int_fops demo_token (Assignment_tuple (List.map (\<lambda>v. SingleAssignment_var v None)
      [demo_token, demo_token, demo_token, demo_token])) tape_create = Inr (n, t') \<and>
     length (filter (\<lambda>x. x = I0 RES) (t_ins t')) = 2"
proof -
  let ?g = "produce_assignment int_fops demo_token (Assignment_tuple (List.map (\<lambda>v. SingleAssignment_var v None)
      [demo_token, demo_token, demo_token, demo_token])) tape_create"
  obtain n t' where t': "?g = Inr (n, t')" by (simp add: ran_simps)
  from destructuring_pops [OF t'] obtain code where "t_ins t' = t_ins tape_create @ code"
    "length (filter (\<lambda>x. x = I0 RES) code) = 2" by auto
  moreover have "t_ins tape_create = []" by (simp add: tape_create_def)
  ultimately show ?thesis using t' by (metis append_Nil)
qed

subsection \<open>Files\<close>

definition compiled :: "string list \<Rightarrow> tape res option" where
  "compiled src = read_file std_parselib int_fops False (\<lambda>x. x) 90 False (List.map (\<lambda>s. (1, s @ [CHR 0x0A])) src)"

text \<open>A file that consists of one definition cannot be compiled: the parser gives the bare definition, for which
  the table of populators has no entry (semantics.c), while the same definition after another statement compiles.\<close>

theorem single_definition_fails:
  "compiled [''def f(x) { return x }''] = Some (Inl (Fatal ''Populator not found'')) \<and>
   (case compiled [''def f(x) { return x }'', ''y = x''] of Some (Inr t) \<Rightarrow> tape_size t = 7 | _ \<Rightarrow> False)"
proof
  show "compiled [''def f(x) { return x }''] = Some (Inl (Fatal ''Populator not found''))" by code_simp
  show "case compiled [''def f(x) { return x }'', ''y = x''] of Some (Inr t) \<Rightarrow> tape_size t = 7 | _ \<Rightarrow> False" by code_simp
qed

end
