(* ===== verification/Evaluate.thy ===== *)
theory Evaluate imports LoopFacts Scheduler begin

text \<open>
  A reference evaluator of expressions that only read variables, and how the interpreter runs a piece of code: the
  link between the code generator and the machine.
\<close>

subsection \<open>The value of an expression\<close>

definition prim_op_value :: "fops \<Rightarrow> op \<Rightarrow> entity \<Rightarrow> entity \<Rightarrow> entity option" where
  "prim_op_value fo p a b = (case (a, b) of
     (EPrim x, EPrim y) \<Rightarrow> (case execute_primitive fo p x y of
        Inr r \<Rightarrow> Some (if p \<in> {LT, GT, LTE, GTE} \<and> int_of fo r = 0 then ENone else EPrim r)
      | Inl e \<Rightarrow> None)
   | _ \<Rightarrow> None)"

text \<open>\<open>==\<close> compares primitives; \<open>|\<close> of something else than a primitive is the first operand that is not \<open>None\<close>.\<close>

definition bi_value :: "fops \<Rightarrow> bi_type \<Rightarrow> entity \<Rightarrow> entity \<Rightarrow> entity option" where
  "bi_value fo ty a b = (case bi_to_ins ty of
     EQ \<Rightarrow> (case (a, b) of (EPrim x, EPrim y) \<Rightarrow> Some (truth (primitive_equals fo x y)) | _ \<Rightarrow> None)
   | NEQ \<Rightarrow> (case (a, b) of (EPrim x, EPrim y) \<Rightarrow> Some (truth (\<not> primitive_equals fo x y)) | _ \<Rightarrow> None)
   | BOR \<Rightarrow> (case a of EPrim x \<Rightarrow> prim_op_value fo BOR a b | ENone \<Rightarrow> Some b | EObj x \<Rightarrow> Some a)
   | p \<Rightarrow> prim_op_value fo p a b)"

fun bi_values :: "fops \<Rightarrow> entity option \<Rightarrow> (bi_type \<times> entity option) list \<Rightarrow> entity option" where
  "bi_values fo v [] = v"
| "bi_values fo v ((ty, w) # ws) = (case (v, w) of
     (Some a, Some b) \<Rightarrow> bi_values fo (bi_value fo ty a b) ws | _ \<Rightarrow> None)"

text \<open>\<open>and\<close> ends with the first \<open>None\<close>, \<open>or\<close> with the first other value; what follows is not evaluated.\<close>

fun chain_value :: "bool \<Rightarrow> entity option \<Rightarrow> entity option list \<Rightarrow> entity option" where
  "chain_value none_decides v [] = v"
| "chain_value none_decides v (w # ws) = (case v of
     None \<Rightarrow> None
   | Some a \<Rightarrow> if (a = ENone) = none_decides then v else chain_value none_decides w ws)"

fun if_value :: "(entity option \<times> entity option) list \<Rightarrow> entity option option \<Rightarrow> entity option" where
  "if_value [] e = (case e of None \<Rightarrow> Some ENone | Some v \<Rightarrow> v)"
| "if_value ((c, b) # cs) e = (case c of None \<Rightarrow> None | Some v \<Rightarrow> if v = ENone then if_value cs e else b)"

definition word_value :: "(string \<Rightarrow> entity option) \<Rightarrow> token \<Rightarrow> entity option" where
  "word_value vars tok =
     (if tok_text tok = ''True'' then Some (EPrim (PInt 1))
      else if tok_text tok = ''False'' \<or> tok_text tok = ''None'' then Some ENone
      else if tok_type tok \<in> {INTEGER, FLOATING, STR_T} then None
      else vars (tok_text tok))"

definition const_value :: "fops \<Rightarrow> token \<Rightarrow> entity option" where
  "const_value fo tok = (case token_to_primitive fo tok of Inr v \<Rightarrow> Some (EPrim v) | Inl e \<Rightarrow> None)"

definition not_value :: "entity \<Rightarrow> entity" where
  "not_value v = (if v = ENone then entity_int 1 else ENone)"

function eval :: "fops \<Rightarrow> (string \<Rightarrow> entity option) \<Rightarrow> expression_tree \<Rightarrow> entity option" where
  "eval fo vars (Identifier tok) = word_value vars tok"
| "eval fo vars (Constant tok v) = const_value fo tok"
| "eval fo vars (Primary_expression tok e) = eval fo vars e"
| "eval fo vars (Primary_expression_no_constants tok e) = eval fo vars e"
| "eval fo vars (Unary_expression tok ty e) = (case ty of
     Unary_not \<Rightarrow> map_option not_value (eval fo vars e)
   | Unary_negate \<Rightarrow> (case constant_token e of
        None \<Rightarrow> (case eval fo vars e of None \<Rightarrow> None | Some v \<Rightarrow> prim_op_value fo MULT v (EPrim (PInt (- 1))))
      | Some c \<Rightarrow> (case const_value fo c of
           Some (EPrim (PInt i)) \<Rightarrow> Some (EPrim (PInt (- i))) | _ \<Rightarrow> None))
   | _ \<Rightarrow> None)"
| "eval fo vars (Bi_expression k e ss) = (case k of
     And_kind \<Rightarrow> chain_value True (eval fo vars e) (List.map (\<lambda>s. eval fo vars (bi_exp s)) ss)
   | Or_kind \<Rightarrow> chain_value False (eval fo vars e) (List.map (\<lambda>s. eval fo vars (bi_exp s)) ss)
   | _ \<Rightarrow> bi_values fo (eval fo vars e) (List.map (\<lambda>s. (bi_type_of s, eval fo vars (bi_exp s))) ss))"
| "eval fo vars (Conditional_expression ie) =
     if_value (List.map (\<lambda>(tok, c, b). (eval fo vars c, eval fo vars b)) (conditions ie))
       (map_option (eval fo vars) (else_exp ie))"
| "eval fo vars (String_literal tok) = None"
| "eval fo vars (Tuple_expression tok es) = None"
| "eval fo vars (Array_declaration tok a) = None"
| "eval fo vars (Map_declaration tok rtok es) = None"
| "eval fo vars (Postfix_expression e ps) = None"
| "eval fo vars (Range_expression tok a b c) = None"
| "eval fo vars (In_expression tok n e c) = None"
| "eval fo vars (Is_expression tok e ty) = None"
| "eval fo vars (Anon_function_definition f) = None"
| "eval fo vars (Assignment_expression eq a rhs) = None"
| "eval fo vars (Foreach_statement ftok itok a it body) = None"
| "eval fo vars (For_statement tok a b c body) = None"
| "eval fo vars (While_statement tok c body) = None"
| "eval fo vars (Compound_statement es) = None"
| "eval fo vars (Try_statement tok ctok body a cbody) = None"
| "eval fo vars (Raise_statement tok e) = None"
| "eval fo vars (Selection_statement ie) = None"
| "eval fo vars (Jump_statement tok r) = None"
| "eval fo vars (Break_statement tok b) = None"
| "eval fo vars (Exit_statement tok) = None"
| "eval fo vars (File_level_statement_list md) = None"
  by pat_completeness auto

lemma size_bi_exp: "s \<in> set ss \<Longrightarrow> size (bi_exp s) < size_list (size_bi_suffix size) ss"
  by (rule size_in_suffixes) (auto simp: bi_suffix.set_sel)

lemma size_condition: "(tok, c, b) \<in> set (conditions ie) \<Longrightarrow> size c < size_if_else size ie \<and> size b < size_if_else size ie"
  by (blast dest: set_conditions size_if_else)

lemma size_else: "else_exp ie = Some x \<Longrightarrow> size x < size_if_else size ie"
  by (rule size_if_else) (cases ie; simp)

termination eval
  by (relation "measure (\<lambda>(fo, vars, e). size e)")
     (auto dest: size_bi_exp size_condition size_else intro: less_SucI less_trans)


subsection \<open>The machine at an instruction\<close>

text \<open>The machine \<open>m\<close> with the next instruction \<open>i\<close>, the result value \<open>r\<close> and the stack \<open>st\<close>.\<close>

definition reg :: "task_id \<Rightarrow> ctx_id \<Rightarrow> machine \<Rightarrow> nat \<Rightarrow> entity \<Rightarrow> entity list \<Rightarrow> machine" where
  "reg t c m i r st = upd_ctx c (\<lambda>x. x\<lparr>x_ins := of_nat i\<rparr>) (upd_task t (\<lambda>x. x\<lparr>a_resval := r, a_stack := st\<rparr>) m)"

text \<open>A variable of the context or one around it.\<close>

definition visible :: "ctx_id \<Rightarrow> machine \<Rightarrow> string \<Rightarrow> entity option" where
  "visible c m name =
     (if name = ''self'' then Some (EObj (x_self (ctx_at m c)))
      else case object_get (x_member_obj (ctx_at m c)) name m of
        Some v \<Rightarrow> Some v
      | None \<Rightarrow> (case enclosing (length (s_contexts m)) (x_previous (ctx_at m c)) name m of
          Inr (Some (c', v)) \<Rightarrow> Some v | _ \<Rightarrow> None))"

lemma lookup_visible: "visible c m name = Some v \<Longrightarrow> context_lookup e c name m = Inr (Some v, m)"
  by (auto simp: visible_def context_lookup_def Let_def split: if_splits option.splits sum.splits)

text \<open>Turns of the loop that end in the same context: \<open>m\<close> becomes \<open>m'\<close> whatever is left to do.\<close>

definition turns :: "env \<Rightarrow> task_id \<Rightarrow> ctx_id \<Rightarrow> machine \<Rightarrow> machine \<Rightarrow> bool" where
  "turns e t c m m' \<longleftrightarrow> (\<exists>k. \<forall>n. execute_loop (k + n) e t c m = execute_loop n e t c m')"

lemma turns_refl [simp]: "turns e t c m m"
  unfolding turns_def by (rule exI [of _ 0]) simp

lemma turns_trans: "turns e t c m m1 \<Longrightarrow> turns e t c m1 m2 \<Longrightarrow> turns e t c m m2"
  unfolding turns_def by (metis add.assoc)

lemma turns_step: "loop_turn e t c m = Inr (Continue c, m') \<Longrightarrow> turns e t c m m'"
  unfolding turns_def by (rule exI [of _ 1]) simp

locale running =
  fixes e :: env and t :: task_id and c :: ctx_id and m :: machine
  assumes task: "t < length (s_tasks m)" and ctx: "c < length (s_contexts m)"
    and no_error: "x_error (ctx_at m c) = None"
begin

lemma reg_get [simp]: "task_get_resval t (reg t c m i r st) = r"
  using task by (simp add: reg_def task_get_resval_def)

lemma reg_task [simp]: "a_stack (task_at (reg t c m i r st) t) = st"
  using task by (simp add: reg_def)

lemma reg_upd_task:
  "(\<And>x. f x = x\<lparr>a_resval := g (a_resval x) (a_stack x), a_stack := h (a_resval x) (a_stack x)\<rparr>) \<Longrightarrow>
   upd_task t f (reg t c m i r st) = reg t c m i (g r st) (h r st)"
  using task by (simp add: reg_def upd_task_def upd_ctx_def)

lemma reg_set [simp]: "task_set_resval t v (reg t c m i r st) = reg t c m i v st"
  unfolding task_set_resval_def by (rule reg_upd_task) simp

lemma reg_push [simp]: "task_pushstack t v (reg t c m i r st) = reg t c m i r (v # st)"
  unfolding task_pushstack_def by (rule reg_upd_task) simp

lemma reg_pop [simp]: "task_popstack t (reg t c m i r (v # st)) = Inr (v, reg t c m i r st)"
proof -
  have "task_dropstack t (reg t c m i r (v # st)) = reg t c m i r (tl (v # st))"
    unfolding task_dropstack_def by (rule reg_upd_task) simp
  then show ?thesis by (simp add: task_popstack_def task_peekstack_def)
qed

lemma reg_peek [simp]: "task_peekstack_n t (Suc 0) (reg t c m i r (v # w # st)) = Inr w"
  by (simp add: task_peekstack_n_def assert_that_def)

lemma reg_ctx:
  "ctx_at (reg t c m i r st) c = (ctx_at m c)\<lparr>x_ins := of_nat i\<rparr>"
  "c' \<noteq> c \<Longrightarrow> ctx_at (reg t c m i r st) c' = ctx_at m c'"
  using ctx by (simp_all add: reg_def)

lemma reg_skip: "0 \<le> int i + v \<Longrightarrow> skip_ins c (word_of_int v) (reg t c m i r st) = reg t c m (nat (int i + v)) r st"
proof -
  assume "0 \<le> int i + v"
  then have "(of_nat (nat (int i + v)) :: u32) = of_nat i + word_of_int v"
    by (metis int_nat_eq of_int_add of_int_of_nat_eq)
  then show ?thesis using ctx by (simp add: reg_def skip_ins_def upd_ctx_def)
qed

lemma reg_skip_one [simp]: "skip_ins c 1 (reg t c m i r st) = reg t c m (Suc i) r st"
proof -
  have "nat (int i + 1) = Suc i" by simp
  then show ?thesis using reg_skip [of i 1 r st] by simp
qed

lemma reg_objects [simp]: "object_get x name (reg t c m i r st) = object_get x name m"
  by (simp add: object_get_def reg_def)

lemma reg_parts: "x_member_obj (ctx_at (reg t c m i r st) c') = x_member_obj (ctx_at m c')"
  "x_previous (ctx_at (reg t c m i r st) c') = x_previous (ctx_at m c')"
  "x_self (ctx_at (reg t c m i r st) c') = x_self (ctx_at m c')"
  by (cases "c' = c"; simp add: reg_ctx)+

lemma reg_enclosing [simp]: "enclosing n p name (reg t c m i r st) = enclosing n p name m"
proof (induction n arbitrary: p)
  case 0
  show ?case by (cases p) simp_all
next
  case (Suc n)
  then show ?case by (cases p) (simp_all add: reg_parts split: option.split)
qed

lemma reg_visible [simp]: "visible c (reg t c m i r st) = visible c m"
proof -
  have "length (s_contexts (reg t c m i r st)) = length (s_contexts m)" by (simp add: reg_def)
  then show ?thesis by (simp add: visible_def fun_eq_iff reg_parts split: option.split)
qed

end

subsection \<open>Running code\<close>

text \<open>The code at a position of the tape; and what running it does to the result value and the stack.\<close>

definition located :: "ctx_id \<Rightarrow> machine \<Rightarrow> nat \<Rightarrow> instruction list \<Rightarrow> bool" where
  "located c m i cs \<longleftrightarrow> length (t_ins (x_tape (ctx_at m c))) < 2 ^ 31 \<and>
     (\<exists>pre post. t_ins (x_tape (ctx_at m c)) = pre @ cs @ post \<and> length pre = i)"

definition runs :: "env \<Rightarrow> task_id \<Rightarrow> ctx_id \<Rightarrow> machine \<Rightarrow> instruction list \<Rightarrow> entity \<Rightarrow> entity list \<Rightarrow> entity \<Rightarrow>
    entity list \<Rightarrow> bool" where
  "runs e t c m cs r st r' st' \<longleftrightarrow> (\<forall>i. located c m i cs \<longrightarrow>
     turns e t c (reg t c m i r st) (reg t c m (i + length cs) r' st'))"

text \<open>Code that leaves a value and the stack as it was.\<close>

definition computes :: "env \<Rightarrow> task_id \<Rightarrow> ctx_id \<Rightarrow> machine \<Rightarrow> instruction list \<Rightarrow> entity option \<Rightarrow> bool" where
  "computes e t c m cs ov \<longleftrightarrow> (\<forall>v r st. ov = Some v \<longrightarrow> runs e t c m cs r st v st)"

lemma located_append: "located c m i (a @ b) \<Longrightarrow> located c m i a \<and> located c m (i + length a) b"
  unfolding located_def by (metis append_assoc length_append)

lemma located_Cons: "located c m i (x # b) \<Longrightarrow> located c m i [x] \<and> located c m (Suc i) b"
  using located_append [of c m i "[x]" b] by simp

lemma runs_append:
  assumes "runs e t c m a r st r1 st1" and "runs e t c m b r1 st1 r2 st2"
  shows "runs e t c m (a @ b) r st r2 st2"
  unfolding runs_def
proof (intro allI impI)
  fix i
  assume "located c m i (a @ b)"
  from located_append [OF this] assms show "turns e t c (reg t c m i r st) (reg t c m (i + length (a @ b)) r2 st2)"
    unfolding runs_def by (metis add.assoc length_append turns_trans)
qed

lemma runs_Cons:
  "runs e t c m [x] r st r1 st1 \<Longrightarrow> runs e t c m b r1 st1 r2 st2 \<Longrightarrow> runs e t c m (x # b) r st r2 st2"
  using runs_append [of e t c m "[x]"] by simp

lemma runs_Nil: "runs e t c m [] r st r st"
  by (simp add: runs_def)

context running begin

lemma turn:
  assumes "located c m i [x]"
  shows "loop_turn e t c (reg t c m i r st) = execute_ins e t c x (reg t c m i r st)"
proof -
  from assms have size_tape: "length (t_ins (x_tape (ctx_at m c))) < 2 ^ 31" by (simp add: located_def)
  from assms have i: "i < length (t_ins (x_tape (ctx_at m c)))" "t_ins (x_tape (ctx_at m c)) ! i = x"
    by (auto simp: located_def nth_append)
  then have "unat (of_nat i :: u32) = i" using size_tape by (simp add: unat_of_nat take_bit_nat_eq_self)
  with i have "context_ins c (reg t c m i r st) = Inr x"
    by (simp add: context_ins_def reg_ctx tape_get_def assert_that_def tape_size_def)
  then show ?thesis using no_error by (simp add: loop_turn_def reg_ctx)
qed

lemma runs_one:
  assumes "\<And>i. execute_ins e t c x (reg t c m i r st) = Inr (Continue c, reg t c m (Suc i) r' st')"
  shows "runs e t c m [x] r st r' st'"
  using assms turn by (auto simp: runs_def intro!: turns_step)

lemma runs_push: "runs e t c m [I0 PUSH] r st r (r # st)"
  by (rule runs_one) (simp add: execute_ins_def go_on_def execute_PUSH_def)

lemma runs_push_prim: "runs e t c m [\<lparr>ins_op = PUSH, ins_arg = PrimArg v\<rparr>] r st r (EPrim v # st)"
  by (rule runs_one) (simp add: execute_ins_def go_on_def execute_PUSH_def entity_primitive_def)

lemma runs_not: "runs e t c m [I0 NOT_O] v st (not_value v) st"
  by (rule runs_one) (simp add: execute_ins_def go_on_def execute_NOT_def assert_that_def not_value_def)

lemma computes_prim: "computes e t c m [\<lparr>ins_op = RES, ins_arg = PrimArg v\<rparr>] (Some (EPrim v))"
  unfolding computes_def by (auto intro!: runs_one simp: execute_ins_def go_on_def execute_RES_def entity_primitive_def)

lemma computes_none: "computes e t c m [I0 RNIL] (Some ENone)"
  unfolding computes_def by (auto intro!: runs_one simp: execute_ins_def go_on_def execute_RNIL_def assert_that_def)

lemma computes_var: "computes e t c m [IT RES name] (visible c m name)"
proof -
  have "execute_RES e t c (IdArg name) (reg t c m i r st) = Inr (reg t c m i v st)" if "visible c m name = Some v" for v i r st
    using that lookup_visible [of c "reg t c m i r st" name v e] by (simp add: execute_RES_def or_none_def)
  then show ?thesis unfolding computes_def
    by (auto intro!: runs_one simp: execute_ins_def go_on_def)
qed

lemma pop_operands:
  "primitive_operands e name t c NoArg (reg t c m i r (EPrim y # EPrim x # st)) = Inr (Some (x, y), reg t c m i r st)"
  by (simp add: primitive_operands_def)

lemma math_value:
  assumes "prim_op_value (en_fo e) p a b = Some v"
    and "p \<in> {ADD, SUB, MULT, DIV, MOD, LT, GT, LTE, GTE, AND_O, OR_O, BAND, BXOR, BOR}"
  shows "execute_math e p t c NoArg (reg t c m i r (b # a # st)) = Inr (reg t c m i v st)"
proof -
  from assms(1) obtain x y q where "a = EPrim x" "b = EPrim y" "execute_primitive (en_fo e) p x y = Inr q"
    "v = (if p \<in> {LT, GT, LTE, GTE} \<and> int_of (en_fo e) q = 0 then ENone else EPrim q)"
    by (auto simp: prim_op_value_def split: entity.splits sum.splits)
  with assms(2) show ?thesis
    by (auto simp: execute_math_def primitive_op_def primitive_bool_op_def pop_operands entity_primitive_def)
qed

lemma runs_bi:
  assumes "bi_value (en_fo e) ty a b = Some v"
  shows "runs e t c m [I0 (bi_to_ins ty)] r (b # a # st) v st"
proof (rule runs_one)
  fix i
  let ?m = "reg t c m i r (b # a # st)"
  show "execute_ins e t c (I0 (bi_to_ins ty)) ?m = Inr (Continue c, reg t c m (Suc i) v st)"
  proof (cases "ty = Rel_eq \<or> ty = Rel_neq")
    case True
    with assms obtain x y where xy: "a = EPrim x" "b = EPrim y"
      and v: "v = truth (if ty = Rel_eq then primitive_equals (en_fo e) x y else \<not> primitive_equals (en_fo e) x y)"
      by (auto simp: bi_value_def split: entity.splits)
    then show ?thesis using True
      by (auto simp: execute_ins_def wait_or_go_def execute_EQ_def)
  next
    case False
    show ?thesis
    proof (cases "ty = Bin_or")
      case True
      then show ?thesis using assms math_value [of BOR a b v i r st]
        by (cases a) (auto simp: execute_ins_def go_on_def execute_BOR_with_obj_def bi_value_def)
    next
      case other: False
      with False assms have "prim_op_value (en_fo e) (bi_to_ins ty) a b = Some v"
        by (cases ty) (simp_all add: bi_value_def)
      then show ?thesis using math_value [of "bi_to_ins ty" a b v i r st] False other
        by (cases ty) (simp_all add: execute_ins_def go_on_def)
    qed
  qed
qed

end

end
