(* ===== verification/Correct.thy ===== *)
theory Correct imports Evaluate Demo begin

text \<open>
  The code of an expression that only reads variables computes its value: the composition of the code generator with the
  interpreter agrees with the reference evaluator.
\<close>

declare gens.simps [simp del] produce_instructions.simps [simp del]

context running begin

text \<open>One instruction of which the position matters.\<close>

lemma jump_turn:
  assumes "located c m i (IV p v # cs)" and "p = IF \<and> r \<noteq> ENone \<or> p = IFN \<and> r = ENone \<or> p = JMP" and "0 \<le> v"
  shows "turns e t c (reg t c m i r st) (reg t c m (i + 1 + nat v) r st)"
proof -
  have l: "located c m i [IV p v]" using assms(1) located_Cons by blast
  have "nat (int i + v) = i + nat v" using assms(3) by (simp add: nat_add_distrib)
  then have s: "skip_ins c (word_of_int v) (reg t c m i q st) = reg t c m (i + nat v) q st" for q
    using reg_skip [of i v q st] assms(3) by simp
  have "execute_ins e t c (IV p v) (reg t c m i r st) = Inr (Continue c, reg t c m (Suc (i + nat v)) r st)"
    using assms(2) by (auto simp: execute_ins_def go_on_def execute_IF_def execute_JMP_def IV_def jump_val_def s Let_def)
  then show ?thesis using turn [OF l, of r st] by (simp add: turns_step)
qed

lemma no_jump_turn:
  assumes "located c m i (IV p v # cs)" and "p = IF \<and> r = ENone \<or> p = IFN \<and> r \<noteq> ENone"
  shows "turns e t c (reg t c m i r st) (reg t c m (Suc i) r st)"
proof -
  have l: "located c m i [IV p v]" using assms(1) located_Cons by blast
  have "execute_ins e t c (IV p v) (reg t c m i r st) = Inr (Continue c, reg t c m (Suc i) r st)"
    using assms(2) by (auto simp: execute_ins_def go_on_def execute_IF_def IV_def Let_def)
  then show ?thesis using turn [OF l, of r st] by (simp add: turns_step)
qed

lemma computesD:
  "computes e t c m cs (Some v) \<Longrightarrow> located c m i (cs @ post) \<Longrightarrow>
   turns e t c (reg t c m i r st) (reg t c m (i + length cs) v st)"
  unfolding computes_def runs_def using located_append by blast

subsection \<open>\<open>and\<close>, \<open>or\<close>\<close>

lemma runs_chain:
  assumes "p = (if b then IFN else IF)"
  shows "list_all2 (computes e t c m) cs ws \<Longrightarrow> chain_value b (Some v) ws = Some v' \<Longrightarrow>
   runs e t c m (suffix_code p cs) v st v' st"
proof (induction cs arbitrary: ws v)
  case Nil
  then show ?case by (simp add: runs_Nil)
next
  case (Cons x cs)
  then obtain w ws' where ws: "ws = w # ws'" "computes e t c m x w" "list_all2 (computes e t c m) cs ws'"
    by (auto simp: list_all2_Cons1)
  let ?n = "total (x # cs) + int (length cs)"
  show ?case unfolding runs_def
  proof (intro allI impI)
    fix i
    assume l: "located c m i (suffix_code p (x # cs))"
    then have l': "located c m i (IV p ?n # x @ suffix_code p cs)" by simp
    show "turns e t c (reg t c m i v st) (reg t c m (i + length (suffix_code p (x # cs))) v' st)"
    proof (cases "(v = ENone) = b")
      case True
      then have "v' = v" using Cons.prems(2) ws(1) by simp
      moreover have "i + 1 + nat ?n = i + length (suffix_code p (x # cs))" by simp
      moreover have "p = IF \<and> v \<noteq> ENone \<or> p = IFN \<and> v = ENone \<or> p = JMP" using True assms by auto
      ultimately show ?thesis using jump_turn [OF l', of v st] by simp
    next
      case False
      with Cons.prems(2) ws(1) obtain u where u: "w = Some u" "chain_value b (Some u) ws' = Some v'"
        by (cases w; cases ws') auto
      have "p = IF \<and> v = ENone \<or> p = IFN \<and> v \<noteq> ENone" using False assms by auto
      from no_jump_turn [OF l' this] have 1: "turns e t c (reg t c m i v st) (reg t c m (Suc i) v st)" .
      from located_Cons [OF l'] have l2: "located c m (Suc i) (x @ suffix_code p cs)" ..
      have 2: "turns e t c (reg t c m (Suc i) v st) (reg t c m (Suc i + length x) u st)"
        using computesD [OF _ l2] ws(2) u(1) by blast
      have 3: "turns e t c (reg t c m (Suc i + length x) u st) (reg t c m (Suc i + length x + length (suffix_code p cs)) v' st)"
        using Cons.IH [OF ws(3) u(2)] located_append [OF l2] unfolding runs_def by blast
      have "Suc i + length x + length (suffix_code p cs) = i + length (suffix_code p (x # cs))" by simp
      then show ?thesis using turns_trans [OF 1 turns_trans [OF 2 3]] by (simp only:)
    qed
  qed
qed

subsection \<open>Conditionals\<close>

end

fun pick :: "(entity option \<times> entity option) list \<Rightarrow> entity option option" where
  "pick [] = None"
| "pick ((c, b) # cs) = (case c of None \<Rightarrow> Some None | Some v \<Rightarrow> if v = ENone then pick cs else Some b)"

lemma if_value_pick:
  "if_value vs ev = (case pick vs of None \<Rightarrow> (case ev of None \<Rightarrow> Some ENone | Some v \<Rightarrow> v) | Some v \<Rightarrow> v)"
  by (induction vs ev rule: if_value.induct) (auto split: option.split)

lemma bodies_code_append:
  "bodies_code e ne (xs @ ys) =
     (if ys = [] \<and> \<not> e then bodies_code e ne xs
      else bodies_code True (ne + total (List.map snd ys) + int (length ys)) xs) @ bodies_code e ne ys"
  by (induction xs) (auto simp: algebra_simps)

context running begin

lemma run_condition:
  assumes l: "located c m i (conds_code all ((cc, bc) # ps) @ bodies_code True ne (rev ps) @ rest)"
    and cc: "computes e t c m cc (Some w)" and all: "0 \<le> all"
  defines "k \<equiv> i + length cc"
  shows "w \<noteq> ENone \<Longrightarrow> turns e t c (reg t c m i r st)
      (reg t c m (k + 1 + length (conds_code all ps) + length (bodies_code True ne (rev ps))) w st)"
    and "w = ENone \<Longrightarrow> turns e t c (reg t c m i r st) (reg t c m (if ps = [] then k + 1 + nat all else k + 1) w st)"
proof -
  let ?n = "total (List.map fst ps) + total (List.map snd ps) + 2 * int (length ps)"
  let ?rest = "conds_code all ps @ bodies_code True ne (rev ps) @ rest"
  have l: "located c m i (cc @ (if ps = [] then IV IFN all else IV IF ?n) # ?rest)" using l by simp
  then have l': "located c m k ((if ps = [] then IV IFN all else IV IF ?n) # ?rest)"
    unfolding k_def by (rule located_append [THEN conjunct2])
  have 1: "turns e t c (reg t c m i r st) (reg t c m k w st)" unfolding k_def by (rule computesD [OF cc l])
  have len: "length (conds_code all ps) + length (bodies_code True ne (rev ps)) = nat ?n"
    using length_bodies_code [of True ne "rev ps"] by (simp add: rev_map [symmetric])
  show "turns e t c (reg t c m i r st)
      (reg t c m (k + 1 + length (conds_code all ps) + length (bodies_code True ne (rev ps))) w st)" if w: "w \<noteq> ENone"
  proof (cases "ps = []")
    case True
    then show ?thesis using turns_trans [OF 1 no_jump_turn [of k IFN all ?rest w st]] l' w by simp
  next
    case False
    then have "turns e t c (reg t c m k w st) (reg t c m (k + 1 + nat ?n) w st)"
      using jump_turn [of k IF ?n ?rest w st] l' w by simp
    moreover have "k + 1 + nat ?n = k + 1 + length (conds_code all ps) + length (bodies_code True ne (rev ps))"
      using len by simp
    ultimately show ?thesis using turns_trans [OF 1] by (simp only:)
  qed
  show "turns e t c (reg t c m i r st) (reg t c m (if ps = [] then k + 1 + nat all else k + 1) w st)" if w: "w = ENone"
  proof (cases "ps = []")
    case True
    then show ?thesis using turns_trans [OF 1 jump_turn [of k IFN all ?rest w st]] l' w all by simp
  next
    case False
    then show ?thesis using turns_trans [OF 1 no_jump_turn [of k IF ?n ?rest w st]] l' w by simp
  qed
qed

end

definition computes2 :: "env \<Rightarrow> task_id \<Rightarrow> ctx_id \<Rightarrow> machine \<Rightarrow> instruction list \<times> instruction list \<Rightarrow>
    entity option \<times> entity option \<Rightarrow> bool" where
  "computes2 e t c m p v \<longleftrightarrow> computes e t c m (fst p) (fst v) \<and> computes e t c m (snd p) (snd v)"

lemma computes2_pair [simp]:
  "computes2 e t c m (cc, bc) (cv, bv) \<longleftrightarrow> computes e t c m cc cv \<and> computes e t c m bc bv"
  by (simp add: computes2_def)

lemma pick_Cons_None: "pick ((cv, bv) # vs) = None \<longleftrightarrow> cv = Some ENone \<and> pick vs = None"
  by (auto split: option.splits)

lemma pick_Cons_Some: "pick ((cv, bv) # vs) = Some (Some v) \<longleftrightarrow>
    cv = Some ENone \<and> pick vs = Some (Some v) \<or> (\<exists>w. cv = Some w \<and> w \<noteq> ENone) \<and> bv = Some v"
  by (auto split: option.splits)

context running begin

lemma run_conditions:
  assumes "list_all2 (computes2 e t c m) ps vs" and "located c m i (conds_code all ps @ bodies_code True ne (rev ps) @ rest)"
    and "0 \<le> all" and "0 \<le> ne" and "ps \<noteq> []"
  shows "(pick vs = None \<longrightarrow> turns e t c (reg t c m i r st) (reg t c m (i + length (conds_code all ps) + nat all) ENone st)) \<and>
    (\<forall>v. pick vs = Some (Some v) \<longrightarrow> turns e t c (reg t c m i r st)
      (reg t c m (i + length (conds_code all ps) + length (bodies_code True ne (rev ps)) + nat ne) v st))"
  using assms
proof (induction ps arbitrary: vs i ne r rest)
  case (Cons p ps)
  obtain cc bc where p: "p = (cc, bc)" by (cases p)
  with Cons.prems(1) obtain cv bv vs' where vs: "vs = (cv, bv) # vs'" "computes e t c m cc cv" "computes e t c m bc bv"
    "list_all2 (computes2 e t c m) ps vs'" by (cases vs) auto
  let ?ne = "ne + int (length bc) + 1"
  let ?B = "bodies_code True ?ne (rev ps)"
  have b: "bodies_code True ne (rev (p # ps)) = ?B @ bc @ [IV JMP ne]"
    by (simp add: p bodies_code_append)
  have l: "located c m i (conds_code all ((cc, bc) # ps) @ ?B @ bc @ IV JMP ne # rest)"
    using Cons.prems(2) [unfolded b] by (simp only: p append_assoc append_Cons append_Nil)
  let ?k = "i + length cc + 1"
  note start = run_condition [OF l _ Cons.prems(3)]
  have lk: "located c m ?k (conds_code all ps @ ?B @ bc @ IV JMP ne # rest)"
    using located_append [of c m i "cc @ [if ps = [] then IV IFN all else IV IF (total (List.map fst ps) +
        total (List.map snd ps) + 2 * int (length ps))]"] l by simp
  let ?q = "?k + length (conds_code all ps) + length ?B"
  have lb: "located c m ?q (bc @ IV JMP ne # rest)"
    using located_append [of c m ?k "conds_code all ps @ ?B"] lk by (simp add: add.assoc)
  have body: "turns e t c (reg t c m i r st) (reg t c m (?q + length bc + 1 + nat ne) v st)"
    if "cv = Some w" "w \<noteq> ENone" "bv = Some v" for w v
  proof -
    have 1: "turns e t c (reg t c m i r st) (reg t c m ?q w st)"
      using start(1) [of w r st] vs(2) that by (simp add: add.assoc)
    have 2: "turns e t c (reg t c m ?q w st) (reg t c m (?q + length bc) v st)"
      using computesD [OF _ lb] vs(3) that(3) by simp
    have "located c m (?q + length bc) (IV JMP ne # rest)" using located_append [OF lb] ..
    then have 3: "turns e t c (reg t c m (?q + length bc) v st) (reg t c m (?q + length bc + 1 + nat ne) v st)"
      using jump_turn Cons.prems(4) by blast
    show ?thesis by (rule turns_trans [OF 1 turns_trans [OF 2 3]])
  qed
  have len: "length (conds_code all (p # ps)) = length cc + 1 + length (conds_code all ps)" by (simp add: p)
  have lenb: "length (bodies_code True ne (rev (p # ps))) = length ?B + length bc + 1" unfolding b by simp
  show ?case
  proof (cases "ps = []")
    case True
    then have v: "vs' = []" using vs(4) by simp
    have A: "turns e t c (reg t c m i r st) (reg t c m (?k + nat all) ENone st)" if "cv = Some ENone"
      using start(2) [of ENone r st] vs(2) that True by simp
    show ?thesis using A body vs(1) v True
      by (auto simp: p b add.assoc split: option.splits if_splits)
  next
    case False
    note IH = Cons.IH [OF vs(4) lk Cons.prems(3) _ False, of ENone]
    have go: "turns e t c (reg t c m i r st) (reg t c m ?k ENone st)" if "cv = Some ENone"
      using start(2) [of ENone r st] vs(2) that False by simp
    show ?thesis
    proof (intro conjI allI impI)
      assume "pick vs = None"
      then have "cv = Some ENone" "pick vs' = None" using vs(1) by (auto simp: pick_Cons_None simp del: pick.simps)
      with turns_trans [OF go] IH Cons.prems(4) show "turns e t c (reg t c m i r st)
          (reg t c m (i + length (conds_code all (p # ps)) + nat all) ENone st)" by (simp add: len p add.assoc)
    next
      fix v
      assume "pick vs = Some (Some v)"
      then consider "cv = Some ENone" "pick vs' = Some (Some v)" | w where "cv = Some w" "w \<noteq> ENone" "bv = Some v"
        using vs(1) by (auto simp: pick_Cons_Some simp del: pick.simps)
      then show "turns e t c (reg t c m i r st)
          (reg t c m (i + length (conds_code all (p # ps)) + length (bodies_code True ne (rev (p # ps))) + nat ne) v st)"
      proof cases
        case 1
        have "nat ?ne = nat ne + length bc + 1" using Cons.prems(4) by simp
        with turns_trans [OF go [OF 1(1)]] IH Cons.prems(4) 1(2) show ?thesis
          unfolding len lenb by (simp add: add.assoc add.commute add.left_commute)
      next
        case 2
        from body [OF this] show ?thesis unfolding len lenb by (simp add: add.assoc)
      qed
    qed
  qed
qed simp

lemma runs_if:
  assumes ps: "list_all2 (computes2 e t c m) ps vs" "ps \<noteq> []"
    and ec: "rel_option (computes e t c m) ec ev" and v: "if_value vs ev = Some v"
  shows "runs e t c m (if_code ps ec) r st v st"
  unfolding runs_def
proof (intro allI impI)
  fix i
  assume l: "located c m i (if_code ps ec)"
  note ab = add.assoc
  show "turns e t c (reg t c m i r st) (reg t c m (i + length (if_code ps ec)) v st)"
  proof (cases ec)
    case (Some ce)
    with ec obtain w where w: "ev = Some w" "computes e t c m ce w" by (auto simp: option_rel_Some1)
    let ?all = "total (List.map snd ps) + int (length ps)"
    let ?B = "bodies_code True (int (length ce)) (rev ps)"
    have l: "located c m i (conds_code ?all ps @ ?B @ ce)" using l Some by (simp add: if_code_def)
    have len: "length ?B = nat ?all"
      using length_bodies_code [of True "int (length ce)" "rev ps"] by (simp add: rev_map [symmetric])
    note * = run_conditions [OF ps(1) l _ _ ps(2), of r st]
    let ?q = "i + length (conds_code ?all ps) + length ?B"
    have q: "i + length (if_code ps ec) = ?q + length ce" using Some by (simp add: if_code_def)
    show ?thesis
    proof (cases "pick vs")
      case None
      then have "turns e t c (reg t c m i r st) (reg t c m ?q ENone st)" using * len by simp
      moreover have "located c m ?q (ce @ [])" using located_append [of c m i "conds_code ?all ps @ ?B" ce] l by (simp add: ab)
      moreover have "w = Some v" using v None w(1) by (simp add: if_value_pick)
      ultimately show ?thesis unfolding q using computesD [of ce v ?q "[]"] w(2) turns_trans by blast
    next
      case (Some b)
      then have "b = Some v" using v by (simp add: if_value_pick)
      then show ?thesis unfolding q using * Some by simp
    qed
  next
    case None
    obtain cc bc qs where p: "ps = (cc, bc) # qs" using ps(2) by (cases ps) auto
    with ps(1) obtain cv bv vs' where vs: "vs = (cv, bv) # vs'" "computes e t c m cc cv" "computes e t c m bc bv"
      "list_all2 (computes2 e t c m) qs vs'" by (cases vs) auto
    have ev: "ev = None" using ec None by simp
    let ?all = "total (List.map snd ps) + int (length ps) - 1"
    let ?B = "bodies_code True (int (length bc)) (rev qs)"
    have "if_code ps ec = conds_code ?all ((cc, bc) # qs) @ ?B @ bc"
      by (simp add: if_code_def None p bodies_code_append)
    then have l: "located c m i (conds_code ?all ((cc, bc) # qs) @ ?B @ bc)"
      and q: "i + length (if_code ps ec) = i + length cc + 1 + length (conds_code ?all qs) + length ?B + length bc"
      using l by simp_all
    have all: "0 \<le> ?all" using p by simp
    let ?k = "i + length cc + 1"
    have lk: "located c m ?k (conds_code ?all qs @ ?B @ bc)"
      using located_append [of c m i "cc @ [if qs = [] then IV IFN ?all else IV IF (total (List.map fst qs) +
          total (List.map snd qs) + 2 * int (length qs))]"] l by simp
    have len: "length ?B = nat (total (List.map snd qs) + int (length qs))"
      using length_bodies_code [of True "int (length bc)" "rev qs"] by (simp add: rev_map [symmetric])
    note start = run_condition [OF l _ all]
    from v ev have pv: "pick vs = None \<and> v = ENone \<or> pick vs = Some (Some v)"
      by (auto simp: if_value_pick split: option.splits)
    then consider (none) "cv = Some ENone" | (some) w where "cv = Some w" "w \<noteq> ENone" "bv = Some v"
      unfolding vs(1) by (auto simp: pick_Cons_Some pick_Cons_None simp del: pick.simps)
    then show ?thesis
    proof cases
      case none
      then have pv: "pick vs' = None \<and> v = ENone \<or> pick vs' = Some (Some v)" using pv vs(1) by simp
      show ?thesis
      proof (cases "qs = []")
        case True
        then have "v = ENone" using pv vs(4) by simp
        then show ?thesis using start(2) [of ENone r st] vs(2) none True unfolding q by (simp add: p len)
      next
        case False
        have go: "turns e t c (reg t c m i r st) (reg t c m ?k ENone st)"
          using start(2) [of ENone r st] vs(2) none False by simp
        note IH = run_conditions [OF vs(4) lk all _ False, of ENone st]
        have n: "nat ?all = length ?B + length bc" unfolding len p by simp
        from pv show ?thesis
        proof
          assume "pick vs' = None \<and> v = ENone"
          with turns_trans [OF go] IH show ?thesis by (simp add: q n ab)
        next
          assume "pick vs' = Some (Some v)"
          with turns_trans [OF go] IH show ?thesis by (simp add: q ab)
        qed
      qed
    next
      case some
      let ?q = "?k + length (conds_code ?all qs) + length ?B"
      have "turns e t c (reg t c m i r st) (reg t c m ?q w st)" using start(1) [of w r st] vs(2) some by simp
      moreover have "located c m ?q (bc @ [])"
        using located_append [of c m ?k "conds_code ?all qs @ ?B" bc] lk by (simp add: ab)
      ultimately show ?thesis unfolding q using computesD [of bc v ?q "[]"] vs(3) some(3) turns_trans by blast
    qed
  qed
qed

subsection \<open>Operators\<close>

end

fun bi_code :: "gen bi_suffix list \<Rightarrow> instruction list list \<Rightarrow> instruction list" where
  "bi_code (s # ss) (c # cs) = [I0 PUSH] @ c @ [I0 PUSH] @ [I0 (bi_to_ins (bi_type_of s))] @ bi_code ss cs"
| "bi_code _ _ = []"

lemma emits_bi:
  assumes "emits g c" and "list_all2 (\<lambda>s. emits (bi_exp s)) ss cs"
  shows "emits (produce_bi_expression g ss) (c @ bi_code ss cs)"
proof -
  have "emits (gens (concat (List.map (\<lambda>s. case s of BiSuffix tok ty e \<Rightarrow>
      [ins_none PUSH tok, e, ins_none PUSH tok, ins_none (bi_to_ins ty) tok]) ss))) (bi_code ss cs)"
    using assms(2)
  proof (induction rule: list_all2_induct)
    case (Cons s ss c cs)
    obtain tok ty x where s: "s = BiSuffix tok ty x" by (cases s)
    have "emits (gens [ins_none PUSH tok, x, ins_none PUSH tok, ins_none (bi_to_ins ty) tok])
        ([I0 PUSH] @ c @ [I0 PUSH] @ [I0 (bi_to_ins ty)] @ [])"
      using Cons(1) s by (intro emits_Cons emits_Nil emits_ins_none) simp
    from emits_append [OF this Cons(3)] show ?case by (simp add: s)
  qed (simp add: emits_Nil)
  with assms(1) show ?thesis unfolding produce_bi_expression_def by (rule emits_Cons)
qed

context running begin

lemma runs_bi_code:
  "list_all2 (\<lambda>s cs. computes e t c m cs (f s)) ss cs \<Longrightarrow>
   bi_values (en_fo e) (Some a) (List.map (\<lambda>s. (bi_type_of s, f s)) ss) = Some v \<Longrightarrow>
   runs e t c m (bi_code (List.map (map_bi_suffix g) ss) cs) a st v st"
proof (induction ss arbitrary: cs a)
  case Nil
  then show ?case by (simp add: runs_Nil)
next
  case (Cons s ss)
  then obtain x cs' where cs: "cs = x # cs'" "computes e t c m x (f s)"
    "list_all2 (\<lambda>s cs. computes e t c m cs (f s)) ss cs'" by (auto simp: list_all2_Cons1)
  from Cons.prems(2) obtain b where b: "f s = Some b" by (cases "f s") auto
  with Cons.prems(2) have next_v: "bi_values (en_fo e) (bi_value (en_fo e) (bi_type_of s) a b)
      (List.map (\<lambda>s. (bi_type_of s, f s)) ss) = Some v" by simp
  then obtain w where w: "bi_value (en_fo e) (bi_type_of s) a b = Some w"
    by (cases ss; cases "bi_value (en_fo e) (bi_type_of s) a b") auto
  have 1: "runs e t c m x a (a # st) b (a # st)" using cs(2) b by (simp add: computes_def)
  have 2: "runs e t c m (bi_code (List.map (map_bi_suffix g) ss) cs') w st v st"
    using Cons.IH [OF cs(3)] next_v w by simp
  have bt: "bi_type_of (map_bi_suffix g s) = bi_type_of s" by (cases s) simp
  from runs_append [OF runs_push runs_append [OF 1 runs_append [OF runs_push runs_append [OF runs_bi [OF w] 2]]]] bt
  show ?case by (simp add: cs(1))
qed

subsection \<open>Every expression\<close>

lemma computes_append: "computes e t c m a (Some v) \<Longrightarrow> (\<And>st. runs e t c m b v st w st) \<Longrightarrow> computes e t c m (a @ b) (Some w)"
  unfolding computes_def using runs_append by blast

lemma computes_nothing [simp]: "computes e t c m cs None"
  by (simp add: computes_def)

lemma undefined_code: "\<exists>cs. emits (produce_instructions fo ex) cs \<and> computes e t c m cs None"
  using well_produce_instructions by (rule wellE) auto

lemma word_code: "\<exists>cs. emits (produce_identifier fo tok) cs \<and> computes e t c m cs (word_value (visible c m) tok)"
proof -
  have "computes e t c m [IV RES 1] (Some (EPrim (PInt 1)))"
    using computes_prim [of "PInt 1"] by (simp add: IV_def)
  moreover have "token_arg fo tok = IdArg (tok_text tok)" if "tok_type tok \<notin> {INTEGER, FLOATING, STR_T}"
    using that by (simp add: token_arg_def)
  ultimately show ?thesis unfolding produce_identifier_def word_value_def
    using emits_ins_num [of RES 1 tok] emits_ins_none [of RNIL tok] emits_ins_tok [of fo RES tok]
      computes_none computes_var [of "tok_text tok"]
    by (cases "tok_type tok \<in> {INTEGER, FLOATING, STR_T}") auto
qed

lemma const_code: "\<exists>cs. emits (ins_tok fo RES tok) cs \<and> computes e t c m cs (const_value fo tok)"
proof -
  have "token_arg fo tok = PrimArg v" if "token_to_primitive fo tok = Inr v" for v
    using that by (auto simp: token_arg_def token_to_primitive_def split: if_splits)
  then show ?thesis using emits_ins_tok [of fo RES tok] computes_prim
    by (cases "token_to_primitive fo tok") (auto simp: const_value_def)
qed

lemma negated_code:
  "const_value fo tok = Some (EPrim (PInt i)) \<Longrightarrow>
   \<exists>cs. emits (ins_neg fo RES tok) cs \<and> computes e t c m cs (Some (EPrim (PInt (- i))))"
  using emits_ins_neg [of fo RES tok] computes_prim [of "PInt (- i)"]
  by (auto simp: const_value_def negated_arg_def split: sum.splits)


lemma suffix_codes:
  assumes "\<And>s. s \<in> set ss \<Longrightarrow> \<exists>cs. emits (g (bi_exp s)) cs \<and> computes e t c m cs (f (bi_exp s))"
  obtains cs where "list_all2 (\<lambda>s. emits (bi_exp s)) (List.map (map_bi_suffix g) ss) cs"
    and "list_all2 (\<lambda>s cs. computes e t c m cs (f (bi_exp s))) ss cs"
proof -
  obtain cs where cs: "list_all2 (\<lambda>s cs. emits (g (bi_exp s)) cs \<and> computes e t c m cs (f (bi_exp s))) ss cs"
    using choose_list [of ss "\<lambda>s cs. emits (g (bi_exp s)) cs \<and> computes e t c m cs (f (bi_exp s))"] assms by blast
  have "bi_exp (map_bi_suffix g s) = g (bi_exp s)" for s by (cases s) simp
  then have "list_all2 (\<lambda>s. emits (bi_exp s)) (List.map (map_bi_suffix g) ss) cs"
    using cs by (auto simp: list_all2_map1 elim: list_all2_mono)
  moreover have "list_all2 (\<lambda>s cs. computes e t c m cs (f (bi_exp s))) ss cs"
    using cs by (rule list_all2_mono) simp
  ultimately show thesis by (rule that)
qed

lemma bi_expression_code:
  assumes g: "\<exists>cs. emits (g ex) cs \<and> computes e t c m cs (f ex)"
    and ss: "\<And>s. s \<in> set ss \<Longrightarrow> \<exists>cs. emits (g (bi_exp s)) cs \<and> computes e t c m cs (f (bi_exp s))"
  shows "\<exists>cs. emits (produce_bi_expression (g ex) (List.map (map_bi_suffix g) ss)) cs \<and>
    computes e t c m cs (bi_values (en_fo e) (f ex) (List.map (\<lambda>s. (bi_type_of s, f (bi_exp s))) ss))"
proof -
  obtain x where x: "emits (g ex) x" "computes e t c m x (f ex)" using g by blast
  obtain cs where cs: "list_all2 (\<lambda>s. emits (bi_exp s)) (List.map (map_bi_suffix g) ss) cs"
    "list_all2 (\<lambda>s cs. computes e t c m cs (f (bi_exp s))) ss cs" using suffix_codes [of ss g f] ss by blast
  show ?thesis
  proof (intro exI conjI)
    show "emits (produce_bi_expression (g ex) (List.map (map_bi_suffix g) ss)) (x @ bi_code (List.map (map_bi_suffix g) ss) cs)"
      by (rule emits_bi [OF x(1) cs(1)])
    show "computes e t c m (x @ bi_code (List.map (map_bi_suffix g) ss) cs)
        (bi_values (en_fo e) (f ex) (List.map (\<lambda>s. (bi_type_of s, f (bi_exp s))) ss))"
    proof (cases "f ex")
      case None
      then have "bi_values (en_fo e) (f ex) ws = None" for ws by (cases ws) (auto split: option.split)
      then show ?thesis by simp
    next
      case (Some a)
      with x(2) show ?thesis
        using runs_bi_code [OF cs(2), of a] runs_append unfolding computes_def by metis
    qed
  qed
qed

lemma chain_code:
  assumes p: "p = (if b then IFN else IF)" and g: "\<exists>cs. emits (g ex) cs \<and> computes e t c m cs (f ex)"
    and ss: "\<And>s. s \<in> set ss \<Longrightarrow> \<exists>cs. emits (g (bi_exp s)) cs \<and> computes e t c m cs (f (bi_exp s))"
  shows "\<exists>cs. emits (gens [g ex, \<lambda>t. andThen (suffix_tapes (List.map (map_bi_suffix g) ss))
       (\<lambda>(n, bs). suffix_jumps p n bs t)]) cs \<and>
    computes e t c m cs (chain_value b (f ex) (List.map (\<lambda>s. f (bi_exp s)) ss))"
proof -
  obtain x where x: "emits (g ex) x" "computes e t c m x (f ex)" using g by blast
  obtain cs where cs: "list_all2 (\<lambda>s. emits (bi_exp s)) (List.map (map_bi_suffix g) ss) cs"
    "list_all2 (\<lambda>s cs. computes e t c m cs (f (bi_exp s))) ss cs" using suffix_codes [of ss g f] ss by blast
  have ws: "list_all2 (computes e t c m) cs (List.map (\<lambda>s. f (bi_exp s)) ss)"
    using cs(2) by (simp add: list_all2_map2 list_all2_conv_all_nth)
  show ?thesis
  proof (intro exI conjI)
    show "emits (gens [g ex, \<lambda>t. andThen (suffix_tapes (List.map (map_bi_suffix g) ss))
        (\<lambda>(n, bs). suffix_jumps p n bs t)]) (x @ suffix_code p cs @ [])"
      by (intro emits_Cons emits_Nil x(1) emits_suffixes cs(1))
    show "computes e t c m (x @ suffix_code p cs @ []) (chain_value b (f ex) (List.map (\<lambda>s. f (bi_exp s)) ss))"
    proof (cases "f ex")
      case None
      then have "chain_value b (f ex) us = None" for us by (cases us) simp_all
      then show ?thesis by simp
    next
      case (Some a)
      with x(2) show ?thesis
        using runs_chain [OF p ws, of a] runs_append unfolding computes_def append_Nil2 by metis
    qed
  qed
qed

lemma if_else_code:
  assumes cond: "\<And>tok x y. (tok, x, y) \<in> set (conditions ie) \<Longrightarrow>
      (\<exists>cs. emits (g x) cs \<and> computes e t c m cs (f x)) \<and> (\<exists>cs. emits (g y) cs \<and> computes e t c m cs (f y))"
    and els: "\<And>x. else_exp ie = Some x \<Longrightarrow> \<exists>cs. emits (g x) cs \<and> computes e t c m cs (f x)"
  shows "\<exists>cs. emits (produce_if_else (map_if_else g ie)) cs \<and>
    computes e t c m cs (if_value (List.map (\<lambda>(tok, x, y). (f x, f y)) (conditions ie)) (map_option f (else_exp ie)))"
proof -
  let ?P = "\<lambda>(tok, x, y) p. emits (g x) (fst p) \<and> emits (g y) (snd p) \<and>
    computes e t c m (fst p) (f x) \<and> computes e t c m (snd p) (f y)"
  have "\<exists>p. ?P z p" if "z \<in> set (conditions ie)" for z
    using cond that by (cases z) (metis (mono_tags, lifting) case_prod_conv fst_conv snd_conv)
  then obtain ps where ps: "list_all2 ?P (conditions ie) ps" using choose_list [of "conditions ie" ?P] by blast
  have conds: "conditions (map_if_else g ie) = List.map (\<lambda>(tok, x, y). (tok, g x, g y)) (conditions ie)"
    by (cases ie) (simp add: conditions_def map_prod_def split_def)
  have 1: "list_all2 emits2 (conditions (map_if_else g ie)) ps"
    using ps unfolding conds list_all2_map1 by (rule list_all2_mono) (auto simp: emits2_def)
  have 2: "list_all2 (computes2 e t c m) ps (List.map (\<lambda>(tok, x, y). (f x, f y)) (conditions ie))"
    using ps by (auto simp: computes2_def list_all2_conv_all_nth split_def)
  have ne: "ps \<noteq> []" using ps by (auto simp: conditions_def)
  obtain ec where ec: "rel_option emits (else_exp (map_if_else g ie)) ec"
    "rel_option (computes e t c m) ec (map_option f (else_exp ie))"
  proof (cases "else_exp ie")
    case None
    then show ?thesis using that [of None] by (cases ie) simp
  next
    case (Some x)
    with els obtain cs where "emits (g x) cs" "computes e t c m cs (f x)" by blast
    with Some show ?thesis using that [of "Some cs"] by (cases ie) simp
  qed
  have "computes e t c m (if_code ps ec) (if_value (List.map (\<lambda>(tok, x, y). (f x, f y)) (conditions ie)) (map_option f (else_exp ie)))"
    unfolding computes_def using runs_if [OF 2 ne ec(2)] by blast
  then show ?thesis using emits_if_else [OF 1 ec(1)] by blast
qed


lemma not_gen: "produce_unary_expression fo tok Unary_not k g = gens [g, ins_none NOT_O tok]"
  by (simp add: produce_unary_expression_def split: option.split)

lemma negate_gen: "produce_unary_expression fo tok Unary_negate None g =
    gens [g, gens [ins_none PUSH tok, ins_num PUSH (- 1) tok, ins_none MULT tok]]"
  by (simp add: produce_unary_expression_def)

lemma expression_code:
  "\<exists>cs. emits (produce_instructions (en_fo e) ex) cs \<and> computes e t c m cs (eval (en_fo e) (visible c m) ex)"
proof (induction "en_fo e" "visible c m" ex rule: eval.induct)
  case (1 tok)
  show ?case by (simp add: produce_instructions.simps word_code)
next
  case (2 tok v)
  show ?case by (simp add: produce_instructions.simps const_code)
next
  case (3 tok ex)
  then show ?case by (simp add: produce_instructions.simps)
next
  case (4 tok ex)
  then show ?case by (simp add: produce_instructions.simps)
next
  case (5 tok ty ex)
  show ?case
  proof (cases "eval (en_fo e) (visible c m) (Unary_expression tok ty ex)")
    case None
    then show ?thesis using undefined_code by simp
  next
    case (Some v)
    then consider (not) a where "ty = Unary_not" "eval (en_fo e) (visible c m) ex = Some a" "v = not_value a"
      | (const) k i where "ty = Unary_negate" "constant_token ex = Some k"
          "const_value (en_fo e) k = Some (EPrim (PInt i))" "v = EPrim (PInt (- i))"
      | (negate) a where "ty = Unary_negate" "constant_token ex = None" "eval (en_fo e) (visible c m) ex = Some a"
          "prim_op_value (en_fo e) MULT a (EPrim (PInt (- 1))) = Some v"
      by (auto split: unary_type.splits option.splits entity.splits primitive.splits)
    then show ?thesis
    proof cases
      case not
      with 5 obtain cs where cs: "emits (produce_instructions (en_fo e) ex) cs" "computes e t c m cs (Some a)" by auto
      have "emits (produce_instructions (en_fo e) (Unary_expression tok ty ex)) (cs @ [I0 NOT_O] @ [])"
        unfolding produce_instructions.simps not(1) not_gen
        by (intro emits_Cons emits_Nil cs(1) emits_ins_none)
      with computes_append [OF cs(2) runs_not] Some not(3) show ?thesis by auto
    next
      case const
      then show ?thesis using negated_code [OF const(3)] Some
        by (simp add: produce_instructions.simps produce_unary_expression_def)
    next
      case negate
      with 5 obtain cs where cs: "emits (produce_instructions (en_fo e) ex) cs" "computes e t c m cs (Some a)" by auto
      have code: "emits (produce_instructions (en_fo e) (Unary_expression tok ty ex))
          (cs @ ([I0 PUSH] @ [IV PUSH (- 1)] @ [I0 MULT] @ []) @ [])"
        unfolding produce_instructions.simps negate(1,2) negate_gen
        by (intro emits_Cons emits_Nil cs(1) emits_ins_none emits_ins_num)
      have "runs e t c m [IV PUSH (- 1)] a (a # st) a (EPrim (PInt (- 1)) # a # st)" for st
        using runs_push_prim [of "PInt (- 1)"] by (simp add: IV_def)
      moreover have "runs e t c m [I0 (bi_to_ins Mult_mult)] a (EPrim (PInt (- 1)) # a # st) v st" for st
        using negate(4) by (intro runs_bi) (simp add: bi_value_def)
      ultimately have "runs e t c m ([I0 PUSH] @ [IV PUSH (- 1)] @ [I0 (bi_to_ins Mult_mult)]) a st v st" for st
        by (intro runs_append [OF runs_push] runs_append)
      with computes_append [OF cs(2)] code Some show ?thesis by (intro exI [of _ "cs @ [I0 PUSH] @ [IV PUSH (- 1)] @ [I0 MULT]"]) simp
    qed
  qed
next
  case (6 k ex ss)
  show ?case
  proof (cases "k = And_kind \<or> k = Or_kind")
    case True
    then show ?thesis using chain_code [of "if k = And_kind then IFN else IF" "k = And_kind"
        "produce_instructions (en_fo e)" ex "eval (en_fo e) (visible c m)" ss] 6
      by (cases k) (simp_all add: produce_instructions.simps produce_and_expression_def produce_or_expression_def)
  next
    case False
    then show ?thesis using bi_expression_code [of "produce_instructions (en_fo e)" ex
        "eval (en_fo e) (visible c m)" ss] 6
      by (cases k) (simp_all add: produce_instructions.simps)
  qed
next
  case (7 ie)
  then show ?case unfolding produce_instructions.simps eval.simps
    by (intro if_else_code) auto
qed (simp_all only: eval.simps undefined_code)

end

text \<open>The context of a program that is started (run/run.c) is one.\<close>

interpretation start: running e "fst (process_create_task e m)"
    "fst (task_create_context e (fst (process_create_task e m)) self md 0 (snd (process_create_task e m)))"
    "run_start e md self m" for e m self md
  by unfold_locales
     (simp_all add: run_start_def process_create_task_def process_create_unqueued_task_def process_enqueue_task_def
        task_add_reflection_def set_internal_def heap_inc_edge_def note_edge_def heap_new_def task_create_context_def context_init_def split_def Let_def)

text \<open>C3: Compiling is correct for expressions that read variables, on the machine that runs the code: let \<open>eval\<close> give the
  value \<open>v\<close> of an expression built from words, numbers, parentheses, \<open>not\<close>, \<open>-\<close>, the arithmetic, comparison and bit
  operators, \<open>and\<close>, \<open>or\<close> and conditionals, where \<open>and\<close>, \<open>or\<close> and \<open>if\<close> do not evaluate what they skip. Let the
  instructions that \<open>produce_instructions\<close> added to a tape be the next ones in the tape of a context without an error. Then,
  after a finite number of turns of the interpreter's loop (\<open>vm_execute_task\<close>), the result value is \<open>v\<close>, the next
  instruction is the one behind the code, and nothing else in the machine has changed.\<close>

theorem expression_compiled_correctly:
  assumes "eval (en_fo e) (visible c m) ex = Some v"
    and "produce_instructions (en_fo e) ex tape = Inr (n, tape')"
    and "t_ins (x_tape (ctx_at m c)) = t_ins tape' @ rest" and "length (t_ins (x_tape (ctx_at m c))) < 2 ^ 31"
    and "x_ins (ctx_at m c) = of_nat (tape_size tape)" and "x_error (ctx_at m c) = None"
    and "t < length (s_tasks m)" and "c < length (s_contexts m)"
  shows "\<exists>k. \<forall>j. execute_loop (k + j) e t c m =
    execute_loop j e t c (upd_ctx c (\<lambda>x. x\<lparr>x_ins := of_nat (tape_size tape')\<rparr>) (task_set_resval t v m))"
proof -
  have r: "running t c m" using assms by (intro running.intro)
  from running.expression_code [OF r, of e ex] assms(1) obtain cs where
    cs: "emits (produce_instructions (en_fo e) ex) cs" "computes e t c m cs (Some v)" by auto
  let ?r = "task_get_resval t m" and ?st = "a_stack (task_at m t)"
  from emitsD [OF cs(1) assms(2)] have code: "t_ins tape' = t_ins tape @ cs" by blast
  then have "located c m (tape_size tape) cs" using assms(3,4) unfolding located_def tape_size_def
    by (metis append_assoc)
  with cs(2) have "turns e t c (reg t c m (tape_size tape) ?r ?st) (reg t c m (tape_size tape') v ?st)"
    unfolding computes_def runs_def using code by (simp add: tape_size_def)
  moreover have "reg t c m (tape_size tape) ?r ?st = m"
    using assms(5) [symmetric] by (simp add: reg_def upd_task_def upd_ctx_def task_get_resval_def)
  moreover have "reg t c m (tape_size tape') v ?st = upd_ctx c (\<lambda>x. x\<lparr>x_ins := of_nat (tape_size tape')\<rparr>) (task_set_resval t v m)"
    by (simp add: reg_def task_set_resval_def upd_task_def upd_ctx_def)
  ultimately show ?thesis by (simp add: turns_def)
qed

definition demo_word :: "string \<Rightarrow> expression_tree" where
  "demo_word s = Identifier \<lparr>tok_type = WORD, tok_line = 1, tok_col = 1, tok_text = s\<rparr>"

definition demo_number :: "string \<Rightarrow> expression_tree" where
  "demo_number s = Constant \<lparr>tok_type = INTEGER, tok_line = 1, tok_col = 1, tok_text = s\<rparr> (PInt 0)"

text \<open>\<open>if 2 < 3 then 4 + 5 else None\<close>\<close>

definition demo_conditional :: expression_tree where
  "demo_conditional = Conditional_expression (IfElse (demo_token,
     Bi_expression Relational (demo_number ''2'') [BiSuffix demo_token Rel_lt (demo_number ''3'')],
     Bi_expression Additive (demo_number ''4'') [BiSuffix demo_token Add_add (demo_number ''5'')]) []
     (Some (demo_word ''None'')))"

definition demo_code :: "instruction list" where
  "demo_code = (case produce_instructions int_fops demo_conditional tape_create of Inr (n, t) \<Rightarrow> t_ins t | Inl e \<Rightarrow> [])"

lemma t_ins_fold: "t_ins (fold tape_add cs t) = t_ins t @ cs"
  by (induction cs arbitrary: t) (simp_all add: tape_add_def)

lemma demo_start_parts:
  "t_ins (x_tape (ctx_at (demo_start cs) 0)) = cs" "x_ins (ctx_at (demo_start cs) 0) = 0"
  "x_error (ctx_at (demo_start cs) 0) = None" "s_tasks (demo_start cs) \<noteq> []" "s_contexts (demo_start cs) \<noteq> []"
  by (simp_all add: demo_start_def run_start_def process_create_task_def process_create_unqueued_task_def
      process_enqueue_task_def task_add_reflection_def set_internal_def heap_inc_edge_def note_edge_def heap_new_def
      task_create_context_def context_init_def demo_machine_def module_init_def t_ins_fold tape_create_def
      object_create_def upd_task_def upd_obj_def split_def Let_def)

theorem expression_compiled_correctly_witness:
  "\<exists>k. \<forall>j. execute_loop (k + j) demo_env 0 0 (demo_start demo_code) =
     execute_loop j demo_env 0 0 (upd_ctx 0 (\<lambda>x. x\<lparr>x_ins := of_nat (length demo_code)\<rparr>)
       (task_set_resval 0 (EPrim (PInt 9)) (demo_start demo_code)))"
proof -
  have "\<exists>t. produce_instructions int_fops demo_conditional tape_create = Inr (13, t)"
    by (simp add: demo_conditional_def demo_word_def demo_number_def produce_instructions.simps gens.simps
        produce_if_else_def conditions_def produce_bi_expression_def produce_identifier_def ins_none_def ins_num_def
        ins_tok_def tape_ins_def append_tape_def token_to_primitive_def Let_def)
  then obtain tape' where p: "produce_instructions int_fops demo_conditional tape_create = Inr (13, tape')" by blast
  then have code: "demo_code = t_ins tape'" by (simp add: demo_code_def)
  obtain cs where cs: "emits (produce_instructions int_fops demo_conditional) cs"
    using well_produce_instructions by (rule wellE)
  from emitsD [OF cs p] have len: "length demo_code = 13" by (simp add: code tape_create_def)
  have v: "eval int_fops (visible 0 (demo_start demo_code)) demo_conditional = Some (EPrim (PInt 9))"
  proof -
    have "const_value int_fops \<lparr>tok_type = INTEGER, tok_line = 1, tok_col = 1, tok_text = ''2''\<rparr> = Some (EPrim (PInt 2))"
      "const_value int_fops \<lparr>tok_type = INTEGER, tok_line = 1, tok_col = 1, tok_text = ''3''\<rparr> = Some (EPrim (PInt 3))"
      "const_value int_fops \<lparr>tok_type = INTEGER, tok_line = 1, tok_col = 1, tok_text = ''4''\<rparr> = Some (EPrim (PInt 4))"
      "const_value int_fops \<lparr>tok_type = INTEGER, tok_line = 1, tok_col = 1, tok_text = ''5''\<rparr> = Some (EPrim (PInt 5))"
      "bi_value int_fops Rel_lt (EPrim (PInt 2)) (EPrim (PInt 3)) = Some (EPrim (PInt 1))"
      "bi_value int_fops Add_add (EPrim (PInt 4)) (EPrim (PInt 5)) = Some (EPrim (PInt 9))" by code_simp+
    then show ?thesis by (simp add: demo_conditional_def demo_word_def demo_number_def conditions_def)
  qed
  from expression_compiled_correctly [where e = demo_env and m = "demo_start demo_code" and c = 0 and t = 0
      and ex = demo_conditional and tape = tape_create and rest = "[]" and v = "EPrim (PInt 9)"] v p len
  show ?thesis by (simp add: code [symmetric] demo_start_parts demo_env_def tape_size_def tape_create_def)
qed

end
