(* ===== verification/CStrings.thy ===== *)
theory CStrings imports Errors begin

text \<open>
  The string routines of \<open>entity/native/builtin.c\<close> as functions on the characters of a string: number
  and truth value of a text, comparison, searching, trimming and splitting. The functions of the C
  standard library that they use are written out. A string is the \<open>table\<close> of its \<open>String\<close> up to its
  size; reading behind it is undefined (\<open>UB\<close>).
\<close>

subsection \<open>What is outside\<close>

text \<open>
  \<open>String\<close> and \<open>Array\<close> are instances of a container of an external library, from which \<open>find_str\<close>,
  \<open>string_hasher_len\<close> and the collector of the memory graph come too. \<open>strncmp\<close> answers a number of
  which C fixes only the sign (\<open>nl_cmp\<close>), \<open>nl_strtod\<close> and \<open>nl_printf_f\<close> are \<open>strtod\<close> and the format
  \<open>%f\<close> of the platform.
\<close>

record string_lib =
  String_append :: "string \<Rightarrow> string \<Rightarrow> string"
  String_set :: "string \<Rightarrow> i32 \<Rightarrow> char \<Rightarrow> string res"
  String_lshrink :: "string \<Rightarrow> i32 \<Rightarrow> string res"
  String_rshrink :: "string \<Rightarrow> i32 \<Rightarrow> string res"
  String_clear :: "string \<Rightarrow> string"
  Array_remove :: "entity list \<Rightarrow> i32 \<Rightarrow> (entity \<times> entity list) res"
  find_str :: "string \<Rightarrow> string \<Rightarrow> nat option"
  string_hasher_len :: "string \<Rightarrow> i32"
  nl_collect :: "machine \<Rightarrow> u32 \<times> machine"
  nl_address :: "obj_id \<Rightarrow> i32"
  nl_exceeds :: "i32 \<Rightarrow> nat \<Rightarrow> bool"
  nl_cmp :: "char \<Rightarrow> char \<Rightarrow> i32"
  nl_strtod :: "string \<Rightarrow> f64 \<times> nat"
  nl_printf_f :: "f64 \<Rightarrow> string"

text \<open>What the library documents: shrinking drops characters at one end, \<open>find_str\<close> finds the first
  occurrence, \<open>strncmp\<close> compares characters as unsigned numbers.\<close>

definition occurs_at :: "string \<Rightarrow> string \<Rightarrow> nat \<Rightarrow> bool" where
  "occurs_at sub s i \<longleftrightarrow> i + length sub \<le> length s \<and> take (length sub) (drop i s) = sub"

definition shrinks :: "string_lib \<Rightarrow> bool" where
  "shrinks L \<longleftrightarrow> (\<forall>s n. 0 \<le> sint n \<longrightarrow> sint n \<le> int (length s) \<longrightarrow>
     String_lshrink L s n = Inr (drop (nat (sint n)) s) \<and>
     String_rshrink L s n = Inr (take (length s - nat (sint n)) s))"

definition finds :: "string_lib \<Rightarrow> bool" where
  "finds L \<longleftrightarrow> (\<forall>s sub i. (find_str L s sub = Some i \<longleftrightarrow> occurs_at sub s i \<and> (\<forall>j < i. \<not> occurs_at sub s j)))"

definition compares :: "string_lib \<Rightarrow> bool" where
  "compares L \<longleftrightarrow> (\<forall>a b. a \<noteq> b \<longrightarrow> nl_cmp L a b \<noteq> 0 \<and>
     (sint (nl_cmp L a b) < 0 \<longleftrightarrow> (of_char a :: nat) < of_char b))"

text \<open>A library that is as documented, for closed examples. No theorem assumes it.\<close>

fun find_from :: "nat \<Rightarrow> string \<Rightarrow> string \<Rightarrow> nat option" where
  "find_from i [] sub = (if sub = [] then Some i else None)"
| "find_from i (c # s) sub =
     (if take (length sub) (c # s) = sub then Some i else find_from (Suc i) s sub)"

definition list_lib :: string_lib where
  "list_lib = \<lparr>String_append = (@),
     String_set = (\<lambda>s i c. if 0 \<le> sint i \<and> sint i < int (length s)
        then Inr (s[nat (sint i) := c]) else Inl (Fatal ''index'')),
     String_lshrink = (\<lambda>s n. Inr (drop (nat (sint n)) s)),
     String_rshrink = (\<lambda>s n. Inr (take (length s - nat (sint n)) s)),
     String_clear = (\<lambda>s. []),
     Array_remove = (\<lambda>xs i. if 0 \<le> sint i \<and> sint i < int (length xs)
        then Inr (xs ! nat (sint i), take (nat (sint i)) xs @ drop (nat (sint i) + 1) xs)
        else Inl (Fatal ''index'')),
     find_str = find_from 0, string_hasher_len = (\<lambda>s. of_nat (length s)), nl_collect = (\<lambda>m. (0, m)), nl_address = of_nat,
     nl_exceeds = (\<lambda>i n. n < unat i),
     nl_cmp = (\<lambda>a b. word_of_int (int (of_char a) - int (of_char b))),
     nl_strtod = (\<lambda>s. (of_nat (nat_of_dec s), length (takeWhile is_digit s))),
     nl_printf_f = (\<lambda>x. dec_of_int (sint x) @ ''.000000'')\<rparr>"

subsection \<open>The C standard library\<close>

text \<open>\<open>strndup\<close>: the characters in front of a NUL.\<close>

definition strndup :: "string \<Rightarrow> string" where
  "strndup s = takeWhile (\<lambda>c. c \<noteq> CHR 0x00) s"

fun strncmp :: "string_lib \<Rightarrow> nat \<Rightarrow> string \<Rightarrow> string \<Rightarrow> i32 res" where
  "strncmp L 0 s t = Inr 0"
| "strncmp L (Suc n) (a # s) (b # t) =
     (if a \<noteq> b then Inr (nl_cmp L a b) else if a = CHR 0x00 then Inr 0 else strncmp L n s t)"
| "strncmp L (Suc n) s t = Inl (UB ''strncmp past the end of a string'')"

text \<open>\<open>strtol\<close> with base 0 and with base 10: white space, a sign, a prefix that gives the base, digits; the value is
  limited to 64 bits. The second component is the number of characters read (\<open>endptr - nptr\<close>).\<close>

definition is_space :: "char \<Rightarrow> bool" where
  "is_space c \<longleftrightarrow> c = CHR '' '' \<or> 9 \<le> (of_char c :: nat) \<and> (of_char c :: nat) \<le> 13"

definition digit_of :: "char \<Rightarrow> nat option" where
  "digit_of c = (let n = of_char c in
     if 48 \<le> n \<and> n \<le> 57 then Some (n - 48)
     else if 97 \<le> n \<and> n \<le> 122 then Some (n - 87)
     else if 65 \<le> n \<and> n \<le> 90 then Some (n - 55) else None)"

definition is_digit_in :: "nat \<Rightarrow> char \<Rightarrow> bool" where
  "is_digit_in base c = (case digit_of c of None \<Rightarrow> False | Some d \<Rightarrow> d < base)"

definition digits_value :: "nat \<Rightarrow> string \<Rightarrow> nat" where
  "digits_value base ds = foldl (\<lambda>n c. base * n + the (digit_of c)) 0 ds"

text \<open>The base and the number of characters of its prefix; the \<open>0\<close> of an octal number is a digit.\<close>

definition base_prefix :: "string \<Rightarrow> nat \<times> nat" where
  "base_prefix s = (case s of
     [] \<Rightarrow> (10, 0)
   | a # r \<Rightarrow>
       if a \<noteq> CHR ''0'' then (10, 0)
       else (case r of
           b # c # _ \<Rightarrow> if (b = CHR ''x'' \<or> b = CHR ''X'') \<and> is_digit_in 16 c then (16, 2) else (8, 0)
         | _ \<Rightarrow> (8, 0)))"

definition limit64 :: "int \<Rightarrow> int" where
  "limit64 i = max (- (2 ^ 63)) (min (2 ^ 63 - 1) i)"

definition strtol_with :: "(string \<Rightarrow> nat \<times> nat) \<Rightarrow> string \<Rightarrow> int \<times> nat" where
  "strtol_with base_of s =
     (let blanks = length (takeWhile is_space s);
          s1 = drop blanks s;
          sign = (case s1 of c # _ \<Rightarrow> if c = CHR ''-'' \<or> c = CHR ''+'' then 1 else 0 | [] \<Rightarrow> 0);
          negative = (sign = 1 \<and> hd s1 = CHR ''-'');
          s2 = drop sign s1;
          (base, prefix) = base_of s2;
          ds = takeWhile (is_digit_in base) (drop prefix s2);
          v = int (digits_value base ds)
      in if ds = [] then (0, 0)
         else (limit64 (if negative then - v else v), blanks + sign + prefix + length ds))"

definition strtol :: "string \<Rightarrow> int \<times> nat" where
  "strtol = strtol_with base_prefix"

definition strtol10 :: "string \<Rightarrow> int \<times> nat" where
  "strtol10 = strtol_with (\<lambda>s. (10, 0))"

subsection \<open>Texts as values\<close>

(* src/entity/native/builtin.c _str_to_int64 *)
definition str_to_int64 :: "string \<Rightarrow> int option" where
  "str_to_int64 str =
     (let (result, read) = strtol (strndup str)
      in if result = 0 \<and> read \<noteq> length str then None else Some result)"

(* src/entity/native/builtin.c _str_to_float *)
definition str_to_float :: "string_lib \<Rightarrow> fops \<Rightarrow> string \<Rightarrow> f64 option" where
  "str_to_float L fo str =
     (let (result, read) = nl_strtod L (strndup str)
      in if feq fo (f_of_i32 fo 0) result \<and> read \<noteq> length str then None else Some result)"

(* src/entity/native/builtin.c _str_to_bool *)
definition str_to_bool :: "string \<Rightarrow> bool option" where
  "str_to_bool str =
     (let cstr = strndup str in
      if cstr \<in> {''True'', ''true'', ''T'', ''t''} then Some True
      else if cstr \<in> {''False'', ''false'', ''F'', ''f''} then Some False else None)"

subsection \<open>Comparing and searching\<close>

(* src/entity/native/builtin.c [311-317] _string_cmp *)
definition string_order :: "string_lib \<Rightarrow> string \<Rightarrow> string \<Rightarrow> i32 res" where
  "string_order L self other =
     andThen (strncmp L (min (length self) (length other)) self other) (\<lambda>min_len_cmp.
       Inr (if min_len_cmp \<noteq> 0 then min_len_cmp else word_of_int (int (length self) - int (length other))))"

text \<open>The loop of \<open>find_all\<close> at position \<open>pos\<close>; a match at the very end (of an empty string) makes
  \<open>chars_remaining\<close> wrap around.\<close>

(* src/entity/native/builtin.c [459-471] _string_find_all *)
function find_all_loop :: "string_lib \<Rightarrow> string \<Rightarrow> string \<Rightarrow> nat \<Rightarrow> nat list res" where
  "find_all_loop L str substr pos =
     (let chars_remaining = length str - pos in
      if chars_remaining < length substr then Inr []
      else case find_str L (drop pos str) substr of
        None \<Rightarrow> Inr []
      | Some k \<Rightarrow>
          let index = pos + k in
          if length str \<le> index then Inl (UB ''chars_remaining wraps around'')
          else andThen (find_all_loop L str substr (index + 1)) (\<lambda>is. Inr (index # is)))"
  by pat_completeness auto
termination
  by (relation "measure (\<lambda>(L, str, substr, pos). length str - pos)") auto

declare find_all_loop.simps [simp del]

subsection \<open>Trimming\<close>

text \<open>The number of spaces in front; a string of spaces only is read past its end.\<close>

(* src/entity/native/builtin.c [520-522] _string_ltrim *)
fun count_space :: "string \<Rightarrow> nat res" where
  "count_space [] = Inl (UB ''table[i] outside of the string'')"
| "count_space (c # s) =
     (if is_any_space c then andThen (count_space s) (\<lambda>i. Inr (i + 1)) else Inr 0)"

(* src/entity/native/builtin.c _string_ltrim *)
definition trim_left :: "string_lib \<Rightarrow> string \<Rightarrow> string res" where
  "trim_left L str = andThen (count_space str) (\<lambda>i. String_lshrink L str (of_nat i))"

(* src/entity/native/builtin.c _string_rtrim *)
definition trim_right :: "string_lib \<Rightarrow> string \<Rightarrow> string res" where
  "trim_right L str = andThen (count_space (rev str)) (\<lambda>i. String_rshrink L str (of_nat i))"

(* src/entity/native/builtin.c _string_trim *)
definition trim_both :: "string_lib \<Rightarrow> string \<Rightarrow> string res" where
  "trim_both L str = andThen (trim_left L str) (trim_right L)"

subsection \<open>Splitting\<close>

text \<open>The parts in front of the delimiters from \<open>i\<close> on, and the end of the last delimiter. The loop
  counts \<open>i\<close> up after it has moved behind a delimiter.\<close>

(* src/entity/native/builtin.c [593-606] _string_split *)
function split_loop :: "string_lib \<Rightarrow> string \<Rightarrow> string \<Rightarrow> nat \<Rightarrow> nat \<Rightarrow> (string list \<times> nat) res" where
  "split_loop L str delim i last_delim_end =
     (if length str \<le> i then Inr ([], last_delim_end)
      else andThen (strncmp L (length delim) (drop i str) delim) (\<lambda>c.
        if c = 0
        then andThen (split_loop L str delim (i + length delim + 1) (i + length delim))
               (\<lambda>(parts, end). Inr (take (i - last_delim_end) (drop last_delim_end str) # parts, end))
        else split_loop L str delim (i + 1) last_delim_end))"
  by pat_completeness auto
termination
  by (relation "measure (\<lambda>(L, str, delim, i, last_delim_end). length str - i)") auto

declare split_loop.simps [simp del]

(* src/entity/native/builtin.c [607-612] _string_split *)
definition split_parts :: "string_lib \<Rightarrow> string \<Rightarrow> string \<Rightarrow> string list res" where
  "split_parts L str delim = andThen (split_loop L str delim 0 0) (\<lambda>(parts, last_delim_end).
     Inr (parts @ (if int last_delim_end < int (length str) - int (length delim)
                   then [drop last_delim_end str] else [])))"

end
