(* ===== verification/Copy.thy ===== *)
theory Copy imports CStrings begin

text \<open>
  Copying values (\<open>entity_copy\<close> of \<open>heap/heap.c\<close>, \<open>heap/copy_fns.c\<close>, \<open>function_ref_copy\<close>). The map from
  objects to their copies makes shared objects stay shared and cycles end. The definitions of the copy
  functions take the recursive call as an argument; \<open>entity_copy\<close> counts the depth of nested calls.
\<close>

type_synonym copy_map = "(obj_id \<times> obj_id) list"
type_synonym copying = "copy_map \<times> machine"
type_synonym copier = "entity \<Rightarrow> copying \<Rightarrow> (entity \<times> copying) res"

text \<open>The characters of a string object.\<close>

definition string_of :: "obj_id \<Rightarrow> machine \<Rightarrow> string res" where
  "string_of obj m = (case o_internal (obj_at m obj) of
     IString s \<Rightarrow> Inr s | INull \<Rightarrow> Inl (UB ''null pointer'') | _ \<Rightarrow> Inl (UB ''not a string''))"

text \<open>A loop that copies values and stores each copy with \<open>put\<close>, under a label.\<close>

definition copy_all :: "copier \<Rightarrow> ('l \<Rightarrow> entity \<Rightarrow> machine \<Rightarrow> machine res) \<Rightarrow> ('l \<times> entity) list \<Rightarrow> copying \<Rightarrow> copying res" where
  "copy_all cp put = foldRes (\<lambda>(l, x) s. andThen (cp x s) (\<lambda>(member, cm, m).
     andThen (put l member m) (\<lambda>m'. Inr (cm, m'))))"

(* src/heap/copy_fns.c array_copy *)
definition array_copy :: "copier \<Rightarrow> obj_id \<Rightarrow> obj_id \<Rightarrow> copying \<Rightarrow> copying res" where
  "array_copy cp target src s = andThen (array_of src (snd s)) (\<lambda>xs.
     copy_all cp (\<lambda>_. array_add target) (List.map (Pair ()) xs) s)"

(* src/heap/copy_fns.c tuple_copy *)
definition tuple_copy :: "env \<Rightarrow> copier \<Rightarrow> obj_id \<Rightarrow> obj_id \<Rightarrow> copying \<Rightarrow> copying res" where
  "tuple_copy e cp target src s = andThen (tuple_of src (snd s)) (\<lambda>xs.
     copy_all cp (\<lambda>i. tuple_set target (of_nat i)) (enumerate 0 xs)
       (apsnd (set_internal target (tuple_create e (length xs))) s))"

(* src/heap/copy_fns.c string_copy *)
definition string_copy :: "obj_id \<Rightarrow> obj_id \<Rightarrow> copying \<Rightarrow> copying res" where
  "string_copy target src s = andThen (string_of src (snd s)) (\<lambda>str.
     Inr (apsnd (string_init target str) s))"

(* src/entity/function/function.c function_ref_copy *)
definition function_ref_copy :: "copier \<Rightarrow> obj_id \<Rightarrow> obj_id \<Rightarrow> copying \<Rightarrow> copying res" where
  "function_ref_copy cp target src s = andThen (func_ref_of src (snd s)) (\<lambda>(obj, f, parent_context).
     andThen (cp (EObj obj) s) (\<lambda>(cpy_obj, cm, m).
       case cpy_obj of
         EObj c \<Rightarrow> Inr (cm, function_ref_init target c f parent_context m)
       | _ \<Rightarrow> Inl (UB ''not an object'')))"

text \<open>\<open>_class->_copy_fn\<close>: \<open>builtin_classes\<close> sets it for four classes, no other class has one.\<close>

(* src/heap/heap.c [202-204] entity_copy *)
definition copy_fn :: "env \<Rightarrow> copier \<Rightarrow> cls_id \<Rightarrow> obj_id \<Rightarrow> obj_id \<Rightarrow> copying \<Rightarrow> copying res" where
  "copy_fn e cp cls target src s =
     (if cls = Class_FunctionRef e then function_ref_copy cp target src s
      else if cls = Class_Array e then array_copy cp target src s
      else if cls = Class_String e then string_copy target src s
      else if cls = Class_Tuple e then tuple_copy e cp target src s
      else Inr s)"

(* src/heap/heap.c entity_copy *)
fun entity_copy :: "nat \<Rightarrow> env \<Rightarrow> entity \<Rightarrow> copying \<Rightarrow> (entity \<times> copying) res" where
  "entity_copy d e ENone s = Inr (ENone, s)"
| "entity_copy d e (EPrim p) s = Inr (EPrim p, s)"
| "entity_copy 0 e (EObj obj) s = Inl (UB ''endless recursion'')"
| "entity_copy (Suc d) e (EObj obj) (cm, m) =
     (case map_of cm obj of
        Some cpy \<Rightarrow> Inr (entity_object cpy, cm, m)
      | None \<Rightarrow>
          let (cpy, m1) = heap_new (class_of m obj) m;
              s1 = ((obj, cpy) # cm, m1)
          in andThen (copy_fn e (entity_copy d e) (class_of m obj) cpy obj s1) (\<lambda>s2.
             andThen (copy_all (entity_copy d e) (\<lambda>k v m. Inr (object_set_member cpy k v m))
                       (o_members (obj_at (snd s2) obj)) s2) (\<lambda>s3.
             Inr (entity_object cpy, s3))))"

text \<open>One level for each object there is, and one for a value that is no object of its own.\<close>

definition copy_depth :: "machine \<Rightarrow> nat" where
  "copy_depth m = Suc (length (s_objects m))"

subsection \<open>Removing from an array\<close>

(* src/heap/heap.c array_remove *)
definition array_remove :: "string_lib \<Rightarrow> obj_id \<Rightarrow> i32 \<Rightarrow> machine \<Rightarrow> (entity \<times> machine) res" where
  "array_remove L array index m =
     assert_that (0 \<le> sint index) ''index >= 0'' (andThen (array_of array m) (\<lambda>xs.
       andThen (Array_remove L xs index) (\<lambda>(x, ys).
         Inr (x, dec_old array (Some x) (set_internal array (IArray ys) m)))))"

end
