(* ===== verification/Natives.thy ===== *)
theory Natives imports Copy begin

text \<open>
  The native functions and methods of the module \<open>builtin\<close> (\<open>entity/native/builtin.c\<close>), one definition
  per C function: number and truth value conversions, strings, arrays, ranges, reflection, the
  collector's roots. A native gets the task, the context, \<open>self\<close> and a pointer to its argument, and
  answers a value with the new state; an error is raised in the context and its object is the value.
\<close>

type_synonym native =
  "env \<Rightarrow> task_id \<Rightarrow> ctx_id option \<Rightarrow> obj_id \<Rightarrow> entity option \<Rightarrow> machine \<Rightarrow> (entity \<times> machine) res"

text \<open>\<open>return raise_error(task, ctx, ...)\<close>.\<close>

definition throw :: "env \<Rightarrow> task_id \<Rightarrow> ctx_id option \<Rightarrow> string \<Rightarrow> machine \<Rightarrow> (entity \<times> machine) res" where
  "throw e t ctx msg m = andThen (deref ctx) (\<lambda>c.
     andThen (raise_error e t c msg m) (\<lambda>m1. Inr (task_get_resval t m1, m1)))"

(* src/entity/native/native.h IS_CLASS *)
fun IS_CLASS :: "machine \<Rightarrow> entity option \<Rightarrow> cls_id \<Rightarrow> bool" where
  "IS_CLASS m (Some (EObj x)) cls = (class_of m x = cls)"
| "IS_CLASS m _ cls = False"

(* src/entity/native/native.h IS_TUPLE *)
definition IS_TUPLE :: "env \<Rightarrow> machine \<Rightarrow> entity option \<Rightarrow> bool" where
  "IS_TUPLE e m args = IS_CLASS m args (Class_Tuple e)"

text \<open>\<open>e->obj\<close> and \<open>e->pri\<close>: reading the other member of the union is undefined. The constant
  \<open>NONE_ENTITY\<close> alone has a known content, all zero.\<close>

fun obj_of :: "entity option \<Rightarrow> obj_id res" where
  "obj_of (Some (EObj x)) = Inr x"
| "obj_of _ = Inl (UB ''not an object'')"

fun pri_of :: "entity option \<Rightarrow> primitive res" where
  "pri_of (Some (EPrim p)) = Inr p"
| "pri_of _ = Inl (UB ''not a primitive'')"

fun none_pri :: "entity \<Rightarrow> primitive" where
  "none_pri (EPrim p) = p"
| "none_pri _ = PChar 0"

(* src/entity/native/builtin.c IS_VALUE_TYPE *)
fun is_int :: "entity \<Rightarrow> bool" where
  "is_int (EPrim (PInt i)) = True"
| "is_int _ = False"

definition new_string :: "env \<Rightarrow> string \<Rightarrow> machine \<Rightarrow> (entity \<times> machine) res" where
  "new_string e s m = (let (str, m1) = string_new e s m in Inr (entity_object str, m1))"

definition set_string :: "obj_id \<Rightarrow> string \<Rightarrow> machine \<Rightarrow> machine" where
  "set_string obj s = set_internal obj (IString s)"

abbreviation None_e :: entity where "None_e \<equiv> ENone"
abbreviation True_e :: entity where "True_e \<equiv> EPrim (PInt 1)"

subsection \<open>Conversions\<close>

text \<open>The message for a bad text is formatted with \<open>%*s\<close> from the \<open>String\<close> structure, not its table.\<close>

(* src/entity/native/builtin.c _Int *)
definition n_Int :: native where
  "n_Int e t ctx obj args m =
     (case args of
        None \<Rightarrow> Inr (entity_int 0, m)
      | Some ENone \<Rightarrow> Inr (entity_int 0, m)
      | Some (EObj x) \<Rightarrow>
          if \<not> IS_CLASS m args (Class_String e) then throw e t ctx ''Cannot convert input to Int.'' m
          else andThen (string_of x m) (\<lambda>s. case str_to_int64 s of
              None \<Rightarrow> Inl (UB ''%*s of a String structure'')
            | Some result \<Rightarrow> Inr (entity_int (word_of_int result), m))
      | Some (EPrim (PChar c)) \<Rightarrow> Inr (entity_int (scast c), m)
      | Some (EPrim (PInt i)) \<Rightarrow> Inr (entity_int i, m)
      | Some (EPrim (PFloat d)) \<Rightarrow> Inr (entity_int (i32_of_f (en_fo e) d), m))"

text \<open>For an integer the code asks for the float in it.\<close>

(* src/entity/native/builtin.c _Float *)
definition n_Float :: "string_lib \<Rightarrow> native" where
  "n_Float L e t ctx obj args m =
     (case args of
        None \<Rightarrow> Inr (entity_int 0, m)
      | Some ENone \<Rightarrow> Inr (entity_float (f_of_i32 (en_fo e) 0), m)
      | Some (EObj x) \<Rightarrow>
          if \<not> IS_CLASS m args (Class_String e) then throw e t ctx ''Cannot convert input to Float.'' m
          else andThen (string_of x m) (\<lambda>s. case str_to_float L (en_fo e) s of
              None \<Rightarrow> Inl (UB ''%*s of a String structure'')
            | Some result \<Rightarrow> Inr (entity_float result, m))
      | Some (EPrim (PChar c)) \<Rightarrow> Inr (entity_float (f_of_i32 (en_fo e) (scast c)), m)
      | Some (EPrim (PInt i)) \<Rightarrow> andThen (pfloat (PInt i)) (\<lambda>d. Inr (entity_float d, m))
      | Some (EPrim (PFloat d)) \<Rightarrow> Inr (entity_float d, m))"

(* src/entity/native/builtin.c __Bool *)
definition n_Bool :: native where
  "n_Bool e t ctx obj args m =
     (case args of
        None \<Rightarrow> Inr (None_e, m)
      | Some ENone \<Rightarrow> Inr (None_e, m)
      | Some (EObj x) \<Rightarrow>
          if \<not> IS_CLASS m args (Class_String e) then throw e t ctx ''Cannot convert input to bool Int.'' m
          else andThen (string_of x m) (\<lambda>s. case str_to_bool s of
              None \<Rightarrow> Inl (UB ''%*s of a String structure'')
            | Some result \<Rightarrow> Inr (if result then entity_int 1 else None_e, m))
      | Some (EPrim p) \<Rightarrow> Inr (entity_int 1, m))"

text \<open>A buffer of 256 characters; \<open>snprintf\<close> answers the length of the whole text.\<close>

definition BUFFER_SIZE :: nat where "BUFFER_SIZE = 256"

(* src/entity/native/builtin.c _stringify *)
definition n_stringify :: "string_lib \<Rightarrow> native" where
  "n_stringify L e t ctx obj args m =
     (case args of
        Some (EPrim val) \<Rightarrow>
          (let text = (case val of PInt i \<Rightarrow> dec_of_int (sint i) | PFloat d \<Rightarrow> nl_printf_f L d
                                 | PChar c \<Rightarrow> [char_of_byte c]);
               num_written = length text
           in assert_that (0 < num_written) ''num_written > 0''
                (if BUFFER_SIZE < num_written then Inl (UB ''read past the end of buffer'')
                 else new_string e (if num_written = BUFFER_SIZE then butlast text @ [CHR 0x00] else text) m))
      | _ \<Rightarrow> Inl (Fatal ''PRIMITIVE == args->type''))"

subsection \<open>The collector's roots\<close>

text \<open>What a task refers to: its stack, its result, its contexts. Every task is created with a reflection.\<close>

definition reflection_of :: "task_id \<Rightarrow> machine \<Rightarrow> obj_id res" where
  "reflection_of t m = (case a_refl (task_at m t) of
     None \<Rightarrow> Inl (Fatal ''NOT_NULL(parent)'') | Some r \<Rightarrow> Inr r)"

(* src/entity/native/builtin.c _task_inc_all_context *)
definition task_inc_all_context :: "task_id \<Rightarrow> machine \<Rightarrow> machine res" where
  "task_inc_all_context t m = andThen (reflection_of t m) (\<lambda>r.
     let m1 = fold (inc_new r) (rev (a_stack (task_at m t))) m;
         m2 = inc_new r (a_resval (task_at m t)) m1
     in andThen (context_chain (length (s_contexts m2)) m2 (a_current (task_at m2 t))) (\<lambda>cs.
        Inr (fold (\<lambda>c m. heap_inc_edge r (x_member_obj (ctx_at m c)) m) cs m2)))"

(* src/entity/native/builtin.c _task_dec_all_context *)
definition task_dec_all_context :: "task_id \<Rightarrow> machine \<Rightarrow> machine res" where
  "task_dec_all_context t m = andThen (reflection_of t m) (\<lambda>r.
     let m1 = fold (\<lambda>x. dec_old r (Some x)) (rev (a_stack (task_at m t))) m;
         m2 = dec_old r (Some (a_resval (task_at m t))) m1
     in andThen (context_chain (length (s_contexts m2)) m2 (a_current (task_at m2 t))) (\<lambda>cs.
        Inr (fold (\<lambda>c m. heap_dec_edge r (x_member_obj (ctx_at m c)) m) cs m2)))"

definition live_tasks :: "env \<Rightarrow> task_id \<Rightarrow> machine \<Rightarrow> task_id list" where
  "live_tasks e current m = current # s_queue m @ en_order e (s_waiting m)"

(* src/entity/native/builtin.c _collect_garbage *)
definition n_collect_garbage :: "string_lib \<Rightarrow> native" where
  "n_collect_garbage L e t ctx obj args m = andThen (deref (s_current_task m)) (\<lambda>current.
     andThen (foldRes task_inc_all_context (live_tasks e current m) m) (\<lambda>m1.
     let (deleted_nodes_count, m2) = nl_collect L m1
     in andThen (foldRes task_dec_all_context (live_tasks e current m2) m2) (\<lambda>m3.
        Inr (entity_int deleted_nodes_count, m3))))"

subsection \<open>Methods of strings\<close>

text \<open>The argument as another string.\<close>

abbreviation is_string :: "env \<Rightarrow> machine \<Rightarrow> entity option \<Rightarrow> bool" where
  "is_string e m args \<equiv> IS_CLASS m args (Class_String e)"

definition arg_string :: "entity option \<Rightarrow> machine \<Rightarrow> string res" where
  "arg_string args m = andThen (obj_of args) (\<lambda>x. string_of x m)"

(* src/entity/native/builtin.c _string_extend *)
definition n_string_extend :: "string_lib \<Rightarrow> native" where
  "n_string_extend L e t ctx obj args m =
     (if \<not> is_string e m args
      then throw e t ctx ''Cannot extend a string with something not a string.'' m
      else andThen (string_of obj m) (\<lambda>s. andThen (arg_string args m) (\<lambda>s'.
        Inr (entity_object obj, set_string obj (String_append L s s') m))))"

(* src/entity/native/builtin.c _string_cmp *)
definition n_string_cmp :: "string_lib \<Rightarrow> native" where
  "n_string_cmp L e t ctx obj args m =
     (if \<not> is_string e m args then Inr (None_e, m)
      else andThen (string_of obj m) (\<lambda>self. andThen (arg_string args m) (\<lambda>other.
        andThen (string_order L self other) (\<lambda>i. Inr (entity_int i, m)))))"

(* src/entity/native/builtin.c _string_eq *)
definition n_string_eq :: "string_lib \<Rightarrow> native" where
  "n_string_eq L e t ctx obj args m = andThen (n_string_cmp L e t ctx obj args m) (\<lambda>(v, m1).
     andThen (pint (none_pri v)) (\<lambda>i. Inr (if i = 0 then entity_int 1 else None_e, m1)))"

(* src/entity/native/builtin.c _string_neq *)
definition n_string_neq :: "string_lib \<Rightarrow> native" where
  "n_string_neq L e t ctx obj args m = andThen (n_string_cmp L e t ctx obj args m) (\<lambda>(v, m1).
     andThen (pint (none_pri v)) (\<lambda>i. Inr (if i \<noteq> 0 then entity_int 1 else None_e, m1)))"

(* src/entity/native/builtin.c _string_index *)
definition n_string_index :: native where
  "n_string_index e t ctx obj args m =
     (case args of
        None \<Rightarrow> Inl (Fatal ''NOT_NULL(args)'')
      | Some (EPrim (PInt index)) \<Rightarrow> andThen (string_of obj m) (\<lambda>self.
          if sint index < 0 \<or> int (length self) \<le> sint index
          then throw e t ctx ''Index out of bounds.'' m
          else Inr (entity_char (byte_of_char (self ! nat (sint index))), m))
      | _ \<Rightarrow> throw e t ctx ''Bad string index input'' m)"

(* src/entity/native/builtin.c _string_hash *)
definition n_string_hash :: "string_lib \<Rightarrow> native" where
  "n_string_hash L e t ctx obj args m =
     andThen (string_of obj m) (\<lambda>str. Inr (entity_int (string_hasher_len L str), m))"

(* src/entity/native/builtin.c _string_len *)
definition n_string_len :: native where
  "n_string_len e t ctx obj args m =
     andThen (string_of obj m) (\<lambda>str. Inr (entity_int (of_nat (length str)), m))"

text \<open>The two elements of an argument tuple.\<close>

definition two_args :: "entity option \<Rightarrow> machine \<Rightarrow> (entity \<times> entity) option res" where
  "two_args args m = andThen (obj_of args) (\<lambda>x. andThen (tuple_of x m) (\<lambda>xs.
     Inr (if length xs = 2 then Some (xs ! 0, xs ! 1) else None)))"

definition arg_count :: "entity option \<Rightarrow> machine \<Rightarrow> string res" where
  "arg_count args m = andThen (obj_of args) (\<lambda>x. andThen (tuple_size x m) (\<lambda>n. Inr (dec_of_nat n)))"

(* src/entity/native/builtin.c _string_set *)
definition n_string_set :: "string_lib \<Rightarrow> native" where
  "n_string_set L e t ctx obj args m =
     (if \<not> IS_TUPLE e m args then throw e t ctx ''Expected tuple input.'' m
      else andThen (two_args args m) (\<lambda>ts. case ts of
        None \<Rightarrow> andThen (arg_count args m) (\<lambda>n.
          throw e t ctx ([CHR 0xC3, CHR 0x8F] @ ''nvalid number of arguments, expected 2, got '' @ n) m)
      | Some (EPrim (PInt index), val) \<Rightarrow>
          (let put = (\<lambda>c. andThen (string_of obj m) (\<lambda>str. andThen (String_set L str index c) (\<lambda>str'.
                 Inr (None_e, set_string obj str' m))));
               bad = throw e t ctx ''Bad string index.'' m
           in case val of
                EPrim (PChar c) \<Rightarrow> put (char_of_byte c)
              | EObj x \<Rightarrow>
                  if class_of m x = Class_String e
                  then andThen (string_of x m) (\<lambda>s. if length s = 1 then put (s ! 0) else bad)
                  else bad
              | _ \<Rightarrow> bad)
      | Some _ \<Rightarrow> throw e t ctx ''Cannot index a string with something not an int.'' m))"

text \<open>What \<open>find\<close> and \<open>find_all\<close> ask of their arguments: a string and an index that is not negative.\<close>

(* src/entity/native/builtin.c [390-414] _string_find *)
definition find_args :: "env \<Rightarrow> task_id \<Rightarrow> ctx_id option \<Rightarrow> obj_id \<Rightarrow> entity option \<Rightarrow> machine \<Rightarrow>
    (string \<Rightarrow> string \<Rightarrow> nat \<Rightarrow> (entity \<times> machine) res) \<Rightarrow> (entity \<times> machine) res" where
  "find_args e t ctx obj args m body =
     (if \<not> IS_TUPLE e m args then throw e t ctx ''Expected more than one arg.'' m
      else andThen (two_args args m) (\<lambda>ts. case ts of
        None \<Rightarrow> throw e t ctx ''Expected 2 arguments.'' m
      | Some (string_arg, index) \<Rightarrow>
          if \<not> is_string e m (Some string_arg)
          then throw e t ctx ''Only a String can be in a String.'' m
          else (case index of
            EPrim (PInt i) \<Rightarrow>
              andThen (string_of obj m) (\<lambda>str.
              if sint i < 0
              then throw e t ctx (''Index out of bounds. Was '' @ dec_of_int (sint i) @
                     '', array length is '' @ dec_of_nat (length str) @ ''.'') m
              else andThen (arg_string (Some string_arg) m) (\<lambda>substr. body str substr (nat (sint i))))
          | _ \<Rightarrow> throw e t ctx ''Expected a starting index.'' m)))"

(* src/entity/native/builtin.c _string_find *)
definition n_string_find :: "string_lib \<Rightarrow> native" where
  "n_string_find L e t ctx obj args m = find_args e t ctx obj args m (\<lambda>str substr index.
     if length str < index + length substr then Inr (None_e, m)
     else case find_str L (drop index str) substr of
       None \<Rightarrow> Inr (None_e, m)
     | Some k \<Rightarrow> Inr (entity_int (of_nat k), m))"

(* src/entity/native/builtin.c _string_find_all *)
definition n_string_find_all :: "string_lib \<Rightarrow> native" where
  "n_string_find_all L e t ctx obj args m = find_args e t ctx obj args m (\<lambda>str substr index.
     let (array_obj, m1) = heap_new (Class_Array e) m
     in if length str < index + length substr then Inr (entity_object array_obj, m1)
        else andThen (find_all_loop L str substr index) (\<lambda>found.
             andThen (foldRes (\<lambda>i. array_add array_obj (entity_int (of_nat i))) found m1) (\<lambda>m2.
             Inr (entity_object array_obj, m2))))"

text \<open>The type of the two indices is not asked for before their primitive is read.\<close>

(* src/entity/native/builtin.c _string_substr *)
definition n_string_substr :: native where
  "n_string_substr e t ctx obj args m =
     (if \<not> IS_TUPLE e m args then throw e t ctx ''Expected more than one arg.'' m
      else andThen (two_args args m) (\<lambda>ts. case ts of
        None \<Rightarrow> throw e t ctx ''Expected 2 arguments.'' m
      | Some (index_start, index_end) \<Rightarrow>
          andThen (pri_of (Some index_start)) (\<lambda>p.
          if ptype p \<noteq> PT_INT then throw e t ctx ''Expected start_index to be Int.'' m
          else andThen (pri_of (Some index_end)) (\<lambda>q.
          if ptype q \<noteq> PT_INT then throw e t ctx ''Expected end_index to be an Int.'' m
          else andThen (pint p) (\<lambda>start'. andThen (pint q) (\<lambda>end'.
          let start = sint start'; stop = sint end' in
          andThen (string_of obj m) (\<lambda>str.
          if start < 0 \<or> int (length str) < start then throw e t ctx ''start_index out of bounds.'' m
          else if stop < 0 \<or> int (length str) < stop then throw e t ctx ''end_index out of bounds.'' m
          else if stop < start then throw e t ctx ''start_index > end_index.'' m
          else new_string e (take (nat (stop - start)) (drop (nat start) str)) m)))))))"

(* src/entity/native/builtin.c _string_copy *)
definition n_string_copy :: native where
  "n_string_copy e t ctx obj args m = andThen (string_of obj m) (\<lambda>str. new_string e str m)"

text \<open>A method that changes the characters of \<open>self\<close> and answers it.\<close>

definition change_self :: "(string \<Rightarrow> string res) \<Rightarrow> obj_id \<Rightarrow> machine \<Rightarrow> (entity \<times> machine) res" where
  "change_self f obj m = andThen (string_of obj m) (\<lambda>str. andThen (f str) (\<lambda>str'.
     Inr (entity_object obj, set_string obj str' m)))"

(* src/entity/native/builtin.c _string_ltrim *)
definition n_string_ltrim :: "string_lib \<Rightarrow> native" where
  "n_string_ltrim L e t ctx obj args m = change_self (trim_left L) obj m"

(* src/entity/native/builtin.c _string_rtrim *)
definition n_string_rtrim :: "string_lib \<Rightarrow> native" where
  "n_string_rtrim L e t ctx obj args m = change_self (trim_right L) obj m"

(* src/entity/native/builtin.c _string_trim *)
definition n_string_trim :: "string_lib \<Rightarrow> native" where
  "n_string_trim L e t ctx obj args m = change_self (trim_both L) obj m"

text \<open>The number of characters to drop is compared with the size only; what becomes of a negative one
  depends on the type that the library gives the size.\<close>

(* src/entity/native/builtin.c [552-563] _string_lshrink *)
definition shrink_by :: "string_lib \<Rightarrow> env \<Rightarrow> task_id \<Rightarrow> ctx_id option \<Rightarrow> (string \<Rightarrow> i32 \<Rightarrow> string res) \<Rightarrow> obj_id \<Rightarrow>
    entity option \<Rightarrow> machine \<Rightarrow> (entity \<times> machine) res" where
  "shrink_by L e t ctx shrink obj args m =
     (case args of
        Some (EPrim (PInt index)) \<Rightarrow> andThen (string_of obj m) (\<lambda>str.
          if nl_exceeds L index (length str)
          then throw e t ctx ''Cannot shrink more than the entire size.'' m
          else change_self (\<lambda>s. shrink s index) obj m)
      | _ \<Rightarrow> throw e t ctx ''Trimming String with something not an Int.'' m)"

(* src/entity/native/builtin.c _string_lshrink *)
definition n_string_lshrink :: "string_lib \<Rightarrow> native" where
  "n_string_lshrink L e t ctx obj args m = shrink_by L e t ctx (String_lshrink L) obj args m"

(* src/entity/native/builtin.c _string_rshrink *)
definition n_string_rshrink :: "string_lib \<Rightarrow> native" where
  "n_string_rshrink L e t ctx obj args m = shrink_by L e t ctx (String_rshrink L) obj args m"

(* src/entity/native/builtin.c _string_clear *)
definition n_string_clear :: "string_lib \<Rightarrow> native" where
  "n_string_clear L e t ctx obj args m = change_self (\<lambda>s. Inr (String_clear L s)) obj m"

(* src/entity/native/builtin.c _string_split *)
definition n_string_split :: "string_lib \<Rightarrow> native" where
  "n_string_split L e t ctx obj args m =
     (if \<not> is_string e m args
      then throw e t ctx ''Argument to String.split() must be a String.'' m
      else let (array_obj, m1) = heap_new (Class_Array e) m
        in andThen (string_of obj m1) (\<lambda>str. andThen (arg_string args m1) (\<lambda>delim.
           andThen (split_parts L str delim) (\<lambda>parts.
           andThen (foldRes (\<lambda>part m. let (x, m') = string_new e part m
                                      in array_add array_obj (entity_object x) m') parts m1) (\<lambda>m2.
           Inr (entity_object array_obj, m2))))))"

text \<open>The argument is not asked to be a string.\<close>

(* src/entity/native/builtin.c _string_starts_with *)
definition n_string_starts_with :: "string_lib \<Rightarrow> native" where
  "n_string_starts_with L e t ctx obj args m =
     andThen (string_of obj m) (\<lambda>str. andThen (arg_string args m) (\<lambda>prefix.
       if length str < length prefix then Inr (None_e, m)
       else andThen (strncmp L (length prefix) str prefix) (\<lambda>c.
         Inr (if c = 0 then entity_int 1 else None_e, m))))"

(* src/entity/native/builtin.c _string_ends_with *)
definition n_string_ends_with :: "string_lib \<Rightarrow> native" where
  "n_string_ends_with L e t ctx obj args m =
     andThen (string_of obj m) (\<lambda>str. andThen (arg_string args m) (\<lambda>suffix.
       if length str < length suffix then Inr (None_e, m)
       else andThen (strncmp L (length suffix) (drop (length str - length suffix) str) suffix) (\<lambda>c.
         Inr (if c = 0 then entity_int 1 else None_e, m))))"

subsection \<open>Arrays and tuples\<close>

(* src/entity/native/builtin.c _array_len *)
definition n_array_len :: native where
  "n_array_len e t ctx obj args m =
     andThen (array_of obj m) (\<lambda>xs. Inr (entity_int (of_nat (length xs)), m))"

text \<open>\<open>array_add\<close> asserts that there is an argument.\<close>

(* src/entity/native/builtin.c _array_append *)
definition n_array_append :: native where
  "n_array_append e t ctx obj args m =
     (case args of
        None \<Rightarrow> Inl (Fatal ''NOT_NULL(child)'')
      | Some x \<Rightarrow> andThen (array_add obj x m) (\<lambda>m1. Inr (entity_object obj, m1)))"

(* src/entity/native/builtin.c _array_remove *)
definition n_array_remove :: "string_lib \<Rightarrow> native" where
  "n_array_remove L e t ctx obj args m =
     andThen (pri_of args) (\<lambda>p. andThen (pint p) (\<lambda>i. array_remove L obj i m))"

(* src/entity/native/builtin.c _tuple_len *)
definition n_tuple_len :: native where
  "n_tuple_len e t ctx obj args m =
     andThen (tuple_size obj m) (\<lambda>n. Inr (entity_int (of_nat n), m))"

subsection \<open>Ranges\<close>

(* src/entity/native/builtin.c _range_init *)
definition range_init :: internal where
  "range_init = IRaw"

(* src/entity/native/builtin.c [40-44] _Range *)
definition range_of :: "obj_id \<Rightarrow> machine \<Rightarrow> (i32 \<times> i32 \<times> i32) res" where
  "range_of obj m = (case o_internal (obj_at m obj) of
     IRange start stop inc \<Rightarrow> Inr (start, stop, inc) | _ \<Rightarrow> Inl (UB ''not a range''))"

text \<open>All three checks of the kind of an element look at the first one.\<close>

(* src/entity/native/builtin.c _range_constructor *)
definition n_range_constructor :: native where
  "n_range_constructor e t ctx obj args m =
     (if \<not> IS_TUPLE e m args then throw e t ctx ''Input to range() is not a tuple.'' m
      else andThen (obj_of args) (\<lambda>x. andThen (tuple_of x m) (\<lambda>ts.
        if length ts \<noteq> 3
        then throw e t ctx (''Invalid tuple size for range(). Was '' @ dec_of_nat (length ts)) m
        else let invalid = throw e t ctx ''Input to range() is invalid.'' m in
          if \<not> is_int (ts ! 0) then invalid
          else andThen (pri_of (Some (ts ! 1))) (\<lambda>second.
          if ptype second \<noteq> PT_INT then invalid
          else andThen (pri_of (Some (ts ! 2))) (\<lambda>third.
          if ptype third \<noteq> PT_INT then invalid
          else andThen (pri_of (Some (ts ! 0))) (\<lambda>first.
          andThen (pint first) (\<lambda>start. andThen (pint second) (\<lambda>inc. andThen (pint third) (\<lambda>stop.
            Inr (entity_object obj, set_internal obj (IRange start stop inc) m))))))))))"

(* src/entity/native/builtin.c _range_start *)
definition n_range_start :: native where
  "n_range_start e t ctx obj args m =
     andThen (range_of obj m) (\<lambda>(start, stop, inc). Inr (entity_int start, m))"

(* src/entity/native/builtin.c _range_inc *)
definition n_range_inc :: native where
  "n_range_inc e t ctx obj args m =
     andThen (range_of obj m) (\<lambda>(start, stop, inc). Inr (entity_int inc, m))"

(* src/entity/native/builtin.c _range_end *)
definition n_range_end :: native where
  "n_range_end e t ctx obj args m =
     andThen (range_of obj m) (\<lambda>(start, stop, inc). Inr (entity_int stop, m))"

subsection \<open>Reflection\<close>

text \<open>\<open>entity_object\<close> of a pointer to a reflection.\<close>

definition reflected :: "obj_id option \<Rightarrow> machine \<Rightarrow> (entity \<times> machine) res" where
  "reflected r m = andThen (deref r) (\<lambda>x. Inr (entity_object x, m))"

(* src/entity/native/builtin.c _object_class *)
definition n_object_class :: native where
  "n_object_class e t ctx obj args m = reflected (k_reflection (cls_at m (class_of m obj))) m"

text \<open>The hash of an object is its address, cut to 32 bits.\<close>

(* src/entity/native/builtin.c _object_hash *)
definition n_object_hash :: "string_lib \<Rightarrow> native" where
  "n_object_hash L e t ctx obj args m = Inr (entity_int (nl_address L obj), m)"

(* src/entity/native/builtin.c _class_module *)
definition n_class_module :: native where
  "n_class_module e t ctx obj args m = andThen (class_obj obj m) (\<lambda>c.
     reflected (m_reflection (mod_at m (k_module (cls_at m c)))) m)"

(* src/entity/native/builtin.c _function_name *)
definition n_function_name :: native where
  "n_function_name e t ctx obj args m = andThen (function_obj obj m) (\<lambda>f.
     new_string e (f_name (fun_at m f)) m)"

(* src/entity/native/builtin.c _function_module *)
definition n_function_module :: native where
  "n_function_module e t ctx obj args m = andThen (function_obj obj m) (\<lambda>f.
     reflected (m_reflection (mod_at m (f_module (fun_at m f)))) m)"

(* src/entity/native/builtin.c _function_is_method *)
definition n_function_is_method :: native where
  "n_function_is_method e t ctx obj args m = andThen (function_obj obj m) (\<lambda>f.
     Inr (if f_parent_class (fun_at m f) = None then None_e else entity_int 1, m))"

(* src/entity/native/builtin.c _function_parent_class *)
definition n_function_parent_class :: native where
  "n_function_parent_class e t ctx obj args m = andThen (function_obj obj m) (\<lambda>f.
     case f_parent_class (fun_at m f) of
       None \<Rightarrow> Inr (None_e, m) | Some c \<Rightarrow> reflected (k_reflection (cls_at m c)) m)"

(* src/entity/native/builtin.c _class_name *)
definition n_class_name :: native where
  "n_class_name e t ctx obj args m = andThen (class_obj obj m) (\<lambda>c.
     new_string e (k_name (cls_at m c)) m)"

(* src/entity/native/builtin.c _module_name *)
definition n_module_name :: native where
  "n_module_name e t ctx obj args m = andThen (module_obj obj m) (\<lambda>md.
     andThen (deref (m_name (mod_at m md))) (\<lambda>name. new_string e name m))"

(* src/entity/native/builtin.c _function_ref_name *)
definition n_function_ref_name :: native where
  "n_function_ref_name e t ctx obj args m = andThen (function_ref_get_func obj m) (\<lambda>f.
     new_string e (f_name (fun_at m f)) m)"

(* src/entity/native/builtin.c _function_ref_module *)
definition n_function_ref_module :: native where
  "n_function_ref_module e t ctx obj args m = andThen (function_ref_get_func obj m) (\<lambda>f.
     reflected (m_reflection (mod_at m (f_module (fun_at m f)))) m)"

(* src/entity/native/builtin.c _function_ref_func *)
definition n_function_ref_func :: native where
  "n_function_ref_func e t ctx obj args m = andThen (function_ref_get_func obj m) (\<lambda>f.
     reflected (f_reflection (fun_at m f)) m)"

(* src/entity/native/builtin.c _function_ref_obj *)
definition n_function_ref_obj :: native where
  "n_function_ref_obj e t ctx obj args m = andThen (function_ref_get_object obj m) (\<lambda>x.
     Inr (entity_object x, m))"

(* src/entity/native/builtin.c _class_super *)
definition n_class_super :: native where
  "n_class_super e t ctx obj args m = andThen (class_obj obj m) (\<lambda>c.
     case k_super (cls_at m c) of
       None \<Rightarrow> Inr (None_e, m) | Some s \<Rightarrow> reflected (k_reflection (cls_at m s)) m)"

(* src/entity/native/builtin.c _wrap_function_in_ref2 *)
definition wrap_function_in_ref2 :: "env \<Rightarrow> fun_id \<Rightarrow> obj_id \<Rightarrow> ctx_id option \<Rightarrow> machine \<Rightarrow> obj_id \<times> machine" where
  "wrap_function_in_ref2 e f obj ctx m =
     (let (fn_ref, m1) = heap_new (Class_FunctionRef e) m
      in (fn_ref, function_ref_init fn_ref obj f (if f_is_anon (fun_at m f) then ctx else None) m1))"

text \<open>The constructor of the class \<open>target\<close>, where it is a proper superclass of the object's class.\<close>

(* src/entity/native/builtin.c _object_super *)
definition n_object_super :: native where
  "n_object_super e t ctx obj args m =
     (if \<not> IS_CLASS m args (Class_Class e)
      then throw e t ctx ''super() requires a Class as an argument.'' m
      else andThen (obj_of args) (\<lambda>x. andThen (class_obj x m) (\<lambda>target_super.
        andThen (find_super (length (s_classes m)) (s_classes m)
                   (k_super (cls_at m (class_of m obj))) target_super) (\<lambda>found.
        andThen (if found then class_get_function target_super ''new'' m else Inr None) (\<lambda>constructor.
        case constructor of
          None \<Rightarrow> Inr (None_e, m)
        | Some f \<Rightarrow> (let (r, m1) = wrap_function_in_ref2 e f obj ctx m in Inr (entity_object r, m1)))))))"

(* src/entity/native/builtin.c _object_copy *)
definition n_object_copy :: native where
  "n_object_copy e t ctx obj args m =
     andThen (entity_copy (copy_depth m) e (entity_object obj) ([], m)) (\<lambda>(to_return, cpy_map, m1).
       Inr (to_return, m1))"

(* src/entity/native/builtin.c _class_methods *)
definition n_class_methods :: native where
  "n_class_methods e t ctx obj args m =
     assert_that (class_of m obj = Class_Class e) ''obj->_class == Class_Class''
       (let (array_obj, m1) = heap_new (Class_Array e) m
        in andThen (class_obj obj m1) (\<lambda>c.
           andThen (foldRes (\<lambda>f m. andThen (deref (f_reflection (fun_at m f))) (\<lambda>r.
                      array_add array_obj (entity_object r) m))
                    (kl_values (k_functions (cls_at m1 c))) m1) (\<lambda>m2.
           Inr (entity_object array_obj, m2))))"

(* src/entity/native/builtin.c _class_set_super *)
definition n_class_set_super :: native where
  "n_class_set_super e t ctx obj args m =
     (if \<not> IS_CLASS m args (Class_Class e)
      then throw e t ctx ''Argument 1 of $__set_super must be of type Class.'' m
      else andThen (class_obj obj m) (\<lambda>c. andThen (obj_of args) (\<lambda>x. andThen (class_obj x m) (\<lambda>new_super.
        Inr (entity_object obj, upd_cls c (\<lambda>k. k\<lparr>k_super := Some new_super\<rparr>) m)))))"

(* src/entity/native/builtin.c _class_fields *)
definition n_class_fields :: native where
  "n_class_fields e t ctx obj args m =
     assert_that (class_of m obj = Class_Class e) ''obj->_class == Class_Class''
       (andThen (deref (object_get obj ''_fields'' m)) (\<lambda>v. Inr (v, m)))"

text \<open>\<open>$set\<close> and \<open>$set_method\<close> differ in the messages only. \<open>intern_range\<close> makes a C string of the
  characters of the key.\<close>

(* src/entity/native/builtin.c _set_member *)
definition set_member_named :: "string \<Rightarrow> native" where
  "set_member_named what e t ctx obj args m =
     (if \<not> IS_TUPLE e m args then throw e t ctx ''$set() can only be called with a Tuple.'' m
      else andThen (two_args args m) (\<lambda>ts. case ts of
        None \<Rightarrow> andThen (arg_count args m) (\<lambda>n.
          throw e t ctx (what @ '' can only be called with 2 args. '' @ n @ '' provided.'') m)
      | Some (key_arg, v) \<Rightarrow>
          if \<not> is_string e m (Some key_arg)
          then throw e t ctx (''First argument to '' @ what @ '' must be a String.'') m
          else andThen (arg_string (Some key_arg) m) (\<lambda>key.
            Inr (entity_object obj, object_set_member obj (strndup key) v m))))"

(* src/entity/native/builtin.c _set_member *)
definition n_set_member :: native where
  "n_set_member = set_member_named ''$set()''"

(* src/entity/native/builtin.c _class_set_method *)
definition n_class_set_method :: native where
  "n_class_set_method = set_member_named ''$set_method()''"

(* src/entity/native/builtin.c _get_member *)
definition n_get_member :: native where
  "n_get_member e t ctx obj args m =
     (if \<not> is_string e m args then throw e t ctx ''$get() can only be called with a String.'' m
      else andThen (arg_string args m) (\<lambda>key. object_get_maybe_wrap e obj (strndup key) ctx m))"

end
