(* ===== verification/Builtin.thy ===== *)
theory Builtin imports Natives begin

text \<open>
  The module \<open>builtin\<close>: its classes (\<open>builtin_classes\<close>, \<open>entity/class/classes.c\<close>) and the registration
  of the native functions and methods (\<open>builtin_add_native\<close>, \<open>entity/native/builtin.c\<close>). A native function
  is known by its place in the table \<open>natives\<close>.
\<close>

definition natives :: "string_lib \<Rightarrow> (string \<times> native) list" where
  "natives L = [
     (''_collect_garbage'', n_collect_garbage L), (''_Int'', n_Int), (''_Float'', n_Float L),
     (''__Bool'', n_Bool), (''_stringify'', n_stringify L),
     (''_string_extend'', n_string_extend L), (''_string_cmp'', n_string_cmp L),
     (''_string_eq'', n_string_eq L), (''_string_neq'', n_string_neq L),
     (''_string_index'', n_string_index), (''_string_set'', n_string_set L),
     (''_string_find'', n_string_find L), (''_string_find_all'', n_string_find_all L),
     (''_string_len'', n_string_len), (''_string_hash'', n_string_hash L),
     (''_string_substr'', n_string_substr), (''_string_copy'', n_string_copy),
     (''_string_ltrim'', n_string_ltrim L), (''_string_rtrim'', n_string_rtrim L),
     (''_string_trim'', n_string_trim L), (''_string_lshrink'', n_string_lshrink L),
     (''_string_rshrink'', n_string_rshrink L), (''_string_clear'', n_string_clear L),
     (''_string_split'', n_string_split L), (''_string_starts_with'', n_string_starts_with L),
     (''_string_ends_with'', n_string_ends_with L),
     (''_array_len'', n_array_len), (''_array_append'', n_array_append),
     (''_array_remove'', n_array_remove L), (''_tuple_len'', n_tuple_len),
     (''_range_constructor'', n_range_constructor), (''_range_start'', n_range_start),
     (''_range_inc'', n_range_inc), (''_range_end'', n_range_end),
     (''_object_class'', n_object_class), (''_object_hash'', n_object_hash L),
     (''_class_module'', n_class_module), (''_function_name'', n_function_name),
     (''_function_module'', n_function_module), (''_function_is_method'', n_function_is_method),
     (''_function_parent_class'', n_function_parent_class), (''_class_name'', n_class_name),
     (''_module_name'', n_module_name), (''_function_ref_name'', n_function_ref_name),
     (''_function_ref_module'', n_function_ref_module), (''_function_ref_func'', n_function_ref_func),
     (''_function_ref_obj'', n_function_ref_obj), (''_class_super'', n_class_super),
     (''_object_super'', n_object_super), (''_object_copy'', n_object_copy),
     (''_class_methods'', n_class_methods), (''_class_set_super'', n_class_set_super),
     (''_class_fields'', n_class_fields), (''_set_member'', n_set_member),
     (''_class_set_method'', n_class_set_method), (''_get_member'', n_get_member)]"

definition native_number :: "string_lib \<Rightarrow> string \<Rightarrow> nat" where
  "native_number L fn = length (takeWhile (\<lambda>(name, f). name \<noteq> fn) (natives L))"

text \<open>The machine with the natives of a table in front of its own; it never passes \<open>NULL\<close> for
  the argument.\<close>

definition with_table :: "(string \<times> native) list \<Rightarrow> env \<Rightarrow> env" where
  "with_table fs e = e\<lparr>en_native := (\<lambda>n t c self v m.
     if n < length fs then snd (fs ! n) e t c self (Some v) m else en_native e n t c self v m)\<rparr>"

subsection \<open>Classes\<close>

text \<open>A class gets a reflection of the class \<open>Class\<close>.\<close>

(* src/entity/class/classes.c [50-52] builtin_classes *)
definition give_reflection :: "cls_id \<Rightarrow> cls_id \<Rightarrow> machine \<Rightarrow> machine" where
  "give_reflection class_class cls m =
     (let (r, m1) = heap_new class_class m
      in set_internal r (IClass cls) (upd_cls cls (\<lambda>k. k\<lparr>k_reflection := Some r\<rparr>) m1))"

text \<open>What the initialisers of the classes leave in the internal object (\<open>__tuple_create\<close> leaves it alone).\<close>

(* src/entity/class/classes.c builtin_classes *)
definition builtin_classes :: "mod_id \<Rightarrow> env \<Rightarrow> machine \<Rightarrow> env \<times> machine" where
  "builtin_classes builtin e m =
     (let (object, m1) = module_add_class builtin ''Object'' None m;
          (cls, m2) = module_add_class builtin ''Class'' (Some object) m1;
          (func, m3) = module_add_class builtin ''Function'' (Some object) m2;
          (fref, m4) = module_add_class builtin ''FunctionRef'' (Some object) m3;
          (md, m5) = module_add_class builtin ''Module'' (Some object) m4;
          (arr, m6) = module_add_class builtin ''Array'' (Some object) m5;
          (str, m7) = module_add_class builtin ''String'' (Some object) m6;
          (tup, m8) = module_add_class builtin ''Tuple'' (Some object) m7;
          e1 = e\<lparr>Class_Object := object, Class_Class := cls, Class_Function := func,
                 Class_FunctionRef := fref, Class_Module := md, Class_Array := arr,
                 Class_String := str, Class_Tuple := tup\<rparr>;
          super = (\<lambda>c s. upd_cls c (\<lambda>k. k\<lparr>k_super := s\<rparr>));
          init = (\<lambda>c i. upd_cls c (\<lambda>k. k\<lparr>k_init := Some i\<rparr>));
          reflect = give_reflection cls;
          m9 = reflect object (super object None m8);
          m10 = reflect cls (super cls (Some object) m9);
          m11 = reflect func (super func (Some object) m10);
          m12 = init fref INull (reflect fref (super fref (Some object) m11));
          m13 = reflect md (super md (Some object) m12);
          m14 = init arr (IArray []) (reflect arr (super arr (Some object) m13));
          m15 = init str INull (reflect str (super str (Some object) m14));
          m16 = init tup IRaw (reflect tup (super tup (Some object) m15))
      in (e1, m16))"

subsection \<open>Registration\<close>

definition add_methods :: "string_lib \<Rightarrow> cls_id \<Rightarrow> (string \<times> string) list \<Rightarrow> machine \<Rightarrow> machine res" where
  "add_methods L cls = foldRes (\<lambda>(name, fn) m.
     andThen (native_method cls name (native_number L fn) m) (\<lambda>(f, m'). Inr m'))"

definition add_functions :: "string_lib \<Rightarrow> mod_id \<Rightarrow> (string \<times> string) list \<Rightarrow> machine \<Rightarrow> machine res" where
  "add_functions L md = foldRes (\<lambda>(name, fn) m.
     andThen (native_function md name (native_number L fn) m) (\<lambda>(f, m'). Inr m'))"

(* src/entity/native/builtin.c _builtin_add_string *)
definition string_methods :: "(string \<times> string) list" where
  "string_methods = [
     (''extend'', ''_string_extend''), (''__cmp__'', ''_string_cmp''), (''__eq__'', ''_string_eq''),
     (''__neq__'', ''_string_neq''), (''__index__'', ''_string_index''), (''__set__'', ''_string_set''),
     (''__find'', ''_string_find''), (''__find_all'', ''_string_find_all''), (''len'', ''_string_len''),
     (''hash'', ''_string_hash''), (''__substr'', ''_string_substr''), (''copy'', ''_string_copy''),
     (''ltrim'', ''_string_ltrim''), (''rtrim'', ''_string_rtrim''), (''trim'', ''_string_trim''),
     (''lshrink'', ''_string_lshrink''), (''rshrink'', ''_string_rshrink''), (''split'', ''_string_split''),
     (''__starts_with'', ''_string_starts_with''), (''__ends_with'', ''_string_ends_with'')]"

(* src/entity/native/builtin.c _builtin_add_string *)
definition builtin_add_string :: "string_lib \<Rightarrow> env \<Rightarrow> machine \<Rightarrow> machine res" where
  "builtin_add_string L e = add_methods L (Class_String e) string_methods"

(* src/entity/native/builtin.c _builtin_add_function *)
definition builtin_add_function :: "string_lib \<Rightarrow> env \<Rightarrow> machine \<Rightarrow> machine res" where
  "builtin_add_function L e m =
     (let func = Class_Function e; fref = Class_FunctionRef e in
      andThen (add_methods L func [(''module'', ''_function_module''),
        (''parent_class'', ''_function_parent_class''), (''is_method'', ''_function_is_method'')] m) (\<lambda>m1.
      andThen (add_methods L fref [(''module'', ''_function_ref_module'')] m1) (\<lambda>m2.
      andThen (add_methods L func [(''name'', ''_function_name'')] m2) (\<lambda>m3.
      add_methods L fref [(''name'', ''_function_ref_name''), (''obj'', ''_function_ref_obj''),
        (''func'', ''_function_ref_func'')] m3))))"

(* src/entity/native/builtin.c _builtin_add_range *)
definition builtin_add_range :: "string_lib \<Rightarrow> env \<Rightarrow> mod_id \<Rightarrow> machine \<Rightarrow> machine res" where
  "builtin_add_range L e builtin m =
     (let (range_class, m1) = native_class e builtin ''Range'' (Some range_init) m
      in add_methods L range_class [(''new'', ''_range_constructor''), (''start'', ''_range_start''),
           (''inc'', ''_range_inc''), (''end'', ''_range_end'')] m1)"

text \<open>The initialisers of \<open>Process\<close> and \<open>Task\<close> do nothing.\<close>

(* src/entity/native/builtin.c builtin_add_native *)
definition builtin_add_native :: "string_lib \<Rightarrow> mod_id \<Rightarrow> env \<Rightarrow> machine \<Rightarrow> (env \<times> machine) res" where
  "builtin_add_native L builtin e m =
     (let (e1, m1) = builtin_classes builtin e m;
          (process_class, m2) = native_class e1 builtin ''Process'' (Some IRaw) m1;
          (task_class, m3) = native_class e1 builtin ''Task'' (Some IRaw) m2;
          e2 = e1\<lparr>Class_Task := task_class\<rparr>
      in andThen (add_functions L builtin [(''__collect_garbage'', ''_collect_garbage''),
           (''Int'', ''_Int''), (''Float'', ''_Float''), (''Bool'', ''__Bool''),
           (''__stringify'', ''_stringify'')] m3) (\<lambda>m4.
         andThen (builtin_add_string L e2 m4) (\<lambda>m5.
         andThen (builtin_add_function L e2 m5) (\<lambda>m6.
         andThen (builtin_add_range L e2 builtin m6) (\<lambda>m7.
         andThen (add_methods L (Class_Class e2) [(''module'', ''_class_module''), (''name'', ''_class_name''),
           (''super'', ''_class_super''), (''methods'', ''_class_methods''),
           (''$__set_super'', ''_class_set_super''), (''$set_method'', ''_class_set_method''),
           (''fields'', ''_class_fields'')] m7) (\<lambda>m8.
         andThen (add_methods L (Class_Object e2) [(''class'', ''_object_class''), (''super'', ''_object_super''),
           (''hash'', ''_object_hash''), (''copy'', ''_object_copy''), (''$set'', ''_set_member'')] m8) (\<lambda>m9.
         andThen (add_methods L (Class_Array e2) [(''len'', ''_array_len''), (''append'', ''_array_append''),
           (''__remove'', ''_array_remove'')] m9) (\<lambda>m10.
         andThen (add_methods L (Class_Tuple e2) [(''len'', ''_tuple_len'')] m10) (\<lambda>m11.
         andThen (add_methods L (Class_Module e2) [(''name'', ''_module_name'')] m11) (\<lambda>m12.
         Inr (e2, m12)))))))))))"

end
