(* ===== verification/NativeModules.thy ===== *)
theory NativeModules imports Natives begin

text \<open>
  The natives of the modules \<open>math\<close> (\<open>entity/native/math.c\<close>), \<open>error\<close> (\<open>entity/native/error.c\<close>) and
  \<open>async\<close> (\<open>entity/native/async.c\<close>), and their registration. What \<open>math.h\<close> computes is the record
  \<open>math_lib\<close>, with \<open>ml_fn\<close> for the functions of one number by their names. The argument \<open>num\<close> of a registration gives the place of a C function among the native functions
  of the machine.
\<close>

record math_lib =
  ml_log :: "f64 \<Rightarrow> f64"
  ml_log10 :: "f64 \<Rightarrow> f64"
  ml_pow :: "f64 \<Rightarrow> f64 \<Rightarrow> f64"
  ml_fmod :: "f64 \<Rightarrow> f64 \<Rightarrow> f64"
  ml_fn :: "string \<Rightarrow> f64 \<Rightarrow> f64"

subsection \<open>math\<close>

text \<open>The argument \<open>fn\<close> is a function of \<open>math.h\<close>.\<close>

(* src/entity/native/math.c SingleFloatFn *)
definition single_float_fn :: "string \<Rightarrow> (f64 \<Rightarrow> f64) \<Rightarrow> native" where
  "single_float_fn name fn e t ctx obj args m =
     (case args of
        Some (EPrim p) \<Rightarrow> Inr (entity_float (fn (float_of (en_fo e) p)), m)
      | _ \<Rightarrow> throw e t ctx (name @ ''() takes exactly 1 primitive type argument.'') m)"

(* src/entity/native/math.c _log_special *)
definition log_special :: "math_lib \<Rightarrow> fops \<Rightarrow> f64 \<Rightarrow> f64 \<Rightarrow> f64" where
  "log_special ML fo base num = fdiv fo (ml_log10 ML num) (ml_log10 ML base)"

(* src/entity/native/math.c _log_tuple *)
definition log_tuple :: "math_lib \<Rightarrow> env \<Rightarrow> task_id \<Rightarrow> ctx_id option \<Rightarrow> entity list \<Rightarrow> machine \<Rightarrow> (entity \<times> machine) res" where
  "log_tuple ML e t ctx ts m =
     (if length ts \<noteq> 2 then throw e t ctx ''Invalid tuple arg to __log.'' m
      else case (ts ! 1, ts ! 0) of
        (EPrim base, EPrim num) \<Rightarrow>
          Inr (entity_float (log_special ML (en_fo e) (float_of (en_fo e) base) (float_of (en_fo e) num)), m)
      | (EPrim base, _) \<Rightarrow> throw e t ctx ''Cannot perform __log with non-numeric input.'' m
      | _ \<Rightarrow> throw e t ctx ''Cannot perform __log with non-numeric base.'' m)"

(* src/entity/native/math.c _log *)
definition n_log :: "math_lib \<Rightarrow> native" where
  "n_log ML e t ctx obj args m =
     (if IS_TUPLE e m args
      then andThen (obj_of args) (\<lambda>x. andThen (tuple_of x m) (\<lambda>ts. log_tuple ML e t ctx ts m))
      else case args of
        None \<Rightarrow> Inl (UB ''null argument'')
      | Some (EPrim p) \<Rightarrow> Inr (entity_float (ml_log ML (float_of (en_fo e) p)), m)
      | _ \<Rightarrow> throw e t ctx ''Cannot perform __log on a non-value.'' m)"

text \<open>What \<open>_pow\<close> and \<open>_mod\<close> have in common: the messages for an argument that is no tuple, is no pair, has no
  number in front, has no number behind, and what is done with two numbers.\<close>

definition two_floats ::
    "string \<Rightarrow> string \<Rightarrow> string \<Rightarrow> string \<Rightarrow> (f64 \<Rightarrow> f64 \<Rightarrow> f64) \<Rightarrow> native" where
  "two_floats no_tuple no_pair no_first no_second fn e t ctx obj args m =
     (if \<not> IS_TUPLE e m args then throw e t ctx no_tuple m
      else andThen (obj_of args) (\<lambda>x. andThen (tuple_of x m) (\<lambda>ts.
        if length ts \<noteq> 2 then throw e t ctx no_pair m
        else case (ts ! 0, ts ! 1) of
          (EPrim p, EPrim q) \<Rightarrow> Inr (entity_float (fn (float_of (en_fo e) p) (float_of (en_fo e) q)), m)
        | (EPrim p, _) \<Rightarrow> throw e t ctx no_second m
        | _ \<Rightarrow> throw e t ctx no_first m)))"

text \<open>The power is checked, and then the number is raised to itself.\<close>

(* src/entity/native/math.c _pow *)
definition n_pow :: "math_lib \<Rightarrow> native" where
  "n_pow ML = two_floats ''__pow expects multiple arguments.'' ''__pow expects exactly 2 arguments.''
     ''Cannot perform __pow with non-numeric input.'' ''Cannot perform __pow with non-numeric power.''
     (\<lambda>num power. ml_pow ML num num)"

(* src/entity/native/math.c _mod *)
definition n_mod :: "math_lib \<Rightarrow> native" where
  "n_mod ML = two_floats ''mod expects multiple arguments.'' ''mod expects exactly 2 arguments.''
     ''Cannot perform mod with non-numeric input.'' ''Cannot perform mod with non-numeric power.''
     (ml_fmod ML)"

(* src/entity/native/math.c [111-120] SingleFloatToCFn *)
definition float_fns :: "math_lib \<Rightarrow> (string \<times> native) list" where
  "float_fns ML = List.map (\<lambda>(name, cname). (CHR ''_'' # name, single_float_fn name (ml_fn ML cname)))
     [(''sin'', ''sin''), (''cos'', ''cos''), (''tan'', ''tan''), (''asin'', ''asin''), (''acos'', ''acos''),
      (''atan'', ''atan''), (''exp'', ''exp''), (''abs'', ''fabs''), (''ceil'', ''ceil''), (''floor'', ''floor'')]"

definition register :: "mod_id \<Rightarrow> (string \<Rightarrow> nat) \<Rightarrow> (string \<times> string) list \<Rightarrow> machine \<Rightarrow> machine res" where
  "register md num = foldRes (\<lambda>(name, fn) m.
     andThen (native_function md name (num fn) m) (\<lambda>(f, m'). Inr m'))"

(* src/entity/native/math.c math_add_native *)
definition math_add_native :: "(string \<Rightarrow> nat) \<Rightarrow> mod_id \<Rightarrow> machine \<Rightarrow> machine res" where
  "math_add_native num math = register math num [(''__log'', ''_log''), (''pow'', ''_pow''), (''sin'', ''_sin''),
     (''cos'', ''_cos''), (''tan'', ''_tan''), (''asin'', ''_asin''), (''acos'', ''_acos''),
     (''atan'', ''_atan''), (''exp'', ''_exp''), (''abs'', ''_abs''), (''ceil'', ''_ceil''),
     (''floor'', ''_floor''), (''mod'', ''_mod'')]"

subsection \<open>error\<close>

(* src/entity/native/error.c [25-29] _StackLine *)
definition stackline_of :: "obj_id \<Rightarrow> machine \<Rightarrow> (mod_id \<times> fun_id option \<times> token option) res" where
  "stackline_of obj m = (case o_internal (obj_at m obj) of
     IStackLine md f tok \<Rightarrow> Inr (md, f, tok) | _ \<Rightarrow> Inl (UB ''not a stack line''))"

(* src/entity/native/error.c stackline_linenum *)
definition stackline_linenum :: "env \<Rightarrow> obj_id \<Rightarrow> machine \<Rightarrow> int res" where
  "stackline_linenum e obj m = assert_that (class_of m obj = Class_StackLine e) ''Class_StackLine''
     (andThen (stackline_of obj m) (\<lambda>(md, f, tok). andThen (deref tok) (\<lambda>tok'. Inr (tok_line tok'))))"

(* src/entity/native/error.c stackline_module *)
definition stackline_module :: "env \<Rightarrow> obj_id \<Rightarrow> machine \<Rightarrow> mod_id res" where
  "stackline_module e obj m = assert_that (class_of m obj = Class_StackLine e) ''Class_StackLine''
     (andThen (stackline_of obj m) (\<lambda>(md, f, tok). Inr md))"

(* src/entity/native/error.c _error_constructor *)
definition n_error_constructor :: native where
  "n_error_constructor e t ctx obj args m =
     (if IS_CLASS m args (Class_String e)
      then andThen (obj_of args) (\<lambda>x. andThen (error_fill e t obj x m) (\<lambda>m1. Inr (entity_object obj, m1)))
      else throw e t ctx ''Error argument is not a String.'' m)"

(* src/entity/native/error.c _stackline_module *)
definition n_stackline_module :: native where
  "n_stackline_module e t ctx obj args m =
     andThen (stackline_of obj m) (\<lambda>(md, f, tok). reflected (m_reflection (mod_at m md)) m)"

(* src/entity/native/error.c _stackline_function *)
definition n_stackline_function :: native where
  "n_stackline_function e t ctx obj args m =
     andThen (stackline_of obj m) (\<lambda>(md, f, tok). case f of
       None \<Rightarrow> Inr (None_e, m)
     | Some func \<Rightarrow> reflected (f_reflection (fun_at m func)) m)"

(* src/entity/native/error.c _stackline_token *)
definition n_stackline_token :: native where
  "n_stackline_token e t ctx obj args m =
     andThen (stackline_of obj m) (\<lambda>(md, f, tok). andThen (deref tok) (\<lambda>error_token.
       let (tuple_obj, m1) = heap_new (Class_Tuple e) m;
           m2 = set_internal tuple_obj (tuple_create e 3) m1
       in andThen (new_string e (tok_text error_token) m2) (\<lambda>(token_text, m3).
          andThen (tuple_set tuple_obj 0 token_text m3) (\<lambda>m4.
          andThen (tuple_set tuple_obj 1 (entity_int (of_int (tok_line error_token))) m4) (\<lambda>m5.
          andThen (tuple_set tuple_obj 2 (entity_int (of_int (tok_col error_token))) m5) (\<lambda>m6.
          Inr (entity_object tuple_obj, m6)))))))"

text \<open>The initialiser of \<open>Error\<close> does nothing; that of \<open>StackLine\<close> leaves what the memory contains.\<close>

(* src/entity/native/error.c error_add_native *)
definition error_add_native :: "(string \<Rightarrow> nat) \<Rightarrow> mod_id \<Rightarrow> env \<Rightarrow> machine \<Rightarrow> (env \<times> machine) res" where
  "error_add_native num md e m =
     (let (error_class, m1) = native_class e md ''Error'' None m
      in andThen (native_method error_class ''new'' (num ''_error_constructor'') m1) (\<lambda>(f, m2).
         let (stackline_class, m3) = native_class e md ''StackLine'' (Some IRaw) m2
         in andThen (native_method stackline_class ''module'' (num ''_stackline_module'') m3) (\<lambda>(f, m4).
            andThen (native_method stackline_class ''function'' (num ''_stackline_function'') m4) (\<lambda>(f, m5).
            andThen (native_method stackline_class ''__token'' (num ''_stackline_token'') m5) (\<lambda>(f, m6).
            Inr (e\<lparr>Class_Error := error_class, Class_StackLine := stackline_class\<rparr>, m6))))))"

subsection \<open>async\<close>

(* src/entity/native/async.c _future_value *)
definition n_future_value :: native where
  "n_future_value e t ctx obj args m =
     (case args of None \<Rightarrow> Inl (Fatal ''NOT_NULL(child)'') | Some v \<Rightarrow> future_value e v m)"

(* src/entity/native/async.c async_add_native *)
definition async_add_native :: "(string \<Rightarrow> nat) \<Rightarrow> mod_id \<Rightarrow> env \<Rightarrow> machine \<Rightarrow> (env \<times> machine) res" where
  "async_add_native num md e m =
     (let (future_class, m1) = native_class e md ''Future'' (Some future_init) m
      in andThen (register md num [(''value'', ''_future_value'')] m1) (\<lambda>m2.
         Inr (e\<lparr>Class_Future := future_class\<rparr>, m2)))"

text \<open>The natives of the three modules.\<close>

definition module_natives :: "math_lib \<Rightarrow> (string \<times> native) list" where
  "module_natives ML = float_fns ML @ [(''_log'', n_log ML), (''_pow'', n_pow ML), (''_mod'', n_mod ML),
     (''_error_constructor'', n_error_constructor), (''_stackline_module'', n_stackline_module),
     (''_stackline_function'', n_stackline_function), (''_stackline_token'', n_stackline_token),
     (''_future_value'', n_future_value)]"

end
