(* ===== verification/Frames.thy ===== *)
theory Frames imports Scheduler begin

text \<open>
  What an instruction may change. Every instruction is a composition of few elementary updates of the
  machine; the locale \<open>updates\<close> states that a property of machines survives each of them, and shows
  once and for all that it then survives the instructions that do not start tasks. \<open>calm\<close> is such
  a property: as far as the scheduler is concerned, nothing happened but the creation of new tasks. The
  locale \<open>calls\<close> adds the creation of tasks and reaches all instructions.
\<close>

subsection \<open>Results that satisfy a property\<close>

definition post :: "('a \<Rightarrow> bool) \<Rightarrow> 'a res \<Rightarrow> bool" where
  "post P r \<longleftrightarrow> (\<forall>x. r = Inr x \<longrightarrow> P x)"

lemma post_simps [simp]: "post P (Inr x) \<longleftrightarrow> P x" "post P (Inl err)"
  by (auto simp: post_def)

lemma postD: "post P r \<Longrightarrow> r = Inr x \<Longrightarrow> P x"
  by (simp add: post_def)

lemma post_andThen: "post Q r \<Longrightarrow> (\<And>x. Q x \<Longrightarrow> post P (f x)) \<Longrightarrow> post P (andThen r f)"
  by (auto simp: post_def andThen_eq_Inr)

lemma post_any: "(\<And>x. r = Inr x \<Longrightarrow> post P (f x)) \<Longrightarrow> post P (andThen r f)"
  by (auto simp: post_def andThen_eq_Inr)

text \<open>Sequencing after an operation that leaves the machine as it is.\<close>

lemmas post_pure =
  post_any [where r = "deref q" for q] post_any [where r = "function_obj x m" for x m]
  post_any [where r = "class_obj x m" for x m] post_any [where r = "module_obj x m" for x m]
  post_any [where r = "class_get_function c k m" for c k m]
  post_any [where r = "class_get_function_ref e c k m" for e c k m]
  post_any [where r = "inherits_from c d m" for c d m]
  post_any [where r = "enclosing n c k m" for n c k m]
  post_any [where r = "array_of x m" for x m] post_any [where r = "tuple_of x m" for x m]
  post_any [where r = "tuple_size x m" for x m] post_any [where r = "tuple_get x i m" for x i m]
  post_any [where r = "task_peekstack t m" for t m] post_any [where r = "task_peekstack_n t n m" for t n m]
  post_any [where r = "tape_get_source t i" for t i] post_any [where r = "tape_get t i" for t i]
  post_any [where r = "task_chain n m t" for n m t] post_any [where r = "context_chain n m t" for n m t]
  post_any [where r = "future_of x m" for x m] post_any [where r = "future_get_task x m" for x m]
  post_any [where r = "function_ref_get_func x m" for x m]
  post_any [where r = "function_ref_get_object x m" for x m]
  post_any [where r = "function_ref_get_parent_context x m" for x m]
  post_any [where r = "execute_primitive fo p a b" for fo p a b]
  post_any [where r = "jump_val v" for v] post_any [where r = "ins_int i" for i]

lemma post_assert: "(b \<Longrightarrow> post P r) \<Longrightarrow> post P (assert_that b msg r)"
  by (simp add: assert_that_def)

lemma post_foldRes:
  "P m \<Longrightarrow> (\<And>x m. P m \<Longrightarrow> post P (f x m)) \<Longrightarrow> post P (foldRes f xs m)"
  by (induction xs arbitrary: m) (auto intro: post_andThen)

subsection \<open>Elementary updates\<close>

locale updates =
  fixes e :: env and inv :: "machine \<Rightarrow> bool"
  assumes inv_new: "inv m \<Longrightarrow> inv (snd (heap_new c m))"
    and inv_internal: "inv m \<Longrightarrow> inv (set_internal x i m)"
    and inv_member: "inv m \<Longrightarrow> inv (object_set_member x k v m)"
    and inv_edge: "inv m \<Longrightarrow> inv (note_edge d m)"
    and inv_resval: "inv m \<Longrightarrow> inv (upd_task t (\<lambda>x. x\<lparr>a_resval := v\<rparr>) m)"
    and inv_stack: "inv m \<Longrightarrow> inv (upd_task t (\<lambda>x. x\<lparr>a_stack := g x\<rparr>) m)"
    and inv_current: "inv m \<Longrightarrow> inv (upd_task t (\<lambda>x. x\<lparr>a_current := cc\<rparr>) m)"
    and inv_parent: "inv m \<Longrightarrow> inv (upd_task t (\<lambda>x. x\<lparr>a_parent := p\<rparr>) m)"
    and inv_child_error: "inv m \<Longrightarrow> inv (upd_task t (\<lambda>x. x\<lparr>a_child_error := b\<rparr>) m)"
    and inv_ctx: "inv m \<Longrightarrow> inv (upd_ctx ctx h m)"
    and inv_new_ctx: "inv m \<Longrightarrow> inv (m\<lparr>s_contexts := s_contexts m @ [y]\<rparr>)"
    and inv_initialized: "inv m \<Longrightarrow> inv (upd_mod md (\<lambda>x. x\<lparr>m_initialized := True\<rparr>) m)"
begin

abbreviation inv2 :: "'a \<times> machine \<Rightarrow> bool" where "inv2 x \<equiv> inv (snd x)"

lemma inv_string_new: "inv m \<Longrightarrow> inv (snd (string_new e s m))"
  using inv_internal [OF inv_new]
  by (simp add: string_new_def string_init_def set_internal_def case_prod_beta)

lemma inv_dec_old: "inv m \<Longrightarrow> inv (dec_old x old m)"
  by (auto simp: dec_old_def intro: inv_edge split: option.split entity.split)

lemma inv_inc_new: "inv m \<Longrightarrow> inv (inc_new x v m)"
  by (auto simp: inc_new_def intro: inv_edge split: entity.split)

lemma inv_member_obj: "inv m \<Longrightarrow> inv (object_set_member_obj x k y m)"
  by (simp add: object_set_member_obj_eq inv_member)

lemma inv_set_resval: "inv m \<Longrightarrow> inv (task_set_resval t v m)"
  by (simp add: task_set_resval_def inv_resval)

lemma inv_push: "inv m \<Longrightarrow> inv (task_pushstack t v m)"
  by (simp add: task_pushstack_def inv_stack)

lemma inv_drop: "inv m \<Longrightarrow> inv (task_dropstack t m)"
  by (simp add: task_dropstack_def inv_stack)

lemma inv_skip: "inv m \<Longrightarrow> inv (skip_ins c n m)"
  by (simp add: skip_ins_def inv_ctx)

lemma inv_wrap: "inv m \<Longrightarrow> inv (snd (wrap_function_in_ref e f x c m))"
  by (simp add: wrap_function_in_ref_def function_ref_init_def case_prod_beta inv_internal inv_new)

lemmas inv_basic = inv_new inv_internal inv_member inv_edge inv_resval inv_stack inv_current inv_parent
  inv_ctx inv_new_ctx inv_initialized inv_string_new inv_dec_old inv_inc_new inv_member_obj
  inv_set_resval inv_push inv_drop inv_skip inv_wrap

lemma inv_array_add: "inv m \<Longrightarrow> post inv (array_add x v m)"
  by (auto simp: array_add_def intro!: post_pure inv_basic)

lemma inv_array_set: "inv m \<Longrightarrow> post inv (array_set e x i v m)"
  by (auto simp: array_set_def Let_def intro!: post_pure post_assert inv_basic)

lemma inv_tuple_put: "inv m \<Longrightarrow> post inv (tuple_put x i v m)"
  by (auto simp: tuple_put_def intro!: post_pure post_assert inv_basic)

lemma inv_tuple_set: "inv m \<Longrightarrow> post inv (tuple_set x i v m)"
  by (auto simp: tuple_set_def intro!: post_pure post_assert post_andThen [OF inv_tuple_put] inv_basic)

lemma inv_pop: "inv m \<Longrightarrow> post inv2 (task_popstack t m)"
  by (auto simp: task_popstack_def intro!: post_pure inv_basic)

subsection \<open>Names\<close>

lemma inv_self_member: "inv m \<Longrightarrow> post inv2 (self_member e ctx mem m)"
  by (auto simp: self_member_def case_prod_beta intro!: post_pure inv_basic split: entity.split)

lemma inv_lookup_module: "inv m \<Longrightarrow> post inv2 (lookup_module e ctx name m)"
  by (auto simp: lookup_module_def Let_def case_prod_beta intro!: post_pure inv_basic
      split: option.split)

lemma inv_context_lookup: "inv m \<Longrightarrow> post inv2 (context_lookup e ctx name m)"
  by (auto simp: context_lookup_def Let_def case_prod_beta
      intro!: post_pure post_andThen [OF inv_self_member] inv_lookup_module inv_basic
      split: option.split)

lemma inv_let: "inv m \<Longrightarrow> inv (context_let ctx name v m)"
  by (simp add: context_let_def inv_member)

lemma inv_set: "inv m \<Longrightarrow> post inv (context_set ctx name v m)"
  by (auto simp: context_set_def Let_def intro!: post_pure inv_basic split: option.split)

lemma inv_get_maybe_wrap: "inv m \<Longrightarrow> post inv2 (object_get_maybe_wrap e x field ctx m)"
  by (auto simp: object_get_maybe_wrap_def Let_def case_prod_beta intro!: post_pure inv_basic
      split: option.split entity.split)

subsection \<open>Errors and futures\<close>

lemma inv_stackline: "inv m \<Longrightarrow> post inv (add_stackline e x c m)"
  by (auto simp: add_stackline_def Let_def case_prod_beta intro!: post_pure inv_array_add inv_basic)

lemma inv_stacklines: "inv m \<Longrightarrow> post inv (foldRes (add_stackline e x) cs m)"
  by (rule post_foldRes) (auto intro: inv_stackline)

lemma inv_error_fill: "inv m \<Longrightarrow> post inv (error_fill e t x msg m)"
  by (auto simp: error_fill_def Let_def case_prod_beta
      intro!: post_pure post_andThen [OF post_foldRes [where P = inv]] inv_stacklines inv_basic)

lemma inv_error_new: "inv m \<Longrightarrow> post inv2 (error_new e t msg m)"
  by (auto simp: error_new_def case_prod_beta intro!: post_andThen [OF inv_error_fill] inv_basic)

lemma inv_raise_object: "inv m \<Longrightarrow> inv (raise_error_with_object t c x m)"
  by (simp add: raise_error_with_object_def inv_set_resval inv_ctx)

lemma inv_raise: "inv m \<Longrightarrow> post inv (raise_error e t c msg m)"
  by (auto simp: raise_error_def case_prod_beta
      intro!: post_andThen [OF inv_error_new] inv_raise_object inv_basic)

lemma inv_future_create: "inv m \<Longrightarrow> post inv2 (future_create e t m)"
  by (auto simp: future_create_def case_prod_beta intro!: post_pure inv_basic)

lemma inv_future_is_complete: "inv m \<Longrightarrow> post inv2 (future_is_complete x m)"
  by (auto simp: future_is_complete_def Let_def intro!: post_pure inv_basic)

lemma inv_future_get_value: "inv m \<Longrightarrow> post inv2 (future_get_value e x m)"
  by (auto simp: future_get_value_def Let_def intro!: post_pure post_assert inv_basic)

subsection \<open>Instructions that start no task\<close>

lemmas inv_steps = post_andThen [OF inv_pop] post_andThen [OF inv_context_lookup]
  post_andThen [OF inv_get_maybe_wrap] post_andThen [OF inv_raise] post_andThen [OF inv_future_create]
  post_andThen [OF inv_future_is_complete] post_andThen [OF inv_future_get_value]
  post_andThen [OF inv_array_add] post_andThen [OF inv_array_set] post_andThen [OF inv_tuple_put]
  post_andThen [OF inv_tuple_set]
  inv_context_lookup inv_get_maybe_wrap inv_raise inv_array_add inv_array_set inv_tuple_set inv_set

lemma inv_operands: "inv m \<Longrightarrow> post inv2 (primitive_operands e name t c arg m)"
  by (auto simp: primitive_operands_def Let_def case_prod_beta intro!: inv_steps inv_basic
      split: operand.split entity.split option.split)

lemma inv_primitive_op: "inv m \<Longrightarrow> post inv (primitive_op e name p t c arg m)"
  by (auto simp: primitive_op_def case_prod_beta intro!: post_andThen [OF inv_operands] post_pure inv_basic
      split: option.split)

lemma inv_primitive_bool_op: "inv m \<Longrightarrow> post inv (primitive_bool_op e name p t c arg m)"
  by (auto simp: primitive_bool_op_def case_prod_beta intro!: post_andThen [OF inv_operands] post_pure
      inv_basic split: option.split)

lemma inv_math: "inv m \<Longrightarrow> post inv (execute_math e p t c arg m)"
  by (cases p) (simp_all add: execute_math_def inv_primitive_op inv_primitive_bool_op)

lemma inv_BOR: "inv m \<Longrightarrow> post inv (execute_BOR_with_obj e t c arg m)"
  by (auto simp: execute_BOR_with_obj_def case_prod_beta intro!: post_pure inv_steps inv_math inv_basic
      split: operand.split entity.split)

lemma inv_literal: "inv m \<Longrightarrow> post inv2 (new_literal e s m)"
  using inv_internal [OF inv_new]
  by (simp add: new_literal_def string_init_def set_internal_def case_prod_beta)

lemmas inv_literals = post_andThen [OF inv_literal]

lemma inv_RES: "inv m \<Longrightarrow> post inv (execute_RES e t c arg m)"
  by (auto simp: execute_RES_def case_prod_beta intro!: inv_steps inv_literals inv_basic
      split: operand.split)

lemma inv_PEEK: "inv m \<Longrightarrow> post inv (execute_PEEK e t c arg m)"
  by (auto simp: execute_PEEK_def case_prod_beta intro!: post_pure inv_steps inv_basic
      split: operand.split)

lemma inv_DUP: "inv m \<Longrightarrow> post inv (execute_DUP t arg m)"
  by (auto simp: execute_DUP_def intro!: post_pure post_assert inv_basic)

lemma inv_PUSH: "inv m \<Longrightarrow> post inv (execute_PUSH e t c arg m)"
  by (auto simp: execute_PUSH_def case_prod_beta intro!: inv_steps inv_literals inv_basic
      split: operand.split)

lemma inv_PNIL: "inv m \<Longrightarrow> post inv (execute_PNIL t arg m)"
  by (auto simp: execute_PNIL_def intro!: post_assert inv_basic)

lemma inv_RNIL: "inv m \<Longrightarrow> post inv (execute_RNIL t arg m)"
  by (auto simp: execute_RNIL_def intro!: post_assert inv_basic)

lemma inv_FLD: "inv m \<Longrightarrow> post inv (execute_FLD e t c arg m)"
  by (auto simp: execute_FLD_def case_prod_beta intro!: inv_steps inv_basic
      split: operand.split entity.split)

lemma inv_LET: "inv m \<Longrightarrow> post inv (execute_LET t c arg m)"
  by (auto simp: execute_LET_def intro!: inv_let split: operand.split)

lemma inv_SET: "inv m \<Longrightarrow> post inv (execute_SET t c arg m)"
  by (auto simp: execute_SET_def intro!: inv_set split: operand.split)

lemma inv_GET: "inv m \<Longrightarrow> post inv (execute_GET e t c arg m)"
  by (auto simp: execute_GET_def case_prod_beta intro!: inv_steps inv_basic
      split: operand.split entity.split)

lemma inv_GTSH: "inv m \<Longrightarrow> post inv (execute_GTSH e t c arg m)"
  by (auto simp: execute_GTSH_def case_prod_beta intro!: inv_steps inv_basic
      split: operand.split entity.split)

lemma inv_create_context: "inv m \<Longrightarrow> inv (snd (task_create_context e t self md i m))"
  using inv_current [OF inv_new_ctx [OF inv_new]]
  by (simp add: task_create_context_def Let_def case_prod_beta)

lemma inv_NBLK: "inv m \<Longrightarrow> post inv2 (execute_NBLK e c arg m)"
  by (auto simp: execute_NBLK_def Let_def intro!: post_assert inv_create_context)

lemma inv_back: "inv m \<Longrightarrow> post inv2 (task_back_context t m)"
  by (auto simp: task_back_context_def Let_def intro!: post_pure inv_basic split: option.split)

lemma inv_BBLK: "inv m \<Longrightarrow> post inv2 (execute_BBLK t arg m)"
  by (auto simp: execute_BBLK_def intro!: post_assert inv_back)

lemma inv_JMP: "inv m \<Longrightarrow> post inv (execute_JMP c arg m)"
  by (auto simp: execute_JMP_def intro!: post_pure inv_basic split: operand.split)

lemma inv_IF: "inv m \<Longrightarrow> post inv (execute_IF p t c arg m)"
  by (auto simp: execute_IF_def Let_def intro!: post_pure inv_basic split: operand.split)

lemma inv_RET: "inv m \<Longrightarrow> post inv (execute_RET e t c arg m)"
  by (auto simp: execute_RET_def case_prod_beta intro!: inv_steps post_pure inv_basic split: operand.split)

lemma inv_NOT: "inv m \<Longrightarrow> post inv (execute_NOT t arg m)"
  by (auto simp: execute_NOT_def intro!: post_assert inv_basic)

lemma inv_ANEW: "inv m \<Longrightarrow> post inv (execute_ANEW e t arg m)"
  by (auto simp: execute_ANEW_def Let_def case_prod_beta
      intro!: post_foldRes [where P = inv] inv_steps inv_basic split: operand.split primitive.split)

lemma inv_TUPL: "inv m \<Longrightarrow> post inv (execute_TUPL e t i m)"
  by (auto simp: execute_TUPL_def Let_def case_prod_beta
      intro!: post_assert post_pure post_foldRes [where P = inv] inv_steps inv_basic)

lemma inv_TLEN: "inv m \<Longrightarrow> post inv (execute_TLEN e t arg m)"
  by (auto simp: execute_TLEN_def intro!: post_assert post_pure inv_basic split: entity.split)

lemma inv_TGTE: "inv m \<Longrightarrow> post inv (execute_TGTE e t c arg m)"
  by (auto simp: execute_TGTE_def Let_def intro!: post_pure inv_steps inv_basic
      split: operand.split primitive.split entity.split)

lemma inv_TGET: "inv m \<Longrightarrow> post inv (execute_TGET e t c arg m)"
  by (auto simp: execute_TGET_def Let_def intro!: post_pure inv_steps inv_basic
      split: operand.split primitive.split entity.split)

lemma inv_IS: "inv m \<Longrightarrow> post inv (execute_IS e t c arg m)"
  by (auto simp: execute_IS_def Let_def case_prod_beta intro!: post_assert post_pure inv_steps inv_basic
      split: entity.split)

lemma inv_CTCH: "inv m \<Longrightarrow> post inv (execute_CTCH c arg m)"
  by (auto simp: execute_CTCH_def intro!: post_pure inv_basic split: operand.split)

lemma inv_RAIS: "inv m \<Longrightarrow> post inv (execute_RAIS e t c m)"
  by (auto simp: execute_RAIS_def Let_def intro!: post_pure inv_steps inv_raise_object
      split: entity.split)

end

subsection \<open>Calm: nothing but new tasks\<close>

text \<open>
  Between the two machines tasks may have been created, and new ones may have been put into the queue
  or given to the thread pool, each once. No other task was queued, woken, completed or made to wait.
\<close>

definition calm :: "machine \<Rightarrow> machine \<Rightarrow> bool" where
  "calm m m' \<longleftrightarrow>
     length (s_tasks m) \<le> length (s_tasks m') \<and>
     (\<forall>i < length (s_tasks m). a_state (task_at m' i) = a_state (task_at m i) \<and>
        a_dependents (task_at m' i) = a_dependents (task_at m i)) \<and>
     (\<forall>i < length (s_tasks m'). length (s_tasks m) \<le> i \<longrightarrow>
        a_state (task_at m' i) = TASK_RUNNING \<and> a_dependents (task_at m' i) = []) \<and>
     (\<exists>q bs. s_queue m' = s_queue m @ q \<and> s_background m' = s_background m @ bs \<and>
        distinct (q @ List.map b_task bs) \<and>
        set (q @ List.map b_task bs) \<subseteq> {length (s_tasks m)..<length (s_tasks m')}) \<and>
     s_waiting m' = s_waiting m \<and> s_completed m' = s_completed m"

definition natives_calm :: "env \<Rightarrow> bool" where
  "natives_calm e \<longleftrightarrow>
     (\<forall>n t c self v m w m'. en_native e n t c self v m = Inr (w, m') \<longrightarrow> calm m m') \<and>
     (\<forall>name m r m'. en_module e name m = Inr (r, m') \<longrightarrow> calm m m')"

lemma calm_same:
  assumes "length (s_tasks m') = length (s_tasks m)"
    and "\<And>i. i < length (s_tasks m) \<Longrightarrow> a_state (task_at m' i) = a_state (task_at m i)"
    and "\<And>i. i < length (s_tasks m) \<Longrightarrow> a_dependents (task_at m' i) = a_dependents (task_at m i)"
    and "s_queue m' = s_queue m" and "s_background m' = s_background m"
    and "s_waiting m' = s_waiting m" and "s_completed m' = s_completed m"
  shows "calm m m'"
  using assms by (auto simp: calm_def)

lemma calm_refl [simp]: "calm m m"
  by (rule calm_same) simp_all

lemma calm_trans:
  assumes 1: "calm m m'" and 2: "calm m' m''"
  shows "calm m m''"
proof -
  from 1 obtain q bs where qs: "s_queue m' = s_queue m @ q" "s_background m' = s_background m @ bs"
    "distinct (q @ List.map b_task bs)"
    "set (q @ List.map b_task bs) \<subseteq> {length (s_tasks m)..<length (s_tasks m')}"
    unfolding calm_def by blast
  from 2 obtain q' bs' where qs': "s_queue m'' = s_queue m' @ q'"
    "s_background m'' = s_background m' @ bs'" "distinct (q' @ List.map b_task bs')"
    "set (q' @ List.map b_task bs') \<subseteq> {length (s_tasks m')..<length (s_tasks m'')}"
    unfolding calm_def by blast
  have le: "length (s_tasks m) \<le> length (s_tasks m')" "length (s_tasks m') \<le> length (s_tasks m'')"
    using 1 2 by (simp_all add: calm_def)
  have "set (q @ List.map b_task bs) \<inter> set (q' @ List.map b_task bs') = {}"
    using qs(4) qs'(4) by fastforce
  then have "distinct ((q @ q') @ List.map b_task (bs @ bs'))"
    using qs(3) qs'(3) by auto
  moreover have "set ((q @ q') @ List.map b_task (bs @ bs')) \<subseteq>
      {length (s_tasks m)..<length (s_tasks m'')}"
    using qs(4) qs'(4) le by (fastforce simp: subset_iff)
  moreover have "s_queue m'' = s_queue m @ (q @ q')" "s_background m'' = s_background m @ (bs @ bs')"
    using qs qs' by simp_all
  ultimately have qq: "\<exists>q bs. s_queue m'' = s_queue m @ q \<and> s_background m'' = s_background m @ bs \<and>
      distinct (q @ List.map b_task bs) \<and>
      set (q @ List.map b_task bs) \<subseteq> {length (s_tasks m)..<length (s_tasks m'')}"
    by blast
  have old: "a_state (task_at m'' i) = a_state (task_at m i) \<and>
      a_dependents (task_at m'' i) = a_dependents (task_at m i)" if "i < length (s_tasks m)" for i
    using 1 2 that le(1) by (simp add: calm_def)
  have new: "a_state (task_at m'' i) = TASK_RUNNING \<and> a_dependents (task_at m'' i) = []"
    if "i < length (s_tasks m'')" "length (s_tasks m) \<le> i" for i
    using 1 2 that by (cases "i < length (s_tasks m')") (simp_all add: calm_def)
  show ?thesis
    unfolding calm_def using qq old new le 1 2 by (simp add: calm_def)
qed

lemma calm_step: "calm m0 m \<Longrightarrow> calm m m' \<Longrightarrow> calm m0 m'"
  by (rule calm_trans)

lemma task_at_upd:
  "i < length (s_tasks m) \<Longrightarrow> task_at (upd_task t f m) i = (if i = t then f (task_at m i) else task_at m i)"
  by (cases "i = t") simp_all

lemma calm_upd_task:
  "(\<And>x. a_state (f x) = a_state x) \<Longrightarrow> (\<And>x. a_dependents (f x) = a_dependents x) \<Longrightarrow>
   calm m (upd_task t f m)"
  by (rule calm_same) (simp_all add: task_at_upd)

lemma calm_create: "calm m (snd (process_create_task e m))"
  by (auto simp: calm_def process_create_task_def process_create_unqueued_task_def Let_def
      case_prod_beta task_add_reflection_def process_enqueue_task_def heap_inc_edge_def
      nth_list_update upd_task_def nth_append task_init_def)

lemma calm_unqueued: "calm m (snd (process_create_unqueued_task e m))"
  by (auto simp: calm_def process_create_unqueued_task_def Let_def
      case_prod_beta task_add_reflection_def heap_inc_edge_def
      nth_list_update upd_task_def nth_append task_init_def)

lemma calm_background:
  assumes create: "process_create_unqueued_task e m = (t, m1)" and "calm m1 m2" and b: "b_task b = t"
  shows "calm m (m2\<lparr>s_background := s_background m2 @ [b]\<rparr>)"
proof -
  from create have t: "t = length (s_tasks m)" and m1: "length (s_tasks m1) = Suc (length (s_tasks m))"
    "s_queue m1 = s_queue m" "s_background m1 = s_background m" "s_waiting m1 = s_waiting m"
    "s_completed m1 = s_completed m"
    and at: "\<And>i. i < length (s_tasks m) \<Longrightarrow> task_at m1 i = task_at m i"
    and at_t: "a_state (task_at m1 t) = TASK_RUNNING" "a_dependents (task_at m1 t) = []"
    by (auto simp: process_create_unqueued_task_def Let_def case_prod_beta task_add_reflection_def
        heap_inc_edge_def upd_task_def nth_append task_init_def)
  obtain q bs where qs: "s_queue m2 = s_queue m1 @ q" "s_background m2 = s_background m1 @ bs"
    "distinct (q @ List.map b_task bs)"
    "set (q @ List.map b_task bs) \<subseteq> {length (s_tasks m1)..<length (s_tasks m2)}"
    using assms(2) unfolding calm_def by blast
  have le: "length (s_tasks m1) \<le> length (s_tasks m2)"
    using assms(2) by (simp add: calm_def)
  have "s_queue m2 = s_queue m @ q \<and> s_background m2 @ [b] = s_background m @ (bs @ [b]) \<and>
      distinct (q @ List.map b_task (bs @ [b])) \<and>
      set (q @ List.map b_task (bs @ [b])) \<subseteq> {length (s_tasks m)..<length (s_tasks m2)}"
    using qs le by (auto simp: m1 b t)
  then have qq: "\<exists>q bs. s_queue m2 = s_queue m @ q \<and> s_background m2 @ [b] = s_background m @ bs \<and>
      distinct (q @ List.map b_task bs) \<and>
      set (q @ List.map b_task bs) \<subseteq> {length (s_tasks m)..<length (s_tasks m2)}"
    by blast
  have old: "a_state (task_at m2 i) = a_state (task_at m i) \<and>
      a_dependents (task_at m2 i) = a_dependents (task_at m i)" if "i < length (s_tasks m)" for i
    using assms(2) that at [OF that] by (simp add: calm_def m1)
  have new: "a_state (task_at m2 i) = TASK_RUNNING \<and> a_dependents (task_at m2 i) = []"
    if "i < length (s_tasks m2)" "length (s_tasks m) \<le> i" for i
    using assms(2) that at_t by (cases "i = t") (simp_all add: calm_def m1 t)
  show ?thesis
    unfolding calm_def using qq old new le assms(2) by (simp add: calm_def m1)
qed

interpretation still: updates e "calm m0" for e m0
  by unfold_locales (auto elim!: calm_step intro: calm_upd_task calm_same simp: upd_mod_def)

subsection \<open>All instructions\<close>

text \<open>
  A task that must wait has been entered, as the last thing, among the dependents of one task that is
  not finished.
\<close>

definition unfinished :: "machine \<Rightarrow> task_id \<Rightarrow> bool" where
  "unfinished m t \<longleftrightarrow> a_state (task_at m t) \<noteq> TASK_COMPLETE \<and> a_state (task_at m t) \<noteq> TASK_ERROR"

definition waits_or :: "(machine \<Rightarrow> bool) \<Rightarrow> task_id \<Rightarrow> bool \<times> machine \<Rightarrow> bool" where
  "waits_or P t x \<longleftrightarrow>
     (if fst x then \<exists>m1 other. P m1 \<and> unfinished m1 other \<and> snd x = add_dependent other t m1
      else P (snd x))"

lemma as_new_task:
  assumes "execute_as_new_task e t self md i m = (c, m')"
  shows "c = length (s_contexts m)" and "x_task (ctx_at m' c) = length (s_tasks m)"
    and "length (s_contexts m') = Suc (length (s_contexts m))"
    and "length (s_tasks m') = Suc (length (s_tasks m))" and "unfinished m' (length (s_tasks m))"
  using assms
  by (auto simp: execute_as_new_task_def Let_def case_prod_beta process_create_task_def
      process_create_unqueued_task_def task_add_reflection_def heap_inc_edge_def
      process_enqueue_task_def task_create_context_def context_init_def task_set_resval_def
      unfinished_def task_at_upd task_init_def)

text \<open>What a task looks like when the interpreter leaves it: waiting, complete or failed.\<close>

definition set_state :: "task_id \<Rightarrow> task_state \<Rightarrow> machine \<Rightarrow> machine" where
  "set_state t s = upd_task t (\<lambda>x. x\<lparr>a_state := s\<rparr>)"

definition set_waiting :: "task_id \<Rightarrow> wait_reason \<Rightarrow> machine \<Rightarrow> machine" where
  "set_waiting t w = upd_task t (\<lambda>x. x\<lparr>a_state := TASK_WAITING, a_wait := w\<rparr>)"

definition leaves :: "(machine \<Rightarrow> bool) \<Rightarrow> task_id \<Rightarrow> machine \<Rightarrow> bool" where
  "leaves P t m' \<longleftrightarrow> (\<exists>m1. P m1 \<and>
     (m' = set_state t TASK_COMPLETE m1 \<or> m' = set_state t TASK_ERROR m1 \<or>
      (\<exists>other w. unfinished m1 other \<and> m' = set_waiting t w (add_dependent other t m1))))"

definition goes_on :: "(machine \<Rightarrow> bool) \<Rightarrow> task_id \<Rightarrow> outcome \<times> machine \<Rightarrow> bool" where
  "goes_on P t x \<longleftrightarrow> (case fst x of Continue c \<Rightarrow> P (snd x) | Stop \<Rightarrow> leaves P t (snd x))"

definition caught_or :: "(machine \<Rightarrow> bool) \<Rightarrow> task_id \<Rightarrow> bool \<times> machine \<Rightarrow> bool" where
  "caught_or P t x \<longleftrightarrow> (if fst x then P (snd x) else leaves P t (snd x))"

lemma caught_or_simps [simp]:
  "caught_or P t (True, m) \<longleftrightarrow> P m" "caught_or P t (False, m) \<longleftrightarrow> leaves P t m"
  by (simp_all add: caught_or_def)

lemma goes_on_simps [simp]:
  "goes_on P t (Continue c, m) \<longleftrightarrow> P m" "goes_on P t (Stop, m) \<longleftrightarrow> leaves P t m"
  by (simp_all add: goes_on_def)

lemma skip_ins_upd_task: "skip_ins c n (upd_task t f m) = upd_task t f (skip_ins c n m)"
  by (simp add: skip_ins_def upd_ctx_def upd_task_def)

lemma unfinished_skip_ins [simp]: "unfinished (skip_ins c n m) t \<longleftrightarrow> unfinished m t"
  by (simp add: unfinished_def skip_ins_def)

lemma leaves_complete: "P m \<Longrightarrow> leaves P t (upd_task t (\<lambda>x. x\<lparr>a_state := TASK_COMPLETE\<rparr>) m)"
  by (auto simp: leaves_def set_state_def)

lemma leaves_error: "P m \<Longrightarrow> leaves P t (upd_task t (\<lambda>x. x\<lparr>a_state := TASK_ERROR\<rparr>) m)"
  by (auto simp: leaves_def set_state_def)

lemma leaves_waiting:
  "P m \<Longrightarrow> unfinished m other \<Longrightarrow>
   leaves P t (upd_task t (\<lambda>x. x\<lparr>a_state := TASK_WAITING, a_wait := w\<rparr>) (add_dependent other t m))"
  by (auto simp: leaves_def set_waiting_def)

locale calls = updates +
  assumes inv_create: "inv m \<Longrightarrow> inv (snd (process_create_task e m))"
    and inv_unqueued: "inv m \<Longrightarrow> inv (snd (process_create_unqueued_task e m))"
    and inv_background: "inv m \<Longrightarrow> process_create_unqueued_task e m = (t', m1) \<Longrightarrow> inv m2 \<Longrightarrow> calm m1 m2 \<Longrightarrow>
      b_task b = t' \<Longrightarrow> inv (m2\<lparr>s_background := s_background m2 @ [b]\<rparr>)"
    and inv_module: "inv m \<Longrightarrow> en_module e name m = Inr (r, m') \<Longrightarrow> inv m'"
    and inv_native: "inv m \<Longrightarrow> en_native e n t c' s v m = Inr (w, m') \<Longrightarrow> inv m'"
    and inv_natives_calm: "inv m \<Longrightarrow> natives_calm e"
begin

lemma inv_as_new_task: "inv m \<Longrightarrow> inv (snd (execute_as_new_task e t self md i m))"
  by (simp add: execute_as_new_task_def Let_def case_prod_beta inv_set_resval inv_create_context
      inv_parent inv_create)

lemma waits_or_False [simp]: "waits_or inv t (False, m) \<longleftrightarrow> inv m"
  by (simp add: waits_or_def)

lemma waits_or_True: "inv m \<Longrightarrow> unfinished m other \<Longrightarrow> waits_or inv t (True, add_dependent other t m)"
  by (auto simp: waits_or_def)

lemma inv_start_background:
  assumes "inv m" and nt: "fst (process_create_unqueued_task e m) = nt"
    and m1: "snd (process_create_unqueued_task e m) = m1" and future: "future_create e nt (task_set_resval nt v (upd_task nt (\<lambda>x. x\<lparr>a_parent := p\<rparr>) m1)) =
      Inr (x, m4)" and "b_task b = nt"
  shows "inv (task_set_resval t w m4\<lparr>s_background := s_background (task_set_resval t w m4) @ [b]\<rparr>)"
proof -
  have "calm m1 (task_set_resval nt v (upd_task nt (\<lambda>x. x\<lparr>a_parent := p\<rparr>) m1))"
    by (intro still.inv_set_resval still.inv_parent) simp
  then have "calm m1 (snd (x, m4))"
    by (rule postD [OF still.inv_future_create future])
  then have "calm m1 (task_set_resval t w m4)"
    by (intro still.inv_set_resval) simp
  moreover have "process_create_unqueued_task e m = (nt, m1)" using nt m1 by auto
  moreover have "inv (task_set_resval nt v (upd_task nt (\<lambda>x. x\<lparr>a_parent := p\<rparr>) m1))"
    unfolding m1 [symmetric] using \<open>inv m\<close> by (intro inv_set_resval inv_parent inv_unqueued)
  then have "inv (snd (x, m4))" by (rule postD [OF inv_future_create future])
  then have "inv (task_set_resval t w m4)" by (simp add: inv_set_resval)
  ultimately show ?thesis using \<open>inv m\<close> \<open>b_task b = nt\<close> by (intro inv_background) auto
qed

lemma inv_call_function_base: "inv m \<Longrightarrow> post (waits_or inv t) (call_function_base e t ctx f self pc m)"
proof -
  assume inv: "inv m"
  let ?func = "fun_at m f"
  show ?thesis
  proof (cases "f_is_native ?func")
    case True
    with inv show ?thesis
      by (auto simp: call_function_base_def Let_def case_prod_beta post_def andThen_eq_Inr
          assert_that_eq_Inr intro!: inv_start_background [OF _ refl refl] inv_set_resval
          elim: inv_native split: option.splits if_splits)
  next
    case False
    obtain c m1 where new: "execute_as_new_task e t self (f_module ?func) (of_nat (f_ins_pos ?func)) m =
      (c, m1)" by fastforce
    have inv1: "inv m1" using inv_as_new_task [OF inv] new by (metis snd_conv)
    note facts = as_new_task [OF new]
    let ?g = "\<lambda>x. (if f_is_anon ?func then x\<lparr>x_func := Some f, x_previous := pc\<rparr> else x\<lparr>x_func := Some f\<rparr>)"
    have "call_function_base e t ctx f self pc m =
      (let m3 = upd_ctx c ?g m1 in
       if f_is_async ?func
       then andThen (future_create e (length (s_tasks m)) m3) (\<lambda>(future, m4).
              Inr (False, task_set_resval t (entity_object future) m4))
       else Inr (True, add_dependent (length (s_tasks m)) t m3))"
      using False new facts
      by (auto simp: call_function_base_def Let_def context_set_function_def upd_ctx_def)
    moreover have "inv (upd_ctx c ?g m1)" by (rule inv_ctx [OF inv1])
    moreover have "unfinished (upd_ctx c ?g m1) (length (s_tasks m))"
      using facts by (simp add: unfinished_def)
    ultimately show ?thesis
      by (auto simp: Let_def case_prod_beta
          intro!: post_andThen [OF inv_future_create] inv_set_resval waits_or_True)
  qed
qed

lemma waits_or_fail: "inv m \<Longrightarrow> post (waits_or inv t) (fail_with e t c msg m)"
  by (auto simp: fail_with_def intro!: post_andThen [OF inv_raise])

lemma inv_call_func_ref: "inv m \<Longrightarrow> post (waits_or inv t) (call_func_ref e t x c m)"
  by (auto simp: call_func_ref_def intro!: post_pure inv_call_function_base)

lemma inv_call_method: "inv m \<Longrightarrow> post (waits_or inv t) (call_method e t x c name m)"
  by (auto simp: call_method_def Let_def case_prod_beta
      intro!: post_andThen [OF inv_get_maybe_wrap] waits_or_fail inv_call_func_ref split: entity.split)

lemma inv_call_function: "inv m \<Longrightarrow> post (waits_or inv t) (call_function e t ctx f m)"
  by (auto simp: call_function_def intro!: post_pure inv_call_function_base)

lemma inv_clear_arg: "inv m \<Longrightarrow> inv (clear_arg p t m)"
  by (simp add: clear_arg_def inv_set_resval)

lemma inv_call_value: "inv m \<Longrightarrow> post (waits_or inv t) (call_value e p t c v m)"
  by (auto simp: call_value_def case_prod_beta intro!: post_pure waits_or_fail inv_call_function_base
      inv_call_func_ref inv_call_function inv_clear_arg inv_basic split: entity.split option.split)

lemma inv_CALL: "inv m \<Longrightarrow> post (waits_or inv t) (execute_CALL e p t c arg m)"
  by (auto simp: execute_CALL_def case_prod_beta intro!: post_pure post_andThen [OF inv_pop] waits_or_fail
      inv_call_method inv_call_value inv_clear_arg split: operand.split entity.split option.split)

lemma inv_EQ: "inv m \<Longrightarrow> post (waits_or inv t) (execute_EQ e p t c arg m)"
  by (auto simp: execute_EQ_def Let_def case_prod_beta intro!: post_pure inv_steps waits_or_fail
      inv_call_function_base inv_basic split: operand.split entity.split option.split)

lemma inv_index_object: "inv m \<Longrightarrow> post (waits_or inv t) (index_object e t c x v m)"
  by (auto simp: index_object_def intro!: post_pure waits_or_fail inv_call_function_base inv_basic
      split: option.split)

lemma inv_AIDX: "inv m \<Longrightarrow> post (waits_or inv t) (execute_AIDX e t c arg m)"
  by (auto simp: execute_AIDX_def case_prod_beta intro!: inv_steps waits_or_fail inv_index_object
      split: operand.split entity.split option.split)

lemma inv_ASET: "inv m \<Longrightarrow> post (waits_or inv t) (execute_ASET e t c m)"
  by (auto simp: execute_ASET_def Let_def case_prod_beta intro!: post_pure inv_steps waits_or_fail
      inv_call_function_base inv_basic split: entity.split option.split primitive.split)

lemma waits_or_new_task:
  assumes "inv m"
  shows "waits_or inv t (True, add_dependent
    (x_task (ctx_at (snd (execute_as_new_task e t self md i m)) (fst (execute_as_new_task e t self md i m))))
    t (snd (execute_as_new_task e t self md i m)))"
  using inv_as_new_task [OF assms, of t self md i]
    as_new_task [of e t self md i m, OF prod.collapse [symmetric]]
  by (simp add: waits_or_True)

lemma inv_load: "inv m \<Longrightarrow> post inv2 (en_module e name m)"
  by (auto simp: post_def elim: inv_module)

lemma inv_LMDL: "inv m \<Longrightarrow> post (waits_or inv t) (execute_LMDL e t c arg m)"
  by (auto simp: execute_LMDL_def Let_def case_prod_beta intro!: post_pure post_andThen [OF inv_load]
      waits_or_new_task waits_or_fail inv_basic split: operand.split option.split)

lemma future_not_complete:
  assumes "future_is_complete x m = Inr (False, m')" and "future_get_task x m' = Inr ft"
  shows "unfinished m' ft"
proof -
  from assms(1) obtain t s t' where f: "future_of x m = Inr (t, False, s)" and t: "t = Some t'"
    and m': "m' = set_internal x (IFuture t False s) m" and un: "unfinished m t'"
    by (fastforce simp: future_is_complete_def andThen_eq_Inr Let_def unfinished_def split: if_splits)
  have "future_of x m' = Inr (t, False, s)"
    using f by (cases "x < length (s_objects m)")
      (simp_all add: m' future_of_def set_internal_def upd_obj_def list_update_beyond)
  with assms(2) t un show ?thesis
    by (simp add: future_get_task_def m' unfinished_def)
qed

lemma inv_future_state: "inv m \<Longrightarrow>
  post (\<lambda>r. inv (snd r) \<and> (fst r \<or> (\<forall>ft. future_get_task x (snd r) = Inr ft \<longrightarrow> unfinished (snd r) ft)))
    (future_is_complete x m)"
  using inv_future_is_complete [of m x] future_not_complete [of x m] by (fastforce simp: post_def)

lemma inv_WAIT: "inv m \<Longrightarrow> post (waits_or inv t) (execute_WAIT e t m)"
  by (auto simp: execute_WAIT_def case_prod_beta intro!: post_andThen [OF inv_future_state]
      post_andThen [OF inv_future_get_value] post_pure waits_or_True inv_set_resval split: entity.split)

lemma inv_go_on: "post inv r \<Longrightarrow> post (goes_on inv t) (go_on c r)"
  by (auto simp: go_on_def post_def andThen_eq_Inr inv_skip)

lemma inv_wait_or_go:
  assumes "post (waits_or inv t) r"
  shows "post (goes_on inv t) (wait_or_go t c w r)"
  unfolding wait_or_go_def
proof (rule post_andThen [OF assms])
  fix x :: "bool \<times> machine"
  obtain must_wait m where x: "x = (must_wait, m)" by fastforce
  assume "waits_or inv t x"
  show "post (goes_on inv t) (case x of (must_wait, m) \<Rightarrow>
      if must_wait
      then Inr (Stop, skip_ins c 1 (upd_task t (\<lambda>x. x\<lparr>a_state := TASK_WAITING, a_wait := w\<rparr>) m))
      else Inr (Continue c, skip_ins c 1 m))"
  proof (cases must_wait)
    case True
    with \<open>waits_or inv t x\<close> obtain m1 other
      where m1: "inv m1" "unfinished m1 other" and m: "m = add_dependent other t m1"
      by (auto simp: x waits_or_def)
    have "skip_ins c 1 m = add_dependent other t (skip_ins c 1 m1)"
      by (simp add: m add_dependent_def skip_ins_upd_task)
    with m1 True show ?thesis
      by (simp add: x skip_ins_upd_task leaves_waiting inv_skip)
  next
    case False
    with \<open>waits_or inv t x\<close> show ?thesis by (simp add: x inv_skip)
  qed
qed

lemma inv_RET_stop:
  "inv m \<Longrightarrow> post (goes_on inv t) (andThen (execute_RET e t c arg m) (\<lambda>m1.
     Inr (Stop, skip_ins c 1 (upd_task t (\<lambda>x. x\<lparr>a_state := TASK_COMPLETE\<rparr>) m1))))"
  by (rule post_andThen [OF inv_RET]) (simp_all add: skip_ins_upd_task leaves_complete inv_skip)

lemma inv_EXIT_stop:
  "inv m \<Longrightarrow> post (goes_on inv t) (andThen (execute_EXIT t c arg m) (\<lambda>m1. Inr (Stop, m1)))"
  by (auto simp: execute_EXIT_def skip_ins_upd_task intro!: leaves_complete inv_skip inv_set_resval
      split: operand.split)

lemma inv_NBLK_go:
  "inv m \<Longrightarrow> post (goes_on inv t) (andThen (execute_NBLK e c arg m)
     (\<lambda>(c', m1). Inr (Continue c', skip_ins c' 1 m1)))"
  by (rule post_andThen [OF inv_NBLK]) (auto simp: inv_skip)

lemma inv_BBLK_go:
  "inv m \<Longrightarrow> post (goes_on inv t) (andThen (execute_BBLK t arg m) (\<lambda>(prev, m1).
     andThen (deref prev) (\<lambda>c'. Inr (Continue c', skip_ins c' 1 m1))))"
  by (rule post_andThen [OF inv_BBLK]) (auto simp: case_prod_beta inv_skip intro!: post_pure)

lemma inv_execute_ins: "inv m \<Longrightarrow> post (goes_on inv t) (execute_ins e t c i m)"
  by (cases "ins_op i")
     (simp_all add: execute_ins_def Let_def inv_go_on inv_wait_or_go
        inv_RET_stop inv_EXIT_stop inv_NBLK_go inv_BBLK_go
        inv_RES inv_RNIL inv_PUSH inv_PNIL inv_PEEK inv_DUP inv_FLD inv_LET inv_SET inv_GET inv_GTSH
        inv_CALL inv_JMP inv_IF inv_math inv_BOR inv_EQ inv_IS inv_NOT inv_ANEW inv_AIDX inv_ASET
        inv_TUPL inv_TLEN inv_TGET inv_TGTE inv_CTCH inv_RAIS inv_LMDL inv_WAIT)

lemma inv_catch:
  "inv m \<Longrightarrow> post (caught_or inv t) (attemp_catch_error n t c m)"
proof (induction n arbitrary: c m)
  case 0
  then show ?case
    by (subst attemp_catch_error.simps)
       (auto simp: case_prod_beta inv_ctx leaves_error intro!: post_andThen [OF inv_back] split: option.split)
next
  case (Suc n)
  then show ?case
    by (subst attemp_catch_error.simps)
       (auto simp: case_prod_beta inv_ctx leaves_error intro!: post_andThen [OF inv_back] split: option.split)
qed

lemma inv_loop_turn: "inv m \<Longrightarrow> post (goes_on inv t) (loop_turn e t c m)"
  by (auto simp: loop_turn_def case_prod_beta caught_or_def intro!: post_any [where r = "context_ins c m" for c m]
      inv_execute_ins post_andThen [OF inv_catch])

lemma inv_execute_loop: "inv m \<Longrightarrow> execute_loop n e t c m = Some r \<Longrightarrow> post (leaves inv t) r"
proof (induction n arbitrary: c m)
  case 0
  then show ?case by simp
next
  case (Suc n)
  show ?case
  proof (cases "loop_turn e t c m")
    case (Inl err)
    with Suc.prems show ?thesis by auto
  next
    case (Inr x)
    have x: "goes_on inv t x" using inv_loop_turn [OF Suc.prems(1)] Inr by (rule postD)
    show ?thesis
    proof (cases "fst x")
      case (Continue c')
      with x have "inv (snd x)" by (simp add: goes_on_def)
      then show ?thesis
        using Suc.prems(2) Inr Continue by (intro Suc.IH) (simp_all add: case_prod_beta)
    next
      case Stop
      with x Suc.prems(2) Inr show ?thesis by (auto simp: goes_on_def case_prod_beta)
    qed
  qed
qed

lemma inv_take_child_error: "inv m \<Longrightarrow> post inv (take_child_error e t c m)"
  by (auto simp: take_child_error_def intro!: post_assert inv_child_error inv_ctx split: entity.split)

text \<open>Executing a task, once its state has been set to running.\<close>

lemma inv_vm_execute_task:
  assumes inv: "inv (upd_task t (\<lambda>x. x\<lparr>a_state := TASK_RUNNING, a_wait := NOT_WAITING\<rparr>) m)" (is "inv ?m")
    and run: "vm_execute_task n e t m = Some (Inr (s, m'))"
  shows "(s = TASK_COMPLETE \<and> m' = ?m) \<or> (s = a_state (task_at m' t) \<and> leaves inv t m')"
proof (cases "a_current (task_at ?m t)")
  case None
  with run show ?thesis by (simp add: vm_execute_task_def)
next
  case (Some c)
  with run obtain m2 r where take: "take_child_error e t c ?m = Inr m2"
    and loop: "execute_loop n e t c m2 = Some r"
    and r: "andThen r (\<lambda>m3. Inr (a_state (task_at m3 t), m3)) = Inr (s, m')"
    by (auto simp: vm_execute_task_def Let_def split: sum.splits)
  have "inv m2" using inv_take_child_error [OF inv] take by (rule postD)
  from inv_execute_loop [OF this loop] r show ?thesis
    by (auto simp: andThen_eq_Inr)
qed

end

interpretation calm: calls e "\<lambda>m. natives_calm e \<and> calm m0 m" for e m0
proof unfold_locales
  fix m name r m'
  assume "natives_calm e \<and> calm m0 m" and "en_module e name m = Inr (r, m')"
  then show "natives_calm e \<and> calm m0 m'" unfolding natives_calm_def by (blast intro: calm_trans)
next
  fix m n t c s v w m'
  assume "natives_calm e \<and> calm m0 m" and "en_native e n t c s v m = Inr (w, m')"
  then show "natives_calm e \<and> calm m0 m'" unfolding natives_calm_def by (blast intro: calm_trans)
next
  fix m
  assume "natives_calm e \<and> calm m0 m"
  then show "natives_calm e \<and> calm m0 (snd (process_create_task e m))"
    and "natives_calm e \<and> calm m0 (snd (process_create_unqueued_task e m))"
    by (auto intro: calm_trans [OF _ calm_create] calm_trans [OF _ calm_unqueued])
next
  fix m t' m1 m2 and b :: bg_args
  assume "natives_calm e \<and> calm m0 m" "process_create_unqueued_task e m = (t', m1)"
    "natives_calm e \<and> calm m0 m2" "calm m1 m2" "b_task b = t'"
  then show "natives_calm e \<and> calm m0 (m2\<lparr>s_background := s_background m2 @ [b]\<rparr>)"
    by (blast intro: calm_trans [OF _ calm_background])
qed (auto intro: still.inv_new still.inv_internal still.inv_member still.inv_edge still.inv_resval
    still.inv_stack still.inv_current still.inv_parent still.inv_child_error still.inv_ctx
    still.inv_new_ctx still.inv_initialized)

end
