(* ===== verification/SchedulerFacts.thy ===== *)
theory SchedulerFacts imports Frames begin

text \<open>
  What the scheduler keeps: a task is at one place at a time, the queue, the set of waiting tasks, the
  thread pool or the interpreter; it waits for at most one task that is not finished; and it is woken
  once. The relation \<open>calm\<close> tells what an instruction may do to this, so the proofs are about the
  scheduler alone.
\<close>

subsection \<open>The invariant\<close>

definition pending :: "machine \<Rightarrow> task_id \<Rightarrow> task_id set" where
  "pending m t = {i. i < length (s_tasks m) \<and> unfinished m i \<and> i \<notin> set (s_completed m) \<and>
     t \<in> set (a_dependents (task_at m i))}"

definition active :: "machine \<Rightarrow> task_id list" where
  "active m = s_queue m @ List.map b_task (s_background m)"

text \<open>\<open>R\<close> is the set of the tasks that are being executed: none, or one.\<close>

definition places :: "task_id set \<Rightarrow> machine \<Rightarrow> bool" where
  "places R m \<longleftrightarrow> distinct (active m @ s_waiting m) \<and> set (active m @ s_waiting m) \<inter> R = {} \<and>
     set (active m @ s_waiting m) \<union> R \<subseteq> {..<length (s_tasks m)}"

definition task_ok :: "task_id set \<Rightarrow> machine \<Rightarrow> bool" where
  "task_ok R m \<longleftrightarrow>
     (\<forall>t \<in> set (active m) \<union> R. unfinished m t \<and> t \<notin> set (s_completed m) \<and> pending m t = {}) \<and>
     (\<forall>t \<in> b_task ` set (s_background m) \<union> R. a_state (task_at m t) = TASK_RUNNING) \<and>
     (\<forall>t \<in> set (s_waiting m). a_state (task_at m t) = TASK_WAITING) \<and>
     (\<forall>t \<in> set (s_completed m). t < length (s_tasks m) \<and> a_state (task_at m t) \<noteq> TASK_WAITING)"

definition deps_ok :: "machine \<Rightarrow> bool" where
  "deps_ok m \<longleftrightarrow>
     (\<forall>i < length (s_tasks m). distinct (a_dependents (task_at m i)) \<and>
        set (a_dependents (task_at m i)) \<subseteq> {..<length (s_tasks m)}) \<and>
     (\<forall>t a b. a \<in> pending m t \<longrightarrow> b \<in> pending m t \<longrightarrow> a = b)"

definition sched :: "task_id set \<Rightarrow> machine \<Rightarrow> bool" where
  "sched R m \<longleftrightarrow> places R m \<and> task_ok R m \<and> deps_ok m"

lemmas sched_defs = sched_def places_def task_ok_def deps_ok_def

text \<open>What the libraries behind the queue and the sets are relied on for.\<close>

definition pop_ok :: "env \<Rightarrow> bool" where
  "pop_ok e \<longleftrightarrow> (\<forall>q. q \<noteq> [] \<longrightarrow> mset q = add_mset (fst (en_pop e q)) (mset (snd (en_pop e q))))"

definition order_ok :: "env \<Rightarrow> bool" where
  "order_ok e \<longleftrightarrow> (\<forall>xs. distinct xs \<longrightarrow> distinct (en_order e xs) \<and> set (en_order e xs) = set xs)"

subsection \<open>Instructions keep it\<close>

lemma calm_pending:
  assumes "calm m m'" and "set (s_completed m) \<subseteq> {..<length (s_tasks m)}"
  shows "pending m' t = pending m t"
proof -
  have "i < length (s_tasks m') \<and> unfinished m' i \<and> i \<notin> set (s_completed m') \<and>
      t \<in> set (a_dependents (task_at m' i)) \<longleftrightarrow>
      i < length (s_tasks m) \<and> unfinished m i \<and> i \<notin> set (s_completed m) \<and>
      t \<in> set (a_dependents (task_at m i))" for i
    using assms(1) by (cases "i < length (s_tasks m)") (auto simp: calm_def unfinished_def)
  then show ?thesis by (simp add: pending_def)
qed

lemma calm_sched:
  assumes calm: "calm m m'" and ok: "sched R m"
  shows "sched R m'"
proof -
  let ?n = "length (s_tasks m)" and ?n' = "length (s_tasks m')"
  obtain q bs where q: "s_queue m' = s_queue m @ q" "s_background m' = s_background m @ bs"
    and fresh: "distinct (q @ List.map b_task bs)" "set (q @ List.map b_task bs) \<subseteq> {?n..<?n'}"
    using calm unfolding calm_def by blast
  have le: "?n \<le> ?n'" and w: "s_waiting m' = s_waiting m" and c: "s_completed m' = s_completed m"
    using calm by (simp_all add: calm_def)
  have old: "a_state (task_at m' i) = a_state (task_at m i)"
      "a_dependents (task_at m' i) = a_dependents (task_at m i)" if "i < ?n" for i
    using calm that by (simp_all add: calm_def)
  have new: "a_state (task_at m' i) = TASK_RUNNING" "a_dependents (task_at m' i) = []"
    if "?n \<le> i" "i < ?n'" for i
    using calm that by (simp_all add: calm_def)
  have pl: "distinct (active m @ s_waiting m)" "set (active m @ s_waiting m) \<inter> R = {}"
    "set (active m @ s_waiting m) \<union> R \<subseteq> {..<?n}"
    using ok by (simp_all add: sched_def places_def)
  have comp: "set (s_completed m) \<subseteq> {..<?n}" using ok by (auto simp: sched_defs)
  note pend = calm_pending [OF calm comp]
  have deps: "set (a_dependents (task_at m i)) \<subseteq> {..<?n}" if "i < ?n" for i
    using ok that by (auto simp: sched_defs)
  have no_pend: "pending m t = {}" if "?n \<le> t" for t
    using deps that by (fastforce simp: pending_def)
  let ?F = "set q \<union> b_task ` set bs" and ?O = "set (s_queue m) \<union> b_task ` set (s_background m) \<union> set (s_waiting m) \<union> R"
  have fresh_n: "?n \<le> x \<and> x < ?n'" if "x \<in> ?F" for x using fresh that by auto
  have old_n: "x < ?n" if "x \<in> ?O" for x using pl that by (auto simp: active_def)
  have disj: "?F \<inter> ?O = {}" using fresh_n old_n by (meson disjoint_iff not_less)
  have "distinct (active m' @ s_waiting m')"
    using pl(1) fresh(1) disj unfolding active_def q w by auto
  moreover have "set (active m' @ s_waiting m') \<inter> R = {}"
    using pl(2) disj unfolding active_def q w by auto
  moreover have "set (active m' @ s_waiting m') \<union> R \<subseteq> {..<?n'}"
    using fresh_n old_n le unfolding active_def q w by (fastforce dest: less_le_trans)
  ultimately have "places R m'" by (simp add: places_def)
  moreover have "unfinished m' t \<and> t \<notin> set (s_completed m') \<and> pending m' t = {}"
    if "t \<in> set (active m') \<union> R" for t
  proof (cases "t < ?n")
    case True
    with that fresh have "t \<in> set (active m) \<union> R"
      by (auto simp: active_def q subset_iff)
    with ok True show ?thesis
      by (auto simp: sched_def task_ok_def pend c unfinished_def old)
  next
    case False
    with that pl fresh have "t \<in> set (q @ List.map b_task bs)"
      by (auto simp: active_def q subset_iff)
    with fresh False comp show ?thesis
      by (auto simp: pend no_pend c unfinished_def new subset_iff)
  qed
  moreover have "a_state (task_at m' t) = TASK_RUNNING" if "t \<in> b_task ` set (s_background m') \<union> R" for t
  proof (cases "t < ?n")
    case True
    with that fresh have "t \<in> b_task ` set (s_background m) \<union> R"
      by (auto simp: q subset_iff)
    with ok True show ?thesis by (auto simp: sched_def task_ok_def old)
  next
    case False
    with that pl fresh have "t < ?n'" by (auto simp: active_def q subset_iff)
    with False show ?thesis by (simp add: new)
  qed
  moreover have "\<forall>t \<in> set (s_waiting m'). a_state (task_at m' t) = TASK_WAITING"
    using ok pl old by (auto simp: sched_def task_ok_def w subset_iff)
  moreover have "\<forall>t \<in> set (s_completed m'). t < ?n' \<and> a_state (task_at m' t) \<noteq> TASK_WAITING"
    using ok le old comp by (auto simp: sched_def task_ok_def c subset_iff)
  moreover have "deps_ok m'"
    using ok le old new by (auto simp: sched_def deps_ok_def pend subset_iff)
      (metis less_le_trans not_less empty_iff list.set(1) distinct.simps(1))+
  ultimately show ?thesis by (simp add: sched_def task_ok_def)
qed

subsection \<open>Waking\<close>

lemma wake_simps [simp]:
  "s_background (wake_dependent t d m) = s_background m"
  "s_completed (wake_dependent t d m) = s_completed m"
  "length (s_tasks (wake_dependent t d m)) = length (s_tasks m)"
  "s_contexts (wake_dependent t d m) = s_contexts m"
  by (simp_all add: wake_dependent_def process_remove_waiting_task_def process_enqueue_task_def
      task_set_resval_def)

lemma wake_task [simp]:
  "i < length (s_tasks m) \<Longrightarrow> a_state (task_at (wake_dependent t d m) i) = a_state (task_at m i)"
  "i < length (s_tasks m) \<Longrightarrow> a_dependents (task_at (wake_dependent t d m) i) = a_dependents (task_at m i)"
  by (simp_all add: wake_dependent_def process_remove_waiting_task_def process_enqueue_task_def
      task_set_resval_def task_at_upd)

lemma wake_queue:
  "s_queue (wake_dependent t d m) =
     (if a_state (task_at m d) = TASK_WAITING then s_queue m @ [d] else s_queue m)"
  "s_waiting (wake_dependent t d m) =
     (if a_state (task_at m d) = TASK_WAITING then removeAll d (s_waiting m) else s_waiting m)"
  by (simp_all add: wake_dependent_def process_remove_waiting_task_def process_enqueue_task_def
      task_set_resval_def)

lemma wake_pending [simp]: "pending (wake_dependent t d m) x = pending m x"
  by (auto simp: pending_def unfinished_def)

lemma wake_sched:
  assumes ok: "sched {} m" and d: "d < length (s_tasks m)" "d \<notin> set (s_queue m)" "pending m d = {}"
  shows "sched {} (wake_dependent t d m)"
proof (cases "a_state (task_at m d) = TASK_WAITING")
  case False
  then have "wake_dependent t d m = m" by (simp add: wake_dependent_def)
  with ok show ?thesis by simp
next
  case True
  let ?m = "wake_dependent t d m"
  have "d \<notin> set (List.map b_task (s_background m))"
    using ok True by (auto simp: sched_defs)
  moreover have "distinct (active m @ s_waiting m)" "set (active m @ s_waiting m) \<subseteq> {..<length (s_tasks m)}"
    using ok by (simp_all add: sched_def places_def)
  ultimately have act: "distinct (active ?m @ s_waiting ?m)"
      "set (active ?m @ s_waiting ?m) \<subseteq> {..<length (s_tasks ?m)}"
    using d by (auto simp: active_def wake_queue True distinct_removeAll)
  have live: "unfinished ?m x \<and> x \<notin> set (s_completed ?m) \<and> pending ?m x = {}" if "x \<in> set (active ?m)" for x
  proof (cases "x = d")
    case True
    with ok d \<open>a_state (task_at m d) = TASK_WAITING\<close> show ?thesis
      by (auto simp: sched_defs unfinished_def)
  next
    case False
    with that have x: "x \<in> set (active m)" by (auto simp: active_def wake_queue True)
    with ok have "x < length (s_tasks m)" by (auto simp: sched_defs)
    with x ok show ?thesis by (auto simp: sched_defs unfinished_def)
  qed
  have "\<forall>x \<in> b_task ` set (s_background m). x < length (s_tasks m) \<and> a_state (task_at m x) = TASK_RUNNING"
    using ok by (auto simp: sched_def places_def active_def task_ok_def)
  then have "\<forall>x \<in> b_task ` set (s_background ?m). a_state (task_at ?m x) = TASK_RUNNING"
    by simp
  moreover have "\<forall>x \<in> set (s_waiting ?m). a_state (task_at ?m x) = TASK_WAITING"
    using ok by (auto simp: sched_defs wake_queue True)
  moreover have "\<forall>x \<in> set (s_completed ?m). x < length (s_tasks ?m) \<and> a_state (task_at ?m x) \<noteq> TASK_WAITING"
    using ok by (auto simp: sched_defs)
  moreover have "deps_ok ?m"
    using ok by (simp add: sched_def deps_ok_def)
  ultimately show ?thesis
    using act live by (simp only: sched_def places_def task_ok_def Un_empty_right Int_empty_right) blast
qed

lemma wake_all_sched:
  assumes "sched {} m" and "distinct ds"
    and "\<And>d. d \<in> set ds \<Longrightarrow> d < length (s_tasks m) \<and> d \<notin> set (s_queue m) \<and> pending m d = {}"
  shows "sched {} (fold (wake_dependent t) ds m)"
  using assms
proof (induction ds arbitrary: m)
  case Nil
  then show ?case by simp
next
  case (Cons d ds)
  have "sched {} (wake_dependent t d m)" using Cons.prems by (intro wake_sched) auto
  moreover have "x < length (s_tasks (wake_dependent t d m)) \<and>
      x \<notin> set (s_queue (wake_dependent t d m)) \<and> pending (wake_dependent t d m) x = {}"
    if "x \<in> set ds" for x
    using Cons.prems that by (auto simp: wake_queue)
  ultimately show ?case using Cons.prems by (simp add: Cons.IH)
qed

lemma pending_completed:
  assumes t: "t < length (s_tasks m)" and s: "\<And>x. a_dependents (g x) = a_dependents x"
  shows "pending (process_mark_task_complete t (upd_task t g m)) x = pending m x - {t}"
proof -
  have "i < length (s_tasks m) \<Longrightarrow> i \<noteq> t \<Longrightarrow> task_at (upd_task t g m) i = task_at m i" for i by simp
  then show ?thesis
    by (auto simp: pending_def process_mark_task_complete_def unfinished_def)
qed

text \<open>A task leaves the interpreter for good.\<close>

lemma finish_sched:
  assumes ok: "sched {t} m"
    and same: "s_queue m' = s_queue m" "s_background m' = s_background m" "s_waiting m' = s_waiting m"
      "length (s_tasks m') = length (s_tasks m)"
    and comp: "set (s_completed m') \<subseteq> insert t (set (s_completed m))"
    and others: "\<And>i. i < length (s_tasks m) \<Longrightarrow> i \<noteq> t \<Longrightarrow> task_at m' i = task_at m i"
    and deps: "a_dependents (task_at m' t) = a_dependents (task_at m t)"
    and state: "a_state (task_at m' t) \<noteq> TASK_WAITING"
    and pend: "\<And>x. pending m' x = pending m x - {t}"
  shows "sched {} m'"
proof -
  have act: "active m' = active m" by (simp add: active_def same)
  have pl: "set (active m @ s_waiting m) \<union> {t} \<subseteq> {..<length (s_tasks m)}" "t \<notin> set (active m @ s_waiting m)"
    "distinct (active m @ s_waiting m)"
    using ok by (simp_all add: sched_def places_def)
  have other: "x < length (s_tasks m) \<and> x \<noteq> t" if "x \<in> set (active m @ s_waiting m)" for x
    using pl that by auto
  have bg: "b_task ` set (s_background m) \<subseteq> set (active m)" by (auto simp: active_def)
  have "places {} m'" using pl by (simp add: places_def act same)
  moreover have "unfinished m' x \<and> x \<notin> set (s_completed m') \<and> pending m' x = {}" if "x \<in> set (active m')" for x
  proof -
    have x: "x \<in> set (active m)" using that by (simp add: act)
    then show ?thesis
      using ok other [of x] comp by (auto simp: unfinished_def others pend sched_def task_ok_def)
  qed
  moreover have "a_state (task_at m' x) = TASK_RUNNING" if "x \<in> b_task ` set (s_background m')" for x
  proof -
    have x: "x \<in> b_task ` set (s_background m)" using that by (simp add: same)
    then have "a_state (task_at m x) = TASK_RUNNING" using ok by (auto simp: sched_def task_ok_def)
    then show ?thesis using x bg other [of x] by (auto simp: others subset_iff)
  qed
  moreover have "a_state (task_at m' x) = TASK_WAITING" if "x \<in> set (s_waiting m')" for x
  proof -
    have x: "x \<in> set (s_waiting m)" using that by (simp add: same)
    then show ?thesis using ok other [of x] by (simp add: others sched_def task_ok_def)
  qed
  moreover have "x < length (s_tasks m') \<and> a_state (task_at m' x) \<noteq> TASK_WAITING"
    if "x \<in> set (s_completed m')" for x
  proof (cases "x = t")
    case True
    with pl state show ?thesis by (simp add: same)
  next
    case False
    with that comp have x: "x \<in> set (s_completed m)" by auto
    then have "x < length (s_tasks m)" "a_state (task_at m x) \<noteq> TASK_WAITING"
      using ok by (simp_all add: sched_def task_ok_def)
    with False show ?thesis by (simp add: others same)
  qed
  moreover have "deps_ok m'"
    unfolding deps_ok_def
  proof (intro conjI allI impI)
    fix i
    assume "i < length (s_tasks m')"
    then have i: "i < length (s_tasks m)" by (simp add: same)
    have "a_dependents (task_at m' i) = a_dependents (task_at m i)"
      using deps others [OF i] by (cases "i = t") simp_all
    moreover have "distinct (a_dependents (task_at m i))"
      "set (a_dependents (task_at m i)) \<subseteq> {..<length (s_tasks m)}"
      using ok i by (simp_all add: sched_def deps_ok_def)
    ultimately show "distinct (a_dependents (task_at m' i))"
      and "set (a_dependents (task_at m' i)) \<subseteq> {..<length (s_tasks m')}"
      by (simp_all add: same)
  next
    fix x a b
    assume "a \<in> pending m' x" and "b \<in> pending m' x"
    then show "a = b" using ok by (auto simp: pend sched_def deps_ok_def)
  qed
  ultimately show ?thesis by (simp add: sched_def task_ok_def)
qed

text \<open>A task that ran, or was run by the thread pool, is marked complete and wakes its dependents.\<close>

lemma complete_sched:
  assumes ok: "sched {t} m" and "order_ok e"
    and deps: "\<And>x. a_dependents (g x) = a_dependents x"
    and state: "\<And>x. a_state x = TASK_RUNNING \<Longrightarrow> a_state (g x) \<noteq> TASK_WAITING"
  shows "sched {} (mark_task_complete e t (upd_task t g m))"
proof -
  let ?m = "process_mark_task_complete t (upd_task t g m)"
  have t: "t < length (s_tasks m)" "a_state (task_at m t) = TASK_RUNNING" "t \<notin> set (s_completed m)"
    "unfinished m t"
    using ok by (auto simp: sched_defs)
  have simps: "s_waiting ?m = s_waiting m" "s_background ?m = s_background m"
    "s_queue ?m = s_queue m" "length (s_tasks ?m) = length (s_tasks m)"
    "set (s_completed ?m) = insert t (set (s_completed m))"
    by (simp_all add: process_mark_task_complete_def)
  have at: "task_at ?m i = (if i = t then g (task_at m t) else task_at m i)" if "i < length (s_tasks m)" for i
    using that by (simp add: process_mark_task_complete_def task_at_upd)
  note pend = pending_completed [OF t(1) deps]
  have "sched {} ?m"
    by (rule finish_sched [OF ok]) (simp_all add: simps at t deps state pend)
  moreover
  let ?ds = "a_dependents (task_at ?m t)"
  have ds: "?ds = a_dependents (task_at m t)" using t by (simp add: at deps)
  have "distinct ?ds" using ok t by (auto simp: sched_defs ds)
  then have order: "distinct (en_order e ?ds)" "set (en_order e ?ds) = set ?ds"
    using \<open>order_ok e\<close> by (auto simp: order_ok_def)
  moreover have "d < length (s_tasks ?m) \<and> d \<notin> set (s_queue ?m) \<and> pending ?m d = {}"
    if "d \<in> set (en_order e ?ds)" for d
  proof -
    have d: "t \<in> pending m d" using that t order by (simp add: ds pending_def)
    then have "pending m d = {t}" using ok by (fastforce simp: sched_def deps_ok_def)
    moreover have "d \<notin> set (s_queue m)" using ok d by (auto simp: sched_defs active_def)
    moreover have "d < length (s_tasks m)" using ok t that order by (auto simp: sched_defs ds)
    ultimately show ?thesis by (simp add: simps pend)
  qed
  ultimately have "sched {} (fold (wake_dependent t) (en_order e ?ds) ?m)"
    by (intro wake_all_sched)
  then show ?thesis by (simp only: mark_task_complete_def Let_def)
qed

text \<open>A task that failed and has no parent only stops.\<close>

lemma fail_sched:
  assumes ok: "sched {t} m"
  shows "sched {} (set_state t TASK_ERROR m)" and "pending (set_state t TASK_ERROR m) x = pending m x - {t}"
proof -
  let ?m = "set_state t TASK_ERROR m"
  have t: "t < length (s_tasks m)" using ok by (simp add: sched_def places_def)
  have pend: "pending ?m x = pending m x - {t}" for x
    by (auto simp: pending_def set_state_def unfinished_def task_at_upd split: if_splits)
  then show "pending ?m x = pending m x - {t}" .
  show "sched {} ?m"
    by (rule finish_sched [OF ok _ _ _ _ _ _ _ _ pend]) (auto simp: set_state_def t)
qed

text \<open>A task that is at no place may be entered among the dependents of another.\<close>

lemma add_dependent_sched:
  assumes ok: "sched {} m" and t: "t < length (s_tasks m)" "t \<notin> set (active m)" "pending m t = {}"
  shows "sched {} (add_dependent other t m)" (is "sched {} ?m")
proof -
  have simps: "active ?m = active m" "s_background ?m = s_background m" "s_completed ?m = s_completed m"
    "s_waiting ?m = s_waiting m" "length (s_tasks ?m) = length (s_tasks m)"
    by (simp_all add: add_dependent_def active_def)
  have at: "a_state (task_at ?m i) = a_state (task_at m i)"
    "a_dependents (task_at ?m i) =
       (if i = other then set_insert t (a_dependents (task_at m i)) else a_dependents (task_at m i))"
    if "i < length (s_tasks m)" for i
    using that by (simp_all add: add_dependent_def task_at_upd)
  have pend: "pending ?m x = pending m x" if "x \<noteq> t" for x
    using that by (auto simp: pending_def simps unfinished_def at split: if_splits)
  have pend_t: "pending ?m t \<subseteq> {other}"
    using t by (auto simp: pending_def simps unfinished_def at split: if_splits)
  have pl: "set (active m @ s_waiting m) \<subseteq> {..<length (s_tasks m)}" "places {} m"
    using ok by (simp_all add: sched_def places_def)
  have "places {} ?m" using pl by (simp add: places_def simps)
  moreover have "unfinished ?m x \<and> x \<notin> set (s_completed ?m) \<and> pending ?m x = {}" if "x \<in> set (active ?m)" for x
  proof -
    have "x \<in> set (active m)" "x < length (s_tasks m)" "x \<noteq> t" using that pl t by (auto simp: simps)
    then show ?thesis using ok by (simp add: simps unfinished_def at pend sched_def task_ok_def)
  qed
  moreover have "\<forall>x \<in> b_task ` set (s_background ?m). a_state (task_at ?m x) = TASK_RUNNING"
    "\<forall>x \<in> set (s_waiting ?m). a_state (task_at ?m x) = TASK_WAITING"
    "\<forall>x \<in> set (s_completed ?m). x < length (s_tasks ?m) \<and> a_state (task_at ?m x) \<noteq> TASK_WAITING"
    using ok pl by (auto simp: simps at sched_def task_ok_def active_def subset_iff)
  moreover have "deps_ok ?m"
    unfolding deps_ok_def
  proof (intro conjI allI impI)
    fix i
    assume "i < length (s_tasks ?m)"
    then have i: "i < length (s_tasks m)" by (simp add: simps)
    have "distinct (a_dependents (task_at m i))" "set (a_dependents (task_at m i)) \<subseteq> {..<length (s_tasks m)}"
      using ok i by (simp_all add: sched_def deps_ok_def)
    then show "distinct (a_dependents (task_at ?m i))"
      and "set (a_dependents (task_at ?m i)) \<subseteq> {..<length (s_tasks ?m)}"
      using i t by (auto simp: at simps)
  next
    fix x a b
    assume ab: "a \<in> pending ?m x" "b \<in> pending ?m x"
    show "a = b"
    proof (cases "x = t")
      case True
      with ab pend_t show ?thesis by blast
    next
      case False
      have "a \<in> pending m x" "b \<in> pending m x" using ab unfolding pend [OF False] by blast+
      with ok show ?thesis unfolding sched_def deps_ok_def by blast
    qed
  qed
  ultimately show ?thesis by (simp add: sched_def task_ok_def)
qed

subsection \<open>Steps keep it\<close>

text \<open>Fields that do not concern the scheduler.\<close>

lemma sched_cong:
  assumes "sched R m" and "s_tasks m' = s_tasks m" and "s_queue m' = s_queue m"
    and "s_background m' = s_background m" and "s_waiting m' = s_waiting m"
    and "s_completed m' = s_completed m"
  shows "sched R m'"
  by (rule calm_sched [OF _ assms(1)]) (simp add: calm_same assms)

text \<open>Taking a task from the queue.\<close>

lemma pop_sched:
  assumes ok: "sched {} m" and "pop_ok e" and pop: "process_pop_task e m = (Some t, m1)"
  shows "sched {t} (upd_task t (\<lambda>x. x\<lparr>a_state := TASK_RUNNING, a_wait := NOT_WAITING\<rparr>)
    (m1\<lparr>s_current_task := Some t\<rparr>))" (is "sched {t} ?m")
proof -
  obtain q where q: "en_pop e (s_queue m) = (t, q)" "s_queue m \<noteq> []" and m1: "m1 = m\<lparr>s_queue := q\<rparr>"
    using pop by (auto simp: process_pop_task_def split: if_splits prod.splits)
  then have "mset (s_queue m) = add_mset t (mset q)" using \<open>pop_ok e\<close> by (fastforce simp: pop_ok_def)
  then have dist: "distinct (s_queue m) \<longleftrightarrow> distinct (t # q)" and set: "set (s_queue m) = insert t (set q)"
    by (metis mset.simps(2) mset_eq_imp_distinct_iff, metis mset.simps(2) list.simps(15) mset_eq_setD)
  have pl: "distinct (s_queue m @ List.map b_task (s_background m) @ s_waiting m)"
    "set (s_queue m @ List.map b_task (s_background m) @ s_waiting m) \<subseteq> {..<length (s_tasks m)}"
    using ok by (simp_all add: sched_def places_def active_def)
  then have t: "t < length (s_tasks m)" by (simp add: set)
  have [simp]: "s_background m1 = s_background m" "s_waiting m1 = s_waiting m" "s_queue m1 = q"
    "s_tasks m1 = s_tasks m" "s_completed m1 = s_completed m"
    by (simp_all add: m1)
  have simps: "s_background ?m = s_background m" "s_waiting ?m = s_waiting m" "s_queue ?m = q"
    "length (s_tasks ?m) = length (s_tasks m)" "s_completed ?m = s_completed m"
    by (simp_all add: m1)
  have at: "a_state (task_at ?m i) = (if i = t then TASK_RUNNING else a_state (task_at m i))"
    "a_dependents (task_at ?m i) = a_dependents (task_at m i)" if "i < length (s_tasks m)" for i
    using that by (simp_all add: m1 task_at_upd)
  have live: "unfinished m x \<and> x \<notin> set (s_completed m) \<and> pending m x = {}" if "x \<in> set (active m)" for x
    using ok that by (simp add: sched_def task_ok_def)
  have unf: "unfinished ?m i \<longleftrightarrow> unfinished m i" if "i < length (s_tasks m)" for i
    using that live [of t] by (auto simp: unfinished_def at set active_def)
  have pend: "pending ?m x = pending m x" for x
    unfolding pending_def simps by (rule Collect_cong) (metis unf at(2))
  have "places {t} ?m"
    unfolding places_def active_def simps using pl dist set by auto
  moreover have "unfinished ?m x \<and> x \<notin> set (s_completed ?m) \<and> pending ?m x = {}"
    if "x \<in> set (active ?m) \<union> {t}" for x
  proof -
    have x: "x \<in> set (active m)" using that unfolding active_def simps by (auto simp: set)
    then have "x < length (s_tasks m)" using pl by (auto simp: active_def)
    with live [OF x] show ?thesis by (simp add: unf simps pend)
  qed
  moreover have "a_state (task_at ?m x) = TASK_RUNNING" if "x \<in> b_task ` set (s_background ?m) \<union> {t}" for x
  proof (cases "x = t")
    case True
    with t show ?thesis by (simp add: at)
  next
    case False
    with that have x: "x \<in> b_task ` set (s_background m)" by (simp add: simps)
    then have "x < length (s_tasks m)" using pl by auto
    with ok x False show ?thesis by (auto simp: at sched_def task_ok_def)
  qed
  moreover have "a_state (task_at ?m x) = TASK_WAITING" if "x \<in> set (s_waiting ?m)" for x
  proof -
    have x: "x \<in> set (s_waiting m)" using that by (simp add: simps)
    then have "x < length (s_tasks m)" "x \<noteq> t" using pl set by auto
    with ok x show ?thesis by (simp add: at sched_def task_ok_def)
  qed
  moreover have "x < length (s_tasks ?m) \<and> a_state (task_at ?m x) \<noteq> TASK_WAITING"
    if "x \<in> set (s_completed ?m)" for x
  proof -
    have "x \<in> set (s_completed m)" using that by (simp add: simps)
    then have "x < length (s_tasks m)" "a_state (task_at m x) \<noteq> TASK_WAITING"
      using ok by (simp_all add: sched_def task_ok_def)
    then show ?thesis by (simp add: at simps)
  qed
  moreover have "deps_ok ?m"
    using ok by (simp add: sched_def deps_ok_def pend simps at)
  ultimately show ?thesis by (simp add: sched_def task_ok_def)
qed

text \<open>A task that stops to wait for another is entered into the set of waiting tasks.\<close>

lemma wait_sched:
  assumes ok: "sched {t} m" and other: "unfinished m other"
  shows "sched {} (process_insert_waiting_task t (set_waiting t w (add_dependent other t m)))"
    (is "sched {} ?m")
proof -
  have t: "t < length (s_tasks m)" "pending m t = {}" "t \<notin> set (s_completed m)"
    and pl: "distinct (active m @ s_waiting m)" "t \<notin> set (active m @ s_waiting m)"
      "set (active m @ s_waiting m) \<subseteq> {..<length (s_tasks m)}"
    using ok by (simp_all add: sched_def places_def task_ok_def)
  have simps: "active ?m = active m" "s_background ?m = s_background m" "s_completed ?m = s_completed m"
    "s_waiting ?m = s_waiting m @ [t]" "length (s_tasks ?m) = length (s_tasks m)"
    using pl by (simp_all add: process_insert_waiting_task_def set_waiting_def add_dependent_def
        active_def set_insert_def)
  have at: "a_state (task_at ?m i) = (if i = t then TASK_WAITING else a_state (task_at m i))"
    "a_dependents (task_at ?m i) =
       (if i = other then set_insert t (a_dependents (task_at m i)) else a_dependents (task_at m i))"
    if "i < length (s_tasks m)" for i
    using that by (simp_all add: process_insert_waiting_task_def set_waiting_def add_dependent_def task_at_upd)
  have "unfinished m t" using ok by (simp add: sched_def task_ok_def)
  then have unf: "unfinished ?m i \<longleftrightarrow> unfinished m i" if "i < length (s_tasks m)" for i
    using that by (auto simp: unfinished_def at)
  have pend: "pending ?m x = pending m x" if "x \<noteq> t" for x
    using that by (auto simp: pending_def simps unf at split: if_splits)
  have pend_t: "pending ?m t \<subseteq> {other}"
    using t(2) by (auto simp: pending_def simps unf at split: if_splits)
  have "places {} ?m" using pl t by (simp add: places_def simps)
  moreover have "unfinished ?m x \<and> x \<notin> set (s_completed ?m) \<and> pending ?m x = {}"
    if "x \<in> set (active ?m)" for x
  proof -
    have x: "x \<in> set (active m)" using that by (simp add: simps)
    then have "x < length (s_tasks m)" "x \<noteq> t" using pl by auto
    then show ?thesis using ok x by (simp add: unf simps pend sched_def task_ok_def)
  qed
  moreover have "a_state (task_at ?m x) = TASK_RUNNING" if "x \<in> b_task ` set (s_background ?m)" for x
  proof -
    have x: "x \<in> b_task ` set (s_background m)" using that by (simp add: simps)
    then have "x < length (s_tasks m)" "x \<noteq> t" using pl by (auto simp: active_def)
    then show ?thesis using ok x by (auto simp: at sched_def task_ok_def)
  qed
  moreover have "a_state (task_at ?m x) = TASK_WAITING" if "x \<in> set (s_waiting ?m)" for x
  proof (cases "x = t")
    case False
    with that have x: "x \<in> set (s_waiting m)" by (simp add: simps)
    then have "x < length (s_tasks m)" using pl by auto
    then show ?thesis using ok x by (simp add: at sched_def task_ok_def)
  qed (simp add: at t)
  moreover have "x < length (s_tasks ?m) \<and> a_state (task_at ?m x) \<noteq> TASK_WAITING"
    if "x \<in> set (s_completed ?m)" for x
  proof -
    have x: "x \<in> set (s_completed m)" using that by (simp add: simps)
    then have "x < length (s_tasks m)" "a_state (task_at m x) \<noteq> TASK_WAITING"
      using ok by (simp_all add: sched_def task_ok_def)
    then show ?thesis using t(3) x by (auto simp: at simps)
  qed
  moreover have "deps_ok ?m"
    unfolding deps_ok_def
  proof (intro conjI allI impI)
    fix i
    assume "i < length (s_tasks ?m)"
    then have i: "i < length (s_tasks m)" by (simp add: simps)
    have "distinct (a_dependents (task_at m i))" "set (a_dependents (task_at m i)) \<subseteq> {..<length (s_tasks m)}"
      using ok i by (simp_all add: sched_def deps_ok_def)
    then show "distinct (a_dependents (task_at ?m i))"
      and "set (a_dependents (task_at ?m i)) \<subseteq> {..<length (s_tasks ?m)}"
      using i t by (auto simp: at simps)
  next
    fix x a b
    assume ab: "a \<in> pending ?m x" "b \<in> pending ?m x"
    show "a = b"
    proof (cases "x = t")
      case True
      with ab pend_t show ?thesis by blast
    next
      case False
      have "a \<in> pending m x" "b \<in> pending m x" using ab unfolding pend [OF False] by blast+
      with ok show ?thesis unfolding sched_def deps_ok_def by blast
    qed
  qed
  ultimately show ?thesis by (simp add: sched_def task_ok_def)
qed

lemma state_child_error:
  "(x :: task)\<lparr>a_state := s, a_child_error := b\<rparr> = x\<lparr>a_child_error := b, a_state := s\<rparr>"
  by (cases x) simp

text \<open>What is done with a task after it ran.\<close>

lemma after_task_sched:
  assumes ok: "sched {t} m" and order: "order_ok e" and nat: "natives_calm e"
    and leaves: "leaves (\<lambda>m'. natives_calm e \<and> calm m m') t m1"
    and after: "after_task e t (a_state (task_at m1 t)) m1 = Inr m2"
  shows "sched {} m2"
proof -
  from leaves obtain m0 where calm: "calm m m0" and
    m1: "m1 = set_state t TASK_COMPLETE m0 \<or> m1 = set_state t TASK_ERROR m0 \<or>
      (\<exists>other w. unfinished m0 other \<and> m1 = set_waiting t w (add_dependent other t m0))"
    by (auto simp: leaves_def)
  have ok0: "sched {t} m0" using calm ok by (rule calm_sched)
  then have t: "t < length (s_tasks m0)" by (simp add: sched_def places_def)
  from m1 show ?thesis
  proof (elim disjE exE conjE)
    assume m1: "m1 = set_state t TASK_COMPLETE m0"
    then have "m2 = mark_task_complete e t (upd_task t (\<lambda>x. x\<lparr>a_state := TASK_COMPLETE\<rparr>) m0)"
      using after t by (simp add: after_task_def set_state_def)
    then show ?thesis using complete_sched [OF ok0 order, of "\<lambda>x. x\<lparr>a_state := TASK_COMPLETE\<rparr>"] by simp
  next
    fix other w
    assume other: "unfinished m0 other" and m1: "m1 = set_waiting t w (add_dependent other t m0)"
    then have "m2 = process_insert_waiting_task t m1"
      using after t by (simp add: after_task_def set_waiting_def add_dependent_def)
    with wait_sched [OF ok0 other, of w] show ?thesis by (simp add: m1)
  next
    assume m1: "m1 = set_state t TASK_ERROR m0"
    show ?thesis
    proof (cases "a_parent (task_at m1 t)")
      case (Some p)
      let ?g = "\<lambda>x. x\<lparr>a_state := TASK_ERROR\<rparr>"
      have "m2 = mark_task_complete e t (upd_task p (\<lambda>x. x\<lparr>a_child_error := True\<rparr>) m1)"
        using after t Some by (simp add: after_task_def set_state_def m1)
      moreover have "upd_task p (\<lambda>x. x\<lparr>a_child_error := True\<rparr>) m1 =
          upd_task t ?g (upd_task p (\<lambda>x. x\<lparr>a_child_error := True\<rparr>) m0)"
        using t by (cases "p = t") (auto simp: m1 set_state_def upd_task_def list_update_swap state_child_error)
      moreover have "sched {t} (upd_task p (\<lambda>x. x\<lparr>a_child_error := True\<rparr>) m0)"
        by (rule calm_sched [OF _ ok0]) (simp add: calm_upd_task)
      ultimately show ?thesis using complete_sched [OF _ order, of t _ ?g] by simp
    next
      case None
      then obtain errorln f b where call: "call_function e t None f m1 = Inr (b, m2)"
        using after t by (auto simp: after_task_def set_state_def m1 assert_that_eq_Inr andThen_eq_Inr
            split: option.splits)
      have "natives_calm e \<and> calm m1 m1" using nat by simp
      then have w: "waits_or (\<lambda>m'. natives_calm e \<and> calm m1 m') t (b, m2)"
        by (rule postD [OF calm.inv_call_function call])
      have ok1: "sched {} m1" using fail_sched(1) [OF ok0] by (simp add: m1)
      have pend1: "pending m1 t = {}"
        using fail_sched(2) [OF ok0, of t] ok0 by (simp add: m1 sched_def task_ok_def)
      have t1: "t < length (s_tasks m1)" "t \<notin> set (active m1)"
        using ok0 by (simp_all add: m1 set_state_def active_def sched_def places_def)
      show ?thesis
      proof (cases b)
        case False
        with w have "calm m1 m2" by (simp add: waits_or_def)
        then show ?thesis using ok1 by (rule calm_sched)
      next
        case True
        with w obtain m3 other where c: "calm m1 m3" and m2: "m2 = add_dependent other t m3"
          by (auto simp: waits_or_def)
        have comp: "set (s_completed m1) \<subseteq> {..<length (s_tasks m1)}"
          using ok1 by (auto simp: sched_def task_ok_def)
        have "t \<notin> set (active m3)"
          using t1 c by (fastforce simp: calm_def active_def)
        moreover have "t < length (s_tasks m3)" using t1 c by (simp add: calm_def)
        moreover have "pending m3 t = {}" using calm_pending [OF c comp] pend1 by simp
        ultimately show ?thesis
          unfolding m2 by (intro add_dependent_sched calm_sched [OF c ok1])
      qed
    qed
  qed
qed

subsection \<open>The steps of a process\<close>

lemma run_next_sched:
  assumes ok: "sched {} m" and env: "pop_ok e" "order_ok e" "natives_calm e"
    and run: "run_next n e m = Some (Inr (True, m'))"
  shows "sched {} m'"
proof -
  obtain t m1 where pop: "process_pop_task e m = (Some t, m1)"
    using run by (cases "process_pop_task e m") (auto simp: run_next_def split: option.splits)
  let ?m = "m1\<lparr>s_current_task := Some t\<rparr>"
  let ?r = "upd_task t (\<lambda>x. x\<lparr>a_state := TASK_RUNNING, a_wait := NOT_WAITING\<rparr>) ?m"
  have ok1: "sched {t} ?r" using ok env(1) pop by (rule pop_sched)
  obtain s m2 where exec: "vm_execute_task n e t ?m = Some (Inr (s, m2))"
    and after: "after_task e t s m2 = Inr m'"
    using run by (auto simp: run_next_def pop andThen_eq_Inr)
  have "natives_calm e \<and> calm ?r ?r" using env(3) by simp
  from calm.inv_vm_execute_task [OF this exec] show ?thesis
  proof (elim disjE conjE)
    assume "s = TASK_COMPLETE" and "m2 = ?r"
    then have "m' = mark_task_complete e t (upd_task t (\<lambda>x. x) ?r)"
      using after by (simp add: after_task_def upd_task_def)
    with complete_sched [OF ok1 env(2), of "\<lambda>x. x"] show ?thesis by simp
  next
    assume s: "s = a_state (task_at m2 t)"
      and leaves: "leaves (\<lambda>m'. natives_calm e \<and> calm ?r m') t m2"
    show ?thesis using after_task_sched [OF ok1 env(2,3) leaves] after unfolding s by blast
  qed
qed

lemma background_sched:
  assumes ok: "sched {} m" and env: "order_ok e" "natives_calm e"
    and b: "s_background m = bs @ b # bs'"
    and run: "finish_background e b (m\<lparr>s_background := bs @ bs'\<rparr>) = Inr m'"
  shows "sched {} m'"
proof -
  let ?t = "b_task b" and ?m = "m\<lparr>s_background := bs @ bs'\<rparr>"
  have pend: "pending ?m = pending m" by (rule ext) (simp add: pending_def unfinished_def)
  have pl: "places {} m" and tk: "task_ok {} m" and dp: "deps_ok m" using ok by (simp_all add: sched_def)
  have "places {?t} ?m" using pl by (auto simp: places_def active_def b)
  moreover have "task_ok {?t} ?m"
    using tk unfolding task_ok_def pend by (simp add: active_def unfinished_def b ball_Un)
  moreover have "deps_ok ?m" using dp unfolding deps_ok_def pend by simp
  ultimately have ok1: "sched {?t} ?m" by (simp add: sched_def)
  obtain native v m1 where nat: "en_native e native ?t (b_context b) (b_self b) (task_get_resval ?t ?m) ?m = Inr (v, m1)"
    and m': "m' = mark_task_complete e ?t (upd_task ?t (\<lambda>x. x\<lparr>a_state := TASK_COMPLETE\<rparr>)
      (task_set_resval ?t v m1))"
    using run by (auto simp: finish_background_def andThen_eq_Inr Let_def)
  have "calm ?m m1" using nat env(2) by (auto simp: natives_calm_def)
  then have "calm ?m (task_set_resval ?t v m1)"
    unfolding task_set_resval_def by (rule calm_step) (simp add: calm_upd_task)
  then have "sched {?t} (task_set_resval ?t v m1)" using ok1 by (rule calm_sched)
  with complete_sched [OF this env(1), of "\<lambda>x. x\<lparr>a_state := TASK_COMPLETE\<rparr>"] show ?thesis
    by (simp add: m')
qed

lemma process_step_sched:
  assumes "process_step e m m'" and "sched {} m" and "pop_ok e" "order_ok e" "natives_calm e"
  shows "sched {} m'"
  using assms by (auto elim!: process_stepE intro: run_next_sched background_sched)

lemma reachable_sched:
  assumes "(process_step e)\<^sup>*\<^sup>* m m'" and "sched {} m" and "pop_ok e" "order_ok e" "natives_calm e"
  shows "sched {} m'"
  using assms(1,2) by induction (auto intro: process_step_sched assms(3-5))

end
