(* ===== verification/SchedulerProps.thy ===== *)
theory SchedulerProps imports SchedulerFacts Demo begin

text \<open>
  The properties of the scheduler over every run of a process: where a task may be, and who is woken when a
  task completes. The hypotheses about the environment are those of the
  queue (\<open>pop_ok\<close>), of the sets (\<open>order_ok\<close>) and of native functions (\<open>natives_calm\<close>: they may
  create tasks, but leave the tasks that exist, the queue and the sets alone).
\<close>

subsection \<open>The start of a program\<close>

definition fresh_process :: "machine \<Rightarrow> bool" where
  "fresh_process m \<longleftrightarrow> s_tasks m = [] \<and> s_queue m = [] \<and> s_waiting m = [] \<and> s_completed m = [] \<and>
     s_background m = []"

lemma run_start_simps:
  assumes "fresh_process m"
  shows "s_queue (run_start e md self m) = [0]" "s_waiting (run_start e md self m) = []"
    "s_completed (run_start e md self m) = []" "s_background (run_start e md self m) = []"
    "length (s_tasks (run_start e md self m)) = 1"
    "a_state (task_at (run_start e md self m) 0) = TASK_RUNNING"
    "a_dependents (task_at (run_start e md self m) 0) = []"
  using assms
  by (simp_all add: fresh_process_def run_start_def process_create_task_def task_create_context_def
      process_create_unqueued_task_def task_add_reflection_def heap_inc_edge_def Let_def case_prod_beta
      process_enqueue_task_def upd_task_def task_init_def)

lemma run_start_sched: "fresh_process m \<Longrightarrow> sched {} (run_start e md self m)"
  by (auto simp: sched_defs active_def run_start_simps unfinished_def pending_def)

lemma demo_env_ok [simp]: "natives_calm demo_env" "pop_ok demo_env" "order_ok demo_env"
  by (auto simp: natives_calm_def pop_ok_def order_ok_def demo_env_def neq_Nil_conv)

lemma demo_fresh [simp]: "fresh_process (demo_machine code)"
  by (simp add: fresh_process_def demo_machine_def)


definition demo_exit :: "instruction list" where
  "demo_exit = [\<lparr>ins_op = RES, ins_arg = PrimArg (PInt 7)\<rparr>, \<lparr>ins_op = EXIT, ins_arg = PrimArg (PInt 0)\<rparr>]"

lemma demo_exit_step:
  obtains m where "process_step demo_env (demo_start demo_exit) m" and "s_completed m = [0]"
proof -
  obtain m where m: "run_next 5 demo_env (demo_start demo_exit) = Some (Inr (True, m))" "s_completed m = [0]"
    using demo_exit_runs unfolding demo_exit_def
    by (auto split: option.splits sum.splits bool.splits)
  from process_step.run_task [OF m(1)] m(2) show thesis by (rule that)
qed


subsection \<open>Who is woken\<close>

lemma wake_all_effect:
  assumes "distinct ds" and "set ds \<subseteq> {..<length (s_tasks m)}" and "t < length (s_tasks m)"
  defines "ws \<equiv> filter (\<lambda>d. a_state (task_at m d) = TASK_WAITING) ds"
  shows "s_queue (fold (wake_dependent t) ds m) = s_queue m @ ws"
    and "s_waiting (fold (wake_dependent t) ds m) = filter (\<lambda>x. x \<notin> set ws) (s_waiting m)"
    and "s_tasks (fold (wake_dependent t) ds m) =
      List.map (\<lambda>i. if i \<in> set ws then (task_at m i)\<lparr>a_resval := a_resval (task_at m t)\<rparr> else task_at m i)
        [0..<length (s_tasks m)]"
    and "s_completed (fold (wake_dependent t) ds m) = s_completed m"
  unfolding ws_def using assms(1-3)
proof (induction ds arbitrary: m)
  case Nil
  case 1 then show ?case by simp
  case 2 then show ?case by simp
  case 3 then show ?case by (simp add: map_nth)
  case 4 then show ?case by simp
next
  case (Cons d ds)
  let ?m = "\<lambda>m. wake_dependent t d m"
  have pre: "distinct ds" "set ds \<subseteq> {..<length (s_tasks (?m m))}" "t < length (s_tasks (?m m))"
    if "distinct (d # ds)" "set (d # ds) \<subseteq> {..<length (s_tasks m)}" "t < length (s_tasks m)" for m
    using that by auto
  have filt: "filter (\<lambda>x. a_state (task_at (?m m) x) = TASK_WAITING) ds =
      filter (\<lambda>x. a_state (task_at m x) = TASK_WAITING) ds"
    if "set (d # ds) \<subseteq> {..<length (s_tasks m)}" for m
    using that by (intro filter_cong) auto
  have at: "task_at (?m m) i = (if i = d \<and> a_state (task_at m d) = TASK_WAITING
      then (task_at m d)\<lparr>a_resval := a_resval (task_at m t)\<rparr> else task_at m i)"
    if "d < length (s_tasks m)" for i m
    using that by (simp add: wake_dependent_def process_remove_waiting_task_def process_enqueue_task_def
        task_set_resval_def task_get_resval_def task_at_upd_task)
  {
    case 1
    from Cons.IH(1) [OF pre [OF 1]] 1 show ?case by (simp add: filt [OF 1(2)] wake_queue)
  next
    case 2
    from Cons.IH(2) [OF pre [OF 2]] 2 show ?case
      by (auto simp: filt [OF 2(2)] wake_queue removeAll_filter_not_eq intro!: filter_cong)
  next
    case 3
    from Cons.IH(3) [OF pre [OF 3]] 3 show ?case
      by (auto simp: filt [OF 3(2)] at)
  next
    case 4
    from Cons.IH(4) [OF pre [OF 4]] 4 show ?case by simp
  }
qed

lemma mark_complete_effect:
  assumes order: "order_ok e" and t: "t < length (s_tasks m)"
    and deps: "distinct (a_dependents (task_at m t))" "set (a_dependents (task_at m t)) \<subseteq> {..<length (s_tasks m)}"
  defines "ws \<equiv> filter (\<lambda>d. a_state (task_at m d) = TASK_WAITING) (en_order e (a_dependents (task_at m t)))"
  shows "s_queue (mark_task_complete e t m) = s_queue m @ ws"
    and "s_waiting (mark_task_complete e t m) = filter (\<lambda>x. x \<notin> set ws) (s_waiting m)"
    and "s_tasks (mark_task_complete e t m) =
      List.map (\<lambda>i. if i \<in> set ws then (task_at m i)\<lparr>a_resval := a_resval (task_at m t)\<rparr> else task_at m i)
        [0..<length (s_tasks m)]"
    and "set (s_completed (mark_task_complete e t m)) = insert t (set (s_completed m))"
    and "set ws = {d \<in> set (a_dependents (task_at m t)). a_state (task_at m d) = TASK_WAITING}"
    and "distinct ws"
proof -
  let ?ds = "en_order e (a_dependents (task_at m t))" and ?m = "process_mark_task_complete t m"
  have ds: "distinct ?ds" "set ?ds = set (a_dependents (task_at m t))"
    using order deps by (simp_all add: order_ok_def)
  then show "set ws = {d \<in> set (a_dependents (task_at m t)). a_state (task_at m d) = TASK_WAITING}"
    and "distinct ws" by (auto simp: ws_def)
  have "set ?ds \<subseteq> {..<length (s_tasks ?m)}" "t < length (s_tasks ?m)"
    using ds deps t by (simp_all add: process_mark_task_complete_def)
  from wake_all_effect [OF ds(1) this]
  show "s_queue (mark_task_complete e t m) = s_queue m @ ws"
    and "s_waiting (mark_task_complete e t m) = filter (\<lambda>x. x \<notin> set ws) (s_waiting m)"
    and "s_tasks (mark_task_complete e t m) =
      List.map (\<lambda>i. if i \<in> set ws then (task_at m i)\<lparr>a_resval := a_resval (task_at m t)\<rparr> else task_at m i)
        [0..<length (s_tasks m)]"
    and "set (s_completed (mark_task_complete e t m)) = insert t (set (s_completed m))"
    by (simp_all add: mark_task_complete_def process_mark_task_complete_def ws_def)
qed

text \<open>C8: \<open>_mark_task_complete\<close> (vm/virtual_machine.c) wakes exactly those who wait: when a task completes,
  the dependent tasks in the state \<open>TASK_WAITING\<close>, and no others, are put at the end of the queue, each
  once, leave the set of waiting tasks, and hold the result of the completed task as their own result
  value; the task itself is then completed, and nothing else changes in any task.\<close>

theorem completion_wakes_dependents:
  assumes "order_ok e" and "t < length (s_tasks m)" and "distinct (a_dependents (task_at m t))"
    and "set (a_dependents (task_at m t)) \<subseteq> {..<length (s_tasks m)}"
  shows "\<exists>ws. set ws = {d \<in> set (a_dependents (task_at m t)). a_state (task_at m d) = TASK_WAITING} \<and>
     distinct ws \<and> s_queue (mark_task_complete e t m) = s_queue m @ ws \<and>
     s_waiting (mark_task_complete e t m) = filter (\<lambda>x. x \<notin> set ws) (s_waiting m) \<and>
     s_tasks (mark_task_complete e t m) = List.map (\<lambda>i. if i \<in> set ws
        then (task_at m i)\<lparr>a_resval := a_resval (task_at m t)\<rparr> else task_at m i) [0..<length (s_tasks m)] \<and>
     set (s_completed (mark_task_complete e t m)) = insert t (set (s_completed m))"
  using mark_complete_effect [OF assms] by blast

definition demo_waiting :: machine where
  "demo_waiting = (demo_machine [])\<lparr>
     s_tasks := [demo_raw_task\<lparr>a_state := TASK_COMPLETE, a_resval := EPrim (PInt 7), a_dependents := [2, 1]\<rparr>,
       demo_raw_task\<lparr>a_state := TASK_WAITING\<rparr>, demo_raw_task\<lparr>a_state := TASK_RUNNING\<rparr>], s_waiting := [1]\<rparr>"

theorem completion_wakes_dependents_witness:
  "s_queue (mark_task_complete demo_env 0 demo_waiting) = [1] \<and>
   s_waiting (mark_task_complete demo_env 0 demo_waiting) = []"
proof -
  have "order_ok demo_env" "0 < length (s_tasks demo_waiting)"
    "distinct (a_dependents (task_at demo_waiting 0))"
    "set (a_dependents (task_at demo_waiting 0)) \<subseteq> {..<length (s_tasks demo_waiting)}"
    by (simp_all add: demo_waiting_def demo_machine_def)
  from completion_wakes_dependents [OF this] obtain ws where
    ws: "set ws = {d \<in> set (a_dependents (task_at demo_waiting 0)). a_state (task_at demo_waiting d) = TASK_WAITING}"
      "distinct ws" "s_queue (mark_task_complete demo_env 0 demo_waiting) = s_queue demo_waiting @ ws"
      "s_waiting (mark_task_complete demo_env 0 demo_waiting) = filter (\<lambda>x. x \<notin> set ws) (s_waiting demo_waiting)"
    by blast
  have "set ws = {1}" unfolding ws(1) by (auto simp: demo_waiting_def demo_machine_def)
  with ws(2) have "ws = [1]" by (cases ws) (auto simp: neq_Nil_conv subset_singleton_iff)
  with ws(3,4) show ?thesis by (simp add: demo_waiting_def demo_machine_def)
qed

end
