(* ===== verification/MachineFacts.thy ===== *)
theory MachineFacts imports SchedulerProps begin

text \<open>
  What single instructions of \<open>vm/virtual_machine.c\<close> compute: integer arithmetic, and the pairs of
  instructions that the optimizer replaces by one.
\<close>

subsection \<open>Integer arithmetic\<close>

text \<open>The result an operation has on integers; a remainder is undefined where its quotient is.\<close>

fun math_value :: "op \<Rightarrow> int \<Rightarrow> int \<Rightarrow> int option" where
  "math_value ADD x y = Some (x + y)"
| "math_value SUB x y = Some (x - y)"
| "math_value MULT x y = Some (x * y)"
| "math_value DIV x y = (if y = 0 then None else Some (c_quot x y))"
| "math_value MOD x y = (if y = 0 \<or> c_quot x y = 2 ^ 31 then None else Some (x - y * c_quot x y))"
| "math_value p x y = None"

definition is_int32 :: "int \<Rightarrow> bool" where
  "is_int32 i \<longleftrightarrow> - (2 ^ 31) \<le> i \<and> i < 2 ^ 31"

lemma sint_word_of_int32: "is_int32 i \<Longrightarrow> sint (word_of_int i :: i32) = i"
  by (simp add: sint_word_of_int_small is_int32_def)

lemma checked_spec:
  "checked i = Inr r \<Longrightarrow> sint r = i \<and> is_int32 i"
  "checked i = Inl err \<Longrightarrow> err = UB ''signed overflow'' \<and> \<not> is_int32 i"
  using sint_word_of_int32 [of i] by (auto simp: checked_def is_int32_def split: if_splits)

lemma is_int32_sint: "is_int32 (sint (x :: i32))"
  using sint_ge [of x] sint_lt [of x] by (simp add: is_int32_def)

lemma sint_zero: "sint (x :: i32) = 0 \<longleftrightarrow> x = 0"
  using sint_eq_iff [of x 0] by simp

lemma c_quot_bounds:
  assumes "is_int32 x" and "y \<noteq> 0" and "\<not> is_int32 (c_quot x y)"
  shows "c_quot x y = 2 ^ 31"
proof -
  have "\<bar>x\<bar> div \<bar>y\<bar> \<le> \<bar>x\<bar>" using assms(2) using zdiv_mono2 [of "\<bar>x\<bar>" 1 "\<bar>y\<bar>"] by simp
  moreover have "\<bar>x\<bar> \<le> 2 ^ 31" using assms(1) by (auto simp: is_int32_def)
  moreover have "0 \<le> \<bar>x\<bar> div \<bar>y\<bar>" by (simp add: pos_imp_zdiv_nonneg_iff assms(2))
  ultimately show ?thesis
    using assms(3) by (auto simp: c_quot_def is_int32_def sgn_if split: if_splits)
qed

lemma execute_integral:
  assumes "integral a" and "integral b"
  obtains x y where "sint x = prim_value a" and "sint y = prim_value b"
    and "execute_primitive fo p a b = andThen (c_int_op p x y) (\<lambda>r. Inr (PInt r))"
proof (cases "ptype a = PT_INT \<or> ptype b = PT_INT")
  case True
  with assms have "execute_primitive fo p a b =
      andThen (c_int_op p (int_of fo a) (int_of fo b)) (\<lambda>r. Inr (PInt r))"
    by (auto simp: execute_primitive_def integral_def primitive_int_def)
  with sint_int_of [OF assms(1)] sint_int_of [OF assms(2)] show thesis by (rule that)
next
  case False
  with assms obtain c d where ab: "a = PChar c" "b = PChar d" by (cases a; cases b) auto
  show thesis
    by (rule that [of "scast c" "scast d"])
       (simp_all add: ab execute_primitive_def char_of_prim_def primitive_int_def)
qed

lemma c_int_op_exact:
  assumes "p \<in> {ADD, SUB, MULT, DIV, MOD}"
  shows "case c_int_op p a b of
     Inr r \<Rightarrow> math_value p (sint a) (sint b) = Some (sint r)
   | Inl err \<Rightarrow> (\<exists>w. err = UB w) \<and> (\<forall>s. math_value p (sint a) (sint b) = Some s \<longrightarrow> \<not> is_int32 s)"
proof -
  have quot: "\<not> is_int32 (c_quot (sint a) (sint b)) \<Longrightarrow> b \<noteq> 0 \<Longrightarrow> c_quot (sint a) (sint b) = 2 ^ 31"
    by (rule c_quot_bounds [OF is_int32_sint]) (simp_all add: sint_zero)
  have not_int32: "\<not> is_int32 (2 ^ 31)" by (simp add: is_int32_def)
  have rem: "is_int32 (sint a - sint b * c_quot (sint a) (sint b))" if "b \<noteq> 0"
  proof -
    have *: "sint a - sint b * c_quot (sint a) (sint b) = sgn (sint a) * (\<bar>sint a\<bar> mod \<bar>sint b\<bar>)"
      by (simp add: c_quot_def minus_div_mult_eq_mod [symmetric] sgn_if algebra_simps)
    have "\<bar>sint a\<bar> mod \<bar>sint b\<bar> < \<bar>sint b\<bar>" "0 \<le> \<bar>sint a\<bar> mod \<bar>sint b\<bar>"
      using that by (simp_all add: sint_zero)
    moreover have "\<bar>sint b\<bar> \<le> 2 ^ 31" using is_int32_sint [of b] by (auto simp: is_int32_def)
    ultimately show ?thesis unfolding * by (auto simp: is_int32_def sgn_if)
  qed
  show ?thesis
    using assms quot rem not_int32
    by (auto simp: andThen_eq_Inr andThen_eq_Inl sint_zero split: sum.splits if_splits dest!: checked_spec)
qed

text \<open>C30: Arithmetic on chars and ints (\<open>MATH_OP\<close>, \<open>MATH_OP_INT\<close>, vm/virtual_machine.c) is exact or
  undefined: a result of an addition, subtraction, multiplication, division or remainder is an int and is
  the mathematical result (quotients truncated towards zero), chars being promoted; and the operation is
  undefined behaviour of C only if there is no mathematical result that 32 bits can hold: a division
  by zero, an overflow, or the quotient or remainder of the smallest int by -1 (C leaves a remainder
  undefined where its quotient does not fit).\<close>

theorem int_arithmetic_exact:
  assumes "integral a" and "integral b" and "p \<in> {ADD, SUB, MULT, DIV, MOD}"
  shows "case execute_primitive fo p a b of
     Inr r \<Rightarrow> ptype r = PT_INT \<and> math_value p (prim_value a) (prim_value b) = Some (prim_value r)
   | Inl err \<Rightarrow> (\<exists>w. err = UB w) \<and>
       (\<forall>s. math_value p (prim_value a) (prim_value b) = Some s \<longrightarrow> \<not> is_int32 s)"
proof -
  obtain x y where xy: "sint x = prim_value a" "sint y = prim_value b"
    and "execute_primitive fo p a b = andThen (c_int_op p x y) (\<lambda>r. Inr (PInt r))"
    using assms(1,2) by (rule execute_integral)
  with c_int_op_exact [OF assms(3), of x y] show ?thesis
    by (auto simp: xy split: sum.splits)
qed

theorem int_arithmetic_exact_witness:
  "execute_primitive int_fops MOD (PInt (- 7)) (PChar 2) = Inr (PInt (- 1)) \<and>
   math_value MOD (- 7) 2 = Some (- 1)"
proof -
  have "execute_primitive int_fops MOD (PInt (- 7)) (PChar 2) = Inr (PInt (- 1))" by code_simp
  with int_arithmetic_exact [of "PInt (- 7)" "PChar 2" MOD int_fops] show ?thesis by simp
qed

subsection \<open>Pairs of instructions that the optimizer replaces\<close>

lemma upd_task_upd_task: "upd_task t f (upd_task t g m) = upd_task t (\<lambda>x. f (g x)) m"
  by (cases "t < length (s_tasks m)") (simp_all add: upd_task_def list_update_beyond)

lemma upd_task_id: "(\<And>x. f x = x) \<Longrightarrow> upd_task t f m = m"
  by (simp add: upd_task_def)

lemma upd_task_cong:
  "(t < length (s_tasks m) \<Longrightarrow> f (task_at m t) = g (task_at m t)) \<Longrightarrow> upd_task t f m = upd_task t g m"
  by (cases "t < length (s_tasks m)") (simp_all add: upd_task_def list_update_beyond)

lemmas stack_ops = task_pushstack_def task_dropstack_def task_popstack_def task_peekstack_def
  task_set_resval_def task_get_resval_def upd_task_upd_task

lemma res_push:
  assumes "t < length (s_tasks m)"
  shows "andThen (Inr (task_set_resval t v m)) (execute_PUSH e t c NoArg) =
     andThen (Inr (task_pushstack t v m)) (execute_PEEK e t c NoArg)"
  using assms by (auto simp: execute_PUSH_def execute_PEEK_def stack_ops intro!: upd_task_cong)

lemma pop_push:
  assumes "t < length (s_tasks m)"
  shows "andThen (execute_RES e t c NoArg m) (execute_PUSH e t c NoArg) = execute_PEEK e t c NoArg m"
  using assms
  by (auto simp: execute_RES_def execute_PUSH_def execute_PEEK_def stack_ops split: list.split
      intro!: upd_task_cong)

lemma push_pop:
  assumes "t < length (s_tasks m)"
  shows "andThen (execute_PUSH e t c NoArg m) (execute_RES e t c NoArg) = Inr m"
proof -
  have "upd_task t (\<lambda>x. x\<lparr>a_stack := a_stack x, a_resval := a_resval (task_at m t)\<rparr>) m = upd_task t (\<lambda>x. x) m"
    using assms by (intro upd_task_cong) simp
  with assms show ?thesis
    by (simp add: execute_RES_def execute_PUSH_def stack_ops upd_task_id)
qed

lemma get_maybe_wrap_tasks:
  assumes "object_get_maybe_wrap e x field ctx m = Inr (v, m1)"
  shows "s_tasks m1 = s_tasks m"
  using assms
  by (auto simp: object_get_maybe_wrap_def Let_def andThen_eq_Inr wrap_function_in_ref_def
      function_ref_init_def case_prod_beta split: option.splits entity.splits if_splits)

lemma get_push:
  assumes "t < length (s_tasks m)" and "task_get_resval t m = EObj x"
  shows "andThen (execute_GET e t c (IdArg name) m) (execute_PUSH e t c NoArg) =
     andThen (execute_GTSH e t c (IdArg name) m) (execute_PEEK e t c NoArg)"
proof (cases "object_get_maybe_wrap e x name (Some c) m")
  case (Inl err)
  with assms show ?thesis by (simp add: execute_GET_def execute_GTSH_def)
next
  case (Inr r)
  with get_maybe_wrap_tasks [of e x name "Some c" m "fst r" "snd r"] assms(1)
  have "t < length (s_tasks (snd r))" by simp
  from res_push [OF this, of "fst r" e c] Inr assms(2) show ?thesis
    by (simp add: execute_GET_def execute_GTSH_def case_prod_beta)
qed

lemma pop_pushed:
  assumes "t < length (s_tasks m)"
  shows "task_popstack t (task_pushstack t v m) = Inr (v, m)"
proof -
  have "upd_task t (\<lambda>x. x\<lparr>a_stack := a_stack x\<rparr>) m = m" by (rule upd_task_id) simp
  with assms show ?thesis by (simp add: stack_ops)
qed

lemma set_resval_twice: "task_set_resval t v (task_set_resval t u m) = task_set_resval t v m"
  by (simp add: stack_ops)

lemma push_push_math:
  assumes t: "t < length (s_tasks m)"
  shows "andThen (execute_PUSH e t c (PrimArg q) (task_pushstack t (EPrim a) m)) (execute_math e p t c NoArg) =
     execute_math e p t c (PrimArg q) (task_set_resval t (EPrim a) m)"
proof -
  have t': "t < length (s_tasks (task_pushstack t (EPrim a) m))" using t by (simp add: task_pushstack_def)
  have "primitive_operands e name t c NoArg (task_pushstack t (EPrim q) (task_pushstack t (EPrim a) m)) =
      Inr (Some (a, q), m)" for name
    by (simp add: primitive_operands_def pop_pushed t t' Let_def)
  moreover have "primitive_operands e name t c (PrimArg q) (task_set_resval t (EPrim a) m) =
      Inr (Some (a, q), task_set_resval t (EPrim a) m)" for name
    using t by (simp add: primitive_operands_def task_get_resval_def task_set_resval_def)
  ultimately show ?thesis
    by (cases p) (simp_all add: execute_math_def execute_PUSH_def primitive_op_def primitive_bool_op_def
        set_resval_twice)
qed



subsection \<open>An instruction the interpreter does not know\<close>

definition demo_psrs :: "instruction list" where
  "demo_psrs = [\<lparr>ins_op = PUSH, ins_arg = PrimArg (PInt 7)\<rparr>, \<lparr>ins_op = RES, ins_arg = PrimArg (PInt 7)\<rparr>,
     \<lparr>ins_op = EXIT, ins_arg = PrimArg (PInt 0)\<rparr>]"

lemma psrs_is_fatal:
  "execute_ins e t c \<lparr>ins_op = PSRS, ins_arg = arg\<rparr> m = Inl (Fatal ''Unknown instruction'')"
  by (simp add: execute_ins_def)

lemma demo_psrs_optimized:
  "optimize int_fops True (\<lambda>xs. xs) (fold tape_add demo_psrs tape_create) =
     Inr (tape_create\<lparr>t_ins := [\<lparr>ins_op = PSRS, ins_arg = PrimArg (PInt 7)\<rparr>,
         \<lparr>ins_op = EXIT, ins_arg = PrimArg (PInt 0)\<rparr>],
       t_source_map := replicate 2 \<lparr>sm_line = - 1, sm_col = - 1, sm_token = None\<rparr>\<rparr>)"
  by code_simp

lemma demo_psrs_runs:
  "(case run_next 5 demo_env (demo_start demo_psrs) of
      Some (Inr (True, m)) \<Rightarrow> s_completed m = [0] | _ \<Rightarrow> False)"
  by code_simp

lemma demo_psrs_optimized_runs:
  "run_next 5 demo_env (demo_start [\<lparr>ins_op = PSRS, ins_arg = PrimArg (PInt 7)\<rparr>,
     \<lparr>ins_op = EXIT, ins_arg = PrimArg (PInt 0)\<rparr>]) = Some (Inl (Fatal ''Unknown instruction''))"
  by code_simp


end
