(* ===== verification/ClassFacts.thy ===== *)
theory ClassFacts imports MachineFacts begin

text \<open>
  Classes: looking up methods and superclasses along the chain, the order in which the classes of a
  module are made (\<open>_modulemanager_hydrate\<close>), and what happens when a superclass is not there.
\<close>

subsection \<open>The chain of superclasses\<close>

definition super_rel :: "jclass list \<Rightarrow> (cls_id \<times> cls_id) set" where
  "super_rel cs = {(c, d). k_super (cs ! c) = Some d}"

text \<open>A superclass is older than its subclasses.\<close>

definition supers_ok :: "jclass list \<Rightarrow> bool" where
  "supers_ok cs \<longleftrightarrow> (\<forall>c < length cs. \<forall>d. k_super (cs ! c) = Some d \<longrightarrow> d < c)"

lemma supers_okD: "supers_ok cs \<Longrightarrow> c < length cs \<Longrightarrow> k_super (cs ! c) = Some d \<Longrightarrow> d < c \<and> d < length cs"
  by (fastforce simp: supers_ok_def)

lemma super_rel_cases:
  "(c, d) \<in> (super_rel cs)\<^sup>* \<longleftrightarrow> c = d \<or> (\<exists>s. k_super (cs ! c) = Some s \<and> (s, d) \<in> (super_rel cs)\<^sup>*)"
  by (auto simp: super_rel_def elim: converse_rtranclE intro: converse_rtrancl_into_rtrancl)

lemma find_super_correct:
  assumes "supers_ok cs" and "c < n" and "c < length cs"
  shows "find_super n cs (Some c) d = Inr ((c, d) \<in> (super_rel cs)\<^sup>*)"
  using assms(2,3)
proof (induction n arbitrary: c)
  case 0
  then show ?case by simp
next
  case (Suc n)
  show ?case
  proof (cases "c = d")
    case True
    then show ?thesis by simp
  next
    case False
    then show ?thesis
      using Suc supers_okD [OF assms(1) Suc.prems(2)] super_rel_cases [of c d cs]
      by (cases "k_super (cs ! c)") auto
  qed
qed

text \<open>C22: \<open>inherits_from\<close> (entity/class/class.c) decides the subclass relation: when every superclass was made
  before its subclasses, the loop ends and its answer is the reflexive and transitive closure of the
  relation between a class and its superclass.\<close>

theorem inherits_from_is_subclass:
  assumes "supers_ok (s_classes m)" and "c < length (s_classes m)"
  shows "inherits_from c d m = Inr ((c, d) \<in> (super_rel (s_classes m))\<^sup>*)"
  using assms by (simp add: inherits_from_def find_super_correct)

lemma demo_supers_ok: "supers_ok (s_classes (demo_machine code))"
  by (auto simp: supers_ok_def demo_machine_def demo_classes_def demo_class_def class_init_def less_Suc_eq
      nth_Cons' split: if_splits)

theorem inherits_from_is_subclass_witness:
  "inherits_from 8 0 (demo_machine []) = Inr True \<and> (8, 0) \<in> (super_rel demo_classes)\<^sup>*"
proof -
  have "inherits_from 8 0 (demo_machine []) = Inr True" by code_simp
  moreover have "inherits_from 8 0 (demo_machine []) = Inr ((8, 0) \<in> (super_rel (s_classes (demo_machine [])))\<^sup>*)"
    by (rule inherits_from_is_subclass) (simp add: demo_supers_ok, simp add: demo_machine_def demo_classes_def)
  ultimately show ?thesis by (simp add: demo_machine_def)
qed

text \<open>The method that is found.\<close>

definition own_method :: "jclass list \<Rightarrow> cls_id \<Rightarrow> string \<Rightarrow> fun_id option" where
  "own_method cs c name = kl_lookup (k_functions (cs ! c)) name"

definition nearest_method :: "jclass list \<Rightarrow> cls_id \<Rightarrow> string \<Rightarrow> fun_id option \<Rightarrow> bool" where
  "nearest_method cs c name r \<longleftrightarrow>
     (case r of
        None \<Rightarrow> \<forall>d. (c, d) \<in> (super_rel cs)\<^sup>* \<longrightarrow> own_method cs d name = None
      | Some f \<Rightarrow> \<exists>d. (c, d) \<in> (super_rel cs)\<^sup>* \<and> own_method cs d name = Some f \<and>
          (\<forall>k. (c, k) \<in> (super_rel cs)\<^sup>* \<longrightarrow> (k, d) \<in> (super_rel cs)\<^sup>+ \<longrightarrow> own_method cs k name = None))"

lemma super_rel_mono:
  assumes "supers_ok cs" and "(c, d) \<in> (super_rel cs)\<^sup>*" and "c < length cs"
  shows "d \<le> c"
  using assms(2)
proof induction
  case base
  then show ?case by simp
next
  case (step x y)
  then have "x < length cs" using assms(3) by simp
  then show ?case using step supers_okD [OF assms(1)] by (fastforce simp: super_rel_def)
qed

lemma find_function_correct:
  assumes "supers_ok cs" and "c < n" and "c < length cs"
  shows "\<exists>r. find_function n cs (Some c) name = Inr r \<and> nearest_method cs c name r"
  using assms(2,3)
proof (induction n arbitrary: c)
  case 0
  then show ?case by simp
next
  case (Suc n)
  show ?case
  proof (cases "own_method cs c name")
    case (Some f)
    have "own_method cs k name = None" if "(c, k) \<in> (super_rel cs)\<^sup>*" "(k, c) \<in> (super_rel cs)\<^sup>+" for k
    proof -
      from that(2) obtain s where s: "(k, s) \<in> super_rel cs" "(s, c) \<in> (super_rel cs)\<^sup>*"
        by (meson tranclD)
      have "k \<le> c" using super_rel_mono [OF assms(1) that(1) Suc.prems(2)] .
      with s(1) Suc.prems(2) have "s < k" "s < length cs"
        using supers_okD [OF assms(1), of k s] by (auto simp: super_rel_def)
      with super_rel_mono [OF assms(1) s(2)] \<open>k \<le> c\<close> show ?thesis by simp
    qed
    with Some show ?thesis by (auto simp: nearest_method_def own_method_def)
  next
    case None
    show ?thesis
    proof (cases "k_super (cs ! c)")
      case super: None
      then have "(c, d) \<in> (super_rel cs)\<^sup>* \<longleftrightarrow> d = c" for d
        by (subst super_rel_cases) auto
      with None super show ?thesis by (auto simp: nearest_method_def own_method_def)
    next
      case (Some s)
      then have s: "s < n" "s < length cs" and cs: "(c, s) \<in> super_rel cs"
        using supers_okD [OF assms(1) Suc.prems(2)] Suc.prems by (auto simp: super_rel_def)
      from Suc.IH [OF s] obtain r where r: "find_function n cs (Some s) name = Inr r"
        "nearest_method cs s name r" by blast
      have up: "(c, d) \<in> (super_rel cs)\<^sup>* \<longleftrightarrow> d = c \<or> (s, d) \<in> (super_rel cs)\<^sup>*" for d
        using super_rel_cases [of c d cs] Some by auto
      have "nearest_method cs c name r"
        using r(2) None by (auto simp: nearest_method_def up split: option.splits)
      with r(1) None Some show ?thesis by (auto simp: own_method_def)
    qed
  qed
qed



subsection \<open>Making the classes of a module\<close>

definition has_class :: "mod_id \<Rightarrow> string \<Rightarrow> machine \<Rightarrow> bool" where
  "has_class md name m \<longleftrightarrow> module_lookup_class md name m \<noteq> None"

text \<open>A class can be made when it extends no class, or one that is there.\<close>

definition ready :: "mod_id \<Rightarrow> class_ref \<Rightarrow> machine \<Rightarrow> bool" where
  "ready md cref m \<longleftrightarrow> (case cref_supers cref of [] \<Rightarrow> True | s # _ \<Rightarrow> has_class md s m)"

text \<open>The modules and the classes' superclasses, which filling a class with fields and functions keeps.\<close>

definition same_chain :: "machine \<Rightarrow> machine \<Rightarrow> bool" where
  "same_chain m m' \<longleftrightarrow> s_modules m' = s_modules m \<and>
     List.map k_super (s_classes m') = List.map k_super (s_classes m)"

lemma same_chain_refl [simp]: "same_chain m m"
  by (simp add: same_chain_def)

lemma same_chain_trans: "same_chain m m' \<Longrightarrow> same_chain m' m'' \<Longrightarrow> same_chain m m''"
  by (simp add: same_chain_def)

lemma map_super_upd:
  assumes "\<And>x. k_super (f x) = k_super x"
  shows "List.map k_super (s_classes (upd_cls c f m)) = List.map k_super (s_classes m)"
  by (cases "c < length (s_classes m)")
     (simp_all add: upd_cls_def assms map_update list_update_same_conv list_update_beyond)

lemma upd_cls_modules: "s_modules (upd_cls c f m) = s_modules m"
  by (simp add: upd_cls_def)

lemma class_add_field_chain: "class_add_field c name m = Inr m' \<Longrightarrow> same_chain m m'"
  by (auto simp: class_add_field_def same_chain_def map_super_upd upd_cls_modules split: if_splits)

lemma class_add_function_chain: "class_add_function c name i b a m = Inr (f, m') \<Longrightarrow> same_chain m m'"
  by (auto simp: class_add_function_def same_chain_def map_super_upd upd_cls_modules new_function_def
      Let_def split: if_splits)

lemma hydrate_class_False:
  "hydrate_class e md cref m = Inr (False, m') \<Longrightarrow> m' = m \<and> \<not> ready md cref m"
  by (auto simp: hydrate_class_def ready_def has_class_def Let_def case_prod_beta andThen_eq_Inr
      split: list.splits option.splits)

lemma hydrate_class_not_ready: "\<not> ready md cref m \<Longrightarrow> hydrate_class e md cref m = Inr (False, m)"
  by (auto simp: hydrate_class_def ready_def has_class_def Let_def split: list.splits option.splits)

lemma hydrate_class_True:
  assumes "hydrate_class e md cref m = Inr (True, m')"
  obtains sc where "case cref_supers cref of [] \<Rightarrow> sc = Class_Object e
      | s # _ \<Rightarrow> module_lookup_class md s m = Some sc"
    and "same_chain (snd (module_add_class md (cref_name cref) (Some sc) m)) m'"
proof -
  obtain sc where sc: "case cref_supers cref of [] \<Rightarrow> sc = Class_Object e
      | s # _ \<Rightarrow> module_lookup_class md s m = Some sc"
    and run: "hydrate_class e md cref m =
      (let (cls, m1) = module_add_class md (cref_name cref) (Some sc) m
       in andThen (foldRes (\<lambda>fld. class_add_field cls (fld_name fld)) (kl_values (cref_fields cref)) m1)
            (\<lambda>m2. andThen (foldRes (\<lambda>f m. andThen
                 (class_add_function cls (fref_name f) (fref_index f) (fref_const f) (fref_async f) m)
                 (\<lambda>(_, m'). Inr m')) (kl_values (cref_funcs cref)) m2)
            (\<lambda>m3. Inr (True, m3))))"
  proof (cases "cref_supers cref")
    case Nil
    then show thesis by (intro that [of "Class_Object e"]) (simp_all add: hydrate_class_def)
  next
    case (Cons s ss)
    with assms obtain sc where "module_lookup_class md s m = Some sc"
      by (auto simp: hydrate_class_def split: option.splits)
    with Cons show thesis by (intro that [of sc]) (simp_all add: hydrate_class_def)
  qed
  obtain cls m1 where new: "module_add_class md (cref_name cref) (Some sc) m = (cls, m1)" by fastforce
  from assms [unfolded run new] obtain m2 where fields: "foldRes (\<lambda>fld. class_add_field cls (fld_name fld))
      (kl_values (cref_fields cref)) m1 = Inr m2"
    and funcs: "foldRes (\<lambda>f m. andThen
        (class_add_function cls (fref_name f) (fref_index f) (fref_const f) (fref_async f) m)
        (\<lambda>(_, m'). Inr m')) (kl_values (cref_funcs cref)) m2 = Inr m'"
    by (auto simp: andThen_eq_Inr)
  have "same_chain m1 m2"
    by (rule foldRes_invariant [OF fields]) (auto intro: same_chain_trans class_add_field_chain)
  moreover have "same_chain m2 m'"
    by (rule foldRes_invariant [OF funcs])
      (auto simp: andThen_eq_Inr intro: same_chain_trans class_add_function_chain)
  ultimately have "same_chain (snd (module_add_class md (cref_name cref) (Some sc) m)) m'"
    by (auto simp: new intro: same_chain_trans)
  with sc show thesis by (rule that)
qed

lemma has_class_same_chain: "same_chain m m' \<Longrightarrow> has_class md name m' = has_class md name m"
  by (simp add: has_class_def module_lookup_class_def same_chain_def)

lemma hydrate_class_makes:
  assumes "hydrate_class e md cref m = Inr (True, m')" and "md < length (s_modules m)"
  shows "has_class md name m' \<longleftrightarrow> name = cref_name cref \<or> has_class md name m"
    and "length (s_modules m') = length (s_modules m)"
proof -
  from assms(1) obtain sc where chain: "same_chain (snd (module_add_class md (cref_name cref) (Some sc) m)) m'"
    by (rule hydrate_class_True)
  show "has_class md name m' \<longleftrightarrow> name = cref_name cref \<or> has_class md name m"
    unfolding has_class_same_chain [OF chain] using assms(2)
    by (auto simp: module_add_class_def has_class_def module_lookup_class_def upd_mod_def Let_def
        split: option.splits)
  show "length (s_modules m') = length (s_modules m)"
    using chain by (auto simp: same_chain_def module_add_class_def upd_mod_def Let_def split: option.splits)
qed

text \<open>The queue hands out what was put in first.\<close>

definition fifo :: "env \<Rightarrow> bool" where
  "fifo e \<longleftrightarrow> (\<forall>x xs. en_pop e (x # xs) = (x, xs))"

lemma hydrate_queue_rotate:
  assumes "fifo e" and "\<forall>i \<in> set pre. \<not> ready md (crefs ! i) m" and "rest \<noteq> []"
  shows "hydrate_queue (length pre + n) e md crefs (pre @ rest) m = hydrate_queue n e md crefs (rest @ pre) m"
  using assms(2,3)
proof (induction pre arbitrary: rest)
  case Nil
  then show ?case by simp
next
  case (Cons i pre)
  then have "hydrate_queue (length (i # pre) + n) e md crefs ((i # pre) @ rest) m =
      hydrate_queue (length pre + n) e md crefs (pre @ (rest @ [i])) m"
    using assms(1) by (simp add: fifo_def hydrate_class_not_ready)
  also have "\<dots> = hydrate_queue n e md crefs ((rest @ [i]) @ pre) m"
    using Cons by (intro Cons.IH) auto
  finally show ?case by simp
qed

text \<open>Each class that is not queued has been made, and the queue has positions of the list.\<close>

definition queue_inv :: "mod_id \<Rightarrow> class_ref list \<Rightarrow> nat list \<Rightarrow> machine \<Rightarrow> bool" where
  "queue_inv md crefs q m \<longleftrightarrow> md < length (s_modules m) \<and> set q \<subseteq> {..<length crefs} \<and>
     (\<forall>i < length crefs. i \<notin> set q \<longrightarrow> has_class md (cref_name (crefs ! i)) m)"

text \<open>\<open>rank\<close> orders the classes of the tape such that a superclass comes before its subclasses.\<close>

definition parents_first :: "(class_ref \<Rightarrow> nat) \<Rightarrow> class_ref list \<Rightarrow> bool" where
  "parents_first rank crefs \<longleftrightarrow> (\<forall>c \<in> set crefs. \<forall>s ss. cref_supers c = s # ss \<longrightarrow>
     (\<exists>p \<in> set crefs. cref_name p = s \<and> rank p < rank c))"

lemma some_ready:
  assumes inv: "queue_inv md crefs q m" and rank: "parents_first rank crefs" and "q \<noteq> []"
  shows "\<exists>i \<in> set q. ready md (crefs ! i) m"
proof -
  obtain i where i: "i \<in> set q" and least: "\<And>j. j \<in> set q \<Longrightarrow> rank (crefs ! i) \<le> rank (crefs ! j)"
    using assms(3) ex_min_if_finite [of "(\<lambda>i. rank (crefs ! i)) ` set q"]
    by (auto simp: not_less)
  have "ready md (crefs ! i) m"
  proof (cases "cref_supers (crefs ! i)")
    case Nil
    then show ?thesis by (simp add: ready_def)
  next
    case (Cons s ss)
    moreover have "crefs ! i \<in> set crefs" using inv i by (auto simp: queue_inv_def)
    ultimately obtain j where j: "j < length crefs" "cref_name (crefs ! j) = s"
      "rank (crefs ! j) < rank (crefs ! i)"
      using rank unfolding parents_first_def by (metis in_set_conv_nth)
    then have "j \<notin> set q" using least by (meson not_less)
    then show ?thesis using inv j Cons by (auto simp: queue_inv_def ready_def)
  qed
  with i show ?thesis by blast
qed

lemma queue_inv_step:
  assumes "queue_inv md crefs q m" and "hydrate_class e md (crefs ! i) m = Inr (True, m')"
    and "i < length crefs" and "set q = insert i (set q')"
  shows "queue_inv md crefs q' m'"
  using assms hydrate_class_makes [OF assms(2)] by (auto simp: queue_inv_def)

lemma hydrate_queue_ends:
  assumes "queue_inv md crefs q m" and rank: "parents_first rank crefs" and fifo: "fifo e"
  shows "\<exists>n \<le> length q * length q. hydrate_queue n e md crefs q m \<noteq> None"
  using assms(1)
proof (induction "length q" arbitrary: q m)
  case 0
  then show ?case by simp
next
  case (Suc k)
  then have "\<exists>i \<in> set q. ready md (crefs ! i) m"
    by (intro some_ready [OF Suc.prems rank]) auto
  then obtain pre i post where q: "q = pre @ i # post" and i: "ready md (crefs ! i) m"
    and pre: "\<forall>j \<in> set pre. \<not> ready md (crefs ! j) m"
    by (elim split_list_first_propE) blast
  have rot: "hydrate_queue (length pre + n) e md crefs q m = hydrate_queue n e md crefs (i # post @ pre) m" for n
    using hydrate_queue_rotate [OF fifo pre, of "i # post" n] by (simp add: q)
  have len: "length (post @ pre) = k" "length pre \<le> k" using Suc.hyps(2) by (auto simp: q)
  show ?case
  proof (cases "hydrate_class e md (crefs ! i) m")
    case (Inl err)
    have "hydrate_queue (length pre + 1) e md crefs q m \<noteq> None"
      unfolding rot using fifo Inl by (simp add: fifo_def)
    moreover have "length pre + 1 \<le> length q * length q"
      using len(2) unfolding Suc.hyps(2) [symmetric] by simp
    ultimately show ?thesis by blast
  next
    case (Inr x)
    with i obtain m' where m': "hydrate_class e md (crefs ! i) m = Inr (True, m')"
      by (metis (full_types) hydrate_class_False prod.collapse)
    have "i < length crefs" using Suc.prems by (simp add: queue_inv_def q)
    with queue_inv_step [OF Suc.prems m', of "post @ pre"] have "queue_inv md crefs (post @ pre) m'"
      by (auto simp: q)
    with Suc.hyps(1) [of "post @ pre" m'] len(1) obtain n where
      n: "n \<le> k * k" "hydrate_queue n e md crefs (post @ pre) m' \<noteq> None" by auto
    have "hydrate_queue (length pre + Suc n) e md crefs q m \<noteq> None"
      unfolding rot using fifo m' n(2) by (simp add: fifo_def)
    moreover have "length pre + Suc n \<le> length q * length q"
      using n(1) len(2) unfolding Suc.hyps(2) [symmetric] by simp
    ultimately show ?thesis by blast
  qed
qed

lemma hydrate_pass_inv:
  assumes "foldRes (\<lambda>i (q, m). andThen (hydrate_class e md (crefs ! i) m)
       (\<lambda>(ok, m'). Inr (if ok then q else q @ [i], m'))) [0..<k] ([], m0) = Inr (q, m)"
    and "md < length (s_modules m0)"
  shows "md < length (s_modules m) \<and> set q \<subseteq> {..<k} \<and> length q \<le> k \<and>
     (\<forall>i < k. i \<notin> set q \<longrightarrow> has_class md (cref_name (crefs ! i)) m)"
  using assms(1)
proof (induction k arbitrary: q m)
  case 0
  with assms(2) show ?case by simp
next
  case (Suc k)
  then obtain q1 m1 ok where prev: "foldRes (\<lambda>i (q, m). andThen (hydrate_class e md (crefs ! i) m)
       (\<lambda>(ok, m'). Inr (if ok then q else q @ [i], m'))) [0..<k] ([], m0) = Inr (q1, m1)"
    and last: "hydrate_class e md (crefs ! k) m1 = Inr (ok, m)" and q: "q = (if ok then q1 else q1 @ [k])"
    by (auto simp: foldRes_append andThen_eq_Inr)
  note IH = Suc.IH [OF prev]
  show ?case
  proof (cases ok)
    case True
    with hydrate_class_makes [of e md "crefs ! k" m1 m] last IH show ?thesis
      by (auto simp: q less_Suc_eq)
  next
    case False
    with last have "m = m1" by (simp add: hydrate_class_False)
    with IH False show ?thesis by (auto simp: q less_Suc_eq)
  qed
qed

lemma add_functions_modules:
  assumes "foldRes (\<lambda>f m. andThen (module_add_function md (fref_name f) (fref_index f) (fref_const f)
      (fref_async f) m) (\<lambda>(_, m'). Inr m')) fs m0 = Inr m"
  shows "length (s_modules m) = length (s_modules m0) \<and> s_classes m = s_classes m0 \<and>
    m_classes (mod_at m md) = m_classes (mod_at m0 md)"
proof (rule foldRes_invariant [OF assms])
  fix f s t
  assume IH: "length (s_modules s) = length (s_modules m0) \<and> s_classes s = s_classes m0 \<and>
      m_classes (mod_at s md) = m_classes (mod_at m0 md)"
    and "andThen (module_add_function md (fref_name f) (fref_index f) (fref_const f) (fref_async f) s)
      (\<lambda>(_, m'). Inr m') = Inr t"
  then obtain g where "t = upd_mod md (\<lambda>x. x\<lparr>m_functions := kl_put (fref_name f) (fst g) (m_functions x)\<rparr>) (snd g)"
    and "s_modules (snd g) = s_modules s" "s_classes (snd g) = s_classes s"
    by (fastforce simp: module_add_function_def new_function_def andThen_eq_Inr Let_def split: if_splits)
  with IH show "length (s_modules t) = length (s_modules m0) \<and> s_classes t = s_classes m0 \<and>
      m_classes (mod_at t md) = m_classes (mod_at m0 md)"
    by (cases "md < length (s_modules s)") (simp_all add: upd_mod_def list_update_beyond)
qed simp

text \<open>C13: Loading a module ends (\<open>_modulemanager_hydrate\<close>, vm/module_manager.c). If every superclass that the
  classes of a tape name is a class of the same tape and there is no cycle, then the loop that queues a
  class again until its superclass has been made comes to an end, whatever the order of the classes on
  the tape: the square of their number is enough rounds.\<close>

theorem hydrate_terminates:
  assumes "fifo e" and "parents_first rank (tape_classes t)"
  shows "\<exists>n \<le> length (tape_classes t) * length (tape_classes t). modulemanager_hydrate n e t m \<noteq> None"
proof -
  let ?md = "length (s_modules m)" and ?crefs = "tape_classes t"
  let ?m0 = "m\<lparr>s_modules := s_modules m @ [module_init (t_module_name t) t]\<rparr>"
  let ?r = "andThen (foldRes (\<lambda>f m. andThen (module_add_function ?md (fref_name f) (fref_index f)
      (fref_const f) (fref_async f) m) (\<lambda>(_, m'). Inr m')) (tape_functions t) ?m0) (hydrate_pass e ?md ?crefs)"
  show ?thesis
  proof (cases ?r)
    case (Inl err)
    then have "modulemanager_hydrate 0 e t m \<noteq> None" by (simp add: modulemanager_hydrate_def)
    then show ?thesis by blast
  next
    case (Inr x)
    obtain q m2 where x: "x = (q, m2)" by fastforce
    with Inr obtain m1 where m1: "foldRes (\<lambda>f m. andThen (module_add_function ?md (fref_name f) (fref_index f)
      (fref_const f) (fref_async f) m) (\<lambda>(_, m'). Inr m')) (tape_functions t) ?m0 = Inr m1"
      and pass: "hydrate_pass e ?md ?crefs m1 = Inr (q, m2)" by (auto simp: andThen_eq_Inr)
    have "?md < length (s_modules m1)" using add_functions_modules [OF m1] by simp
    from hydrate_pass_inv [OF pass [unfolded hydrate_pass_def] this]
    have "queue_inv ?md ?crefs q m2" and len: "length q \<le> length ?crefs"
      by (auto simp: queue_inv_def)
    from hydrate_queue_ends [OF this(1) assms(2,1)] obtain n where
      n: "n \<le> length q * length q" "hydrate_queue n e ?md ?crefs q m2 \<noteq> None" by blast
    have "modulemanager_hydrate n e t m \<noteq> None" using Inr n(2) by (simp add: modulemanager_hydrate_def Let_def x)
    moreover have "n \<le> length ?crefs * length ?crefs" using n(1) mult_le_mono [OF len len] by simp
    ultimately show ?thesis by blast
  qed
qed

definition demo_cref :: "string \<Rightarrow> string list \<Rightarrow> class_ref" where
  "demo_cref name supers = \<lparr>cref_name = name, cref_start = 0, cref_end = Some 0, cref_funcs = [],
     cref_fields = [], cref_supers = supers\<rparr>"

definition demo_classes_tape :: "class_ref list \<Rightarrow> tape" where
  "demo_classes_tape crefs = tape_create\<lparr>t_class_refs := List.map (\<lambda>c. (cref_name c, c)) crefs\<rparr>"

lemma demo_fifo [simp]: "fifo demo_env"
  by (simp add: fifo_def demo_env_def)

theorem hydrate_terminates_witness:
  "\<exists>n \<le> 9. modulemanager_hydrate n demo_env (demo_classes_tape
     [demo_cref ''C'' [''B''], demo_cref ''B'' [''A''], demo_cref ''A'' []]) (demo_machine []) \<noteq> None"
proof -
  let ?t = "demo_classes_tape [demo_cref ''C'' [''B''], demo_cref ''B'' [''A''], demo_cref ''A'' []]"
  have "parents_first (\<lambda>c. if cref_name c = ''A'' then 0 else if cref_name c = ''B'' then 1 else 2) (tape_classes ?t)"
    by (simp add: parents_first_def demo_classes_tape_def tape_classes_def kl_values_def demo_cref_def)
  moreover have "length (tape_classes ?t) = 3"
    by (simp add: demo_classes_tape_def tape_classes_def kl_values_def)
  ultimately show ?thesis using hydrate_terminates [OF demo_fifo, of _ ?t "demo_machine []"] by fastforce
qed

subsection \<open>Superclasses are older\<close>

definition chain_ok :: "env \<Rightarrow> mod_id \<Rightarrow> machine \<Rightarrow> bool" where
  "chain_ok e md m \<longleftrightarrow> supers_ok (s_classes m) \<and> Class_Object e < length (s_classes m) \<and>
     md < length (s_modules m) \<and>
     (\<forall>name c. module_lookup_class md name m = Some c \<longrightarrow> c < length (s_classes m))"

lemma supers_ok_map: "supers_ok cs \<longleftrightarrow> (\<forall>c < length cs. \<forall>d. List.map k_super cs ! c = Some d \<longrightarrow> d < c)"
  by (simp add: supers_ok_def)

lemma chain_ok_same:
  assumes "same_chain m m'" and "chain_ok e md m"
  shows "chain_ok e md m'"
proof -
  from assms(1) have "length (s_classes m') = length (s_classes m)"
    unfolding same_chain_def by (metis length_map)
  with assms show ?thesis
    by (simp add: chain_ok_def supers_ok_map same_chain_def module_lookup_class_def del: nth_map)
qed

lemma add_class_chain:
  assumes "chain_ok e md m" and "sc < length (s_classes m)"
  shows "chain_ok e md (snd (module_add_class md name (Some sc) m))"
proof (cases "kl_lookup (m_classes (mod_at m md)) name")
  case (Some c)
  with assms(1) show ?thesis by (simp add: module_add_class_def)
next
  case None
  have "supers_ok (s_classes m @ [class_init name (Some sc) md])"
    using assms by (auto simp: chain_ok_def supers_ok_def nth_append class_init_def less_Suc_eq)
  with None assms(1) show ?thesis
    by (auto simp: module_add_class_def chain_ok_def upd_mod_def module_lookup_class_def Let_def
        less_Suc_eq split: if_splits)
qed

lemma hydrate_class_chain:
  assumes "chain_ok e md m" and "hydrate_class e md cref m = Inr (ok, m')"
  shows "chain_ok e md m'"
proof (cases ok)
  case False
  with assms show ?thesis by (auto dest: hydrate_class_False)
next
  case True
  with assms(2) obtain sc where sc: "case cref_supers cref of [] \<Rightarrow> sc = Class_Object e
      | s # _ \<Rightarrow> module_lookup_class md s m = Some sc"
    and chain: "same_chain (snd (module_add_class md (cref_name cref) (Some sc) m)) m'"
    by (auto elim: hydrate_class_True)
  have "sc < length (s_classes m)" using sc assms(1) by (auto simp: chain_ok_def split: list.splits)
  with assms(1) chain show ?thesis by (blast intro: chain_ok_same add_class_chain)
qed

lemma hydrate_queue_chain:
  assumes "hydrate_queue n e md crefs q m = Some (Inr m')" and "chain_ok e md m"
  shows "chain_ok e md m'"
  using assms
proof (induction n arbitrary: q m)
  case 0
  then show ?case by (cases q) auto
next
  case (Suc n)
  show ?case
  proof (cases q)
    case Nil
    with Suc.prems show ?thesis by simp
  next
    case (Cons i q')
    with Suc.prems(1) obtain ok m1 r where step: "hydrate_class e md (crefs ! fst (en_pop e q)) m = Inr (ok, m1)"
      and rest: "hydrate_queue n e md crefs r m1 = Some (Inr m')"
      by (auto simp: Let_def case_prod_beta split: sum.splits if_splits)
    show ?thesis by (rule Suc.IH [OF rest hydrate_class_chain [OF Suc.prems(2) step]])
  qed
qed

text \<open>C34: Loading keeps the order of classes that the walks up the superclasses rely on: if every class was made
  after its superclass and the class \<open>Object\<close> exists, the same is true after \<open>_modulemanager_hydrate\<close>
  (vm/module_manager.c, with \<open>module_add_class\<close>, entity/module/module.c) has made the classes of any
  tape; so \<open>inherits_from\<close> and \<open>class_get_function\<close> end on them.\<close>

theorem hydrate_keeps_superclass_order:
  assumes "modulemanager_hydrate n e t m = Some (Inr (md, m'))"
    and "supers_ok (s_classes m)" and "Class_Object e < length (s_classes m)"
  shows "supers_ok (s_classes m') \<and> Class_Object e < length (s_classes m')"
proof -
  let ?md = "length (s_modules m)" and ?crefs = "tape_classes t"
  let ?m0 = "m\<lparr>s_modules := s_modules m @ [module_init (t_module_name t) t]\<rparr>"
  obtain m1 q m2 where m1: "foldRes (\<lambda>f m. andThen (module_add_function ?md (fref_name f) (fref_index f)
      (fref_const f) (fref_async f) m) (\<lambda>(_, m'). Inr m')) (tape_functions t) ?m0 = Inr m1"
    and pass: "hydrate_pass e ?md ?crefs m1 = Inr (q, m2)"
    and queue: "hydrate_queue n e ?md ?crefs q m2 = Some (Inr m')"
    using assms(1) by (auto simp: modulemanager_hydrate_def Let_def andThen_eq_Inr split: sum.splits)
  have "chain_ok e ?md m1"
    using add_functions_modules [OF m1] assms(2,3)
    by (auto simp: chain_ok_def module_lookup_class_def module_init_def)
  then have "chain_ok e ?md (snd ([] :: nat list, m1))" by simp
  then have "chain_ok e ?md (snd (q, m2))"
    by (rule foldRes_invariant [OF pass [unfolded hydrate_pass_def]])
      (auto simp: andThen_eq_Inr dest: hydrate_class_chain)
  with hydrate_queue_chain [OF queue] show ?thesis by (simp add: chain_ok_def)
qed

theorem hydrate_keeps_superclass_order_witness:
  "case modulemanager_hydrate 9 demo_env (demo_classes_tape [demo_cref ''B'' [''A''], demo_cref ''A'' []])
     (demo_machine []) of Some (Inr (md, m')) \<Rightarrow> supers_ok (s_classes m') | _ \<Rightarrow> False"
proof -
  let ?run = "modulemanager_hydrate 9 demo_env (demo_classes_tape [demo_cref ''B'' [''A''], demo_cref ''A'' []])
     (demo_machine [])"
  have "case ?run of Some (Inr x) \<Rightarrow> True | _ \<Rightarrow> False" by code_simp
  then obtain md m' where run: "?run = Some (Inr (md, m'))"
    by (auto split: option.splits sum.splits)
  have "Class_Object demo_env < length (s_classes (demo_machine []))" by code_simp
  from hydrate_keeps_superclass_order [OF run demo_supers_ok this] show ?thesis by (simp add: run)
qed

subsection \<open>A superclass that is not there\<close>

lemma hydrate_queue_stuck:
  assumes "\<forall>i \<in> set q. \<not> ready md (crefs ! i) m" and "q \<noteq> []" and "fifo e"
  shows "hydrate_queue n e md crefs q m = None"
  using assms(1,2)
proof (induction n arbitrary: q)
  case 0
  then show ?case by (cases q) auto
next
  case (Suc n)
  then obtain i q' where q: "q = i # q'" by (cases q) auto
  with Suc.prems assms(3) have "hydrate_queue (Suc n) e md crefs q m = hydrate_queue n e md crefs (q' @ [i]) m"
    by (simp add: fifo_def hydrate_class_not_ready)
  then show ?case using Suc.prems q by (simp add: Suc.IH)
qed

text \<open>Loading never ends when a superclass is missing: if the only class of a tape extends a class that
  the tape does not define, as a class of another module or of the builtin module, the loop of
  \<open>_modulemanager_hydrate\<close> (vm/module_manager.c) dequeues and enqueues it forever; no number of rounds is
  enough, although the class is well formed.\<close>

theorem hydrate_missing_super_loops:
  assumes "fifo e" and "tape_classes t = [cref]" and "tape_functions t = []"
    and "cref_supers cref = s # ss"
  shows "modulemanager_hydrate n e t m = None"
proof -
  let ?md = "length (s_modules m)"
  let ?m0 = "m\<lparr>s_modules := s_modules m @ [module_init (t_module_name t) t]\<rparr>"
  have nr: "\<not> ready ?md cref ?m0"
    using assms(4) by (simp add: ready_def has_class_def module_lookup_class_def module_init_def)
  then have "hydrate_pass e ?md [cref] ?m0 = Inr ([0], ?m0)"
    by (simp add: hydrate_pass_def hydrate_class_not_ready)
  moreover have "hydrate_queue n e ?md [cref] [0] ?m0 = None"
    by (rule hydrate_queue_stuck) (use nr assms(1) in simp_all)
  ultimately show ?thesis
    using assms(2,3) by (simp add: modulemanager_hydrate_def)
qed

theorem hydrate_missing_super_loops_witness:
  "modulemanager_hydrate 1000 demo_env (demo_classes_tape [demo_cref ''MyError'' [''Error'']]) (demo_machine []) = None"
  by (rule hydrate_missing_super_loops [where cref = "demo_cref ''MyError'' [''Error'']" and s = "''Error''" and ss = "[]"])
     (simp_all add: demo_classes_tape_def tape_classes_def tape_functions_def kl_values_def demo_cref_def
       tape_create_def)

end
