(* ===== verification/HeapFacts.thy ===== *)
theory HeapFacts imports ClassFacts begin

text \<open>
  The heap over any sequence of its operations: the memory graph's account of edges is exact as long as
  no object in a tuple is overwritten; \<open>tuple_set\<close> on such a slot is the one operation that spoils it.
\<close>

subsection \<open>Sequences of heap operations\<close>

text \<open>The operations of heap/heap.c, and the creation of a tuple as the interpreter does it.\<close>

inductive heap_step :: "env \<Rightarrow> machine \<Rightarrow> machine \<Rightarrow> bool" for e where
  create: "c < length (s_classes m) \<Longrightarrow> heap_step e m (snd (heap_new c m))"
| create_tuple: "Class_Tuple e < length (s_classes m) \<Longrightarrow> heap_new (Class_Tuple e) m = (x, m1) \<Longrightarrow>
    heap_step e m (set_internal x (tuple_create e n) m1)"
| member: "p < length (s_objects m) \<Longrightarrow> heap_step e m (object_set_member p k v m)"
| member_obj: "p < length (s_objects m) \<Longrightarrow> heap_step e m (object_set_member_obj p k x m)"
| add: "p < length (s_objects m) \<Longrightarrow> array_add p v m = Inr m' \<Longrightarrow> heap_step e m m'"
| set: "p < length (s_objects m) \<Longrightarrow> array_set e p i v m = Inr m' \<Longrightarrow> heap_step e m m'"
| tuple: "p < length (s_objects m) \<Longrightarrow> tuple_set p i v m = Inr m' \<Longrightarrow>
    tuple_get p (nat (sint i)) m = Inr old \<Longrightarrow> etype old \<noteq> ET_OBJECT \<Longrightarrow> heap_step e m m'"

fun edge_parent :: "edge \<Rightarrow> obj_id" where
  "edge_parent (Inc p c) = p"
| "edge_parent (Dec p c) = p"

definition classes_ok :: "machine \<Rightarrow> bool" where
  "classes_ok m \<longleftrightarrow> (\<forall>c \<in> set (s_classes m). case k_init c of None \<Rightarrow> True | Some i \<Rightarrow> slots i = [])"

definition parents_ok :: "machine \<Rightarrow> bool" where
  "parents_ok m \<longleftrightarrow> (\<forall>d \<in> set (s_edges m). edge_parent d < length (s_objects m))"

definition heap_ok :: "machine \<Rightarrow> bool" where
  "heap_ok m \<longleftrightarrow> edges_ok m \<and> classes_ok m \<and> parents_ok m"

lemma edge_count_fresh:
  assumes "\<forall>d \<in> set es. edge_parent d < n"
  shows "edge_count n c es = 0"
proof -
  have "Inc n c \<notin> set es" "Dec n c \<notin> set es" using assms by force+
  then show ?thesis by (simp add: edge_count_def)
qed

lemma classes_okD: "classes_ok m \<Longrightarrow> c < length (s_classes m) \<Longrightarrow>
    case k_init (cls_at m c) of None \<Rightarrow> True | Some i \<Rightarrow> slots i = []"
  by (simp add: classes_ok_def)

lemma classes_ok_cong: "s_classes m' = s_classes m \<Longrightarrow> classes_ok m' = classes_ok m"
  by (simp add: classes_ok_def)

lemma parents_ok_inc_new [intro]: "parents_ok m \<Longrightarrow> p < length (s_objects m) \<Longrightarrow> parents_ok (inc_new p v m)"
  by (cases v) (simp_all add: parents_ok_def inc_new_def)

lemma parents_ok_dec_old [intro]: "parents_ok m \<Longrightarrow> p < length (s_objects m) \<Longrightarrow> parents_ok (dec_old p old m)"
  by (auto simp: parents_ok_def dec_old_def split: option.split entity.split)

lemma parents_ok_upd_obj [simp]: "parents_ok (upd_obj p f m) = parents_ok m"
  by (simp add: parents_ok_def)

lemma parents_ok_set_internal [simp]: "parents_ok (set_internal p i m) = parents_ok m"
  by (simp add: set_internal_def)

lemma parents_ok_new: "parents_ok m \<Longrightarrow> parents_ok (snd (heap_new c m))"
  by (auto simp: parents_ok_def less_Suc_eq)

lemma parents_ok_set_member:
  "parents_ok m \<Longrightarrow> p < length (s_objects m) \<Longrightarrow> parents_ok (object_set_member p k v m)"
  unfolding object_set_member_def Let_def parents_ok_upd_obj by (intro parents_ok_inc_new parents_ok_dec_old) simp_all

text \<open>A new object whose internal object is replaced by one without objects in it.\<close>

lemma edges_ok_fresh_internal:
  assumes ok: "edges_ok (snd (heap_new c m))" and fresh: "\<And>x. edge_count (length (s_objects m)) x (s_edges m) = 0"
    and slots: "\<forall>y \<in> set (slots i). etype y \<noteq> ET_OBJECT"
  shows "edges_ok (set_internal (length (s_objects m)) i (snd (heap_new c m)))"
  unfolding edges_ok_def
proof (intro allI impI)
  fix q
  let ?m = "set_internal (length (s_objects m)) i (snd (heap_new c m))"
  assume q: "q < length (s_objects ?m)" "q \<noteq> s_reflection ?m"
  show "edges_at q ?m"
  proof (cases "q = length (s_objects m)")
    case True
    have "count_list (slots i) (EObj x) = 0" for x using count_nonobjects [OF slots] .
    with True fresh show ?thesis
      by (simp add: edges_at_def children_def set_internal_objects object_create_def count_mset)
  next
    case False
    with q ok show ?thesis
      by (simp add: edges_ok_def edges_at_def set_internal_objects nth_append)
  qed
qed

lemma heap_step_ok:
  assumes "heap_step e m m'" and ok: "heap_ok m" and "grows e" and raw: "etype (en_raw_slot e) \<noteq> ET_OBJECT"
  shows "heap_ok m'"
proof -
  have e: "edges_ok m" and c: "classes_ok m" and p: "parents_ok m" using ok by (simp_all add: heap_ok_def)
  have fresh: "edge_count (length (s_objects m)) x (s_edges m) = 0" for x
    using p by (simp add: parents_ok_def edge_count_fresh)
  have new: "edges_ok (snd (heap_new k m))" if "k < length (s_classes m)" for k
    by (rule edges_ok_new [OF e fresh classes_okD [OF c that]])
  show ?thesis
    using assms(1)
  proof cases
    case (create k)
    then show ?thesis
      using new c parents_ok_new [OF p] by (simp add: heap_ok_def classes_ok_def)
  next
    case (create_tuple x m1 n)
    then have x: "x = length (s_objects m)" "m1 = snd (heap_new (Class_Tuple e) m)"
      by (simp_all add: heap_new_def)
    have "edges_ok m'"
      unfolding create_tuple(1) x using fresh raw new [OF create_tuple(2)]
      by (intro edges_ok_fresh_internal) (auto simp: tuple_create_def)
    then show ?thesis
      using c parents_ok_new [OF p] by (simp add: heap_ok_def create_tuple(1) x classes_ok_def)
  next
    case (member q k v)
    then show ?thesis
      using edges_ok_set_member [OF e] parents_ok_set_member [OF p] c
      by (simp add: heap_ok_def classes_ok_def)
  next
    case (member_obj q k x)
    then show ?thesis
      using edges_ok_set_member [OF e] parents_ok_set_member [OF p] c
      by (simp add: heap_ok_def classes_ok_def object_set_member_obj_eq)
  next
    case (add q v)
    then have "parents_ok m'" "s_classes m' = s_classes m"
      using p by (auto simp: array_add_def andThen_eq_Inr)
    with add c edges_ok_array_add [OF e add] show ?thesis by (simp add: heap_ok_def classes_ok_def)
  next
    case (set q i v)
    then have "parents_ok m'" "s_classes m' = s_classes m"
      using p by (auto simp: array_set_def andThen_eq_Inr assert_that_eq_Inr Let_def intro!: parents_ok_inc_new)
    with c edges_ok_array_set [OF e set assms(3)] show ?thesis by (simp add: heap_ok_def classes_ok_def)
  next
    case (tuple q i v old)
    then have "parents_ok m'" "s_classes m' = s_classes m"
      using p by (auto simp: tuple_set_def tuple_put_def andThen_eq_Inr assert_that_eq_Inr)
    with c edges_ok_tuple_set [OF e tuple] show ?thesis by (simp add: heap_ok_def classes_ok_def)
  qed
qed


definition demo_heap :: machine where
  "demo_heap = (demo_machine [])\<lparr>s_objects := [], s_reflection := 99\<rparr>"

lemma demo_grows: "grows demo_env" "etype (en_raw_slot demo_env) \<noteq> ET_OBJECT"
proof -
  have "\<exists>ys. xs @ replicate (Suc i - length xs) ENone = xs @ ys \<and> i < length xs + length ys \<and>
      (\<forall>y \<in> set ys. etype y \<noteq> ET_OBJECT)" for xs and i :: nat
    by (rule exI [of _ "replicate (Suc i - length xs) ENone"]) auto
  then show "grows demo_env" by (simp add: grows_def demo_env_def)
qed (simp add: demo_env_def)

lemma demo_heap_ok: "s_objects demo_heap = []" "s_edges demo_heap = []" "classes_ok demo_heap"
  by (auto simp: demo_heap_def demo_machine_def classes_ok_def demo_classes_def demo_class_def
      class_init_def future_init_def)

definition demo_heap_run :: machine where
  "demo_heap_run = object_set_member 0 ''f'' (EObj 1) (snd (heap_new 0 (snd (heap_new 0 demo_heap))))"

lemma demo_heap_steps: "(heap_step demo_env)\<^sup>*\<^sup>* demo_heap demo_heap_run"
proof -
  have "heap_step demo_env demo_heap (snd (heap_new 0 demo_heap))"
    by (rule heap_step.create) (simp add: demo_heap_def demo_machine_def demo_classes_def)
  moreover have "heap_step demo_env (snd (heap_new 0 demo_heap)) (snd (heap_new 0 (snd (heap_new 0 demo_heap))))"
    by (rule heap_step.create) (simp add: demo_heap_def demo_machine_def demo_classes_def)
  moreover have "heap_step demo_env (snd (heap_new 0 (snd (heap_new 0 demo_heap)))) demo_heap_run"
    unfolding demo_heap_run_def by (rule heap_step.member) simp
  ultimately show ?thesis by (meson rtranclp.rtrancl_into_rtrancl rtranclp.rtrancl_refl)
qed


text \<open>\<open>tuple_set\<close> (heap/heap.c) leaks: it tells the memory graph of the object it stores but not of the object it
  overwrites. After it has replaced an object \<open>c\<close> in a tuple whose account was exact, the graph counts
  one edge from the tuple to \<open>c\<close> more than the tuple has references, and \<open>c\<close> stays alive as long as the
  tuple does.\<close>

theorem tuple_overwrite_leaks:
  assumes "edges_at p m" and "p < length (s_objects m)" and "tuple_set p i x m = Inr m'"
    and "tuple_get p (nat (sint i)) m = Inr (EObj c)"
  shows "edge_count p c (s_edges m') = int (count (children (obj_at m' p)) (EObj c)) + 1"
  by (rule tuple_set_leaks [OF assms])

definition demo_tuple :: machine where
  "demo_tuple = demo_heap\<lparr>s_objects := [demo_object 7 (ITuple [EObj 1]), demo_object 0 INull],
     s_edges := [Inc 0 1]\<rparr>"

theorem tuple_overwrite_leaks_witness:
  "\<exists>m'. tuple_set 0 0 ENone demo_tuple = Inr m' \<and>
     edge_count 0 1 (s_edges m') = int (count (children (obj_at m' 0)) (EObj 1)) + 1"
proof -
  have "tuple_get 0 0 demo_tuple = Inr (EObj 1)" by code_simp
  moreover have "case tuple_set 0 0 ENone demo_tuple of Inr m' \<Rightarrow> True | _ \<Rightarrow> False" by code_simp
  then obtain m' where "tuple_set 0 0 ENone demo_tuple = Inr m'" by (auto split: sum.splits)
  moreover have "edges_at 0 demo_tuple"
    by (auto simp: edges_at_def demo_tuple_def edge_count_def children_def demo_object_def kl_values_def)
  moreover have "0 < length (s_objects demo_tuple)" by (simp add: demo_tuple_def)
  ultimately show ?thesis using tuple_overwrite_leaks [of 0 demo_tuple 0 ENone m' 1] by simp
qed

end
