(* ===== verification/ContextFacts.thy ===== *)
theory ContextFacts imports HeapFacts begin

text \<open>
  Variables and handlers: a variable that was written reads back what was written, whatever scope it is
  found in, and an error is taken to the nearest context that has a handler.
\<close>

subsection \<open>Reading back a variable\<close>

text \<open>The objects that hold the variables of a context exist, and so does the context around it.\<close>

definition scopes_ok :: "machine \<Rightarrow> bool" where
  "scopes_ok m \<longleftrightarrow> (\<forall>x \<in> set (s_contexts m). x_member_obj x < length (s_objects m) \<and>
     x_self x < length (s_objects m) \<and> (\<forall>p. x_previous x = Some p \<longrightarrow> p < length (s_contexts m)))"

lemma scopes_okD:
  assumes "scopes_ok m" and "c < length (s_contexts m)"
  shows "x_member_obj (ctx_at m c) < length (s_objects m)" and "x_self (ctx_at m c) < length (s_objects m)"
    and "x_previous (ctx_at m c) = Some p \<Longrightarrow> p < length (s_contexts m)"
  using assms by (auto simp: scopes_ok_def)

lemma enclosing_None:
  assumes "enclosing n pc name m = Inr None" and "object_get q name m \<noteq> None" and "q < length (s_objects m)"
  shows "enclosing n pc name (object_set_member q name v m) = Inr None"
  using assms(1)
proof (induction n arbitrary: pc)
  case 0
  then show ?case by (cases pc) auto
next
  case (Suc n)
  show ?case
  proof (cases pc)
    case (Some c)
    with Suc.prems have "object_get (x_member_obj (ctx_at m c)) name m = None"
      and "enclosing n (x_previous (ctx_at m c)) name m = Inr None"
      by (auto split: option.splits)
    with Some assms(2) show ?thesis
      by (auto simp: members.look_store [OF assms(3)] Suc.IH)
  qed simp
qed

lemma enclosing_Some:
  assumes "scopes_ok m" and "\<And>c. pc = Some c \<Longrightarrow> c < length (s_contexts m)"
    and "enclosing n pc name m = Inr (Some (c, old))"
  shows "object_get (x_member_obj (ctx_at m c)) name m = Some old"
    and "x_member_obj (ctx_at m c) < length (s_objects m)"
    and "enclosing n pc name (object_set_member (x_member_obj (ctx_at m c)) name v m) = Inr (Some (c, v))"
proof -
  have "object_get (x_member_obj (ctx_at m c)) name m = Some old \<and>
      x_member_obj (ctx_at m c) < length (s_objects m) \<and>
      enclosing n pc name (object_set_member (x_member_obj (ctx_at m c)) name v m) = Inr (Some (c, v))"
    using assms(2,3)
  proof (induction n arbitrary: pc)
    case 0
    then show ?case by (cases pc) auto
  next
    case (Suc n)
    then obtain d where pc: "pc = Some d" by (cases pc) auto
    note d = scopes_okD [OF assms(1) Suc.prems(1) [OF pc]]
    show ?case
    proof (cases "object_get (x_member_obj (ctx_at m d)) name m")
      case (Some w)
      with Suc.prems pc d show ?thesis by (auto simp: members.look_store)
    next
      case None
      with Suc.prems(2) pc have "enclosing n (x_previous (ctx_at m d)) name m = Inr (Some (c, old))" by simp
      from Suc.IH [OF d(3) this] None pc show ?thesis
        by (auto simp: members.look_store)
    qed
  qed
  then show "object_get (x_member_obj (ctx_at m c)) name m = Some old"
    and "x_member_obj (ctx_at m c) < length (s_objects m)"
    and "enclosing n pc name (object_set_member (x_member_obj (ctx_at m c)) name v m) = Inr (Some (c, v))"
    by blast+
qed

lemma class_of_set_member: "p < length (s_objects m) \<Longrightarrow> class_of (object_set_member p k v m) x = class_of m x"
  by (simp add: obj_at_object_set_member)

text \<open>C10: A variable reads back what was written (\<open>context_set\<close> and \<open>context_lookup\<close>, vm/process/context.c). After
  \<open>SET\<close>, a lookup of the same name in the same context finds the value, changes nothing, and does so
  whether the variable lives in the context itself, in an enclosing one, in \<open>self\<close>, or is new; no other
  entry of any object is changed. The name \<open>self\<close> is excluded, which always reads the object, and so is a
  \<open>Function\<close> value, which a lookup in \<open>self\<close> may wrap.\<close>

theorem set_then_lookup:
  assumes "scopes_ok m" and "ctx < length (s_contexts m)" and "name \<noteq> ''self''"
    and "case v of EObj x \<Rightarrow> class_of m x \<noteq> Class_Function e | _ \<Rightarrow> True"
    and "context_set ctx name v m = Inr m'"
  shows "context_lookup e ctx name m' = Inr (Some v, m') \<and>
     (\<exists>p. \<forall>q k. (q, k) \<noteq> (p, name) \<longrightarrow> object_get q k m' = object_get q k m)"
proof -
  let ?own = "x_member_obj (ctx_at m ctx)" and ?self = "x_self (ctx_at m ctx)"
  note own = scopes_okD [OF assms(1,2)]
  have plain: "self_member e ctx v (object_set_member q name v m) = Inr (v, object_set_member q name v m)"
    if "q < length (s_objects m)" for q
    using assms(4) that by (auto simp: self_member_def class_of_set_member split: entity.splits)
  have others: "\<exists>p. \<forall>q k. (q, k) \<noteq> (p, name) \<longrightarrow>
      object_get q k (object_set_member p' name v m) = object_get q k m"
    if "p' < length (s_objects m)" for p'
    by (rule exI [of _ p']) (auto simp: members.look_store [OF that])
  show ?thesis
  proof (cases "object_get ?own name m")
    case (Some w)
    with assms(5) have m': "m' = object_set_member ?own name v m" by (simp add: context_set_def)
    show ?thesis
      using assms(3) others [OF own(1)] by (simp add: m' context_lookup_def members.look_store [OF own(1)])
  next
    case None
    then obtain found where found: "enclosing (length (s_contexts m)) (x_previous (ctx_at m ctx)) name m = Inr found"
      using assms(5) by (auto simp: context_set_def andThen_eq_Inr)
    have rest: "m' = (case found of Some (c, old) \<Rightarrow> object_set_member (x_member_obj (ctx_at m c)) name v m
         | None \<Rightarrow> if object_get ?self name m \<noteq> None then object_set_member ?self name v m
                   else object_set_member ?own name v m)"
      using assms(5) None found by (auto simp: context_set_def split: option.splits if_splits)
    show ?thesis
    proof (cases found)
      case (Some r)
      obtain c old where r: "r = (c, old)" by fastforce
      note enc = enclosing_Some [OF assms(1) own(3) found [unfolded Some r]]
      have m': "m' = object_set_member (x_member_obj (ctx_at m c)) name v m" using rest by (simp add: Some r)
      have "x_member_obj (ctx_at m c) \<noteq> ?own" using None enc(1) by auto
      then show ?thesis
        using assms(3) None enc(3) others [OF enc(2)]
        by (simp add: m' context_lookup_def members.look_store [OF enc(2)])
    next
      case none: None
      show ?thesis
      proof (cases "object_get ?self name m")
        case (Some w)
        have m': "m' = object_set_member ?self name v m" using rest by (simp add: none Some)
        have "?self \<noteq> ?own" using None Some by auto
        moreover have "enclosing (length (s_contexts m)) (x_previous (ctx_at m ctx)) name m' = Inr None"
          unfolding m' using found [unfolded none] Some own(2) by (intro enclosing_None) auto
        ultimately show ?thesis
          using assms(3) None others [OF own(2)] plain [OF own(2)]
          by (simp add: m' context_lookup_def members.look_store [OF own(2)])
      next
        case nowhere: None
        have m': "m' = object_set_member ?own name v m" using rest by (simp add: none nowhere)
        show ?thesis
          using assms(3) others [OF own(1)] by (simp add: m' context_lookup_def members.look_store [OF own(1)])
      qed
    qed
  qed
qed

lemma demo_scopes: "scopes_ok (demo_start [])" "0 < length (s_contexts (demo_start []))"
  by (simp_all add: scopes_ok_def demo_start_def run_start_def process_create_task_def
      task_create_context_def process_create_unqueued_task_def task_add_reflection_def heap_inc_edge_def
      Let_def case_prod_beta process_enqueue_task_def context_init_def demo_machine_def task_init_def)

theorem set_then_lookup_witness:
  "case context_set 0 ''x'' (EPrim (PInt 7)) (demo_start []) of
     Inr m' \<Rightarrow> context_lookup demo_env 0 ''x'' m' = Inr (Some (EPrim (PInt 7)), m') | _ \<Rightarrow> False"
proof -
  have "case context_set 0 ''x'' (EPrim (PInt 7)) (demo_start []) of Inr m' \<Rightarrow> True | _ \<Rightarrow> False"
    by code_simp
  then obtain m' where m': "context_set 0 ''x'' (EPrim (PInt 7)) (demo_start []) = Inr m'"
    by (auto split: sum.splits)
  from set_then_lookup [OF demo_scopes _ _ m', of demo_env] show ?thesis by (simp add: m')
qed

subsection \<open>The nearest handler\<close>

definition has_handler :: "machine \<Rightarrow> ctx_id \<Rightarrow> bool" where
  "has_handler m c \<longleftrightarrow> 0 \<le> sint (x_catch_ins (ctx_at m c))"

lemma context_chain_cong:
  "(\<And>c. x_previous (ctx_at m' c) = x_previous (ctx_at m c)) \<Longrightarrow> context_chain n m' pc = context_chain n m pc"
  by (induction n m pc rule: context_chain.induct) auto

lemma back_context:
  assumes "a_current (task_at m t) = Some c" and "t < length (s_tasks m)"
  obtains m1 where "task_back_context t m = Inr (x_previous (ctx_at m c), m1)"
    and "a_current (task_at m1 t) = x_previous (ctx_at m c)" and "length (s_tasks m1) = length (s_tasks m)"
    and "length (s_contexts m1) = length (s_contexts m)"
    and "\<And>d. x_previous (ctx_at m1 d) = x_previous (ctx_at m d)"
    and "\<And>d. x_catch_ins (ctx_at m1 d) = x_catch_ins (ctx_at m d)"
proof (cases "x_previous (ctx_at m c)")
  case None
  show thesis
    by (rule that [of "upd_task t (\<lambda>x. x\<lparr>a_current := None\<rparr>) m"])
      (use assms None in \<open>simp_all add: task_back_context_def Let_def\<close>)
next
  case (Some p)
  let ?m = "upd_ctx p (\<lambda>x. x\<lparr>x_ins := x_ins (ctx_at m c)\<rparr>) (upd_task t (\<lambda>x. x\<lparr>a_current := Some p\<rparr>) m)"
  have same: "x_previous (ctx_at ?m d) = x_previous (ctx_at m d)" "x_catch_ins (ctx_at ?m d) = x_catch_ins (ctx_at m d)" for d
    by (cases "p < length (s_contexts m)"; cases "d = p"; simp add: upd_ctx_def list_update_beyond)+
  show thesis
    by (rule that [of ?m]) (use assms Some same in \<open>simp_all add: task_back_context_def Let_def\<close>)
qed

lemma attemp_catch_error_nearest_aux:
  assumes "context_chain n m (Some c) = Inr cs" and "length cs \<le> Suc k"
    and "a_current (task_at m t) = Some c" and "t < length (s_tasks m)" and "set cs \<subseteq> {..<length (s_contexts m)}"
  shows "case find (has_handler m) cs of
     None \<Rightarrow> \<exists>m'. attemp_catch_error k t c m = Inr (False, m') \<and> a_state (task_at m' t) = TASK_ERROR \<and>
       a_current (task_at m' t) = None
   | Some h \<Rightarrow> \<exists>m'. attemp_catch_error k t c m = Inr (True, m') \<and> a_current (task_at m' t) = Some h \<and>
       x_ins (ctx_at m' h) = x_catch_ins (ctx_at m h) \<and> x_error (ctx_at m' h) = None \<and> \<not> has_handler m' h"
  using assms
proof (induction k arbitrary: n c m cs)
  case 0
  then obtain n' where n: "n = Suc n'" by (cases n) auto
  with 0 obtain ds where "context_chain n' m (x_previous (ctx_at m c)) = Inr ds" "cs = c # ds"
    by (auto simp: andThen_eq_Inr)
  with 0 have cs: "cs = [c]" and prev: "x_previous (ctx_at m c) = None"
    by (cases n'; cases "x_previous (ctx_at m c)"; auto simp: andThen_eq_Inr)+
  obtain m1 where m1: "task_back_context t m = Inr (None, m1)" "a_current (task_at m1 t) = None"
    "length (s_tasks m1) = length (s_tasks m)"
    using back_context [OF 0(3,4)] prev by metis
  show ?case
  proof (cases "has_handler m c")
    case True
    with 0 show ?thesis by (simp add: cs has_handler_def attemp_catch_error.simps)
  next
    case False
    with m1 0 show ?thesis by (simp add: cs has_handler_def attemp_catch_error.simps not_le)
  qed
next
  case (Suc k)
  then obtain n' where n: "n = Suc n'" by (cases n) auto
  with Suc.prems obtain ds where ds: "context_chain n' m (x_previous (ctx_at m c)) = Inr ds" and cs: "cs = c # ds"
    by (auto simp: andThen_eq_Inr)
  show ?case
  proof (cases "has_handler m c")
    case True
    with Suc.prems show ?thesis by (simp add: cs has_handler_def attemp_catch_error.simps)
  next
    case False
    obtain m1 where m1: "task_back_context t m = Inr (x_previous (ctx_at m c), m1)"
      "a_current (task_at m1 t) = x_previous (ctx_at m c)" "length (s_tasks m1) = length (s_tasks m)"
      "length (s_contexts m1) = length (s_contexts m)"
      and same: "\<And>d. x_previous (ctx_at m1 d) = x_previous (ctx_at m d)"
        "\<And>d. x_catch_ins (ctx_at m1 d) = x_catch_ins (ctx_at m d)"
      by (rule back_context [OF Suc.prems(3,4)]) blast
    show ?thesis
    proof (cases "x_previous (ctx_at m c)")
      case None
      with ds False m1 Suc.prems show ?thesis
        by (simp add: cs has_handler_def attemp_catch_error.simps not_le)
    next
      case (Some p)
      have handler: "has_handler m1 = has_handler m" by (rule ext) (simp add: has_handler_def same)
      have "context_chain n' m1 (Some p) = Inr ds"
        using ds Some context_chain_cong [OF same(1)] by simp
      from Suc.IH [OF this] Suc.prems m1 Some
      have "case find (has_handler m1) ds of
         None \<Rightarrow> \<exists>m'. attemp_catch_error k t p m1 = Inr (False, m') \<and> a_state (task_at m' t) = TASK_ERROR \<and>
           a_current (task_at m' t) = None
       | Some h \<Rightarrow> \<exists>m'. attemp_catch_error k t p m1 = Inr (True, m') \<and> a_current (task_at m' t) = Some h \<and>
           x_ins (ctx_at m' h) = x_catch_ins (ctx_at m1 h) \<and> x_error (ctx_at m' h) = None \<and> \<not> has_handler m' h"
        by (simp add: cs)
      moreover have step: "attemp_catch_error (Suc k) t c m = attemp_catch_error k t p m1"
        using False m1 Some by (simp add: has_handler_def attemp_catch_error.simps [of "Suc k"])
      moreover have find: "find (has_handler m) cs = find (has_handler m) ds" using False by (simp add: cs)
      ultimately show ?thesis unfolding handler same step find by blast
    qed
  qed
qed

text \<open>C11: An error goes to the nearest handler (\<open>_attemp_catch_error\<close>, vm/virtual_machine.c). Along the contexts of a
  task from the current one outwards, the first that has a handler becomes the task's current context,
  positioned at its handler, without error and without handler, so an error in the handler goes further
  out; if there is none, the task ends in the state \<open>TASK_ERROR\<close> with no context left. The walk ends
  within as many steps as there are contexts.\<close>

theorem attemp_catch_error_nearest:
  assumes "context_chain n m (a_current (task_at m t)) = Inr (c # cs)" and "t < length (s_tasks m)"
    and "length (c # cs) \<le> length (s_contexts m)" and "set (c # cs) \<subseteq> {..<length (s_contexts m)}"
  shows "case find (has_handler m) (c # cs) of
     None \<Rightarrow> \<exists>m'. attemp_catch_error (length (s_contexts m)) t c m = Inr (False, m') \<and>
       a_state (task_at m' t) = TASK_ERROR \<and> a_current (task_at m' t) = None
   | Some h \<Rightarrow> \<exists>m'. attemp_catch_error (length (s_contexts m)) t c m = Inr (True, m') \<and>
       a_current (task_at m' t) = Some h \<and> x_ins (ctx_at m' h) = x_catch_ins (ctx_at m h) \<and>
       x_error (ctx_at m' h) = None \<and> \<not> has_handler m' h"
proof -
  have cur: "a_current (task_at m t) = Some c"
    using assms(1) by (cases n; cases "a_current (task_at m t)") (auto simp: andThen_eq_Inr)
  show ?thesis
    by (rule attemp_catch_error_nearest_aux [OF assms(1) [unfolded cur]]) (use assms cur in simp_all)
qed

text \<open>A program with a handler that raises the error the variable \<open>e\<close> holds: directly, or in a nested block.\<close>

definition demo_raise :: "instruction list" where
  "demo_raise = [for_op NBLK, \<lparr>ins_op = CTCH, ins_arg = PrimArg (PInt 3)\<rparr>,
     \<lparr>ins_op = RES, ins_arg = IdArg ''e''\<rparr>, for_op RAIS, \<lparr>ins_op = JMP, ins_arg = PrimArg (PInt 1)\<rparr>,
     \<lparr>ins_op = RES, ins_arg = PrimArg (PInt 42)\<rparr>, for_op BBLK, for_op RET]"

definition demo_raise_nested :: "instruction list" where
  "demo_raise_nested = [for_op NBLK, \<lparr>ins_op = CTCH, ins_arg = PrimArg (PInt 6)\<rparr>, for_op NBLK,
     \<lparr>ins_op = RES, ins_arg = IdArg ''e''\<rparr>, for_op RAIS, \<lparr>ins_op = RES, ins_arg = PrimArg (PInt 5)\<rparr>,
     for_op BBLK, \<lparr>ins_op = JMP, ins_arg = PrimArg (PInt 1)\<rparr>,
     \<lparr>ins_op = RES, ins_arg = PrimArg (PInt 42)\<rparr>, for_op BBLK, for_op RET]"

definition demo_error_start :: "instruction list \<Rightarrow> machine" where
  "demo_error_start code = object_set_member 1 ''e'' (EObj 3) (demo_start code)"

text \<open>The machine in the middle of a block that has a handler.\<close>

definition demo_in_block :: machine where
  "demo_in_block = (case andThen (execute_CTCH 1 (PrimArg (PInt 3)) (snd (task_create_context demo_env 0 1 1 1
       (demo_error_start demo_raise)))) (\<lambda>m. Inr (snd (task_create_context demo_env 0 1 1 2 m)))
     of Inr m \<Rightarrow> m | Inl _ \<Rightarrow> demo_start demo_raise)"

theorem attemp_catch_error_nearest_witness:
  "\<exists>m' :: machine. attemp_catch_error (length (s_contexts demo_in_block)) 0 2 demo_in_block = Inr (True, m') \<and>
     a_current (task_at m' 0) = Some 1"
proof -
  have chain: "context_chain 3 demo_in_block (a_current (task_at demo_in_block 0)) = Inr [2, 1, 0]" by code_simp
  have "0 < length (s_tasks demo_in_block)" by code_simp
  moreover have len: "length (s_contexts demo_in_block) = 3" by code_simp
  moreover have "\<not> 0 \<le> sint (x_catch_ins (ctx_at demo_in_block 2))" "0 \<le> sint (x_catch_ins (ctx_at demo_in_block 1))"
    by code_simp+
  ultimately show ?thesis
    using attemp_catch_error_nearest [OF chain] by (auto simp: has_handler_def)
qed


end
