(* ===== verification/TypeFacts.thy ===== *)
theory TypeFacts imports ContextFacts begin

text \<open>
  What a run never changes: an object keeps its class and its place in the heap. The locales of
  \<open>Frames\<close> are interpreted a second time, with this property in the place of \<open>calm\<close>.
\<close>

definition kept :: "machine \<Rightarrow> machine \<Rightarrow> bool" where
  "kept m m' \<longleftrightarrow> length (s_objects m) \<le> length (s_objects m') \<and>
     (\<forall>i < length (s_objects m). class_of m' i = class_of m i)"

text \<open>Native functions and the loading of modules may create objects, but not change the class of one.\<close>

definition natives_keep :: "env \<Rightarrow> bool" where
  "natives_keep e \<longleftrightarrow> natives_calm e \<and>
     (\<forall>n t c self v m w m'. en_native e n t c self v m = Inr (w, m') \<longrightarrow> kept m m') \<and>
     (\<forall>name m r m'. en_module e name m = Inr (r, m') \<longrightarrow> kept m m')"

lemma kept_refl [simp]: "kept m m"
  by (simp add: kept_def)

lemma kept_trans: "kept m m' \<Longrightarrow> kept m' m'' \<Longrightarrow> kept m m''"
  by (auto simp: kept_def)

lemma kept_step: "kept m0 m \<Longrightarrow> kept m m' \<Longrightarrow> kept m0 m'"
  by (rule kept_trans)

lemma kept_same: "s_objects m' = s_objects m \<Longrightarrow> kept m m'"
  by (simp add: kept_def)

lemma kept_new: "kept m (snd (heap_new c m))"
  by (simp add: kept_def nth_append)

lemma kept_upd_obj: "(\<And>x. o_class (f x) = o_class x) \<Longrightarrow> kept m (upd_obj p f m)"
  by (cases "p < length (s_objects m)") (auto simp: kept_def obj_at_upd_obj upd_obj_def nth_list_update)

lemma kept_internal: "kept m (set_internal p i m)"
  unfolding set_internal_def by (rule kept_upd_obj) simp

lemma kept_member: "kept m (object_set_member p k v m)"
proof -
  have "kept m (inc_new p v (dec_old p (object_get p k m) m))" by (rule kept_same) simp
  then show ?thesis
    unfolding object_set_member_def Let_def by (rule kept_trans) (rule kept_upd_obj, simp)
qed

lemma kept_unqueued: "kept m (snd (process_create_unqueued_task e m))"
proof -
  have "s_objects (snd (process_create_unqueued_task e m)) =
      (s_objects m @ [object_create (Class_Task e) m])[length (s_objects m) :=
        (object_create (Class_Task e) m)\<lparr>o_internal := ITask (length (s_tasks m))\<rparr>]"
    by (simp add: process_create_unqueued_task_def Let_def task_add_reflection_def case_prod_beta
        heap_inc_edge_def set_internal_def upd_obj_def object_create_def)
  then show ?thesis by (simp add: kept_def nth_append)
qed

lemma kept_create: "kept m (snd (process_create_task e m))"
  using kept_unqueued [of m e]
  by (simp add: kept_def process_create_task_def Let_def case_prod_beta process_enqueue_task_def)

interpretation stays: updates e "kept m0" for e m0
  by unfold_locales (auto elim!: kept_step intro: kept_new kept_internal kept_member kept_same simp: upd_mod_def)

interpretation keeps: calls e "\<lambda>m. natives_keep e \<and> kept m0 m" for e m0
proof unfold_locales
  fix m name r m'
  assume "natives_keep e \<and> kept m0 m" and "en_module e name m = Inr (r, m')"
  then show "natives_keep e \<and> kept m0 m'" unfolding natives_keep_def by (blast intro: kept_trans)
next
  fix m n t c s v w m'
  assume "natives_keep e \<and> kept m0 m" and "en_native e n t c s v m = Inr (w, m')"
  then show "natives_keep e \<and> kept m0 m'" unfolding natives_keep_def by (blast intro: kept_trans)
next
  fix m assume "natives_keep e \<and> kept m0 m"
  then show "natives_keep e \<and> kept m0 (snd (process_create_task e m))"
    and "natives_keep e \<and> kept m0 (snd (process_create_unqueued_task e m))"
    and "natives_calm e"
    by (auto intro: kept_trans [OF _ kept_create] kept_trans [OF _ kept_unqueued] simp: natives_keep_def)
next
  fix m2 :: machine and b
  assume "natives_keep e \<and> kept m0 m2"
  then show "natives_keep e \<and> kept m0 (m2\<lparr>s_background := s_background m2 @ [b]\<rparr>)"
    by (simp add: kept_def)
qed (auto intro: stays.inv_new stays.inv_internal stays.inv_member stays.inv_edge stays.inv_resval
    stays.inv_stack stays.inv_current stays.inv_parent stays.inv_child_error stays.inv_ctx
    stays.inv_new_ctx stays.inv_initialized)

lemma kept_wake: "s_objects (fold (wake_dependent t) ds m) = s_objects m"
  by (induction ds arbitrary: m)
     (auto simp: wake_dependent_def process_remove_waiting_task_def process_enqueue_task_def task_set_resval_def)

lemma kept_complete: "s_objects (mark_task_complete e t m) = s_objects m"
  by (simp add: mark_task_complete_def kept_wake process_mark_task_complete_def Let_def)

lemma kept_run_next:
  assumes nat: "natives_keep e" and run: "run_next n e m = Some (Inr (True, m'))"
  shows "kept m m'"
proof -
  obtain t m1 where pop: "process_pop_task e m = (Some t, m1)"
    using run by (cases "process_pop_task e m") (auto simp: run_next_def split: option.splits)
  let ?m = "m1\<lparr>s_current_task := Some t\<rparr>"
  let ?r = "upd_task t (\<lambda>x. x\<lparr>a_state := TASK_RUNNING, a_wait := NOT_WAITING\<rparr>) ?m"
  have objs: "s_objects ?r = s_objects m"
    using pop by (auto simp: process_pop_task_def split: if_splits prod.splits)
  obtain s m2 where exec: "vm_execute_task n e t ?m = Some (Inr (s, m2))"
    and after: "after_task e t s m2 = Inr m'"
    using run by (auto simp: run_next_def pop andThen_eq_Inr)
  have "natives_keep e \<and> kept m ?r" using nat objs by (simp add: kept_same)
  from keeps.inv_vm_execute_task [OF this exec] have m2: "kept m m2"
  proof (elim disjE conjE)
    assume "m2 = ?r"
    with objs show ?thesis by (simp add: kept_same)
  next
    assume "leaves (\<lambda>m'. natives_keep e \<and> kept m m') t m2"
    then obtain m3 where "kept m m3" "s_objects m2 = s_objects m3"
      by (auto simp: leaves_def set_state_def set_waiting_def add_dependent_def)
    then show ?thesis by (auto elim: kept_step intro: kept_same)
  qed
  have "kept m2 m'"
  proof (cases "s = TASK_ERROR \<and> a_parent (task_at m2 t) = None")
    case True
    then obtain f b where call: "call_function e t None f m2 = Inr (b, m')"
      using after by (auto simp: after_task_def assert_that_eq_Inr andThen_eq_Inr split: option.splits)
    have "natives_keep e \<and> kept m2 m2" using nat by simp
    then have "waits_or (\<lambda>m'. natives_keep e \<and> kept m2 m') t (b, m')"
      by (rule postD [OF keeps.inv_call_function call])
    then obtain m3 where "kept m2 m3" "s_objects m' = s_objects m3"
      by (auto simp: waits_or_def add_dependent_def split: if_splits)
    then show ?thesis by (auto elim: kept_step intro: kept_same)
  next
    case False
    then have "s_objects m' = s_objects m2"
      using after by (auto simp: after_task_def process_insert_waiting_task_def kept_complete
          split: task_state.splits option.splits)
    then show ?thesis by (rule kept_same)
  qed
  with m2 show ?thesis by (rule kept_trans)
qed

lemma kept_process_step:
  assumes "process_step e m m'" and nat: "natives_keep e"
  shows "kept m m'"
  using assms(1)
proof cases
  case (run_task n)
  with nat show ?thesis by (intro kept_run_next)
next
  case (background bs b bs')
  let ?m = "m\<lparr>s_background := bs @ bs'\<rparr>"
  from background obtain native v m1 where
    nt: "en_native e native (b_task b) (b_context b) (b_self b) (task_get_resval (b_task b) ?m) ?m = Inr (v, m1)"
    and "s_objects m' = s_objects m1"
    by (auto simp: finish_background_def andThen_eq_Inr Let_def kept_complete task_set_resval_def)
  then have "kept ?m m1" "kept m1 m'" using nat by (auto simp: natives_keep_def intro: kept_same)
  moreover have "kept m ?m" by (rule kept_same) simp
  ultimately show ?thesis by (blast intro: kept_trans)
qed


lemma demo_natives_keep: "natives_keep demo_env"
  by (simp add: natives_keep_def) (simp add: demo_env_def)


end
