(* ===== verification/NativeFrames.thy ===== *)
theory NativeFrames imports Builtin NativeModules TypeFacts begin

text \<open>
  What the natives of \<open>builtin\<close>, \<open>math\<close>, \<open>error\<close> and \<open>async\<close> may change. The scheduler's properties assume that a native function is
  calm and keeps the classes of objects; here every native of the table is shown to be so, for the
  elementary updates it is made of (the locale \<open>updates\<close>) and the one more that \<open>$__set_super\<close> needs.
\<close>

locale native_updates = updates +
  assumes inv_cls: "inv m \<Longrightarrow> inv (upd_cls cls k m)"
    and inv_edges: "inv m \<Longrightarrow> inv (m\<lparr>s_edges := es\<rparr>)"
begin

lemmas post_reads = post_pure
  post_any [where r = "string_of x m" for x m] post_any [where r = "obj_of a" for a]
  post_any [where r = "pri_of a" for a] post_any [where r = "pint a" for a]
  post_any [where r = "pfloat a" for a] post_any [where r = "arg_string a m" for a m]
  post_any [where r = "two_args a m" for a m] post_any [where r = "arg_count a m" for a m]
  post_any [where r = "range_of a m" for a m] post_any [where r = "string_order L a b" for L a b]
  post_any [where r = "strncmp L n a b" for L n a b] post_any [where r = "reflection_of t m" for t m]
  post_any [where r = "find_all_loop L s t i" for L s t i]
  post_any [where r = "split_parts L s t" for L s t]
  post_any [where r = "find_super n cs c d" for n cs c d]
  post_any [where r = "Array_remove L xs i" for L xs i]
  post_any [where r = "String_set L s i c" for L s i c]
  post_any [where r = "if b then class_get_function c k m else Inr None" for b c k m]
  post_any [where r = "func_ref_of x m" for x m]

lemma inv_throw: "inv m \<Longrightarrow> post inv2 (throw e t ctx msg m)"
  by (auto simp: throw_def intro!: post_reads post_andThen [OF inv_raise])

lemma inv_new_string: "inv m \<Longrightarrow> post inv2 (new_string e s m)"
  using inv_string_new [of m s] by (simp add: new_string_def case_prod_beta)

lemma inv_change_self: "inv m \<Longrightarrow> post inv2 (change_self f x m)"
  by (auto simp: change_self_def set_string_def intro!: post_any inv_basic)

lemma inv_reflected: "inv m \<Longrightarrow> post inv2 (reflected r m)"
  by (auto simp: reflected_def intro!: post_reads)

lemma inv_find_args:
  "inv m \<Longrightarrow> (\<And>s u i. post inv2 (body s u i)) \<Longrightarrow> post inv2 (find_args e t ctx x args m body)"
  by (auto simp: find_args_def intro!: post_reads inv_throw split: option.split entity.split primitive.split)

lemma inv_shrink_by: "inv m \<Longrightarrow> post inv2 (shrink_by L e t ctx f x args m)"
  by (auto simp: shrink_by_def intro!: post_reads inv_throw inv_change_self
      split: option.split entity.split primitive.split)

lemma inv_add_all:
  "inv m \<Longrightarrow> post inv (foldRes (\<lambda>i. array_add x (g i)) is m)"
  by (rule post_foldRes) (auto intro: inv_array_add)

lemma inv_array_remove: "inv m \<Longrightarrow> post inv2 (array_remove L x i m)"
  by (auto simp: array_remove_def intro!: post_assert post_reads inv_basic)

lemmas inv_native_steps = post_reads inv_throw inv_new_string inv_change_self inv_reflected
  inv_shrink_by inv_basic inv_cls

lemma inv_conversions:
  assumes "inv m"
  shows "post inv2 (n_Int e t ctx x args m)" and "post inv2 (n_Float L e t ctx x args m)"
    and "post inv2 (n_Bool e t ctx x args m)" and "post inv2 (n_stringify L e t ctx x args m)"
  using assms
  by (auto simp: n_Int_def n_Float_def n_Bool_def n_stringify_def Let_def intro!: inv_native_steps post_assert
      split: option.split entity.split primitive.split)

lemma inv_strings:
  assumes "inv m"
  shows "post inv2 (n_string_extend L e t ctx x args m)" and "post inv2 (n_string_cmp L e t ctx x args m)"
    and "post inv2 (n_string_index e t ctx x args m)" and "post inv2 (n_string_hash L e t ctx x args m)"
    and "post inv2 (n_string_len e t ctx x args m)" and "post inv2 (n_string_copy e t ctx x args m)"
    and "post inv2 (n_string_ltrim L e t ctx x args m)" and "post inv2 (n_string_rtrim L e t ctx x args m)"
    and "post inv2 (n_string_trim L e t ctx x args m)" and "post inv2 (n_string_lshrink L e t ctx x args m)"
    and "post inv2 (n_string_rshrink L e t ctx x args m)" and "post inv2 (n_string_clear L e t ctx x args m)"
    and "post inv2 (n_string_starts_with L e t ctx x args m)"
    and "post inv2 (n_string_ends_with L e t ctx x args m)"
  using assms
  by (auto simp: n_string_extend_def n_string_cmp_def n_string_index_def n_string_hash_def n_string_len_def
      n_string_copy_def n_string_ltrim_def n_string_rtrim_def n_string_trim_def n_string_lshrink_def
      n_string_rshrink_def n_string_clear_def n_string_starts_with_def n_string_ends_with_def set_string_def
      intro!: inv_native_steps split: option.split entity.split primitive.split)

lemma inv_string_eq:
  assumes "inv m"
  shows "post inv2 (n_string_eq L e t ctx x args m)" and "post inv2 (n_string_neq L e t ctx x args m)"
  by (auto simp: n_string_eq_def n_string_neq_def case_prod_beta
      intro!: post_reads post_andThen [OF inv_strings(2) [OF assms]])

lemma inv_string_set: "inv m \<Longrightarrow> post inv2 (n_string_set L e t ctx x args m)"
  by (auto simp: n_string_set_def set_string_def Let_def intro!: inv_native_steps
      split: option.split entity.split primitive.split)

lemma inv_string_find: "inv m \<Longrightarrow> post inv2 (n_string_find L e t ctx x args m)"
  by (auto simp: n_string_find_def intro!: inv_find_args split: option.split)

lemma inv_string_find_all: "inv m \<Longrightarrow> post inv2 (n_string_find_all L e t ctx x args m)"
  by (auto simp: n_string_find_all_def case_prod_beta
      intro!: inv_find_args post_reads post_andThen [OF inv_add_all] inv_basic)

lemma inv_string_substr: "inv m \<Longrightarrow> post inv2 (n_string_substr e t ctx x args m)"
  by (auto simp: n_string_substr_def Let_def intro!: inv_native_steps split: option.split)

lemma inv_string_split: "inv m \<Longrightarrow> post inv2 (n_string_split L e t ctx x args m)"
  by (auto simp: n_string_split_def case_prod_beta Let_def
      intro!: inv_native_steps post_andThen [OF post_foldRes [where P = inv]] inv_array_add)

lemma inv_containers:
  assumes "inv m"
  shows "post inv2 (n_array_len e t ctx x args m)" and "post inv2 (n_array_append e t ctx x args m)"
    and "post inv2 (n_array_remove L e t ctx x args m)" and "post inv2 (n_tuple_len e t ctx x args m)"
    and "post inv2 (n_range_constructor e t ctx x args m)" and "post inv2 (n_range_start e t ctx x args m)"
    and "post inv2 (n_range_inc e t ctx x args m)" and "post inv2 (n_range_end e t ctx x args m)"
  using assms
  by (auto simp: n_array_len_def n_array_append_def n_array_remove_def n_tuple_len_def n_range_constructor_def
      n_range_start_def n_range_inc_def n_range_end_def Let_def
      intro!: inv_native_steps inv_array_remove post_andThen [OF inv_array_add] split: option.split)

lemma inv_reflections:
  assumes "inv m"
  shows "post inv2 (n_object_class e t ctx x args m)" and "post inv2 (n_object_hash L e t ctx x args m)"
    and "post inv2 (n_class_module e t ctx x args m)" and "post inv2 (n_function_name e t ctx x args m)"
    and "post inv2 (n_function_module e t ctx x args m)" and "post inv2 (n_function_is_method e t ctx x args m)"
    and "post inv2 (n_function_parent_class e t ctx x args m)" and "post inv2 (n_class_name e t ctx x args m)"
    and "post inv2 (n_module_name e t ctx x args m)" and "post inv2 (n_function_ref_name e t ctx x args m)"
    and "post inv2 (n_function_ref_module e t ctx x args m)" and "post inv2 (n_function_ref_func e t ctx x args m)"
    and "post inv2 (n_function_ref_obj e t ctx x args m)" and "post inv2 (n_class_super e t ctx x args m)"
    and "post inv2 (n_class_set_super e t ctx x args m)" and "post inv2 (n_class_fields e t ctx x args m)"
  using assms
  by (auto simp: n_object_class_def n_object_hash_def n_class_module_def n_function_name_def
      n_function_module_def n_function_is_method_def n_function_parent_class_def n_class_name_def
      n_module_name_def n_function_ref_name_def n_function_ref_module_def n_function_ref_func_def
      n_function_ref_obj_def n_class_super_def n_class_set_super_def n_class_fields_def
      intro!: inv_native_steps post_assert split: option.split)

lemma inv_object_super: "inv m \<Longrightarrow> post inv2 (n_object_super e t ctx x args m)"
  by (auto simp: n_object_super_def wrap_function_in_ref2_def function_ref_init_def case_prod_beta
      intro!: inv_native_steps split: option.split)

lemma inv_class_methods: "inv m \<Longrightarrow> post inv2 (n_class_methods e t ctx x args m)"
  by (auto simp: n_class_methods_def case_prod_beta Let_def
      intro!: inv_native_steps post_assert post_andThen [OF post_foldRes [where P = inv]] inv_array_add)

lemma inv_members:
  assumes "inv m"
  shows "post inv2 (n_set_member e t ctx x args m)" and "post inv2 (n_class_set_method e t ctx x args m)"
    and "post inv2 (n_get_member e t ctx x args m)"
  using assms
  by (auto simp: n_set_member_def n_class_set_method_def n_get_member_def set_member_named_def
      intro!: inv_native_steps inv_get_maybe_wrap split: option.split)

lemma inv_float_fns:
  assumes "inv m"
  shows "post inv2 (single_float_fn name fn e t ctx x args m)" and "post inv2 (n_log ML e t ctx x args m)"
    and "post inv2 (n_pow ML e t ctx x args m)" and "post inv2 (n_mod ML e t ctx x args m)"
  using assms
  by (auto simp: single_float_fn_def n_log_def log_tuple_def n_pow_def n_mod_def two_floats_def
      intro!: inv_native_steps split: option.split entity.split)

lemma inv_stacklines:
  assumes "inv m"
  shows "post inv2 (n_stackline_module e t ctx x args m)"
    and "post inv2 (n_stackline_function e t ctx x args m)"
  using assms
  by (auto simp: n_stackline_module_def n_stackline_function_def
      intro!: post_any [where r = "stackline_of x m"] inv_native_steps split: option.split)

lemma inv_stackline_token: "inv m \<Longrightarrow> post inv2 (n_stackline_token e t ctx x args m)"
  by (auto simp: n_stackline_token_def case_prod_beta Let_def
      intro!: post_any [where r = "stackline_of x m"] post_reads post_andThen [OF inv_new_string]
        post_andThen [OF inv_tuple_set] inv_basic)

lemma inv_error_constructor: "inv m \<Longrightarrow> post inv2 (n_error_constructor e t ctx x args m)"
  by (auto simp: n_error_constructor_def intro!: post_reads post_andThen [OF inv_error_fill] inv_throw)

lemma inv_future_value: "inv m \<Longrightarrow> post inv2 (n_future_value e t ctx x args m)"
  by (auto simp: n_future_value_def future_value_def case_prod_beta Let_def intro!: post_reads inv_basic
      split: option.split)

subsection \<open>Copying\<close>

abbreviation inv_copying :: "copying \<Rightarrow> bool" where "inv_copying s \<equiv> inv (snd s)"

lemma inv_copy_all:
  assumes "inv_copying s" and "\<And>x s. inv_copying s \<Longrightarrow> post (\<lambda>r. inv_copying (snd r)) (cp x s)"
    and "\<And>l x m. inv m \<Longrightarrow> post inv (put l x m)"
  shows "post inv_copying (copy_all cp put xs s)"
  unfolding copy_all_def using assms
  by (intro post_foldRes) (auto intro!: post_andThen [OF assms(2)] post_andThen [OF assms(3)])

lemma inv_copy_fn:
  assumes "inv_copying s" and "\<And>x s. inv_copying s \<Longrightarrow> post (\<lambda>r. inv_copying (snd r)) (cp x s)"
  shows "post inv_copying (copy_fn e cp cls x y s)"
  using assms(1)
  by (auto simp: copy_fn_def array_copy_def tuple_copy_def string_copy_def function_ref_copy_def
      function_ref_init_def string_init_def set_internal_def [symmetric] intro!: post_reads
      post_andThen [OF assms(2)] inv_copy_all assms(2) inv_array_add inv_tuple_set inv_internal
      split: entity.split)

lemma inv_entity_copy: "inv_copying s \<Longrightarrow> post (\<lambda>r. inv_copying (snd r)) (entity_copy d e x s)"
proof (induction d arbitrary: x s)
  case 0
  then show ?case by (cases x) auto
next
  case (Suc d)
  show ?case
  proof (cases x)
    case (EObj y)
    obtain cm m where s: "s = (cm, m)" by (cases s)
    with Suc.prems have m: "inv m" by simp
    then have "inv (snd (heap_new c m))" for c by (rule inv_new)
    then show ?thesis
      by (auto simp: EObj s m Let_def case_prod_beta split: option.split
          intro!: post_andThen [OF inv_copy_fn] post_andThen [OF inv_copy_all] Suc.IH
          inv_member)
  qed (use Suc.prems in auto)
qed

lemma inv_object_copy: "inv m \<Longrightarrow> post inv2 (n_object_copy e t ctx x args m)"
  using inv_entity_copy [of "([], m)" "copy_depth m" "EObj x"]
  by (auto simp: n_object_copy_def elim!: post_andThen)

subsection \<open>The collector\<close>

lemma inv_fold: "inv m \<Longrightarrow> (\<And>x m. inv m \<Longrightarrow> inv (f x m)) \<Longrightarrow> inv (fold f xs m)"
  by (induction xs arbitrary: m) auto

lemma inv_roots:
  assumes "inv m"
  shows "post inv (task_inc_all_context t m)" and "post inv (task_dec_all_context t m)"
  using assms
  by (auto simp: task_inc_all_context_def task_dec_all_context_def Let_def heap_inc_edge_def heap_dec_edge_def
      intro!: post_reads inv_fold inv_basic)

lemma inv_collect:
  assumes "inv m" and "\<And>m. \<exists>n es. nl_collect L m = (n, m\<lparr>s_edges := es\<rparr>)"
  shows "post inv2 (n_collect_garbage L e t ctx x args m)"
proof -
  have collect: "inv (snd (nl_collect L m'))" if "inv m'" for m'
    using assms(2) [of m'] inv_edges [OF that] by auto
  have inc: "post inv (foldRes task_inc_all_context ts m')" if "inv m'" for ts m'
    using that by (rule post_foldRes) (rule inv_roots)
  have dec: "post inv (foldRes task_dec_all_context ts m')" if "inv m'" for ts m'
    using that by (rule post_foldRes) (rule inv_roots)
  show ?thesis
    unfolding n_collect_garbage_def case_prod_beta Let_def
    by (rule post_any, rule post_andThen [OF inc [OF assms(1)]], rule post_andThen [OF dec [OF collect]])
       simp_all
qed

subsection \<open>The whole table\<close>

lemma inv_module_natives:
  assumes "inv m" and "(fn, f) \<in> set (module_natives ML)"
  shows "post inv2 (f e t ctx x args m)"
proof -
  have "list_all (\<lambda>(fn, f). post inv2 (f e t ctx x args m)) (module_natives ML)"
    by (simp only: module_natives_def float_fns_def list.map list_all_append list.pred_inject prod.case
      inv_float_fns inv_stacklines inv_stackline_token inv_error_constructor inv_future_value assms(1) simp_thms)
  with assms(2) show ?thesis by (auto simp: list_all_iff)
qed

lemma inv_natives:
  assumes "inv m" and "\<And>m. \<exists>n es. nl_collect L m = (n, m\<lparr>s_edges := es\<rparr>)"
    and "(fn, f) \<in> set (natives L)"
  shows "post inv2 (f e t ctx x args m)"
proof -
  have "list_all (\<lambda>(fn, f). post inv2 (f e t ctx x args m)) (natives L)"
    by (simp only: natives_def list.pred_inject prod.case inv_conversions inv_strings inv_string_eq inv_string_set
      inv_string_find inv_string_find_all inv_string_substr inv_string_split inv_containers inv_reflections
      inv_object_super inv_class_methods inv_members inv_object_copy inv_collect assms(1,2) simp_thms)
  with assms(3) show ?thesis by (auto simp: list_all_iff)
qed

end

interpretation still: native_updates e "calm m0" for e m0
  by unfold_locales (auto elim!: calm_step intro: calm_same simp: upd_cls_def)

interpretation stays: native_updates e "kept m0" for e m0
  by unfold_locales (auto elim!: kept_step intro: kept_same simp: upd_cls_def)


definition demo_math :: math_lib where
  "demo_math = \<lparr>ml_log = id, ml_log10 = id, ml_pow = (*), ml_fmod = (\<lambda>x y. x mod y), ml_fn = (\<lambda>name x. x)\<rparr>"


end
