(* ===== verification/StringFacts.thy ===== *)
theory StringFacts imports Builtin Demo begin

text \<open>
  What the string natives compute: splitting and joining, all occurrences of a text, trimming, and the
  decimal text of an integer read back. The external library is assumed to be as documented
  (\<open>compares\<close>, \<open>finds\<close>, \<open>shrinks\<close>); \<open>list_lib\<close> is one that is.
\<close>

subsection \<open>Splitting\<close>

fun join :: "char \<Rightarrow> string list \<Rightarrow> string" where
  "join c [] = []"
| "join c [p] = p"
| "join c (p # ps) = p @ c # join c ps"

lemma strncmp_char:
  "compares L \<Longrightarrow> i < length s \<Longrightarrow>
   \<exists>x. strncmp L (Suc 0) (drop i s) [c] = Inr x \<and> (x = 0 \<longleftrightarrow> s ! i = c)"
  by (auto simp: compares_def Cons_nth_drop_Suc [symmetric])

lemma split_loop_end: "length s \<le> i \<Longrightarrow> split_loop L s d i l = Inr ([], l)"
  by (subst split_loop.simps) simp

lemma split_loop_miss:
  "compares L \<Longrightarrow> i < length s \<Longrightarrow> s ! i \<noteq> c \<Longrightarrow>
   split_loop L s [c] i l = split_loop L s [c] (Suc i) l"
  using strncmp_char [of L i s c] by (subst split_loop.simps) auto

lemma split_loop_hit:
  "compares L \<Longrightarrow> i < length s \<Longrightarrow> s ! i = c \<Longrightarrow>
   split_loop L s [c] i l = andThen (split_loop L s [c] (Suc (Suc i)) (Suc i))
     (\<lambda>(parts, end). Inr (take (i - l) (drop l s) # parts, end))"
  using strncmp_char [of L i s c] by (subst split_loop.simps) auto

lemma split_loop_skip:
  assumes "compares L" and "i + k \<le> length s" and "\<And>j. i \<le> j \<Longrightarrow> j < i + k \<Longrightarrow> s ! j \<noteq> c"
  shows "split_loop L s [c] i l = split_loop L s [c] (i + k) l"
  using assms(2,3)
proof (induction k arbitrary: i)
  case 0
  then show ?case by simp
next
  case (Suc k)
  then have "split_loop L s [c] i l = split_loop L s [c] (Suc i) l"
    using assms(1) by (intro split_loop_miss) auto
  with Suc.IH [of "Suc i"] Suc.prems show ?case by simp
qed

lemma split_loop_join:
  assumes "compares L" and "ps \<noteq> []" and "\<forall>p \<in> set ps. c \<notin> set p" and "\<forall>p \<in> set (tl ps). p \<noteq> []"
    and "s = pre @ join c ps"
  shows "split_loop L s [c] (length pre) (length pre) = Inr (butlast ps, length s - length (last ps))"
  using assms(2-)
proof (induction ps arbitrary: pre rule: join.induct)
  case (1 c)
  then show ?case by simp
next
  case (2 c p)
  then have "split_loop L s [c] (length pre) (length pre) =
      split_loop L s [c] (length pre + length p) (length pre)"
    using assms(1) by (intro split_loop_skip) (auto simp: nth_append)
  with 2 show ?case by (simp add: split_loop_end)
next
  case (3 c p q ps)
  have s: "s = (pre @ p @ [c]) @ join c (q # ps)" using 3 by simp
  have q: "join c (q # ps) \<noteq> [] \<and> hd (join c (q # ps)) \<noteq> c"
    using 3 by (cases ps; cases q) auto
  have "split_loop L s [c] (length pre) (length pre) =
      split_loop L s [c] (length pre + length p) (length pre)"
    using assms(1) 3 by (intro split_loop_skip) (auto simp: nth_append)
  also have "\<dots> = andThen (split_loop L s [c] (Suc (Suc (length pre + length p))) (Suc (length pre + length p)))
      (\<lambda>(parts, end). Inr (p # parts, end))"
    using assms(1) by (subst split_loop_hit) (auto simp: s nth_append)
  also have "split_loop L s [c] (Suc (Suc (length pre + length p))) (Suc (length pre + length p)) =
      split_loop L s [c] (length (pre @ p @ [c])) (length (pre @ p @ [c]))"
    using split_loop_miss [OF assms(1), of "length (pre @ p @ [c])" s c] q
    by (auto simp: s nth_append hd_conv_nth)
  also have "\<dots> = Inr (butlast (q # ps), length s - length (last (q # ps)))"
    using 3 by (intro "3.IH") (auto simp: s)
  finally show ?case by simp
qed

lemma length_join_last: "ps \<noteq> [] \<Longrightarrow> \<exists>pre. join c ps = pre @ last ps"
proof (induction c ps rule: join.induct)
  case (3 c p q ps)
  then obtain pre where "join c (q # ps) = pre @ last (q # ps)" by auto
  then have "join c (p # q # ps) = (p @ c # pre) @ last (p # q # ps)" by simp
  then show ?case by blast
qed auto


lemma list_lib_compares: "compares list_lib"
proof -
  have "nl_cmp list_lib a b \<noteq> 0 \<and> (sint (nl_cmp list_lib a b) < 0 \<longleftrightarrow> (of_char a :: nat) < of_char b)"
    if "a \<noteq> b" for a b
  proof -
    define na nb :: nat where n: "na = of_char a" "nb = of_char b"
    have "na < 256" "nb < 256" "na \<noteq> nb" using that by (simp_all add: n)
    moreover from this have "sint (word_of_int (int na - int nb) :: i32) = int na - int nb"
      by (subst signed_of_int) (simp add: signed_take_bit_int_eq_self)
    ultimately have "sint (nl_cmp list_lib a b) = int na - int nb" "na \<noteq> nb"
      by (simp_all add: list_lib_def n)
    then show ?thesis unfolding n [symmetric] by (auto simp: signed_eq_0_iff)
  qed
  then show ?thesis by (simp add: compares_def)
qed


subsection \<open>All occurrences\<close>

lemma occurs_at_drop: "pos \<le> length s \<Longrightarrow> occurs_at sub (drop pos s) i \<longleftrightarrow> occurs_at sub s (pos + i)"
proof -
  assume "pos \<le> length s"
  then have len: "(i + length sub \<le> length (drop pos s)) = (pos + i + length sub \<le> length s)" by auto
  have part: "drop i (drop pos s) = drop (pos + i) s" by (simp add: add.commute)
  show ?thesis unfolding occurs_at_def len part by (rule refl)
qed

lemma finds_Some:
  "finds L \<Longrightarrow> find_str L s sub = Some i \<Longrightarrow> occurs_at sub s i \<and> (\<forall>j < i. \<not> occurs_at sub s j)"
  by (simp add: finds_def)

lemma finds_None: "finds L \<Longrightarrow> find_str L s sub = None \<Longrightarrow> \<not> occurs_at sub s i"
proof
  assume L: "finds L" "find_str L s sub = None" and i: "occurs_at sub s i"
  let ?i = "LEAST i. occurs_at sub s i"
  have "occurs_at sub s ?i \<and> (\<forall>j < ?i. \<not> occurs_at sub s j)"
    using i by (metis LeastI not_less_Least)
  then have "find_str L s sub = Some ?i" using L(1) unfolding finds_def by blast
  with L(2) show False by simp
qed

lemma find_all_loop_finds:
  assumes "finds L" and "sub \<noteq> []"
  shows "pos \<le> length s \<Longrightarrow> find_all_loop L s sub pos = Inr (filter (occurs_at sub s) [pos..<length s])"
proof (induction "length s - pos" arbitrary: pos rule: less_induct)
  case less
  have none: "filter (occurs_at sub s) [pos..<length s] = []"
    if "\<And>i. pos \<le> i \<Longrightarrow> i < length s \<Longrightarrow> \<not> occurs_at sub s i"
    using that by (auto simp: filter_empty_conv)
  show ?case
  proof (cases "length s - pos < length sub")
    case True
    have "filter (occurs_at sub s) [pos..<length s] = []"
      by (rule none) (use True in \<open>auto simp: occurs_at_def\<close>)
    with True show ?thesis by (subst find_all_loop.simps) simp
  next
    case False
    show ?thesis
    proof (cases "find_str L (drop pos s) sub")
      case None
      have "filter (occurs_at sub s) [pos..<length s] = []"
      proof (rule none)
        fix i assume "pos \<le> i" "i < length s"
        with finds_None [OF assms(1) None, of "i - pos"] less.prems show "\<not> occurs_at sub s i"
          by (simp add: occurs_at_drop)
      qed
      with False None show ?thesis by (subst find_all_loop.simps) simp
    next
      case (Some k)
      let ?i = "pos + k"
      have at: "occurs_at sub s ?i" and before: "\<And>j. pos \<le> j \<Longrightarrow> j < ?i \<Longrightarrow> \<not> occurs_at sub s j"
        using finds_Some [OF assms(1) Some] less.prems
        by (auto simp: occurs_at_drop) (metis add_diff_inverse_nat less_diff_conv2 not_less add.commute)
      have i: "?i < length s"
        using at assms(2) by (cases sub) (simp_all add: occurs_at_def)
      have "[pos..<length s] = [pos..<?i] @ ?i # [Suc ?i..<length s]"
        using upt_add_eq_append [of pos ?i "length s - ?i"] i by (simp add: upt_conv_Cons)
      moreover have "filter (occurs_at sub s) [pos..<?i] = []"
        using before by (auto simp: filter_empty_conv)
      moreover have "find_all_loop L s sub (Suc ?i) = Inr (filter (occurs_at sub s) [Suc ?i..<length s])"
        using i less.prems by (intro less.hyps) auto
      ultimately show ?thesis
        using False Some i at by (subst find_all_loop.simps) (simp add: Let_def)
    qed
  qed
qed

lemma set_internal_same: "o_internal (obj_at m a) = i \<Longrightarrow> set_internal a i m = m"
proof -
  assume "o_internal (obj_at m a) = i"
  then have "(obj_at m a)\<lparr>o_internal := i\<rparr> = obj_at m a" by (cases "obj_at m a") simp
  then show ?thesis by (simp add: set_internal_def upd_obj_def)
qed

lemma add_ints:
  "o_internal (obj_at m a) = IArray xs \<Longrightarrow> a < length (s_objects m) \<Longrightarrow>
   foldRes (\<lambda>i. array_add a (EPrim (g i))) is m = Inr (set_internal a (IArray (xs @ List.map (\<lambda>i. EPrim (g i)) is)) m)"
proof (induction "is" arbitrary: m xs)
  case Nil
  then show ?case by (simp add: set_internal_same)
next
  case (Cons i "is")
  have "array_add a (EPrim (g i)) m = Inr (set_internal a (IArray (xs @ [EPrim (g i)])) m)"
    using Cons.prems by (simp add: array_add_def array_of_def inc_new_def)
  moreover have "set_internal a x (set_internal a y m) = set_internal a x m" for x y
    using Cons.prems(2) by (simp add: set_internal_def upd_obj_def)
  ultimately show ?case
    using Cons.prems Cons.IH [of "set_internal a (IArray (xs @ [EPrim (g i)])) m" "xs @ [EPrim (g i)]"]
    by (simp add: set_internal_def)
qed


lemma occurs_at_0: "occurs_at sub s 0 \<longleftrightarrow> take (length sub) s = sub"
  by (metis add_0 drop0 length_take min.cobounded1 occurs_at_def)

lemma occurs_at_Suc [simp]: "occurs_at sub (c # s) (Suc j) \<longleftrightarrow> occurs_at sub s j"
  by (simp add: occurs_at_def)

lemma all_less_Suc_shift: "(\<forall>j < Suc n. P j) \<longleftrightarrow> P 0 \<and> (\<forall>j < n. P (Suc j))"
  by (metis less_Suc_eq_0_disj Suc_less_eq zero_less_Suc)

lemma find_from_first:
  "find_from i s sub = Some k \<longleftrightarrow> (\<exists>j. k = i + j \<and> occurs_at sub s j \<and> (\<forall>j' < j. \<not> occurs_at sub s j'))"
proof (induction i s sub rule: find_from.induct)
  case (1 i sub)
  then show ?case by (auto simp: occurs_at_def)
next
  case (2 i c s sub)
  show ?case
  proof (cases "take (length sub) (c # s) = sub")
    case True
    then have at: "occurs_at sub (c # s) 0" by (simp only: occurs_at_0)
    have "(\<exists>j. k = i + j \<and> occurs_at sub (c # s) j \<and> (\<forall>j' < j. \<not> occurs_at sub (c # s) j')) \<longleftrightarrow> k = i"
      using at by (metis add.right_neutral not_gr_zero not_less_zero)
    with True show ?thesis by (auto simp del: take_Suc_Cons)
  next
    case False
    then have at: "\<not> occurs_at sub (c # s) 0" by (simp only: occurs_at_0 not_False_eq_True)
    have "(\<exists>j. k = i + j \<and> occurs_at sub (c # s) j \<and> (\<forall>j' < j. \<not> occurs_at sub (c # s) j')) \<longleftrightarrow>
        (\<exists>j. k = Suc i + j \<and> occurs_at sub s j \<and> (\<forall>j' < j. \<not> occurs_at sub s j'))" (is "?l = ?r")
    proof
      assume ?l
      then obtain j where j: "k = i + j" "occurs_at sub (c # s) j" "\<forall>j' < j. \<not> occurs_at sub (c # s) j'" by blast
      with at obtain j1 where "j = Suc j1" by (cases j) auto
      with j show ?r by (auto simp: all_less_Suc_shift)
    next
      assume ?r
      then obtain j where "k = Suc i + j" "occurs_at sub s j" "\<forall>j' < j. \<not> occurs_at sub s j'" by blast
      with at show ?l by (intro exI [of _ "Suc j"]) (auto simp: all_less_Suc_shift)
    qed
    with False 2 show ?thesis by (simp del: take_Suc_Cons)
  qed
qed

lemma list_lib_finds: "finds list_lib"
  by (simp add: finds_def list_lib_def find_from_first)

definition find_demo :: machine where
  "find_demo = (demo_machine [])\<lparr>s_objects := [demo_object 6 (IString ''anana''),
     demo_object 7 (ITuple [EObj 2, EPrim (PInt 0)]), demo_object 6 (IString ''ana'')]\<rparr>"


subsection \<open>Trimming\<close>

lemma count_space_eq:
  "count_space s = (if \<forall>c \<in> set s. is_any_space c then Inl (UB ''table[i] outside of the string'')
     else Inr (length (takeWhile is_any_space s)))"
  by (induction s) auto

lemma sint_of_nat: "n < 2 ^ 31 \<Longrightarrow> sint (of_nat n :: i32) = int n"
  by (simp add: signed_of_nat signed_take_bit_int_eq_self)

lemma trim_left_eq:
  assumes "shrinks L" and "length s < 2 ^ 31"
  shows "trim_left L s = (if \<forall>c \<in> set s. is_any_space c then Inl (UB ''table[i] outside of the string'')
     else Inr (dropWhile is_any_space s))"
proof -
  have "length (takeWhile is_any_space s) \<le> length s" by (rule length_takeWhile_le)
  with assms show ?thesis
    by (auto simp: trim_left_def count_space_eq shrinks_def sint_of_nat dropWhile_eq_drop)
qed

lemma trim_right_eq:
  assumes "shrinks L" and "length s < 2 ^ 31"
  shows "trim_right L s = (if \<forall>c \<in> set s. is_any_space c then Inl (UB ''table[i] outside of the string'')
     else Inr (rev (dropWhile is_any_space (rev s))))"
proof -
  have "length (takeWhile is_any_space (rev s)) \<le> length s" by (metis length_rev length_takeWhile_le)
  with assms show ?thesis
    by (auto simp: trim_right_def count_space_eq shrinks_def sint_of_nat dropWhile_eq_drop rev_drop)
qed

text \<open>C29: \<open>trim\<close> removes the blanks at both ends of the string in place, and only those, and answers the
  string itself; but for a string of blanks only, and for the empty string, it reads outside of the characters. Of the
  library it is assumed that shrinking by a number within the size drops as many characters.\<close>

theorem trim_exact:
  assumes "shrinks L" and "o_internal (obj_at m obj) = IString s" and "length s < 2 ^ 31"
  shows "n_string_trim L e t ctx obj args m =
    (if \<forall>c \<in> set s. is_any_space c then Inl (UB ''table[i] outside of the string'')
     else Inr (EObj obj, set_internal obj
       (IString (rev (dropWhile is_any_space (rev (dropWhile is_any_space s))))) m))"
proof -
  have short: "length (dropWhile is_any_space s) < 2 ^ 31"
    using assms(3) length_dropWhile_le [of is_any_space s] by linarith
  have "\<exists>c \<in> set (dropWhile is_any_space s). \<not> is_any_space c" if "c \<in> set s" "\<not> is_any_space c" for c
    using that by (metis dropWhile_eq_Nil_conv hd_dropWhile hd_in_set)
  then show ?thesis
    using assms(2) trim_left_eq [OF assms(1,3)] trim_right_eq [OF assms(1) short]
    by (auto simp: n_string_trim_def change_self_def string_of_def trim_both_def set_string_def)
qed

lemma list_lib_shrinks: "shrinks list_lib"
  by (simp add: shrinks_def list_lib_def)

theorem trim_exact_witness:
  "n_string_trim list_lib demo_env 0 None 3 None (set_internal 3 (IString '' a b '') (demo_machine [])) =
     Inr (EObj 3, set_internal 3 (IString ''a b'') (set_internal 3 (IString '' a b '') (demo_machine [])))"
proof -
  have "o_internal (obj_at (set_internal 3 (IString '' a b '') (demo_machine [])) 3) = IString '' a b ''"
    by (simp add: set_internal_def demo_machine_def)
  from trim_exact [OF list_lib_shrinks this, of demo_env 0 None None] show ?thesis
    by (simp add: is_any_space_def)
qed

subsection \<open>The text of an integer\<close>

lemma digit_of_digit: "is_digit c \<Longrightarrow> digit_of c = Some (digit_val c) \<and> digit_val c < 10"
  by (auto simp: is_digit_def digit_of_def digit_val_def Let_def)

lemma is_digit_in_10: "is_digit c \<Longrightarrow> is_digit_in 10 c"
  using digit_of_digit [of c] by (simp add: is_digit_in_def)

lemma digits_value_dec: "digits_value 10 (dec_of_nat n) = n"
proof -
  have "digits_value 10 s = foldl (\<lambda>n c. 10 * n + digit_val c) 0 s" if "\<forall>c \<in> set s. is_digit c" for s
    unfolding digits_value_def using that digit_of_digit by (intro foldl_cong) auto
  then show ?thesis using dec_of_nat_digits foldl_dec_of_nat by metis
qed

lemma char_of_code: "of_char c = (n :: nat) \<Longrightarrow> char_of n = c"
  by (metis char_of_char)

lemma digit_char_0: "digit_char 0 = CHR ''0''"
proof -
  have "of_char (CHR ''0'') = (48 :: nat)" by simp
  from char_of_code [OF this] show ?thesis by (simp add: digit_char_def)
qed

lemma digit_char_eq_0: "d < 10 \<Longrightarrow> digit_char d = CHR ''0'' \<longleftrightarrow> d = 0"
proof
  assume "d < 10" "digit_char d = CHR ''0''"
  then have "digit_val (CHR ''0'') = d" by (metis digit_val_digit_char)
  then show "d = 0" by (simp add: digit_val_def)
qed (simp add: digit_char_0)

lemma dec_of_nat_no_zero: "0 < n \<Longrightarrow> hd (dec_of_nat n) \<noteq> CHR ''0''"
proof (induction n rule: dec_of_nat.induct)
  case (1 n)
  show ?case
  proof (cases "n < 10")
    case True
    with 1 show ?thesis by (simp add: dec_of_nat.simps [of n] digit_char_eq_0)
  next
    case False
    with 1 have "hd (dec_of_nat (n div 10)) \<noteq> CHR ''0''" by simp
    with False show ?thesis by (simp add: dec_of_nat.simps [of n])
  qed
qed

lemma length_dec_of_nat: "n < 10 ^ k \<Longrightarrow> length (dec_of_nat n) \<le> Suc k"
proof (induction k arbitrary: n)
  case 0
  then show ?case by (simp add: dec_of_nat.simps [of 0])
next
  case (Suc k)
  then have "n div 10 < 10 ^ k" by (simp add: less_mult_imp_div_less mult.commute)
  with Suc.IH show ?case by (simp add: dec_of_nat.simps [of n])
qed

lemma strtol_digits:
  assumes "s = dec_of_nat n"
  shows "takeWhile (is_digit_in (fst (base_prefix s))) (drop (snd (base_prefix s)) s) = s \<and>
    digits_value (fst (base_prefix s)) s = n \<and> snd (base_prefix s) = 0"
proof (cases "n = 0")
  case True
  then have "s = ''0''" by (simp add: assms dec_of_nat.simps [of 0] digit_char_0)
  then show ?thesis by (simp add: base_prefix_def is_digit_in_def digit_of_def digits_value_def Let_def True)
next
  case False
  then have "base_prefix s = (10, 0)"
    using dec_of_nat_no_zero [of n] by (cases s) (simp_all add: base_prefix_def assms)
  moreover have "takeWhile (is_digit_in 10) s = s"
    using dec_of_nat_digits [of n] is_digit_in_10 by (simp add: assms takeWhile_eq_all_conv)
  ultimately show ?thesis using digits_value_dec [of n] by (simp add: assms)
qed

lemma strtol_dec_of_nat:
  assumes "int n < 2 ^ 63"
  shows "strtol (dec_of_nat n) = (int n, length (dec_of_nat n))"
    and "strtol (''-'' @ dec_of_nat n) = (- int n, Suc (length (dec_of_nat n)))"
proof -
  obtain c r where s: "dec_of_nat n = c # r" by (cases "dec_of_nat n") (auto dest: arg_cong [of _ _ length])
  have "is_digit c" using dec_of_nat_digits [of n] by (simp add: s)
  then have c: "\<not> is_space c" "c \<noteq> CHR ''-''" "c \<noteq> CHR ''+''"
    by (auto simp: is_digit_def is_space_def)
  obtain base prefix where b: "base_prefix (dec_of_nat n) = (base, prefix)" by (cases "base_prefix (dec_of_nat n)")
  note d = strtol_digits [OF refl [of "dec_of_nat n"], unfolded b fst_conv snd_conv]
  have digits: "is_digit_in base c" "takeWhile (is_digit_in base) r = r" "prefix = 0" "digits_value base (c # r) = n"
    using d by (auto simp: s split: if_splits)
  show "strtol (dec_of_nat n) = (int n, length (dec_of_nat n))"
    using assms c digits b
    by (simp add: strtol_def strtol_with_def s limit64_def Let_def takeWhile_eq_all_conv [THEN iffD2])
  have "\<not> is_space (CHR ''-'')" by (simp add: is_space_def)
  then show "strtol (''-'' @ dec_of_nat n) = (- int n, Suc (length (dec_of_nat n)))"
    using assms c digits b
    by (simp add: strtol_def strtol_with_def s limit64_def Let_def takeWhile_eq_all_conv [THEN iffD2])
qed

lemma str_to_int64_dec:
  assumes "- (2 ^ 63) < i" and "i < 2 ^ 63"
  shows "str_to_int64 (dec_of_int i) = Some i"
proof -
  have "CHR 0x00 \<notin> set (dec_of_nat n)" for n
    using dec_of_nat_digits [of n] by (auto simp: is_digit_def)
  then have "strndup (dec_of_int i) = dec_of_int i"
    by (auto simp: strndup_def dec_of_int_def takeWhile_eq_all_conv)
  then show ?thesis
    using strtol_dec_of_nat [of "nat i"] strtol_dec_of_nat [of "nat (- i)"] assms
    by (auto simp: str_to_int64_def dec_of_int_def)
qed

text \<open>C26: The text that \<open>__stringify\<close> makes of an integer, any 32 bit value, fits its buffer, and \<open>Int\<close> reads
  the same integer from it, although \<open>Int\<close> takes prefixes for other bases: a decimal text never begins
  with a zero that would make it octal.\<close>

theorem int_text_roundtrip:
  "\<exists>x m1. n_stringify L e t ctx obj (Some (EPrim (PInt i))) m = Inr (EObj x, m1) \<and>
     n_Int e t' ctx' obj' (Some (EObj x)) m1 = Inr (EPrim (PInt i), m1)"
proof -
  let ?s = "dec_of_int (sint i)" and ?x = "length (s_objects m)"
  obtain m1 where new: "string_new e ?s m = (?x, m1)"
    and at: "obj_at m1 ?x = (object_create (Class_String e) m)\<lparr>o_internal := IString ?s\<rparr>"
    by (simp add: string_new_def case_prod_beta string_init_def)
  have range: "- (2 ^ 31) \<le> sint i" "sint i < 2 ^ 31"
    using sint_greater_eq [of i] sint_less [of i] by simp_all
  then have "length (dec_of_nat (nat \<bar>sint i\<bar>)) \<le> Suc 10" by (intro length_dec_of_nat) auto
  then have len: "length ?s < BUFFER_SIZE" "?s \<noteq> []"
    by (auto simp: dec_of_int_def BUFFER_SIZE_def)
  have "n_stringify L e t ctx obj (Some (EPrim (PInt i))) m = Inr (EObj ?x, m1)"
    using len new by (simp add: n_stringify_def Let_def assert_that_def new_string_def)
  moreover have "n_Int e t' ctx' obj' (Some (EObj ?x)) m1 = Inr (EPrim (PInt i), m1)"
    using at str_to_int64_dec [of "sint i"] range
    by (simp add: n_Int_def string_of_def object_create_def)
  ultimately show ?thesis by blast
qed

end
