(* ===== verification/NativeFacts.thy ===== *)
theory NativeFacts imports StringFacts begin

text \<open>
  The garbage collector's roots: \<open>_collect_garbage\<close> tells the memory graph of an edge to everything that a task
  refers to, and takes the edges back after the collection.
\<close>

subsection \<open>Roots\<close>

fun obj_list :: "entity \<Rightarrow> obj_id list" where
  "obj_list (EObj x) = [x]"
| "obj_list v = []"

text \<open>The edges of a task, and of several.\<close>

definition task_roots :: "task_id \<Rightarrow> machine \<Rightarrow> (obj_id \<times> obj_id) list res" where
  "task_roots t m = andThen (reflection_of t m) (\<lambda>r.
     andThen (context_chain (length (s_contexts m)) m (a_current (task_at m t))) (\<lambda>cs.
     Inr (List.map (Pair r) (concat (List.map obj_list (rev (a_stack (task_at m t)) @ [a_resval (task_at m t)])) @
       List.map (\<lambda>c. x_member_obj (ctx_at m c)) cs))))"

fun all_roots :: "task_id list \<Rightarrow> machine \<Rightarrow> (obj_id \<times> obj_id) list res" where
  "all_roots [] m = Inr []"
| "all_roots (t # ts) m = andThen (task_roots t m) (\<lambda>r. andThen (all_roots ts m) (\<lambda>rs. Inr (r @ rs)))"

definition log_edges :: "(obj_id \<Rightarrow> obj_id \<Rightarrow> edge) \<Rightarrow> (obj_id \<times> obj_id) list \<Rightarrow> machine \<Rightarrow> machine" where
  "log_edges f rs m = m\<lparr>s_edges := rev (List.map (\<lambda>(p, c). f p c) rs) @ s_edges m\<rparr>"

lemma log_edges_append: "log_edges f (rs @ rs') m = log_edges f rs' (log_edges f rs m)"
  by (simp add: log_edges_def)

lemma log_edges_Nil [simp]: "log_edges f [] m = m"
  by (simp add: log_edges_def)

lemma fold_inc_new: "fold (inc_new r) xs m = log_edges Inc (List.map (Pair r) (concat (List.map obj_list xs))) m"
proof (induction xs arbitrary: m)
  case (Cons x xs)
  then show ?case by (cases x) (simp_all add: inc_new_def note_edge_def log_edges_def)
qed simp

lemma fold_dec_old:
  "fold (\<lambda>x. dec_old r (Some x)) xs m = log_edges Dec (List.map (Pair r) (concat (List.map obj_list xs))) m"
proof (induction xs arbitrary: m)
  case (Cons x xs)
  then show ?case by (cases x) (simp_all add: dec_old_def note_edge_def log_edges_def)
qed simp

lemma fold_contexts:
  "fold (\<lambda>c m. note_edge (f r (x_member_obj (ctx_at m c))) m) cs m =
     log_edges f (List.map (Pair r) (List.map (\<lambda>c. x_member_obj (ctx_at m c)) cs)) m"
proof (induction cs arbitrary: m)
  case (Cons c cs)
  have "s_contexts (note_edge d m) = s_contexts m" for d by simp
  with Cons show ?case by (simp add: note_edge_def log_edges_def)
qed simp

lemma context_chain_edges [simp]: "context_chain n (m\<lparr>s_edges := es\<rparr>) c = context_chain n m c"
  by (induction n m c rule: context_chain.induct) simp_all

lemma log_edges_simps [simp]:
  "s_contexts (log_edges f rs m) = s_contexts m" "s_tasks (log_edges f rs m) = s_tasks m"
  "context_chain n (log_edges f rs m) c = context_chain n m c"
  by (simp_all add: log_edges_def)

lemma task_inc_roots: "task_inc_all_context t m = andThen (task_roots t m) (\<lambda>rs. Inr (log_edges Inc rs m))"
proof -
  have "inc_new r v m' = fold (inc_new r) [v] m'" for r v m' by simp
  then show ?thesis
    by (simp only: task_inc_all_context_def task_roots_def Let_def heap_inc_edge_def fold_inc_new
        fold_contexts log_edges_append [symmetric] log_edges_simps andThen_assoc andThen_Inr map_append
        concat_append append_assoc)
qed

lemma task_dec_roots: "task_dec_all_context t m = andThen (task_roots t m) (\<lambda>rs. Inr (log_edges Dec rs m))"
proof -
  have "dec_old r (Some v) m' = fold (\<lambda>x. dec_old r (Some x)) [v] m'" for r v m' by simp
  then show ?thesis
    by (simp only: task_dec_all_context_def task_roots_def Let_def heap_dec_edge_def fold_dec_old
        fold_contexts log_edges_append [symmetric] log_edges_simps andThen_assoc andThen_Inr map_append
        concat_append append_assoc)
qed

lemma task_roots_edges: "task_roots t (m\<lparr>s_edges := es\<rparr>) = task_roots t m"
  by (simp add: task_roots_def reflection_of_def)

lemma all_roots_edges [simp]: "all_roots ts (m\<lparr>s_edges := es\<rparr>) = all_roots ts m"
  by (induction ts) (simp_all add: task_roots_edges)

lemma live_tasks_edges [simp]: "live_tasks e t (m\<lparr>s_edges := es\<rparr>) = live_tasks e t m"
  by (simp add: live_tasks_def)

lemma fold_roots:
  assumes "\<And>t m. g t m = andThen (task_roots t m) (\<lambda>rs. Inr (log_edges f rs m))"
  shows "foldRes g ts m = andThen (all_roots ts m) (\<lambda>rs. Inr (log_edges f rs m))"
proof (induction ts arbitrary: m)
  case (Cons t ts)
  have "all_roots ts (log_edges f rs m) = all_roots ts m" for rs by (simp add: log_edges_def)
  with Cons show ?case
    by (cases "task_roots t m"; cases "all_roots ts m") (simp_all add: assms log_edges_append)
qed simp

lemma count_logged:
  "edge_count p c (rev (List.map (\<lambda>(p, c). Inc p c) rs) @ es) = edge_count p c es + int (count_list rs (p, c))"
  "edge_count p c (rev (List.map (\<lambda>(p, c). Dec p c) rs) @ es) = edge_count p c es - int (count_list rs (p, c))"
  by (induction rs) (auto simp: edge_count_def)


text \<open>A task with a string on its stack that is being executed.\<close>

definition collect_demo :: machine where
  "collect_demo = (demo_machine [])\<lparr>s_current_task := Some 0,
     s_tasks := [demo_raw_task\<lparr>a_refl := Some 2, a_stack := [EObj 3, EPrim (PInt 1)], a_resval := EObj 3\<rparr>]\<rparr>"


end
