(* ===== verification/CopyFacts.thy ===== *)
theory CopyFacts imports Copy Demo begin

text \<open>
  Copying is an isomorphism: \<open>entity_copy\<close> ends, changes no object that was there, and the new objects
  are, under the map from objects to copies, the image of the part of the heap that can be reached.
\<close>

subsection \<open>Images\<close>

text \<open>The image of a value under a copy map, and the values an object is made of.\<close>

fun img :: "copy_map \<Rightarrow> entity \<Rightarrow> entity" where
  "img cm (EObj x) = EObj (the (map_of cm x))"
| "img cm v = v"

fun contents :: "internal \<Rightarrow> entity list" where
  "contents (IArray xs) = xs"
| "contents (ITuple xs) = xs"
| "contents (IFuncRef x f c) = [EObj x]"
| "contents i = []"

definition has_copy_fn :: "env \<Rightarrow> cls_id \<Rightarrow> bool" where
  "has_copy_fn e c \<longleftrightarrow> c \<in> {Class_FunctionRef e, Class_Array e, Class_String e, Class_Tuple e}"

definition parts_of :: "env \<Rightarrow> object \<Rightarrow> entity set" where
  "parts_of e x = set (kl_values (o_members x)) \<union>
     (if has_copy_fn e (o_class x) then set (contents (o_internal x)) else {})"

fun internal_img :: "copy_map \<Rightarrow> internal \<Rightarrow> internal" where
  "internal_img cm (IArray xs) = IArray (List.map (img cm) xs)"
| "internal_img cm (ITuple xs) = ITuple (List.map (img cm) xs)"
| "internal_img cm (IFuncRef x f c) = IFuncRef (the (map_of cm x)) f c"
| "internal_img cm i = i"

text \<open>What the copy of an object must be. The internal object of a class without copy function is a new one.\<close>

definition object_img :: "env \<Rightarrow> machine \<Rightarrow> copy_map \<Rightarrow> object \<Rightarrow> object" where
  "object_img e m cm x = \<lparr>o_class = o_class x, o_members = List.map (apsnd (img cm)) (o_members x),
     o_internal = (if has_copy_fn e (o_class x) then internal_img cm (o_internal x)
                   else o_internal (object_create (o_class x) m))\<rparr>"

definition in_dom :: "copy_map \<Rightarrow> entity \<Rightarrow> bool" where
  "in_dom cm v \<longleftrightarrow> (\<forall>x. v = EObj x \<longrightarrow> x \<in> set (List.map fst cm))"

definition copied :: "env \<Rightarrow> machine \<Rightarrow> copying \<Rightarrow> obj_id \<Rightarrow> obj_id \<Rightarrow> bool" where
  "copied e m s x c \<longleftrightarrow> obj_at (snd s) c = object_img e m (fst s) (obj_at m x) \<and>
     (\<forall>v \<in> parts_of e (obj_at m x). in_dom (fst s) v)"

text \<open>A heap as the machine keeps it: what an object of a class with a copy function has inside is of
  the right kind, keys are distinct, references lead to objects.\<close>

definition in_heap :: "machine \<Rightarrow> entity \<Rightarrow> bool" where
  "in_heap m v \<longleftrightarrow> (\<forall>x. v = EObj x \<longrightarrow> x < length (s_objects m))"

definition well_made :: "env \<Rightarrow> object \<Rightarrow> bool" where
  "well_made e x \<longleftrightarrow> distinct (kl_keys (o_members x)) \<and>
     (o_class x = Class_FunctionRef e \<longrightarrow> (\<exists>y f c. o_internal x = IFuncRef y f c)) \<and>
     (o_class x = Class_Array e \<longrightarrow> (\<exists>xs. o_internal x = IArray xs)) \<and>
     (o_class x = Class_String e \<longrightarrow> (\<exists>str. o_internal x = IString str)) \<and>
     (o_class x = Class_Tuple e \<longrightarrow> (\<exists>xs. o_internal x = ITuple xs \<and> length xs < 2 ^ 31))"

definition heap_ok :: "env \<Rightarrow> machine \<Rightarrow> bool" where
  "heap_ok e m \<longleftrightarrow> distinct [Class_FunctionRef e, Class_Array e, Class_String e, Class_Tuple e] \<and>
     k_init (cls_at m (Class_Array e)) = Some (IArray []) \<and>
     (\<forall>x < length (s_objects m). well_made e (obj_at m x) \<and> (\<forall>v \<in> parts_of e (obj_at m x). in_heap m v))"

subsection \<open>What copying keeps\<close>

definition layout :: "machine \<Rightarrow> copying \<Rightarrow> bool" where
  "layout m s \<longleftrightarrow> (let n = length (s_objects m); k = length (fst s) in
     take n (s_objects (snd s)) = s_objects m \<and> length (s_objects (snd s)) = n + k \<and>
     List.map snd (fst s) = rev [n..<n + k] \<and> distinct (List.map fst (fst s)) \<and>
     (\<forall>x \<in> set (List.map fst (fst s)). x < n) \<and> s_classes (snd s) = s_classes m)"

text \<open>From one state to a later one: new pairs are copied, no object has changed but those in \<open>C\<close>.\<close>

definition extends :: "env \<Rightarrow> machine \<Rightarrow> obj_id set \<Rightarrow> copying \<Rightarrow> copying \<Rightarrow> bool" where
  "extends e m C s s' \<longleftrightarrow> layout m s' \<and>
     (\<exists>new. fst s' = new @ fst s \<and> (\<forall>(x, c) \<in> set new. copied e m s' x c)) \<and>
     (\<forall>c < length (s_objects (snd s)). c \<notin> C \<longrightarrow> obj_at (snd s') c = obj_at (snd s) c)"

lemma layout_length: "layout m s \<Longrightarrow> length (s_objects (snd s)) = length (s_objects m) + length (fst s)"
  by (simp add: layout_def Let_def)

lemma layout_old: "layout m s \<Longrightarrow> x < length (s_objects m) \<Longrightarrow> obj_at (snd s) x = obj_at m x"
  by (metis layout_def nth_take)

lemma layout_target:
  assumes "layout m s" and "(x, c) \<in> set (fst s)"
  shows "length (s_objects m) \<le> c \<and> c < length (s_objects (snd s))"
proof -
  from assms(2) have "c \<in> set (List.map snd (fst s))" by force
  with assms(1) show ?thesis by (auto simp: layout_def Let_def)
qed

lemma img_extend:
  "layout m s' \<Longrightarrow> fst s' = new @ fst s \<Longrightarrow> in_dom (fst s) v \<Longrightarrow> img (fst s') v = img (fst s) v"
proof (cases v)
  case (EObj x)
  assume "layout m s'" and new: "fst s' = new @ fst s" and "in_dom (fst s) v"
  then have "x \<notin> set (List.map fst new)" by (auto simp: layout_def Let_def in_dom_def EObj)
  then have "map_of new x = None" by (simp add: map_of_eq_None_iff)
  then show ?thesis by (simp add: new EObj map_add_def)
qed auto

lemma internal_img_cong:
  "(\<And>v. v \<in> set (contents i) \<Longrightarrow> img cm v = img cm' v) \<Longrightarrow> internal_img cm i = internal_img cm' i"
  by (cases i) auto

lemma object_img_cong:
  assumes "\<And>v. v \<in> parts_of e x \<Longrightarrow> img cm v = img cm' v"
  shows "object_img e m cm x = object_img e m cm' x"
proof -
  have "img cm b = img cm' b" if "(a, b) \<in> set (o_members x)" for a b
    using that assms by (force simp: parts_of_def kl_values_def)
  moreover have "internal_img cm (o_internal x) = internal_img cm' (o_internal x)"
    if "has_copy_fn e (o_class x)"
    using that assms by (intro internal_img_cong) (simp add: parts_of_def)
  ultimately show ?thesis by (auto simp: object_img_def apsnd_def map_prod_def)
qed

lemma in_dom_append: "in_dom cm v \<Longrightarrow> in_dom (new @ cm) v"
  by (auto simp: in_dom_def)

lemma copied_extend:
  assumes "copied e m s x c" and "layout m s'" and new: "fst s' = new @ fst s"
    and "obj_at (snd s') c = obj_at (snd s) c"
  shows "copied e m s' x c"
proof -
  have "object_img e m (fst s') (obj_at m x) = object_img e m (fst s) (obj_at m x)"
    using assms(1) by (intro object_img_cong img_extend [OF assms(2) new]) (auto simp: copied_def)
  with assms show ?thesis by (auto simp: copied_def new in_dom_append)
qed

lemma extends_refl: "layout m s \<Longrightarrow> extends e m C s s"
  by (simp add: extends_def)

lemma extends_layout: "extends e m C s s' \<Longrightarrow> layout m s'"
  by (simp add: extends_def)

lemma extends_mono: "extends e m C s s' \<Longrightarrow> C \<subseteq> C' \<Longrightarrow> extends e m C' s s'"
  by (auto simp: extends_def)

lemma extends_grows:
  "layout m s \<Longrightarrow> extends e m C s s' \<Longrightarrow> length (s_objects (snd s)) \<le> length (s_objects (snd s')) \<and>
     length (fst s) \<le> length (fst s')"
  by (auto simp: extends_def layout_length)

lemma extends_in_dom: "extends e m C s s' \<Longrightarrow> in_dom (fst s) v \<Longrightarrow> in_dom (fst s') v"
  by (auto simp: extends_def in_dom_append)

lemma extends_img: "extends e m C s s' \<Longrightarrow> in_dom (fst s) v \<Longrightarrow> img (fst s') v = img (fst s) v"
  by (auto simp: extends_def intro: img_extend)

lemma extends_trans:
  assumes s: "layout m s" and "extends e m C s s'" and "extends e m C s' s''"
    and C: "C \<subseteq> {..<length (s_objects (snd s))}"
  shows "extends e m C s s''"
proof -
  from assms obtain new new' where new: "fst s' = new @ fst s" "fst s'' = new' @ fst s'"
    and c: "\<forall>(x, c) \<in> set new. copied e m s' x c" "\<forall>(x, c) \<in> set new'. copied e m s'' x c"
    by (auto simp: extends_def)
  have l: "layout m s'" "layout m s''" using assms by (auto simp: extends_def)
  have le: "length (s_objects (snd s)) \<le> length (s_objects (snd s'))"
    using extends_grows [OF s assms(2)] by simp
  have "copied e m s'' x c" if xc: "(x, c) \<in> set new" for x c
  proof (rule copied_extend [OF _ l(2) new(2)])
    show "copied e m s' x c" using c xc by auto
    have "distinct (List.map snd (fst s'))" "List.map snd (fst s) = rev [length (s_objects m)..<length (s_objects (snd s))]"
      using l(1) s by (simp_all add: layout_def Let_def)
    then have "c \<notin> {length (s_objects m)..<length (s_objects (snd s))}"
      using xc by (force simp: new(1))
    with xc layout_target [OF l(1), of x c] C have "c \<notin> C" "c < length (s_objects (snd s'))"
      by (auto simp: new(1) subset_iff)
    with assms(3) show "obj_at (snd s'') c = obj_at (snd s') c" by (simp add: extends_def)
  qed
  with c have cs: "\<forall>(x, c) \<in> set (new' @ new). copied e m s'' x c" by auto
  have "obj_at (snd s'') c = obj_at (snd s) c" if "c < length (s_objects (snd s))" "c \<notin> C" for c
    using assms(2,3) that le by (simp add: extends_def)
  moreover have "fst s'' = (new' @ new) @ fst s" by (simp add: new)
  ultimately show ?thesis
    unfolding extends_def using l(2) cs by blast
qed

subsection \<open>The loops\<close>

text \<open>What a call of the copier on a value does, when there is depth for the objects not yet copied.\<close>

definition copies :: "env \<Rightarrow> machine \<Rightarrow> nat \<Rightarrow> copier \<Rightarrow> bool" where
  "copies e m d cp \<longleftrightarrow> (\<forall>v s. layout m s \<longrightarrow> in_heap m v \<longrightarrow> length (s_objects m) < d + length (fst s) \<longrightarrow>
     (\<exists>s'. cp v s = Inr (img (fst s') v, s') \<and> extends e m {} s s' \<and> in_dom (fst s') v))"

text \<open>A store into a copy, its effect on the object.\<close>

definition stores :: "obj_id \<Rightarrow> ('l \<Rightarrow> entity \<Rightarrow> machine \<Rightarrow> machine res) \<Rightarrow> ('l \<Rightarrow> entity \<Rightarrow> object \<Rightarrow> object) \<Rightarrow>
    (object \<Rightarrow> bool) \<Rightarrow> 'l set \<Rightarrow> bool" where
  "stores cpy put g P ls \<longleftrightarrow> (\<forall>l v m. l \<in> ls \<longrightarrow> cpy < length (s_objects m) \<longrightarrow> P (obj_at m cpy) \<longrightarrow>
     (\<exists>m'. put l v m = Inr m' \<and> s_objects m' = (s_objects m)[cpy := g l v (obj_at m cpy)] \<and>
        s_classes m' = s_classes m \<and> P (g l v (obj_at m cpy))))"

lemma layout_update:
  assumes "layout m (cm, m1)" and "length (s_objects m) \<le> cpy"
    and "s_objects m2 = (s_objects m1)[cpy := y]" and "s_classes m2 = s_classes m1"
  shows "layout m (cm, m2)"
  using assms by (auto simp: layout_def Let_def)

lemma extends_update:
  assumes "layout m (cm, m1)" and "length (s_objects m) \<le> cpy"
    and "s_objects m2 = (s_objects m1)[cpy := y]" and "s_classes m2 = s_classes m1"
  shows "extends e m {cpy} (cm, m1) (cm, m2)"
  using layout_update [OF assms] assms(3) by (simp add: extends_def)

lemma copy_all_spec:
  assumes cp: "copies e m d cp" and put: "stores cpy put g P (set (List.map fst xs))"
  shows "layout m s \<Longrightarrow> length (s_objects m) < d + length (fst s) \<Longrightarrow>
     length (s_objects m) \<le> cpy \<Longrightarrow> cpy < length (s_objects (snd s)) \<Longrightarrow> P (obj_at (snd s) cpy) \<Longrightarrow>
     \<forall>(l, v) \<in> set xs. in_heap m v \<Longrightarrow>
     \<exists>s'. copy_all cp put xs s = Inr s' \<and> extends e m {cpy} s s' \<and>
        (\<forall>(l, v) \<in> set xs. in_dom (fst s') v) \<and>
        obj_at (snd s') cpy = fold (\<lambda>(l, v). g l (img (fst s') v)) xs (obj_at (snd s) cpy)"
  using put
proof (induction xs arbitrary: s)
  case Nil
  then show ?case by (simp add: copy_all_def extends_refl)
next
  case (Cons lv xs)
  obtain l v where lv: "lv = (l, v)" by (cases lv)
  note pre = Cons.prems
  have "in_heap m v" using pre(6) by (simp add: lv)
  then obtain s1 where s1: "cp v s = Inr (img (fst s1) v, s1)" and x1: "extends e m {} s s1"
    and v: "in_dom (fst s1) v"
    using cp pre(1,2) unfolding copies_def by blast
  obtain cm m1 where s1_eq: "s1 = (cm, m1)" by (cases s1)
  have same: "obj_at m1 cpy = obj_at (snd s) cpy"
    using x1 pre(4) by (simp add: extends_def s1_eq)
  have len: "cpy < length (s_objects m1)"
    using extends_grows [OF pre(1) x1] pre(4) by (simp add: s1_eq)
  obtain m2 where m2: "put l (img cm v) m1 = Inr m2"
    and o2: "s_objects m2 = (s_objects m1)[cpy := g l (img cm v) (obj_at m1 cpy)]"
    and c2: "s_classes m2 = s_classes m1" and P2: "P (g l (img cm v) (obj_at m1 cpy))"
    using pre(7) len pre(5) unfolding stores_def lv same [symmetric] by force
  have x2: "extends e m {cpy} (cm, m1) (cm, m2)"
    using extends_layout [OF x1] pre(3) o2 c2 unfolding s1_eq by (rule extends_update)
  have l2: "layout m (cm, m2)" using x2 by (rule extends_layout)
  have at2: "obj_at m2 cpy = g l (img cm v) (obj_at (snd s) cpy)" using o2 len same by simp
  have "stores cpy put g P (set (List.map fst xs))"
    using pre(7) by (simp add: stores_def)
  moreover have "length (s_objects m) < d + length (fst (cm, m2))"
    using extends_grows [OF pre(1) x1] pre(2) by (simp add: s1_eq)
  moreover have "cpy < length (s_objects (snd (cm, m2)))" using len o2 by simp
  moreover have "P (obj_at (snd (cm, m2)) cpy)" using P2 at2 same by simp
  moreover have "\<forall>(l, v) \<in> set xs. in_heap m v" using pre(6) by simp
  ultimately obtain s' where s': "copy_all cp put xs (cm, m2) = Inr s'"
    and x': "extends e m {cpy} (cm, m2) s'" and vs: "\<forall>(l, v) \<in> set xs. in_dom (fst s') v"
    and at': "obj_at (snd s') cpy = fold (\<lambda>(l, v). g l (img (fst s') v)) xs (obj_at (snd (cm, m2)) cpy)"
    using Cons.IH [OF l2 _ pre(3)] by blast
  have sub: "{cpy} \<subseteq> {..<length (s_objects (snd s))}" using pre(4) by simp
  have "extends e m {cpy} s (cm, m1)" using x1 unfolding s1_eq by (rule extends_mono) simp
  then have "extends e m {cpy} s (cm, m2)" by (rule extends_trans [OF pre(1) _ x2 sub])
  then have "extends e m {cpy} s s'" by (rule extends_trans [OF pre(1) _ x' sub])
  moreover have "copy_all cp put (lv # xs) s = Inr s'"
    using s1 s' m2 by (simp add: copy_all_def lv s1_eq)
  moreover have "img (fst s') v = img cm v" "in_dom (fst s') v"
    using extends_img [OF x'] extends_in_dom [OF x'] v by (auto simp: s1_eq)
  ultimately show ?case using vs at' at2 by (auto simp: lv)
qed

subsection \<open>The copy functions\<close>

lemma stores_array:
  "stores cpy (\<lambda>l. array_add cpy) (\<lambda>l v x. x\<lparr>o_internal := IArray (contents (o_internal x) @ [v])\<rparr>)
     (\<lambda>x. \<exists>xs. o_internal x = IArray xs) ls"
  by (auto simp: stores_def array_add_def array_of_def set_internal_objects)

lemma stores_tuple:
  "k < 2 ^ 31 \<Longrightarrow> stores cpy (\<lambda>l. tuple_set cpy (of_nat l))
     (\<lambda>l v x. x\<lparr>o_internal := ITuple ((contents (o_internal x))[l := v])\<rparr>)
     (\<lambda>x. \<exists>xs. o_internal x = ITuple xs \<and> length xs = k) {..<k}"
  by (auto simp: stores_def tuple_set_def tuple_size_def tuple_put_def tuple_of_def set_internal_objects
      signed_of_nat signed_take_bit_int_eq_self assert_that_def)

lemma stores_members:
  "stores cpy (\<lambda>k v m. Inr (object_set_member cpy k v m))
     (\<lambda>k v x. x\<lparr>o_members := kl_put k v (o_members x)\<rparr>) (\<lambda>x. True) ls"
  by (simp add: stores_def object_set_member_objects)

lemma fold_array:
  "o_internal x = IArray ys \<Longrightarrow>
   fold (\<lambda>(l, v) x. x\<lparr>o_internal := IArray (contents (o_internal x) @ [f v])\<rparr>) (List.map (Pair ()) xs) x =
     x\<lparr>o_internal := IArray (ys @ List.map f xs)\<rparr>"
  by (induction xs arbitrary: x ys) auto

lemma fold_tuple:
  "o_internal x = ITuple ys \<Longrightarrow> length ys = i + length xs \<Longrightarrow>
   fold (\<lambda>(l, v) x. x\<lparr>o_internal := ITuple ((contents (o_internal x))[l := f v])\<rparr>) (enumerate i xs) x =
     x\<lparr>o_internal := ITuple (take i ys @ List.map f xs)\<rparr>"
proof (induction xs arbitrary: x ys i)
  case Nil
  then show ?case by simp
next
  case (Cons v xs)
  then have "take (Suc i) (ys[i := f v]) = take i ys @ [f v]"
    by (simp add: take_Suc_conv_app_nth)
  with Cons show ?case by simp
qed

lemma fold_members:
  "distinct (kl_keys (o_members x @ xs)) \<Longrightarrow>
   fold (\<lambda>(k, v) x. x\<lparr>o_members := kl_put k (f v) (o_members x)\<rparr>) xs x =
     x\<lparr>o_members := o_members x @ List.map (apsnd f) xs\<rparr>"
proof (induction xs arbitrary: x)
  case Nil
  then show ?case by simp
next
  case (Cons kv xs)
  obtain k v where kv: "kv = (k, v)" by (cases kv)
  with Cons.prems have "k \<notin> set (kl_keys (o_members x))" by (auto simp: kl_keys_def)
  then have "kl_put k (f v) (o_members x) = o_members x @ [(k, f v)]" by (rule kl_put_new)
  moreover have "distinct (kl_keys ((o_members x @ [(k, f v)]) @ xs))"
    using Cons.prems by (simp add: kl_keys_def kv)
  ultimately show ?case
    using Cons.IH [of "x\<lparr>o_members := o_members x @ [(k, f v)]\<rparr>"] by (simp add: kv)
qed

text \<open>After the copy function, the copy has its internal object, and no members yet.\<close>

definition filled :: "env \<Rightarrow> machine \<Rightarrow> obj_id \<Rightarrow> obj_id \<Rightarrow> copying \<Rightarrow> copying \<Rightarrow> bool" where
  "filled e m src cpy s s' \<longleftrightarrow> extends e m {cpy} s s' \<and>
     (has_copy_fn e (class_of m src) \<longrightarrow> (\<forall>v \<in> set (contents (o_internal (obj_at m src))). in_dom (fst s') v)) \<and>
     obj_at (snd s') cpy = (object_img e m (fst s') (obj_at m src))\<lparr>o_members := []\<rparr>"

lemma array_copy_filled:
  assumes ok: "heap_ok e m" and cp: "copies e m d cp" and s: "layout m s"
    and d: "length (s_objects m) < d + length (fst s)" and src: "src < length (s_objects m)"
    and cpy: "length (s_objects m) \<le> cpy" "cpy < length (s_objects (snd s))"
    and new: "obj_at (snd s) cpy = object_create (class_of m src) m" and cls: "class_of m src = Class_Array e"
  shows "\<exists>s'. array_copy cp cpy src s = Inr s' \<and> filled e m src cpy s s'"
proof -
  obtain xs where xs: "o_internal (obj_at m src) = IArray xs"
    using ok src cls by (auto simp: heap_ok_def well_made_def)
  have cf: "has_copy_fn e (class_of m src)" by (simp add: has_copy_fn_def cls)
  have heap: "\<forall>(l, v) \<in> set (List.map (Pair ()) xs). in_heap m v"
    using ok src cf xs by (auto simp: heap_ok_def parts_of_def)
  have init: "obj_at (snd s) cpy = \<lparr>o_class = class_of m src, o_members = [], o_internal = IArray []\<rparr>"
    using ok by (simp add: new object_create_def cls heap_ok_def)
  obtain s' where s': "copy_all cp (\<lambda>l. array_add cpy) (List.map (Pair ()) xs) s = Inr s'"
    and x: "extends e m {cpy} s s'" and vs: "\<forall>(l, v) \<in> set (List.map (Pair ()) xs). in_dom (fst s') v"
    and at: "obj_at (snd s') cpy = fold (\<lambda>(l, v). (\<lambda>l v x. x\<lparr>o_internal := IArray (contents (o_internal x) @ [v])\<rparr>) l
      (img (fst s') v)) (List.map (Pair ()) xs) (obj_at (snd s) cpy)"
    using copy_all_spec [OF cp stores_array s d cpy _ heap] init by auto
  have "obj_at (snd s') cpy = (obj_at (snd s) cpy)\<lparr>o_internal := IArray (List.map (img (fst s')) xs)\<rparr>"
    using fold_array [where f = "img (fst s')" and xs = xs and x = "obj_at (snd s) cpy" and ys = "[]"] init at
    by simp
  moreover have "array_of src (snd s) = Inr xs"
    using layout_old [OF s src] xs by (simp add: array_of_def)
  ultimately show ?thesis
    using s' x vs cf xs by (auto simp: array_copy_def filled_def object_img_def init)
qed

lemma tuple_copy_filled:
  assumes ok: "heap_ok e m" and cp: "copies e m d cp" and s: "layout m s"
    and d: "length (s_objects m) < d + length (fst s)" and src: "src < length (s_objects m)"
    and cpy: "length (s_objects m) \<le> cpy" "cpy < length (s_objects (snd s))"
    and new: "obj_at (snd s) cpy = object_create (class_of m src) m" and cls: "class_of m src = Class_Tuple e"
  shows "\<exists>s'. tuple_copy e cp cpy src s = Inr s' \<and> filled e m src cpy s s'"
proof -
  obtain xs where xs: "o_internal (obj_at m src) = ITuple xs" "length xs < 2 ^ 31"
    using ok src cls by (auto simp: heap_ok_def well_made_def)
  have cf: "has_copy_fn e (class_of m src)" by (simp add: has_copy_fn_def cls)
  obtain cm m1 where s_eq: "s = (cm, m1)" by (cases s)
  define m2 where "m2 = set_internal cpy (tuple_create e (length xs)) m1"
  have x2: "extends e m {cpy} (cm, m1) (cm, m2)"
    using s cpy(1) by (intro extends_update) (simp_all add: s_eq m2_def set_internal_objects)
  have init: "obj_at (snd (cm, m2)) cpy =
      (object_create (class_of m src) m)\<lparr>o_internal := ITuple (replicate (length xs) (en_raw_slot e))\<rparr>"
    using cpy(2) new by (simp add: m2_def s_eq set_internal_def tuple_create_def)
  have heap: "\<forall>(l, v) \<in> set (enumerate 0 xs). in_heap m v"
    using ok src cf xs by (auto simp: heap_ok_def parts_of_def in_set_enumerate_eq)
  have st: "stores cpy (\<lambda>l. tuple_set cpy (of_nat l))
     (\<lambda>l v x. x\<lparr>o_internal := ITuple ((contents (o_internal x))[l := v])\<rparr>)
     (\<lambda>x. \<exists>ys. o_internal x = ITuple ys \<and> length ys = length xs) (set (List.map fst (enumerate 0 xs)))"
    using stores_tuple [OF xs(2)] by (simp add: lessThan_atLeast0)
  have d2: "length (s_objects m) < d + length (fst (cm, m2))" and cpy2: "cpy < length (s_objects (snd (cm, m2)))"
    using d cpy(2) by (simp_all add: s_eq m2_def)
  obtain s' where s': "copy_all cp (\<lambda>l. tuple_set cpy (of_nat l)) (enumerate 0 xs) (cm, m2) = Inr s'"
    and x: "extends e m {cpy} (cm, m2) s'" and vs: "\<forall>(l, v) \<in> set (enumerate 0 xs). in_dom (fst s') v"
    and at: "obj_at (snd s') cpy = fold (\<lambda>(l, v). (\<lambda>l v x. x\<lparr>o_internal := ITuple ((contents (o_internal x))[l := v])\<rparr>) l
      (img (fst s') v)) (enumerate 0 xs) (obj_at (snd (cm, m2)) cpy)"
    using copy_all_spec [OF cp st extends_layout [OF x2] d2 cpy(1) cpy2 _ heap] init by auto
  have "obj_at (snd s') cpy =
      (object_create (class_of m src) m)\<lparr>o_internal := ITuple (List.map (img (fst s')) xs)\<rparr>"
    using fold_tuple [where f = "img (fst s')" and xs = xs and i = 0 and x = "obj_at (snd (cm, m2)) cpy"] init at
    by simp
  moreover have "tuple_of src (snd s) = Inr xs"
    using layout_old [OF s src] xs by (simp add: tuple_of_def)
  moreover have "\<forall>v \<in> set xs. in_dom (fst s') v"
    using vs by (metis (mono_tags, lifting) case_prodD list.set_map map_snd_enumerate image_iff prod.collapse)
  moreover have "extends e m {cpy} s s'"
    using extends_trans [OF s [unfolded s_eq] x2 x] cpy(2) by (simp add: s_eq)
  ultimately show ?thesis
    using s' cf xs by (auto simp: tuple_copy_def filled_def object_img_def object_create_def s_eq m2_def)
qed

lemma string_copy_filled:
  assumes ok: "heap_ok e m" and s: "layout m s" and src: "src < length (s_objects m)"
    and cpy: "length (s_objects m) \<le> cpy" "cpy < length (s_objects (snd s))"
    and new: "obj_at (snd s) cpy = object_create (class_of m src) m" and cls: "class_of m src = Class_String e"
  shows "\<exists>s'. string_copy cpy src s = Inr s' \<and> filled e m src cpy s s'"
proof -
  obtain str where str: "o_internal (obj_at m src) = IString str"
    using ok src cls by (auto simp: heap_ok_def well_made_def)
  obtain cm m1 where s_eq: "s = (cm, m1)" by (cases s)
  define m2 where "m2 = string_init cpy str m1"
  have x: "extends e m {cpy} (cm, m1) (cm, m2)"
    using s cpy(1) by (intro extends_update) (simp_all add: s_eq m2_def string_init_def upd_obj_def)
  have "string_of src (snd s) = Inr str"
    using layout_old [OF s src] str by (simp add: string_of_def)
  moreover have "obj_at m2 cpy = (object_create (class_of m src) m)\<lparr>o_internal := IString str\<rparr>"
    using cpy(2) new by (simp add: m2_def s_eq string_init_def)
  ultimately show ?thesis
    using x str cls
    by (auto simp: string_copy_def filled_def object_img_def object_create_def s_eq m2_def has_copy_fn_def)
qed

lemma function_ref_copy_filled:
  assumes ok: "heap_ok e m" and cp: "copies e m d cp" and s: "layout m s"
    and d: "length (s_objects m) < d + length (fst s)" and src: "src < length (s_objects m)"
    and cpy: "length (s_objects m) \<le> cpy" "cpy < length (s_objects (snd s))"
    and new: "obj_at (snd s) cpy = object_create (class_of m src) m" and cls: "class_of m src = Class_FunctionRef e"
  shows "\<exists>s'. function_ref_copy cp cpy src s = Inr s' \<and> filled e m src cpy s s'"
proof -
  obtain y f pc where ref: "o_internal (obj_at m src) = IFuncRef y f pc"
    using ok src cls by (auto simp: heap_ok_def well_made_def)
  have cf: "has_copy_fn e (class_of m src)" by (simp add: has_copy_fn_def cls)
  have "in_heap m (EObj y)" using ok src cf ref by (auto simp: heap_ok_def parts_of_def)
  then obtain s1 where s1: "cp (EObj y) s = Inr (img (fst s1) (EObj y), s1)"
    and x1: "extends e m {} s s1" and y: "in_dom (fst s1) (EObj y)"
    using cp s d unfolding copies_def by blast
  obtain cm m1 where s1_eq: "s1 = (cm, m1)" by (cases s1)
  define m2 where "m2 = function_ref_init cpy (the (map_of cm y)) f pc m1"
  have x2: "extends e m {cpy} (cm, m1) (cm, m2)"
    using extends_layout [OF x1] cpy(1)
    by (intro extends_update) (simp_all add: s1_eq m2_def function_ref_init_def set_internal_objects)
  have "extends e m {cpy} s (cm, m1)" using x1 unfolding s1_eq by (rule extends_mono) simp
  then have x: "extends e m {cpy} s (cm, m2)" using cpy(2) by (intro extends_trans [OF s _ x2]) auto
  have "cpy < length (s_objects m1)" using extends_grows [OF s x1] cpy(2) by (simp add: s1_eq)
  moreover have "obj_at m1 cpy = object_create (class_of m src) m"
    using x1 cpy(2) new by (simp add: extends_def s1_eq)
  ultimately have "obj_at m2 cpy =
      (object_create (class_of m src) m)\<lparr>o_internal := IFuncRef (the (map_of cm y)) f pc\<rparr>"
    by (simp add: m2_def function_ref_init_def set_internal_def)
  moreover have "func_ref_of src (snd s) = Inr (y, f, pc)"
    using layout_old [OF s src] ref by (simp add: func_ref_of_def)
  ultimately show ?thesis
    using x s1 y cf ref
    by (auto simp: function_ref_copy_def filled_def object_img_def object_create_def s1_eq m2_def)
qed

lemma copy_fn_filled:
  assumes ok: "heap_ok e m" and cp: "copies e m d cp" and s: "layout m s"
    and d: "length (s_objects m) < d + length (fst s)" and src: "src < length (s_objects m)"
    and cpy: "length (s_objects m) \<le> cpy" "cpy < length (s_objects (snd s))"
    and new: "obj_at (snd s) cpy = object_create (class_of m src) m"
  shows "\<exists>s'. copy_fn e cp (class_of m src) cpy src s = Inr s' \<and> filled e m src cpy s s'"
proof -
  let ?c = "class_of m src"
  consider "?c = Class_FunctionRef e" | "?c = Class_Array e" "?c \<noteq> Class_FunctionRef e"
    | "?c = Class_String e" "?c \<noteq> Class_FunctionRef e" "?c \<noteq> Class_Array e"
    | "?c = Class_Tuple e" "?c \<noteq> Class_FunctionRef e" "?c \<noteq> Class_Array e" "?c \<noteq> Class_String e"
    | "\<not> has_copy_fn e ?c"
    unfolding has_copy_fn_def insert_iff empty_iff by metis
  then show ?thesis
  proof cases
    case 1
    with function_ref_copy_filled [OF assms] show ?thesis by (simp add: copy_fn_def)
  next
    case 2
    with array_copy_filled [OF assms] show ?thesis by (simp add: copy_fn_def)
  next
    case 3
    with string_copy_filled [OF ok s src cpy new] show ?thesis by (simp add: copy_fn_def)
  next
    case 4
    with tuple_copy_filled [OF assms] show ?thesis by (simp add: copy_fn_def)
  next
    case 5
    then show ?thesis
      using extends_refl [OF s] new
      by (auto simp: copy_fn_def has_copy_fn_def filled_def object_img_def object_create_def)
  qed
qed

subsection \<open>Copying an object\<close>

declare entity_copy.simps(4) [simp del]

lemma layout_new:
  assumes "layout m (cm, m1)" and "x < length (s_objects m)" and "map_of cm x = None"
  shows "layout m ((x, length (s_objects m1)) # cm, snd (heap_new c m1))"
proof -
  have "x \<notin> set (List.map fst cm)" using assms(3) by (simp add: map_of_eq_None_iff)
  with assms(1,2) show ?thesis by (auto simp: layout_def Let_def)
qed

text \<open>A copy that has its internal object and its members is the image of the object.\<close>

lemma object_img_members:
  "distinct (kl_keys (o_members x)) \<Longrightarrow>
   fold (\<lambda>(k, v) y. y\<lparr>o_members := kl_put k (img cm v) (o_members y)\<rparr>) (o_members x)
     ((object_img e m cm x)\<lparr>o_members := []\<rparr>) = object_img e m cm x"
  by (simp add: fold_members) (simp add: object_img_def)

lemma new_copy:
  assumes ok: "heap_ok e m" and cp: "copies e m d (entity_copy d e)" and s: "layout m (cm, m1)"
    and x: "x < length (s_objects m)" and new: "map_of cm x = None"
    and d: "length (s_objects m) < Suc d + length cm"
  shows "\<exists>s'. entity_copy (Suc d) e (EObj x) (cm, m1) = Inr (img (fst s') (EObj x), s') \<and>
    extends e m {} (cm, m1) s' \<and> in_dom (fst s') (EObj x)"
proof -
  let ?c = "class_of m x" and ?cpy = "length (s_objects m1)"
  let ?m1 = "snd (heap_new ?c m1)"
  let ?s1 = "((x, ?cpy) # cm, ?m1)"
  have cls: "class_of m1 x = ?c" using layout_old [OF s x] by simp
  have l1: "layout m ?s1" using s x new by (rule layout_new)
  have d1: "length (s_objects m) < d + length (fst ?s1)" using d by simp
  have cpy: "length (s_objects m) \<le> ?cpy" "?cpy < length (s_objects (snd ?s1))"
    using layout_length [OF s] by simp_all
  have "cls_at m1 ?c = cls_at m ?c" using s by (simp add: layout_def Let_def)
  then have at1: "obj_at (snd ?s1) ?cpy = object_create ?c m" by (simp add: object_create_def)
  obtain s2 where s2: "copy_fn e (entity_copy d e) ?c ?cpy x ?s1 = Inr s2" and f: "filled e m x ?cpy ?s1 s2"
    using copy_fn_filled [OF ok cp l1 d1 x cpy at1] by auto
  have x2: "extends e m {?cpy} ?s1 s2" using f by (simp add: filled_def)
  have l2: "layout m s2" using x2 by (rule extends_layout)
  have mem: "o_members (obj_at (snd s2) x) = o_members (obj_at m x)" using layout_old [OF l2 x] by simp
  have heap: "\<forall>(l, v) \<in> set (o_members (obj_at m x)). in_heap m v"
    using ok x by (force simp: heap_ok_def parts_of_def kl_values_def)
  have d2: "length (s_objects m) < d + length (fst s2)" and cpy2: "?cpy < length (s_objects (snd s2))"
    using extends_grows [OF l1 x2] d1 cpy(2) by linarith+
  obtain s3 where s3: "copy_all (entity_copy d e) (\<lambda>k v m. Inr (object_set_member ?cpy k v m))
      (o_members (obj_at m x)) s2 = Inr s3"
    and x3: "extends e m {?cpy} s2 s3" and vs: "\<forall>(l, v) \<in> set (o_members (obj_at m x)). in_dom (fst s3) v"
    and at3: "obj_at (snd s3) ?cpy = fold (\<lambda>(l, v). (\<lambda>k v y. y\<lparr>o_members := kl_put k v (o_members y)\<rparr>) l
      (img (fst s3) v)) (o_members (obj_at m x)) (obj_at (snd s2) ?cpy)"
    using copy_all_spec [OF cp stores_members l2 d2 cpy(1) cpy2 TrueI heap] by blast
  have sub: "{?cpy} \<subseteq> {..<length (s_objects (snd ?s1))}" by simp
  have x13: "extends e m {?cpy} ?s1 s3" by (rule extends_trans [OF l1 x2 x3 sub])
  then obtain new3 where new3: "fst s3 = new3 @ (x, ?cpy) # cm" "\<forall>(y, c) \<in> set new3. copied e m s3 y c"
    by (auto simp: extends_def)
  have inner: "\<forall>v \<in> parts_of e (obj_at m x). in_dom (fst s3) v"
  proof
    fix v
    assume v: "v \<in> parts_of e (obj_at m x)"
    show "in_dom (fst s3) v"
    proof (cases "v \<in> set (kl_values (o_members (obj_at m x)))")
      case True
      then obtain k where "(k, v) \<in> set (o_members (obj_at m x))" by (auto simp: kl_values_def)
      with vs show ?thesis by blast
    next
      case False
      with v have "has_copy_fn e ?c" "v \<in> set (contents (o_internal (obj_at m x)))"
        by (auto simp: parts_of_def split: if_splits)
      with f show ?thesis by (intro extends_in_dom [OF x3]) (simp add: filled_def)
    qed
  qed
  have same: "object_img e m (fst s3) (obj_at m x)\<lparr>o_members := []\<rparr> = obj_at (snd s2) ?cpy"
  proof -
    have "internal_img (fst s3) (o_internal (obj_at m x)) = internal_img (fst s2) (o_internal (obj_at m x))"
      if "has_copy_fn e ?c"
      using f that by (intro internal_img_cong extends_img [OF x3]) (simp add: filled_def)
    then show ?thesis using f by (simp add: filled_def object_img_def)
  qed
  have "copied e m s3 x ?cpy"
    using at3 inner object_img_members [of "obj_at m x" "fst s3" e m] ok x
    by (simp add: copied_def same heap_ok_def well_made_def)
  moreover have "obj_at (snd s3) c = obj_at m1 c" if "c < ?cpy" for c
    using x13 that by (simp add: extends_def)
  ultimately have ext: "extends e m {} (cm, m1) s3"
    using new3 extends_layout [OF x13] unfolding extends_def by (intro conjI exI [of _ "new3 @ [(x, ?cpy)]"]) auto
  have at: "map_of (fst s3) x = Some ?cpy"
    using extends_layout [OF x13] new3(1)
    by (intro map_of_is_SomeI) (auto simp: layout_def Let_def)
  have dom: "in_dom (fst s3) (EObj x)" by (simp add: in_dom_def new3(1))
  have res: "entity_copy (Suc d) e (EObj x) (cm, m1) = Inr (EObj ?cpy, s3)"
    using s2 s3 mem new by (simp add: entity_copy.simps(4) cls Let_def case_prod_beta)
  show ?thesis
    unfolding res using at ext dom by (intro exI [of _ s3]) simp
qed

lemma copies_entity_copy: "heap_ok e m \<Longrightarrow> copies e m d (entity_copy d e)"
proof (induction d)
  case 0
  have "\<not> length (s_objects m) < length cm" if "layout m (cm, m1)" for cm m1
  proof -
    have "card (set (List.map fst cm)) \<le> card {..<length (s_objects m)}"
      using that by (intro card_mono) (auto simp: layout_def Let_def)
    moreover have "card (set (List.map fst cm)) = length cm"
      using that by (metis distinct_card fst_conv layout_def length_map)
    ultimately show ?thesis by simp
  qed
  then show ?case by (auto simp: copies_def)
next
  case (Suc d)
  then have cp: "copies e m d (entity_copy d e)" by simp
  show ?case
    unfolding copies_def
  proof (intro allI impI)
    fix v s
    assume s: "layout m s" and v: "in_heap m v" and d: "length (s_objects m) < Suc d + length (fst s)"
    obtain cm m1 where s_eq: "s = (cm, m1)" by (cases s)
    show "\<exists>s'. entity_copy (Suc d) e v s = Inr (img (fst s') v, s') \<and> extends e m {} s s' \<and> in_dom (fst s') v"
    proof (cases v)
      case (EObj x)
      show ?thesis
      proof (cases "map_of cm x")
        case None
        with new_copy [OF Suc.prems cp] s v d show ?thesis by (simp add: EObj s_eq in_heap_def)
      next
        case (Some c)
        then have "x \<in> set (List.map fst cm)" by (metis map_of_eq_None_iff option.distinct(1) set_map)
        with Some extends_refl [OF s] show ?thesis
          by (auto simp: EObj s_eq in_dom_def entity_copy.simps(4))
      qed
    qed (use extends_refl [OF s] in \<open>auto simp: in_dom_def\<close>)
  qed
qed

text \<open>C16: Copying a value (\<open>entity_copy\<close>) always ends, even when objects refer to each other in a
  circle, and copies what can be reached from it one to one: there is a map from objects to new, pairwise
  different objects such that the copy of each object has its class, and its members, elements and captured
  object replaced by their copies; everything an object in the map refers to is in the map, so sharing and
  circles are kept; no object that was there before has changed. Nested calls are at most one
  deeper than the number of objects. It is assumed that the heap is one the machine could have built: keys are
  distinct, references lead to objects, an array holds an array, and so on. (The inside of an object of a
  class without copy function is not copied, it is a new one.)\<close>

theorem copy_isomorphic:
  assumes "heap_ok e m" and "obj < length (s_objects m)"
  shows "\<exists>cpy cm m'. entity_copy (copy_depth m) e (entity_object obj) ([], m) = Inr (entity_object cpy, cm, m') \<and>
     map_of cm obj = Some cpy \<and> distinct (List.map fst cm) \<and> distinct (List.map snd cm) \<and>
     (\<forall>(x, c) \<in> set cm. length (s_objects m) \<le> c \<and> c < length (s_objects m') \<and>
        obj_at m' c = object_img e m cm (obj_at m x) \<and> (\<forall>v \<in> parts_of e (obj_at m x). in_dom cm v)) \<and>
     (\<forall>x < length (s_objects m). obj_at m' x = obj_at m x)"
proof -
  have l0: "layout m ([], m)" by (simp add: layout_def)
  have "in_heap m (EObj obj)" using assms(2) by (simp add: in_heap_def)
  then obtain s' where s': "entity_copy (copy_depth m) e (EObj obj) ([], m) = Inr (img (fst s') (EObj obj), s')"
    and x: "extends e m {} ([], m) s'" and dom: "in_dom (fst s') (EObj obj)"
    using copies_entity_copy [OF assms(1)] l0 unfolding copies_def copy_depth_def
    by (metis add.right_neutral fst_conv lessI list.size(3))
  obtain cm m' where s_eq: "s' = (cm, m')" by (cases s')
  have l': "layout m (cm, m')" using extends_layout [OF x] by (simp add: s_eq)
  have "obj \<in> set (List.map fst cm)" using dom by (simp add: in_dom_def s_eq)
  then obtain cpy where "map_of cm obj = Some cpy"
    by (metis map_of_eq_None_iff not_None_eq set_map)
  moreover have "copied e m (cm, m') y c" if "(y, c) \<in> set cm" for y c
    using x that by (auto simp: extends_def s_eq)
  moreover have "obj_at m' y = obj_at m y" if "y < length (s_objects m)" for y
    using layout_old [OF l' that] by simp
  moreover have "distinct (List.map fst cm)" "distinct (List.map snd cm)"
    using l' by (simp_all add: layout_def Let_def)
  ultimately show ?thesis
    using s' layout_target [OF l'] by (fastforce simp: s_eq copied_def)
qed

text \<open>An array that holds itself twice, and a tuple with a string that has the array as a member.\<close>

definition copy_demo :: machine where
  "copy_demo = (demo_machine [])\<lparr>s_objects := [
     demo_object 5 (IArray [EObj 0, EObj 1, EObj 0, EPrim (PInt 7)]),
     demo_object 7 (ITuple [EObj 2, ENone]),
     (demo_object 6 (IString ''a''))\<lparr>o_members := [(''k'', EObj 0)]\<rparr>]\<rparr>"

theorem copy_isomorphic_witness:
  "heap_ok demo_env copy_demo \<and>
   (\<exists>cpy cm m'. entity_copy 4 demo_env (EObj 0) ([], copy_demo) = Inr (EObj cpy, cm, m') \<and>
      map_of cm 0 = Some cpy \<and> obj_at m' cpy = object_img demo_env copy_demo cm (obj_at copy_demo 0))"
proof -
  have "\<forall>x \<in> set (s_objects copy_demo). well_made demo_env x \<and>
      (\<forall>v \<in> parts_of demo_env x. in_heap copy_demo v)"
    by (simp add: copy_demo_def demo_env_def demo_object_def well_made_def parts_of_def has_copy_fn_def
        in_heap_def kl_values_def)
  moreover have "k_init (cls_at copy_demo (Class_Array demo_env)) = Some (IArray [])"
    by (simp add: copy_demo_def demo_machine_def demo_env_def demo_classes_def demo_class_def)
  ultimately have ok: "heap_ok demo_env copy_demo"
    by (simp add: heap_ok_def all_set_conv_all_nth) (simp add: demo_env_def)
  have d: "copy_depth copy_demo = 4" "0 < length (s_objects copy_demo)"
    by (simp_all add: copy_depth_def copy_demo_def)
  show ?thesis
    using copy_isomorphic [OF ok d(2)] ok unfolding d(1) entity_object_def by (fast dest: map_of_SomeD)
qed

end
