(* ===== verification/CommandLine.thy ===== *)
theory CommandLine imports CStrings begin

text \<open>
  The arguments of the two programs (\<open>util/args\<close>): their values, the table of known arguments with
  its defaults, and the parser of a command line: options, sources, and behind \<open>--\<close> the arguments of the
  program. Interning is the identity on contents.
\<close>

subsection \<open>Values\<close>

(* src/util/args/commandline_arg.h [13-20] ArgType *)
datatype arg_type = AT_none | AT_bool | AT_int | AT_float | AT_string | AT_stringlist

text \<open>The union with the type that selects from it; a \<open>float\<close> is its 32 bits.\<close>

datatype arg_val = AV_none | AV_bool bool | AV_int i32 | AV_float u32 | AV_string string
  | AV_stringlist "string list"

fun type_of_arg :: "arg_val \<Rightarrow> arg_type" where
  "type_of_arg AV_none = AT_none"
| "type_of_arg (AV_bool b) = AT_bool"
| "type_of_arg (AV_int i) = AT_int"
| "type_of_arg (AV_float f) = AT_float"
| "type_of_arg (AV_string s) = AT_string"
| "type_of_arg (AV_stringlist ss) = AT_stringlist"

(* src/util/args/commandline_arg.h [22-34] Arg *)
record arg =
  arg_used :: bool
  arg_val :: arg_val

text \<open>What comes from outside: the content of new memory, the order in which a map is iterated, the value a
  map keeps when a key is inserted again, whether \<open>errno\<close> is set when it is read, and \<open>strtod\<close>.\<close>

record arg_lib =
  al_raw :: arg
  al_order :: "(string \<times> string) list \<Rightarrow> (string \<times> string) list"
  al_again :: "string \<Rightarrow> string \<Rightarrow> string"
  al_errno :: bool
  al_strtod :: "string \<Rightarrow> f64 \<times> nat"

text \<open>\<open>strncmp(prefix, s, strlen(prefix)) == 0\<close>.\<close>

definition starts :: "string \<Rightarrow> string \<Rightarrow> bool" where
  "starts prefix s \<longleftrightarrow> take (length prefix) s = prefix"

(* src/util/args/commandline_arg.c string_is_true *)
definition string_is_true :: "string \<Rightarrow> bool" where
  "string_is_true str \<longleftrightarrow> str = ''True'' \<or> str = ''true'' \<or> starts ''1'' str"

(* src/util/args/commandline_arg.c parse_bool *)
definition parse_bool :: "string \<Rightarrow> bool option" where
  "parse_bool val = Some (string_is_true val)"

(* src/util/args/commandline_arg.c parse_int *)
definition parse_int :: "arg_lib \<Rightarrow> string \<Rightarrow> i32 option" where
  "parse_int al val =
     (let (proto_val, pEnd) = strtol10 val in
      if proto_val = 0 \<and> al_errno al then None
      else if pEnd \<noteq> length val then None
      else Some (word_of_int proto_val))"

(* src/util/args/commandline_arg.c parse_float *)
definition parse_float :: "arg_lib \<Rightarrow> fops \<Rightarrow> string \<Rightarrow> u32 option" where
  "parse_float al fo val =
     (let (proto_val, pEnd) = al_strtod al val in
      if feq fo (f_of_i32 fo 0) proto_val \<and> al_errno al then None
      else if pEnd \<noteq> length val then None
      else Some (single_of_f fo proto_val))"

text \<open>The parts between the commas.\<close>

fun split_commas :: "string \<Rightarrow> string list" where
  "split_commas [] = [[]]"
| "split_commas (c # s) =
     (if c = CHR '','' then [] # split_commas s
      else case split_commas s of [] \<Rightarrow> [[c]] | p # ps \<Rightarrow> (c # p) # ps)"

(* src/util/args/commandline_arg.c parse_stringlist *)
definition parse_stringlist :: "string \<Rightarrow> string list option" where
  "parse_stringlist val = Some (split_commas val)"

definition parsed :: "('a \<Rightarrow> arg_val) \<Rightarrow> string \<Rightarrow> 'a option \<Rightarrow> arg res" where
  "parsed f msg v = (case v of None \<Rightarrow> Inl (Fatal msg) | Some x \<Rightarrow> Inr \<lparr>arg_used = True, arg_val = f x\<rparr>)"

(* src/util/args/commandline_arg.c arg_parse *)
fun arg_parse :: "arg_lib \<Rightarrow> fops \<Rightarrow> arg_type \<Rightarrow> string \<Rightarrow> arg res" where
  "arg_parse al fo AT_string val = Inr \<lparr>arg_used = True, arg_val = AV_string val\<rparr>"
| "arg_parse al fo AT_bool val = parsed AV_bool ''Could not parse to BOOL.'' (parse_bool val)"
| "arg_parse al fo AT_int val = parsed AV_int ''Could not parse to INT.'' (parse_int al val)"
| "arg_parse al fo AT_float val = parsed AV_float ''Could not parse to FLOAT.'' (parse_float al fo val)"
| "arg_parse al fo AT_stringlist val =
     parsed AV_stringlist ''Could not parse to STRING LIST.'' (parse_stringlist val)"
| "arg_parse al fo AT_none val = Inl (Fatal ''ArgType not specified.'')"

(* src/util/args/commandline_arg.c arg_bool *)
definition arg_bool :: "bool \<Rightarrow> arg" where
  "arg_bool b = \<lparr>arg_used = True, arg_val = AV_bool b\<rparr>"

(* src/util/args/commandline_arg.c arg_int *)
definition arg_int :: "i32 \<Rightarrow> arg" where
  "arg_int i = \<lparr>arg_used = True, arg_val = AV_int i\<rparr>"

(* src/util/args/commandline_arg.c arg_float *)
definition arg_float :: "u32 \<Rightarrow> arg" where
  "arg_float f = \<lparr>arg_used = True, arg_val = AV_float f\<rparr>"

(* src/util/args/commandline_arg.c arg_string *)
definition arg_string :: "string \<Rightarrow> arg" where
  "arg_string s = \<lparr>arg_used = True, arg_val = AV_string s\<rparr>"

(* src/util/args/commandline_arg.c arg_stringlist *)
definition arg_stringlist :: "string \<Rightarrow> arg res" where
  "arg_stringlist s = parsed AV_stringlist ''Could not parse to STRING LIST.'' (parse_stringlist s)"

subsection \<open>Known arguments\<close>

(* src/util/args/commandline.h [17-26] ArgKey *)
datatype arg_key = NONE_KEY | OUT_BINARY | OUT_ASSEMBLY | BIN_OUT_DIR | ASSEMBLY_OUT_DIR | OPTIMIZE
  | LIB_LOCATION

text \<open>The array of arguments is a function of the key.\<close>

(* src/util/args/commandline.c [41-44] __ArgConfig *)
record arg_config =
  arg_names :: "(string \<times> arg_key) list"
  config_args :: "arg_key \<Rightarrow> arg"

(* src/util/args/commandline.c [34-39] __Argstore *)
record arg_store =
  store_config :: arg_config
  store_args :: "arg_key \<Rightarrow> arg"
  src_files :: "string list"
  program_args :: "(string \<times> string) list"

(* src/util/args/commandline.c argconfig_create *)
definition argconfig_create :: "arg_lib \<Rightarrow> arg_config" where
  "argconfig_create al = \<lparr>arg_names = [], config_args = (\<lambda>k. al_raw al)\<rparr>"

(* src/util/args/commandline.c argstore_create *)
definition argstore_create :: "arg_lib \<Rightarrow> arg_config \<Rightarrow> arg_store" where
  "argstore_create al config =
     \<lparr>store_config = config, store_args = (\<lambda>k. al_raw al), src_files = [], program_args = []\<rparr>"

(* src/util/args/commandline.c argstore_get *)
definition argstore_get :: "arg_store \<Rightarrow> arg_key \<Rightarrow> arg res" where
  "argstore_get store k = assert_that (k \<noteq> NONE_KEY) ''key > ArgKey__NONE''
     (Inr (if arg_used (store_args store k) then store_args store k
           else config_args (store_config store) k))"

(* src/util/args/commandline.c ARGSTORE_LOOKUP_RETVAL *)
definition argstore_lookup :: "(arg_val \<Rightarrow> 'a option) \<Rightarrow> arg_store \<Rightarrow> arg_key \<Rightarrow> 'a res" where
  "argstore_lookup val store k = andThen (argstore_get store k) (\<lambda>arg.
     if \<not> arg_used arg then Inl (Fatal ''Store did not have key'')
     else case val (arg_val arg) of None \<Rightarrow> Inl (Fatal ''Expected another type'') | Some x \<Rightarrow> Inr x)"

(* src/util/args/commandline.c [101-101] argstore_lookup_bool *)
definition argstore_lookup_bool :: "arg_store \<Rightarrow> arg_key \<Rightarrow> bool res" where
  "argstore_lookup_bool = argstore_lookup (\<lambda>v. case v of AV_bool b \<Rightarrow> Some b | _ \<Rightarrow> None)"

(* src/util/args/commandline.c [102-102] argstore_lookup_string *)
definition argstore_lookup_string :: "arg_store \<Rightarrow> arg_key \<Rightarrow> string res" where
  "argstore_lookup_string = argstore_lookup (\<lambda>v. case v of AV_string s \<Rightarrow> Some s | _ \<Rightarrow> None)"

text \<open>\<open>map_insert\<close> that reports a key that was there.\<close>

definition insert_new :: "string \<Rightarrow> string \<Rightarrow> 'a \<Rightarrow> (string \<times> 'a) list \<Rightarrow> (string \<times> 'a) list res" where
  "insert_new msg k v kvs = (if map_of kvs k \<noteq> None then Inl (Fatal msg) else Inr (kvs @ [(k, v)]))"

(* src/util/args/commandline.c argconfig_add *)
definition argconfig_add :: "arg_key \<Rightarrow> string \<Rightarrow> char \<Rightarrow> arg \<Rightarrow> arg_config \<Rightarrow> arg_config res" where
  "argconfig_add k name short_name arg_default config =
     andThen (insert_new ''Argument key string already added.'' name k (arg_names config)) (\<lambda>names.
     andThen (if short_name \<noteq> CHR 0x00
              then if type_of_arg (arg_val arg_default) \<noteq> AT_bool
                   then Inl (Fatal ''Arguments with short names must be of type bool.'')
                   else insert_new ''Argument short key string already added.'' [short_name] k names
              else Inr names) (\<lambda>names'.
     if arg_used (config_args config k)
     then Inl (Fatal ''Trying to map arg key, but is already used.'')
     else Inr \<lparr>arg_names = names', config_args = (config_args config)(k := arg_default)\<rparr>))"

(* src/util/args/commandlines.c argconfig_compile *)
definition argconfig_compile :: "arg_config \<Rightarrow> arg_config res" where
  "argconfig_compile config =
     andThen (argconfig_add OUT_ASSEMBLY ''assembly'' (CHR ''a'') (arg_bool False) config) (\<lambda>c.
     andThen (argconfig_add OUT_BINARY ''bytecode'' (CHR ''b'') (arg_bool False) c) (\<lambda>c.
     andThen (argconfig_add BIN_OUT_DIR ''binary_out_dir'' (CHR 0x00) (arg_string ''./'') c) (\<lambda>c.
     andThen (argconfig_add ASSEMBLY_OUT_DIR ''assembly_out_dir'' (CHR 0x00) (arg_string ''./'') c) (\<lambda>c.
     argconfig_add OPTIMIZE ''optimize'' (CHR ''o'') (arg_bool True) c))))"

text \<open>\<open>getenv\<close> is the argument.\<close>

(* src/util/args/lib_finder.c path_to_libs *)
definition path_to_libs :: "string option \<Rightarrow> string" where
  "path_to_libs path_var = (case path_var of None \<Rightarrow> ''./lib'' | Some path \<Rightarrow> path)"

(* src/util/args/commandlines.c argconfig_run *)
definition argconfig_run :: "string option \<Rightarrow> arg_config \<Rightarrow> arg_config res" where
  "argconfig_run path_var config =
     argconfig_add LIB_LOCATION ''lib_location'' (CHR 0x00) (arg_string (path_to_libs path_var)) config"

subsection \<open>The parser\<close>

text \<open>\<open>None\<close> where the function prints a message and returns \<open>false\<close>.\<close>

(* src/util/args/commandline.c _parse_argument *)
definition parse_argument :: "string \<Rightarrow> (string \<times> string) option" where
  "parse_argument arg =
     (if length arg \<le> 2 then None
      else if \<not> starts ''--'' arg then None
      else if starts ''---'' arg then None
      else if starts ''--no'' arg
      then if CHR ''='' \<in> set arg then None else Some (drop 4 arg, ''false'')
      else if CHR ''='' \<notin> set arg then Some (drop 2 arg, ''true'')
      else let eq = length (takeWhile (\<lambda>c. c \<noteq> CHR ''='') arg)
           in Some (take (eq - 2) (drop 2 arg), drop (eq + 1) arg))"

definition usage_error :: "'a res" where
  "usage_error = Inl (Fatal ''Could not parse arguments.'')"

text \<open>\<open>map_insert\<close> whose result is not used.\<close>

fun map_insert :: "arg_lib \<Rightarrow> string \<Rightarrow> string \<Rightarrow> (string \<times> string) list \<Rightarrow> (string \<times> string) list" where
  "map_insert al k v [] = [(k, v)]"
| "map_insert al k v ((k', v') # kvs) =
     (if k = k' then (k, al_again al v' v) # kvs else (k', v') # map_insert al k v kvs)"

(* src/util/args/commandline.c _parse_arguments *)
definition parse_arguments :: "arg_lib \<Rightarrow> string list \<Rightarrow> (string \<times> string) list \<Rightarrow> (string \<times> string) list res" where
  "parse_arguments al = foldRes (\<lambda>arg args. case parse_argument arg of
     None \<Rightarrow> usage_error | Some (k, v) \<Rightarrow> Inr (map_insert al k v args))"

(* src/util/args/commandline.c _parse_compiler_argument *)
definition parse_compiler_argument ::
    "arg_lib \<Rightarrow> string \<Rightarrow> (string \<times> string) list \<Rightarrow> (string \<times> string) list option" where
  "parse_compiler_argument al arg args =
     (if length arg \<le> 1 then None
      else if hd arg \<noteq> CHR ''-'' then None
      else if arg ! 1 \<noteq> CHR ''-''
      then if CHR ''='' \<in> set arg then None
           else Some (fold (\<lambda>c. map_insert al [c] ''1'') (drop 1 arg) args)
      else case parse_argument arg of None \<Rightarrow> None | Some (k, v) \<Rightarrow> Some (map_insert al k v args))"

(* src/util/args/commandline.c _parse_compiler_args *)
definition parse_compiler_args ::
    "arg_lib \<Rightarrow> string list \<Rightarrow> (string \<times> string) list \<Rightarrow> (string \<times> string) list res" where
  "parse_compiler_args al = foldRes (\<lambda>arg args. case parse_compiler_argument al arg args of
     None \<Rightarrow> usage_error | Some args' \<Rightarrow> Inr args')"

definition dashed :: "string \<Rightarrow> bool" where
  "dashed arg \<longleftrightarrow> arg \<noteq> [] \<and> hd arg = CHR ''-''"

(* src/util/args/commandline.c _parse_sources *)
definition parse_sources :: "string list \<Rightarrow> string list \<Rightarrow> string list res" where
  "parse_sources = foldRes (\<lambda>arg sources. if dashed arg then usage_error else Inr (set_insert arg sources))"

text \<open>The two searches start behind the name of the program; \<open>None\<close> for -1.\<close>

(* src/util/args/commandline.c _index_of_sources *)
definition index_of_sources :: "string list \<Rightarrow> nat option" where
  "index_of_sources argv =
     (let opts = takeWhile (\<lambda>arg. arg \<noteq> ''--'' \<and> dashed arg) (drop 1 argv); i = 1 + length opts
      in if i < length argv \<and> argv ! i \<noteq> ''--'' then Some i else None)"

(* src/util/args/commandline.c _index_of_double_dash *)
definition index_of_double_dash :: "string list \<Rightarrow> nat option" where
  "index_of_double_dash argv =
     (let i = 1 + length (takeWhile (\<lambda>arg. arg \<noteq> ''--'') (drop 1 argv))
      in if i < length argv then Some i else None)"

(* src/util/args/commandline.c [310-325] commandline_parse_args *)
definition store_argument :: "arg_lib \<Rightarrow> fops \<Rightarrow> arg_config \<Rightarrow> string \<times> string \<Rightarrow> arg_store \<Rightarrow> arg_store res" where
  "store_argument al fo config kv store = (case kv of (k, v) \<Rightarrow>
     case map_of (arg_names config) k of
       None \<Rightarrow> Inl (Fatal ''Unknown Arg name'')
     | Some NONE_KEY \<Rightarrow> Inl (Fatal ''Unknown Arg name'')
     | Some key \<Rightarrow>
         let t = type_of_arg (arg_val (config_args config key)) in
         if t = AT_none then Inl (Fatal ''Unknown Arg type'')
         else andThen (arg_parse al fo t v) (\<lambda>a.
           if type_of_arg (arg_val a) \<noteq> t
           then Inl (Fatal ''ArgType of input does not match preset type.'')
           else Inr (store\<lparr>store_args := (store_args store)(key := a)\<rparr>)))"

(* src/util/args/commandline.c commandline_parse_args *)
definition commandline_parse_args :: "arg_lib \<Rightarrow> fops \<Rightarrow> arg_config \<Rightarrow> string list \<Rightarrow> arg_store res" where
  "commandline_parse_args al fo config argv =
     (let store = argstore_create al config in
      case index_of_sources argv of
        None \<Rightarrow> usage_error
      | Some first \<Rightarrow>
          andThen (parse_compiler_args al (take (first - 1) (drop 1 argv)) []) (\<lambda>args.
          andThen (foldRes (store_argument al fo config) (al_order al args) store) (\<lambda>store1.
          let dd = index_of_double_dash argv in
          andThen (case dd of
              None \<Rightarrow> Inr (program_args store1)
            | Some i \<Rightarrow> parse_arguments al (drop (i + 1) argv) (program_args store1)) (\<lambda>pargs.
          let stop = (case dd of None \<Rightarrow> length argv | Some i \<Rightarrow> i) in
          andThen (parse_sources (take (stop - first) (drop first argv)) (src_files store1))
            (\<lambda>srcs. Inr (store1\<lparr>src_files := srcs, program_args := pargs\<rparr>))))))"

end
