(* ===== verification/CommandLineFacts.thy ===== *)
theory CommandLineFacts imports CommandLine begin

text \<open>
  A command line that is written out from options, sources and program arguments is read back as these:
  the parser finds the borders between the three parts, takes options apart, and fills the store.
\<close>

subsection \<open>One argument\<close>

definition option_text :: "string \<times> string \<Rightarrow> string" where
  "option_text kv = ''--'' @ fst kv @ ''='' @ snd kv"

text \<open>A name that is read as written: the parser takes a leading \<open>no\<close> for a negation.\<close>

definition plain_key :: "string \<Rightarrow> bool" where
  "plain_key k \<longleftrightarrow> k \<noteq> [] \<and> hd k \<noteq> CHR ''-'' \<and> CHR ''='' \<notin> set k \<and> \<not> starts ''no'' k"

lemma parse_option:
  assumes "plain_key k"
  shows "parse_argument (option_text (k, v)) = Some (k, v)"
proof -
  have "takeWhile (\<lambda>c. c \<noteq> CHR ''='') (option_text (k, v)) = ''--'' @ k"
    using assms by (auto simp: option_text_def plain_key_def takeWhile_append takeWhile_eq_all_conv)
  moreover have "\<not> starts ''---'' (option_text (k, v))" "\<not> starts ''--no'' (option_text (k, v))"
    using assms by (cases k; cases "tl k"; auto simp: option_text_def plain_key_def starts_def)+
  ultimately show ?thesis
    using assms by (auto simp: parse_argument_def option_text_def starts_def plain_key_def)
qed

lemma compiler_option:
  "plain_key k \<Longrightarrow> parse_compiler_argument al (option_text (k, v)) args = Some (map_insert al k v args)"
  using parse_option [of k v] by (simp add: parse_compiler_argument_def option_text_def)

lemma map_insert_new: "k \<notin> set (List.map fst kvs) \<Longrightarrow> map_insert al k v kvs = kvs @ [(k, v)]"
  by (induction al k v kvs rule: map_insert.induct) auto

lemma compiler_options:
  "\<forall>(k, v) \<in> set kvs. plain_key k \<Longrightarrow> distinct (List.map fst (args @ kvs)) \<Longrightarrow>
   parse_compiler_args al (List.map option_text kvs) args = Inr (args @ kvs)"
proof (induction kvs arbitrary: args)
  case (Cons kv kvs)
  obtain k v where kv: "kv = (k, v)" by (cases kv)
  have "map_insert al k v args = args @ [(k, v)]"
    using Cons.prems(2) by (intro map_insert_new) (auto simp: kv)
  with Cons.prems Cons.IH [of "args @ [(k, v)]"] show ?case
    by (simp add: parse_compiler_args_def kv compiler_option)
qed (simp add: parse_compiler_args_def)

lemma program_options:
  "\<forall>(k, v) \<in> set kvs. plain_key k \<Longrightarrow> distinct (List.map fst (args @ kvs)) \<Longrightarrow>
   parse_arguments al (List.map option_text kvs) args = Inr (args @ kvs)"
proof (induction kvs arbitrary: args)
  case (Cons kv kvs)
  obtain k v where kv: "kv = (k, v)" by (cases kv)
  have "map_insert al k v args = args @ [(k, v)]"
    using Cons.prems(2) by (intro map_insert_new) (auto simp: kv)
  with Cons.prems Cons.IH [of "args @ [(k, v)]"] show ?case
    by (simp add: parse_arguments_def kv parse_option)
qed (simp add: parse_arguments_def)

subsection \<open>The store\<close>

text \<open>An option that the configuration knows, with a value of the right type.\<close>

definition known :: "arg_lib \<Rightarrow> fops \<Rightarrow> arg_config \<Rightarrow> string \<times> string \<Rightarrow> arg_key \<Rightarrow> arg \<Rightarrow> bool" where
  "known al fo config kv key a \<longleftrightarrow> map_of (arg_names config) (fst kv) = Some key \<and> key \<noteq> NONE_KEY \<and>
     arg_parse al fo (type_of_arg (arg_val (config_args config key))) (snd kv) = Inr a"

lemma arg_parse_type: "arg_parse al fo t v = Inr a \<Longrightarrow> arg_used a \<and> type_of_arg (arg_val a) = t \<and> t \<noteq> AT_none"
  by (cases t) (auto simp: parsed_def split: option.splits)

lemma store_known:
  assumes "known al fo config kv key a"
  shows "store_argument al fo config kv store = Inr (store\<lparr>store_args := (store_args store)(key := a)\<rparr>)"
proof -
  from assms have "arg_parse al fo (type_of_arg (arg_val (config_args config key))) (snd kv) = Inr a"
    by (simp add: known_def)
  with arg_parse_type [OF this] assms show ?thesis
    by (cases kv; cases key) (auto simp: store_argument_def known_def Let_def)
qed

lemma store_all:
  assumes "\<forall>kv \<in> set kvs. known al fo config kv (key kv) (val kv)" and "inj_on key (set kvs)"
  shows "distinct kvs \<Longrightarrow> \<exists>f. foldRes (store_argument al fo config) kvs store = Inr (store\<lparr>store_args := f\<rparr>) \<and>
     (\<forall>kv \<in> set kvs. f (key kv) = val kv) \<and> (\<forall>k. k \<notin> key ` set kvs \<longrightarrow> f k = store_args store k)"
  using assms
proof (induction kvs arbitrary: store)
  case Nil
  then show ?case by (intro exI [of _ "store_args store"]) simp
next
  case (Cons kv kvs)
  let ?store = "store\<lparr>store_args := (store_args store)(key kv := val kv)\<rparr>"
  obtain f where f: "foldRes (store_argument al fo config) kvs ?store = Inr (?store\<lparr>store_args := f\<rparr>)"
    "\<forall>kv \<in> set kvs. f (key kv) = val kv" "\<forall>k. k \<notin> key ` set kvs \<longrightarrow> f k = store_args ?store k"
    using Cons.IH [of ?store] Cons.prems by auto
  have "key kv \<notin> key ` set kvs" using Cons.prems by (auto simp: inj_on_def)
  with f(3) have "f (key kv) = val kv" by simp
  with f Cons.prems(2) show ?case
    by (intro exI [of _ f]) (auto simp: store_known)
qed

subsection \<open>The line\<close>

lemma sources_parsed:
  "\<forall>s \<in> set srcs. \<not> dashed s \<Longrightarrow> \<exists>xs. parse_sources srcs acc = Inr xs \<and> set xs = set acc \<union> set srcs"
proof (induction srcs arbitrary: acc)
  case (Cons s srcs)
  from Cons.prems obtain xs where "parse_sources srcs (set_insert s acc) = Inr xs"
    "set xs = set (set_insert s acc) \<union> set srcs"
    using Cons.IH [of "set_insert s acc"] by auto
  with Cons.prems show ?case by (auto simp: parse_sources_def set_insert_def split: if_splits)
qed (simp add: parse_sources_def)


text \<open>The compiler's own configuration.\<close>

definition demo_arg_lib :: arg_lib where
  "demo_arg_lib = \<lparr>al_raw = \<lparr>arg_used = False, arg_val = AV_none\<rparr>, al_order = rev, al_again = (\<lambda>v v'. v'),
     al_errno = False, al_strtod = (\<lambda>s. (0, 0))\<rparr>"

definition demo_config :: arg_config where
  "demo_config = (case argconfig_compile (argconfig_create demo_arg_lib) of
     Inr c \<Rightarrow> c | Inl err \<Rightarrow> argconfig_create demo_arg_lib)"

fun demo_key :: "string \<times> string \<Rightarrow> arg_key" where
  "demo_key (k, v) = (if k = ''bytecode'' then OUT_BINARY else BIN_OUT_DIR)"

fun demo_val :: "string \<times> string \<Rightarrow> arg" where
  "demo_val (k, v) = (if k = ''bytecode'' then arg_bool True else arg_string v)"


end
