(* ===== verification/Modules.thy ===== *)
theory Modules imports Builtin Compile TapeText TapeBinary CommandLine Demo begin

text \<open>
  Files and modules: what the compiler writes (\<open>compile/compile.c\<close>), the table of modules and how a module is loaded
  from source, assembly or binary (\<open>vm/module_manager.c\<close>), finding library files (\<open>util/file.c\<close>), and the
  programs \<open>jvc\<close> and \<open>jvr\<close> (\<open>run/run.c\<close>) from their arguments to the first task. The state is
  the table of modules, the classes and modules known by global variables, and the machine. Files that the
  program opens for writing are assumed to open.
\<close>

subsection \<open>What comes from outside\<close>

text \<open>\<open>split_path_file\<close> and \<open>combine_path_file\<close>, \<open>access\<close>, the lines that \<open>file_info\<close> reads, the bytes of a file
  (\<open>None\<close>: \<open>fopen\<close> answers \<open>NULL\<close>), the order in which a set of names is iterated; the queue of the
  parser, whether a second insertion overwrites, the delivery of superclasses, and unspecified bytes, as the
  definitions of the tape and the optimizer take them.\<close>

record file_lib =
  fl_split :: "string \<Rightarrow> string \<times> string \<times> string"
  fl_combine :: "string \<Rightarrow> string \<Rightarrow> string \<Rightarrow> string"
  fl_exists :: "string \<Rightarrow> bool"
  fl_lines :: "string \<Rightarrow> (int \<times> string) list"
  fl_bytes :: "string \<Rightarrow> byte list option"
  fl_order :: "string list \<Rightarrow> string list"
  fl_parse :: parselib
  fl_ow :: bool
  fl_deliver :: "string list \<Rightarrow> string list"
  fl_junk :: "nat \<Rightarrow> byte list"

abbreviation has_end :: "file_lib \<Rightarrow> string \<Rightarrow> string \<Rightarrow> bool" where
  "has_end fl \<equiv> ends_with (pl_lex (fl_parse fl))"

text \<open>Computations that may fail, and for which a number of rounds may not suffice.\<close>

definition followed :: "'a res option \<Rightarrow> ('a \<Rightarrow> 'b res option) \<Rightarrow> 'b res option" where
  "followed r f = (case r of None \<Rightarrow> None | Some (Inl e) \<Rightarrow> Some (Inl e) | Some (Inr x) \<Rightarrow> f x)"

lemma followed_simps [simp]:
  "followed None f = None" "followed (Some (Inl e)) f = Some (Inl e)" "followed (Some (Inr x)) f = f x"
  by (simp_all add: followed_def)

lemma followed_eq_Inr:
  "followed r f = Some (Inr y) \<longleftrightarrow> (\<exists>x. r = Some (Inr x) \<and> f x = Some (Inr y))"
  by (auto simp: followed_def split: option.splits sum.splits)

fun for_each :: "('a \<Rightarrow> 's \<Rightarrow> 's res option) \<Rightarrow> 'a list \<Rightarrow> 's \<Rightarrow> 's res option" where
  "for_each f [] s = Some (Inr s)"
| "for_each f (x # xs) s = followed (f x s) (for_each f xs)"

text \<open>The file in a directory with the first of the three endings that exists.\<close>

(* src/util/file.c find_file_by_name *)
definition find_file_by_name :: "file_lib \<Rightarrow> string \<Rightarrow> string \<Rightarrow> string option" where
  "find_file_by_name fl dir file_prefix =
     (let fn = dir @ (if has_end fl dir ''/'' then '''' else ''/'') @ file_prefix in
      if fl_exists fl (fn @ ''.jb'') then Some (fn @ ''.jb'')
      else if fl_exists fl (fn @ ''.ja'') then Some (fn @ ''.ja'')
      else if fl_exists fl (fn @ ''.jv'') then Some (fn @ ''.jv'')
      else None)"

subsection \<open>The compiler\<close>

datatype written = Made_dir string | Wrote_text string string | Wrote_bytes string "byte list"

(* src/compile/compile.c write_tape *)
definition write_tape ::
    "file_lib \<Rightarrow> fops \<Rightarrow> string \<Rightarrow> tape \<Rightarrow> bool \<Rightarrow> string \<Rightarrow> bool \<Rightarrow> string \<Rightarrow> written list res option" where
  "write_tape fl fo fn tape out_ja machine_dir out_jb bytecode_dir =
     (let (path, file_name, ext) = fl_split fl fn in
      followed (if out_ja \<and> has_end fl fn ''.jv''
                then Some (andThen (tape_write fo tape) (\<lambda>text.
                  Inr [Made_dir machine_dir, Wrote_text (fl_combine fl machine_dir file_name ''.ja'') text]))
                else Some (Inr [])) (\<lambda>ja.
      followed (if out_jb \<and> \<not> has_end fl fn ''.jb''
                then case tape_write_binary fo (fl_ow fl) (fl_junk fl) tape of
                    Inl e \<Rightarrow> Some (Inl e)
                  | Inr file \<Rightarrow> map_option (\<lambda>bytes. Inr [Made_dir bytecode_dir,
                      Wrote_bytes (fl_combine fl bytecode_dir file_name ''.jb'') bytes]) file
                else Some (Inr [])) (\<lambda>jb.
      Some (Inr (ja @ jb)))))"

text \<open>One round of the loop of \<open>compile\<close>; \<open>n\<close> bounds the nesting of nonterminals.\<close>

(* src/compile/compile.c [87-92] compile *)
definition compile_source ::
    "file_lib \<Rightarrow> fops \<Rightarrow> nat \<Rightarrow> bool \<Rightarrow> string \<Rightarrow> bool \<Rightarrow> string \<Rightarrow> bool \<Rightarrow> string \<Rightarrow>
      tape klist \<times> written list \<Rightarrow> (tape klist \<times> written list) res option" where
  "compile_source fl fo n out_ja machine_dir out_jb bytecode_dir opt src = (\<lambda>(src_map, out).
     followed (read_file (fl_parse fl) fo (fl_ow fl) (fl_deliver fl) n opt (fl_lines fl src)) (\<lambda>tape.
     followed (write_tape fl fo src tape out_ja machine_dir out_jb bytecode_dir) (\<lambda>files.
     Some (Inr (kl_put src tape src_map, out @ files)))))"

(* src/compile/compile.c compile *)
definition compile ::
    "file_lib \<Rightarrow> fops \<Rightarrow> nat \<Rightarrow> string list \<Rightarrow> arg_store \<Rightarrow> (tape klist \<times> written list) res option" where
  "compile fl fo n source_files store =
     followed (Some (argstore_lookup_bool store OUT_ASSEMBLY)) (\<lambda>out_ja.
     followed (Some (argstore_lookup_string store ASSEMBLY_OUT_DIR)) (\<lambda>machine_dir.
     followed (Some (argstore_lookup_bool store OUT_BINARY)) (\<lambda>out_jb.
     followed (Some (argstore_lookup_string store BIN_OUT_DIR)) (\<lambda>bytecode_dir.
     followed (Some (argstore_lookup_bool store OPTIMIZE)) (\<lambda>opt.
       for_each (\<lambda>src. compile_source fl fo n out_ja machine_dir out_jb bytecode_dir opt src)
         (fl_order fl source_files) ([], []))))))"

(* src/compile/compile.c jvc *)
definition jvc :: "arg_lib \<Rightarrow> file_lib \<Rightarrow> fops \<Rightarrow> nat \<Rightarrow> string list \<Rightarrow> (tape klist \<times> written list) res option" where
  "jvc al fl fo n argv =
     followed (Some (andThen (argconfig_compile (argconfig_create al)) (\<lambda>config.
                 commandline_parse_args al fo config argv))) (\<lambda>store.
     compile fl fo n (src_files store) store)"

subsection \<open>The table of modules\<close>

text \<open>A native callback gets the new module; it makes classes and functions, and sets global variables. The module
  itself stands in the arena of the machine. A new entry of the table is taken to be zero. A pointer to a \<open>ModuleInfo\<close> is the name it has in the table.\<close>

type_synonym callback = "mod_id \<Rightarrow> env \<Rightarrow> machine \<Rightarrow> (env \<times> machine) res"

(* src/vm/module_manager.c [25-31] _ModuleInfo *)
record mod_info =
  mi_module :: "mod_id option"
  mi_fi :: "string option"
  mi_file_name :: string
  is_loaded :: bool
  native_callback :: "callback option"

(* src/vm/module_manager.h [16-20] ModuleManager *)
type_synonym module_manager = "mod_info klist"

type_synonym vm_state = "module_manager \<times> env \<times> machine"

(* src/vm/module_manager.c _create_moduleinfo *)
definition create_moduleinfo :: "string \<Rightarrow> string \<Rightarrow> module_manager \<Rightarrow> module_manager res" where
  "create_moduleinfo name file_name mm =
     (if kl_lookup mm name \<noteq> None then Inl (Fatal ''Module by this name already exists.'')
      else Inr (kl_put name \<lparr>mi_module = None, mi_fi = None, mi_file_name = file_name, is_loaded = False,
                  native_callback = None\<rparr> mm))"

(* src/vm/module_manager.c mm_register_module_with_callback *)
definition mm_register_module_with_callback ::
    "file_lib \<Rightarrow> string \<Rightarrow> callback option \<Rightarrow> module_manager \<Rightarrow> (string \<times> module_manager) res" where
  "mm_register_module_with_callback fl fn cb mm =
     (let (dir_path, name, ext) = fl_split fl fn in
      case kl_lookup mm name of
        Some mi \<Rightarrow> Inr (name, mm)
      | None \<Rightarrow> andThen (create_moduleinfo name fn mm) (\<lambda>mm1. andThen (deref (kl_lookup mm1 name)) (\<lambda>mi.
          Inr (name, kl_put name (mi\<lparr>native_callback := cb, is_loaded := False\<rparr>) mm1))))"

(* src/vm/module_manager.c mm_register_module *)
definition mm_register_module :: "file_lib \<Rightarrow> string \<Rightarrow> module_manager \<Rightarrow> (string \<times> module_manager) res" where
  "mm_register_module fl fn = mm_register_module_with_callback fl fn None"

text \<open>\<open>n\<close> bounds the nesting of nonterminals and the rounds of the queue of classes. \<open>_read_jl\<close> makes the tape
  as \<open>_read_file\<close> of the compiler does, and always optimises it.\<close>

(* src/vm/module_manager.c _read_jl *)
definition read_jl :: "file_lib \<Rightarrow> nat \<Rightarrow> env \<Rightarrow> string \<Rightarrow> machine \<Rightarrow> (mod_id \<times> machine) res option" where
  "read_jl fl n e file_name m =
     followed (read_file (fl_parse fl) (en_fo e) (fl_ow fl) (fl_deliver fl) n True (fl_lines fl file_name))
       (\<lambda>tape. modulemanager_hydrate n e tape m)"

(* src/vm/module_manager.c _read_ja *)
definition read_ja :: "file_lib \<Rightarrow> nat \<Rightarrow> env \<Rightarrow> string \<Rightarrow> machine \<Rightarrow> (mod_id \<times> machine) res option" where
  "read_ja fl n e file_name m =
     followed (Some (andThen (lex (pl_lex (fl_parse fl)) (lexer_init (fl_lines fl file_name) True)) (\<lambda>tokens.
                 tape_read (en_fo e) (fl_deliver fl) tokens tape_create)))
       (\<lambda>tape. modulemanager_hydrate n e tape m)"

(* src/vm/module_manager.c _read_jb *)
definition read_jb :: "file_lib \<Rightarrow> nat \<Rightarrow> env \<Rightarrow> string \<Rightarrow> machine \<Rightarrow> (mod_id \<times> machine) res option" where
  "read_jb fl n e file_name m =
     (case fl_bytes fl file_name of
        None \<Rightarrow> Some (Inl (Fatal ''Cannot open file.''))
      | Some file \<Rightarrow> followed (Some (tape_read_binary (en_fo e) file tape_create))
          (\<lambda>tape. modulemanager_hydrate n e tape m))"

text \<open>The reader for the ending of the file's name, and whether it keeps the lines of the file.\<close>

(* src/vm/module_manager.c [272-280] modulemanager_load *)
definition read_module :: "file_lib \<Rightarrow> nat \<Rightarrow> env \<Rightarrow> string \<Rightarrow> machine \<Rightarrow> ((mod_id \<times> bool) \<times> machine) res option" where
  "read_module fl n e fn m =
     (if has_end fl fn ''.jb'' then followed (read_jb fl n e fn m) (\<lambda>(md, m1). Some (Inr ((md, False), m1)))
      else if has_end fl fn ''.ja'' then followed (read_ja fl n e fn m) (\<lambda>(md, m1). Some (Inr ((md, True), m1)))
      else if has_end fl fn ''.jv'' then followed (read_jl fl n e fn m) (\<lambda>(md, m1). Some (Inr ((md, True), m1)))
      else Some (Inl (Fatal ''Unknown file type.'')))"

text \<open>Loading the module of a table entry \<open>mi\<close>. \<open>heap_make_root\<close> tells the memory graph alone. The global variables
  of the classes must have been set: the module \<open>builtin\<close>, whose callback sets them, is loaded when the
  pointer \<open>Class_Object\<close> is still \<open>NULL\<close>, which is outside of the model.\<close>

(* src/vm/module_manager.c modulemanager_load *)
definition modulemanager_load :: "file_lib \<Rightarrow> nat \<Rightarrow> string \<Rightarrow> vm_state \<Rightarrow> (mod_id \<times> vm_state) res option" where
  "modulemanager_load fl n name s = (case s of (mm, e, m) \<Rightarrow>
     followed (Some (deref (kl_lookup mm name))) (\<lambda>mi.
       if is_loaded mi then Some (andThen (deref (mi_module mi)) (\<lambda>md. Inr (md, s)))
       else followed (read_module fl n e (mi_file_name mi) m) (\<lambda>((md, keeps), m1).
         let mi1 = mi\<lparr>mi_module := Some md, mi_fi := (if keeps then Some (mi_file_name mi) else mi_fi mi),
               is_loaded := True\<rparr>
         in Some (andThen (case native_callback mi of None \<Rightarrow> Inr (e, m1) | Some cb \<Rightarrow> cb md e m1) (\<lambda>(e1, m2).
            andThen (add_reflection_to_module e1 md m2) (\<lambda>m3. Inr (md, kl_put name mi1 mm, e1, m3)))))))"

(* src/vm/module_manager.c modulemanager_lookup *)
definition modulemanager_lookup :: "file_lib \<Rightarrow> nat \<Rightarrow> string \<Rightarrow> vm_state \<Rightarrow> (mod_id option \<times> vm_state) res option" where
  "modulemanager_lookup fl n name s =
     (if kl_lookup (fst s) name = None then Some (Inr (None, s))
      else followed (modulemanager_load fl n name s) (\<lambda>(md, s1). Some (Inr (Some md, s1))))"

(* src/vm/module_manager.c modulemanager_get_fileinfo *)
definition modulemanager_get_fileinfo :: "module_manager \<Rightarrow> mod_id \<Rightarrow> machine \<Rightarrow> string option res" where
  "modulemanager_get_fileinfo mm md m =
     (case m_name (mod_at m md) of
        None \<Rightarrow> Inl (Fatal ''NOT_NULL(m->_name)'')
      | Some name \<Rightarrow> Inr (Option.bind (kl_lookup mm name) mi_fi))"

subsection \<open>Classes added to a loaded module\<close>

text \<open>One class of the tape; \<open>new_classes\<close> collects what was made.\<close>

(* src/vm/module_manager.c [337-341] modulemanager_update_module *)
definition update_class ::
    "env \<Rightarrow> mod_id \<Rightarrow> class_ref \<Rightarrow> cls_id klist \<times> machine \<Rightarrow> (bool \<times> cls_id klist \<times> machine) res" where
  "update_class e md cref = (\<lambda>(new_classes, m). andThen (hydrate_class e md cref m) (\<lambda>(ok, m1).
     if \<not> ok then Inr (False, new_classes, m1)
     else andThen (deref (module_lookup_class md (cref_name cref) m1)) (\<lambda>c.
          andThen (add_reflection_to_class e md c m1) (\<lambda>m2.
          Inr (True, kl_put (cref_name cref) c new_classes, m2)))))"

(* src/vm/module_manager.c [320-333] modulemanager_update_module *)
definition update_pass ::
    "env \<Rightarrow> mod_id \<Rightarrow> class_ref list \<Rightarrow> cls_id klist \<times> machine \<Rightarrow> (nat list \<times> cls_id klist \<times> machine) res" where
  "update_pass e md crefs s = foldRes (\<lambda>i (q, s).
     if module_lookup_class md (cref_name (crefs ! i)) (snd s) \<noteq> None then Inr (q, s)
     else andThen (update_class e md (crefs ! i) s) (\<lambda>(ok, s1). Inr (if ok then q else q @ [i], s1)))
     [0..<length crefs] ([], s)"

(* src/vm/module_manager.c [334-344] modulemanager_update_module *)
fun update_queue ::
    "nat \<Rightarrow> env \<Rightarrow> mod_id \<Rightarrow> class_ref list \<Rightarrow> nat list \<Rightarrow> cls_id klist \<times> machine \<Rightarrow> (cls_id klist \<times> machine) res option" where
  "update_queue n e md crefs [] s = Some (Inr s)"
| "update_queue 0 e md crefs (i # q) s = None"
| "update_queue (Suc n) e md crefs (i # q) s =
     (let (j, q') = en_pop e (i # q)
      in followed (Some (update_class e md (crefs ! j) s)) (\<lambda>(ok, s1).
           update_queue n e md crefs (if ok then q' else q' @ [j]) s1))"

(* src/vm/module_manager.c modulemanager_update_module *)
definition modulemanager_update_module ::
    "nat \<Rightarrow> env \<Rightarrow> mod_id \<Rightarrow> cls_id klist \<times> machine \<Rightarrow> (cls_id klist \<times> machine) res option" where
  "modulemanager_update_module n e md s =
     (let crefs = tape_classes (m_tape (mod_at (snd s) md)) in
      followed (Some (update_pass e md crefs s)) (\<lambda>(q, s1). update_queue n e md crefs q s1))"

subsection \<open>The program that runs modules\<close>

text \<open>\<open>cl_args\<close> is the map of program arguments in the order in which it is iterated.\<close>

(* src/run/run.c _set_args *)
definition set_args :: "env \<Rightarrow> (string \<times> string) list \<Rightarrow> machine \<Rightarrow> machine res" where
  "set_args e cl_args m =
     (let (args, m1) = heap_new (Class_Object e) m;
          m2 = fold (\<lambda>(k, v) m. let (str, m') = string_new e v m in object_set_member_obj args k str m') cl_args m1
      in andThen (deref (m_reflection (mod_at m2 (Module_builtin e)))) (\<lambda>r.
         Inr (object_set_member_obj r ''args'' args m2)))"

text \<open>Every source is registered; the first is loaded, and is the main module.\<close>

(* src/run/run.c [66-75] run *)
definition run_source ::
    "file_lib \<Rightarrow> nat \<Rightarrow> string \<Rightarrow> mod_id option \<times> vm_state \<Rightarrow> (mod_id option \<times> vm_state) res option" where
  "run_source fl n src = (\<lambda>(main_module, mm, e, m).
     followed (Some (mm_register_module fl src mm)) (\<lambda>(name, mm1).
       if main_module \<noteq> None then Some (Inr (main_module, mm1, e, m))
       else followed (modulemanager_load fl n name (mm1, e, m)) (\<lambda>(md, mm2, e2, m2).
         Some (andThen (deref (m_reflection (mod_at m2 md))) (\<lambda>r.
           Inr (Some md, mm2, e2, object_set_member r ''__main'' (entity_int 1) m2))))))"

text \<open>The start of a program on a virtual machine that \<open>vm_create\<close> has made: the queue holds the first task.\<close>

(* src/run/run.c [65-79] run *)
definition run_prepare ::
    "arg_lib \<Rightarrow> file_lib \<Rightarrow> nat \<Rightarrow> string list \<Rightarrow> arg_store \<Rightarrow> vm_state \<Rightarrow> vm_state res option" where
  "run_prepare al fl n source_files store vm =
     followed (for_each (run_source fl n) (fl_order fl source_files) (None, vm)) (\<lambda>(main_module, mm, e, m).
     Some (andThen (set_args e (al_order al (program_args store)) m) (\<lambda>m1.
       andThen (deref main_module) (\<lambda>md. andThen (deref (m_reflection (mod_at m1 md))) (\<lambda>self.
         Inr (mm, e, run_start e md self m1))))))"

text \<open>\<open>vm_create\<close> is an argument; \<open>k\<close> and \<open>n\<close> bound the number of tasks run and the turns of each.\<close>

(* src/run/run.c run *)
definition run ::
    "arg_lib \<Rightarrow> file_lib \<Rightarrow> (string \<Rightarrow> vm_state) \<Rightarrow> nat \<Rightarrow> nat \<Rightarrow> string list \<Rightarrow> arg_store \<Rightarrow> machine res option" where
  "run al fl vm_create k n source_files store =
     followed (Some (argstore_lookup_string store LIB_LOCATION)) (\<lambda>lib_location.
     followed (run_prepare al fl n source_files store (vm_create lib_location)) (\<lambda>(mm, e, m).
     run_queue k n e m))"

(* src/run/run.c jvr *)
definition jvr ::
    "arg_lib \<Rightarrow> file_lib \<Rightarrow> fops \<Rightarrow> string option \<Rightarrow> (string \<Rightarrow> vm_state) \<Rightarrow> nat \<Rightarrow> nat \<Rightarrow> string list \<Rightarrow> machine res option" where
  "jvr al fl fo path_var vm_create k n argv =
     followed (Some (andThen (argconfig_run path_var (argconfig_create al)) (\<lambda>config.
                 commandline_parse_args al fo config argv))) (\<lambda>store.
     run al fl vm_create k n (src_files store) store)"

end
