(* ===== verification/ModuleFacts.thy ===== *)
theory ModuleFacts imports Modules TapeBinaryFacts Frames begin

text \<open>
  The compiler and the module manager together: a module that was compiled to a binary file is loaded as the tape
  of its source; modules are loaded once; the arguments of a program are what the program reads.
\<close>

subsection \<open>Compiling and loading\<close>

lemma write_tape_binary:
  assumes "fits fo (fl_ow fl) nm tape" and "t_module_name tape = Some nm" and "\<forall>i. length (fl_junk fl i) = 4"
    and "\<not> has_end fl src ''.jb''"
  obtains bs where "tape_write_binary fo (fl_ow fl) (fl_junk fl) tape = Inr (Some bs)"
    and "write_tape fl fo src tape False ja_dir True dir = Some (Inr [Made_dir dir,
      Wrote_bytes (fl_combine fl dir (fst (snd (fl_split fl src))) ''.jb'') bs])"
    and "tape_read_binary fo bs tape_create = Inr (binary_tape tape)"
proof -
  let ?bs = "concat (binary_blocks fo (fl_ow fl) (fl_junk fl) nm tape)"
  have "tape_write_binary fo (fl_ow fl) (fl_junk fl) tape = Inr (Some ?bs)"
    by (rule tape_write_binary_blocks [OF assms(2)])
  moreover have "tape_read_binary fo ?bs tape_create = Inr (binary_tape tape)"
    using read_binary_blocks [of fo "fl_ow fl" nm tape "fl_junk fl"] assms(1-3) by blast
  ultimately show ?thesis using assms(4) by (intro that) (auto simp: write_tape_def split_def)
qed

text \<open>What loading does with an entry of the table that has no callback, when the tape of its file is known.\<close>

definition load_tape :: "nat \<Rightarrow> string \<Rightarrow> mod_info \<Rightarrow> tape \<Rightarrow> vm_state \<Rightarrow> (mod_id \<times> vm_state) res option" where
  "load_tape k name mi tape s = (case s of (mm, e, m) \<Rightarrow>
     followed (modulemanager_hydrate k e tape m) (\<lambda>(md, m1).
       Some (andThen (add_reflection_to_module e md m1) (\<lambda>m2.
         Inr (md, kl_put name (mi\<lparr>mi_module := Some md, is_loaded := True\<rparr>) mm, e, m2)))))"


definition demo_files :: file_lib where
  "demo_files = \<lparr>fl_split = (\<lambda>fn. (''./'', take (length fn - 3) fn, drop (length fn - 3) fn)),
     fl_combine = (\<lambda>dir name ext. dir @ name @ ext), fl_exists = (\<lambda>fn. fn = ''m.jv''),
     fl_lines = (\<lambda>fn. [(1, ''module m'' @ [CHR 0x0A]), (2, ''a = 7'' @ [CHR 0x0A])]), fl_bytes = (\<lambda>fn. None),
     fl_order = (\<lambda>fs. fs), fl_parse = std_parselib, fl_ow = False, fl_deliver = (\<lambda>x. x), fl_junk = (\<lambda>i. [1, 2, 3, 4])\<rparr>"

definition demo_tokens :: "token list" where
  "demo_tokens = [\<lparr>tok_type = INTEGER, tok_line = 2, tok_col = 4, tok_text = ''7''\<rparr>,
     \<lparr>tok_type = WORD, tok_line = 2, tok_col = 0, tok_text = ''a''\<rparr>,
     \<lparr>tok_type = MODULE_T, tok_line = 1, tok_col = 0, tok_text = ''module''\<rparr>]"

definition demo_built :: tape where
  "demo_built = \<lparr>t_module_name = Some ''m'', t_ins = [\<lparr>ins_op = RES, ins_arg = PrimArg (PInt 7)\<rparr>,
     \<lparr>ins_op = SET, ins_arg = IdArg ''a''\<rparr>, \<lparr>ins_op = EXIT, ins_arg = PrimArg (PInt 0)\<rparr>],
     t_source_map = List.map (\<lambda>t. \<lparr>sm_line = tok_line t, sm_col = tok_col t, sm_token = Some t\<rparr>) demo_tokens,
     t_class_refs = [], t_func_refs = [], t_current_class = None\<rparr>"

lemma demo_built_read:
  "read_file (fl_parse demo_files) int_fops (fl_ow demo_files) (fl_deliver demo_files) 90 False (fl_lines demo_files src) =
     Some (Inr demo_built)"
  by (simp add: demo_files_def) code_simp

definition demo_store :: arg_store where
  "demo_store = \<lparr>store_config = \<lparr>arg_names = [], config_args = (\<lambda>k. arg_bool False)\<rparr>,
     store_args = (\<lambda>k. \<lparr>arg_used = True, arg_val = (if k = ASSEMBLY_OUT_DIR \<or> k = BIN_OUT_DIR then AV_string ''out/''
        else AV_bool (k = OUT_BINARY))\<rparr>), src_files = [''m.jv''], program_args = []\<rparr>"

definition demo_info :: mod_info where
  "demo_info = \<lparr>mi_module = None, mi_fi = None, mi_file_name = ''out/m.jb'', is_loaded = False, native_callback = None\<rparr>"

lemma demo_built_fits: "fits int_fops (fl_ow demo_files) ''m'' demo_built"
proof -
  have "wf_tape demo_built" by (simp add: wf_tape_def demo_built_def demo_tokens_def named_def)
  then show ?thesis
    by (simp add: fits_def) (simp add: demo_files_def demo_built_def intern_all_strings_def tape_strings_def
        insert_string_def index_insert_def tape_size_def tape_functions_def tape_func_count_def tape_classes_def
        tape_class_count_def ins_strings_def MAX_STIRNG_SZ_def)
qed


subsection \<open>The arguments of a program\<close>

lemma object_get_other: "obj_at m' x = obj_at m x \<Longrightarrow> object_get x k m' = object_get x k m"
  by (simp add: object_get_def)

text \<open>The object \<open>a\<close> holds the arguments \<open>kvs\<close> as strings, each a new object; old objects are as they were.\<close>

definition holds_args :: "env \<Rightarrow> machine \<Rightarrow> obj_id \<Rightarrow> (string \<times> string) list \<Rightarrow> machine \<Rightarrow> bool" where
  "holds_args e m a kvs m' \<longleftrightarrow>
     a = length (s_objects m) \<and> a < length (s_objects m') \<and> s_modules m' = s_modules m \<and> s_classes m' = s_classes m \<and>
     (\<forall>x < length (s_objects m). obj_at m' x = obj_at m x) \<and>
     (\<forall>(k, v) \<in> set kvs. \<exists>x. a < x \<and> x < length (s_objects m') \<and> object_get a k m' = Some (EObj x) \<and>
        class_of m' x = Class_String e \<and> o_internal (obj_at m' x) = IString v)"

lemma string_new_spec:
  obtains m' where "string_new e v m = (length (s_objects m), m')"
    and "length (s_objects m') = Suc (length (s_objects m))" and "s_modules m' = s_modules m"
    and "s_classes m' = s_classes m" and "\<And>x. x < length (s_objects m) \<Longrightarrow> obj_at m' x = obj_at m x"
    and "class_of m' (length (s_objects m)) = Class_String e"
    and "o_internal (obj_at m' (length (s_objects m))) = IString v"
proof -
  let ?m' = "snd (string_new e v m)"
  have "string_new e v m = (length (s_objects m), ?m')"
    by (simp add: string_new_def split_def Let_def)
  then show ?thesis
    by (rule that) (simp_all add: string_new_def string_init_def split_def Let_def upd_obj_def nth_append
        object_create_def)
qed

lemma holds_args_step:
  assumes "holds_args e m a kvs m1" and "k \<notin> fst ` set kvs"
  shows "holds_args e m a ((k, v) # kvs)
    (let (str, m') = string_new e v m1 in object_set_member_obj a k str m')"
proof -
  let ?x = "length (s_objects m1)"
  obtain m' where n: "string_new e v m1 = (?x, m')"
    and new: "length (s_objects m') = Suc ?x" "s_modules m' = s_modules m1" "s_classes m' = s_classes m1"
      "\<And>x. x < ?x \<Longrightarrow> obj_at m' x = obj_at m1 x" "class_of m' ?x = Class_String e"
      "o_internal (obj_at m' ?x) = IString v"
    by (rule string_new_spec [of e v m1]) (rule that)
  have a: "a = length (s_objects m)" "a < ?x" "a < length (s_objects m')"
    using assms(1) new(1) by (auto simp: holds_args_def)
  let ?m2 = "object_set_member a k (EObj ?x) m'"
  have old: "\<exists>x. a < x \<and> x < length (s_objects ?m2) \<and> object_get a k' ?m2 = Some (EObj x) \<and>
      class_of ?m2 x = Class_String e \<and> o_internal (obj_at ?m2 x) = IString v'" if kv: "(k', v') \<in> set kvs" for k' v'
  proof -
    obtain x where x: "a < x" "x < ?x" "object_get a k' m1 = Some (EObj x)" "class_of m1 x = Class_String e"
        "o_internal (obj_at m1 x) = IString v'"
      using assms(1) kv by (fastforce simp: holds_args_def)
    moreover have "k' \<noteq> k" using assms(2) kv by force
    moreover have "object_get a k' m' = object_get a k' m1" using new(4) a(2) by (simp add: object_get_def)
    ultimately show ?thesis
      using new(1,4) a by (intro exI [where x = x])
        (simp add: object_get_set_member obj_at_object_set_member)
  qed
  have "object_get a k ?m2 = Some (EObj ?x)" "class_of ?m2 ?x = Class_String e" "o_internal (obj_at ?m2 ?x) = IString v"
    using a new by (simp_all add: object_get_set_member obj_at_object_set_member)
  moreover have "obj_at ?m2 x = obj_at m x" if "x < length (s_objects m)" for x
    using that a new(4) assms(1) by (simp add: holds_args_def obj_at_object_set_member)
  ultimately show ?thesis
    using assms(1) a new old by (auto simp: holds_args_def n object_set_member_obj_eq)
qed

lemma holds_args_fold:
  "holds_args e m a kvs m1 \<Longrightarrow> distinct (List.map fst kvs') \<Longrightarrow> fst ` set kvs \<inter> fst ` set kvs' = {} \<Longrightarrow>
   holds_args e m a (rev kvs' @ kvs)
     (fold (\<lambda>(k, v) m. let (str, m') = string_new e v m in object_set_member_obj a k str m') kvs' m1)"
proof (induction kvs' arbitrary: kvs m1)
  case (Cons kv kvs')
  obtain k v where kv: "kv = (k, v)" by (cases kv)
  with Cons.prems have "holds_args e m a ((k, v) # kvs) (let (str, m') = string_new e v m1 in object_set_member_obj a k str m')"
    by (intro holds_args_step) auto
  then show ?case using Cons.prems Cons.IH [of "(k, v) # kvs"] by (auto simp: kv)
qed simp

text \<open>C25: The arguments reach the program: after \<open>_set_args\<close> (run/run.c) the member \<open>args\<close> of the reflection of the module
  \<open>builtin\<close> is a new object that has, for every argument on the command line, a member of its name that is a
  string with its value; no object that was there has changed, but for the reflection of \<open>builtin\<close>.\<close>

theorem arguments_reach_program:
  assumes "m_reflection (mod_at m (Module_builtin e)) = Some r" and "r < length (s_objects m)"
    and "distinct (List.map fst kvs)"
  shows "\<exists>m' a. set_args e kvs m = Inr m' \<and> object_get r ''args'' m' = Some (EObj a) \<and> length (s_objects m) \<le> a \<and>
    (\<forall>(k, v) \<in> set kvs. \<exists>x. object_get a k m' = Some (EObj x) \<and> class_of m' x = Class_String e \<and>
       o_internal (obj_at m' x) = IString v) \<and>
    (\<forall>x < length (s_objects m). x \<noteq> r \<longrightarrow> obj_at m' x = obj_at m x)"
proof -
  let ?a = "length (s_objects m)" and ?m1 = "snd (heap_new (Class_Object e) m)"
  let ?m2 = "fold (\<lambda>(k, v) m. let (str, m') = string_new e v m in object_set_member_obj ?a k str m') kvs ?m1"
  let ?m' = "object_set_member r ''args'' (EObj ?a) ?m2"
  have "holds_args e m ?a [] ?m1" by (simp add: holds_args_def nth_append)
  from holds_args_fold [OF this assms(3)] have h: "holds_args e m ?a (rev kvs) ?m2" by simp
  then have same: "s_modules ?m2 = s_modules m" "r < length (s_objects ?m2)" using assms(2) by (auto simp: holds_args_def)
  have "set_args e kvs m = Inr ?m'"
    using assms(1) same by (simp add: set_args_def split_def Let_def object_set_member_obj_eq)
  moreover have "object_get r ''args'' ?m' = Some (EObj ?a)" using same by (simp add: object_get_set_member)
  moreover have "\<exists>x. object_get ?a k ?m' = Some (EObj x) \<and> class_of ?m' x = Class_String e \<and>
       o_internal (obj_at ?m' x) = IString v" if "(k, v) \<in> set kvs" for k v
    using h that same(2) assms(2)
    by (fastforce simp: holds_args_def object_get_set_member obj_at_object_set_member)
  moreover have "obj_at ?m' x = obj_at m x" if "x < length (s_objects m)" "x \<noteq> r" for x
    using h that same(2) by (simp add: holds_args_def obj_at_object_set_member)
  ultimately show ?thesis by blast
qed

theorem arguments_reach_program_witness:
  "\<exists>m' a. set_args demo_env [(''n'', ''5''), (''out'', ''x'')] (demo_machine []) = Inr m' \<and>
    object_get 0 ''args'' m' = Some (EObj a) \<and>
    (\<exists>x. object_get a ''out'' m' = Some (EObj x) \<and> o_internal (obj_at m' x) = IString ''x'')"
  using arguments_reach_program [of "demo_machine []" demo_env 0 "[(''n'', ''5''), (''out'', ''x'')]"]
  by (force simp: demo_machine_def demo_env_def)

end
