(* ===== verification/ModuleTable.thy ===== *)
theory ModuleTable imports Modules NativeModules TypeFacts begin

text \<open>
  What loading a module may change (\<open>vm/module_manager.c\<close>), and that every module is loaded once. The locale \<open>loading\<close>
  adds to the elementary updates of \<open>Frames\<close> those that make modules, classes and functions; a property
  that survives them survives the making of a module from its tape, its reflections and the native callbacks. It is
  interpreted three times: tasks are left alone, objects keep their class, modules stay.
\<close>

locale loading = updates +
  assumes inv_classes: "inv m \<Longrightarrow> inv (m\<lparr>s_classes := cs\<rparr>)"
    and inv_functions: "inv m \<Longrightarrow> inv (m\<lparr>s_functions := fs\<rparr>)"
    and inv_new_module: "inv m \<Longrightarrow> inv (m\<lparr>s_modules := s_modules m @ [md']\<rparr>)"
    and inv_mod_classes: "inv m \<Longrightarrow> inv (upd_mod md (\<lambda>x. x\<lparr>m_classes := kc x\<rparr>) m)"
    and inv_mod_functions: "inv m \<Longrightarrow> inv (upd_mod md (\<lambda>x. x\<lparr>m_functions := kf x\<rparr>) m)"
    and inv_mod_reflection: "inv m \<Longrightarrow> inv (upd_mod md (\<lambda>x. x\<lparr>m_reflection := Some r\<rparr>) m)"
begin

lemma inv_upd_cls: "inv m \<Longrightarrow> inv (upd_cls c k m)"
  by (simp add: upd_cls_def inv_classes)

lemma inv_upd_fun: "inv m \<Longrightarrow> inv (upd_fun f k m)"
  by (simp add: upd_fun_def inv_functions)

lemmas inv_making = inv_classes inv_functions inv_new_module inv_mod_classes inv_mod_functions inv_mod_reflection
  inv_upd_cls inv_upd_fun

subsection \<open>Classes and functions\<close>

lemma inv_module_add_function: "inv m \<Longrightarrow> post inv2 (module_add_function md name i b a m)"
  by (auto simp: module_add_function_def new_function_def Let_def intro!: inv_making)

lemma inv_module_add_class: "inv m \<Longrightarrow> inv (snd (module_add_class md name super m))"
  by (auto simp: module_add_class_def Let_def intro!: inv_making split: option.split)

lemma inv_class_add_function: "inv m \<Longrightarrow> post inv2 (class_add_function c name i b a m)"
  by (auto simp: class_add_function_def new_function_def Let_def intro!: inv_making)

lemma inv_class_add_field: "inv m \<Longrightarrow> post inv (class_add_field c name m)"
  by (auto simp: class_add_field_def intro!: inv_making)

lemma inv_native_function: "inv m \<Longrightarrow> post inv2 (native_function md name n m)"
  by (auto simp: native_function_def intro!: post_andThen [OF inv_module_add_function] inv_making)

lemma inv_native_method: "inv m \<Longrightarrow> post inv2 (native_method c name n m)"
  by (auto simp: native_method_def intro!: post_andThen [OF inv_class_add_function] inv_making)

lemma inv_native_class: "inv m \<Longrightarrow> inv (snd (native_class e' md name i m))"
  by (simp add: native_class_def case_prod_beta inv_upd_cls inv_module_add_class)

subsection \<open>From a tape to a module\<close>

lemma inv_hydrate_class: "inv m \<Longrightarrow> post inv2 (hydrate_class e' md cref m)"
  by (auto simp: hydrate_class_def Let_def case_prod_beta
      intro!: post_andThen [OF post_foldRes [where P = inv]] inv_class_add_field inv_module_add_class
        post_andThen [OF inv_class_add_function] split: option.split)

lemma inv_hydrate_pass: "inv m \<Longrightarrow> post inv2 (hydrate_pass e' md crefs m)"
  unfolding hydrate_pass_def
  by (rule post_foldRes [where P = "inv2"]) (auto intro!: post_andThen [OF inv_hydrate_class])

lemma inv_hydrate_queue: "hydrate_queue n e' md crefs q m = Some (Inr m') \<Longrightarrow> inv m \<Longrightarrow> inv m'"
  by (induction n e' md crefs q m rule: hydrate_queue.induct)
     (auto split: prod.splits sum.splits dest: postD [OF inv_hydrate_class])

lemma inv_hydrate_from:
  assumes "modulemanager_hydrate n e' t m = Some (Inr (md, m'))"
    and "inv (m\<lparr>s_modules := s_modules m @ [module_init (t_module_name t) t]\<rparr>)"
  shows "inv m'"
proof -
  let ?m = "m\<lparr>s_modules := s_modules m @ [module_init (t_module_name t) t]\<rparr>" and ?md = "length (s_modules m)"
  have "post inv2 (andThen (foldRes (\<lambda>f m. andThen
      (module_add_function ?md (fref_name f) (fref_index f) (fref_const f) (fref_async f) m)
      (\<lambda>(_, m'). Inr m')) (tape_functions t) ?m) (hydrate_pass e' ?md (tape_classes t)))"
    using assms(2)
    by (intro post_andThen [OF post_foldRes [where P = inv]] inv_hydrate_pass)
       (auto intro!: post_andThen [OF inv_module_add_function])
  then show ?thesis
    using assms(1) by (auto simp: modulemanager_hydrate_def Let_def andThen_eq_Inr split: sum.splits
        dest: inv_hydrate_queue)
qed

lemma inv_hydrate: "modulemanager_hydrate n e' t m = Some (Inr (md, m')) \<Longrightarrow> inv m \<Longrightarrow> inv m'"
  by (rule inv_hydrate_from) (auto intro: inv_new_module)

subsection \<open>Reflections\<close>

lemma inv_function_reflection: "inv m \<Longrightarrow> inv (add_reflection_to_function e' p f m)"
  by (auto simp: add_reflection_to_function_def Let_def case_prod_beta intro!: inv_basic inv_making
      split: option.split)

lemma inv_fold_functions: "inv m \<Longrightarrow> inv (fold (add_reflection_to_function e' p) fs m)"
  by (induction fs arbitrary: m) (auto intro: inv_function_reflection)

lemma inv_any_string: "inv m \<Longrightarrow> inv (snd (string_new e' s m))"
  using inv_internal [OF inv_new]
  by (simp add: string_new_def string_init_def set_internal_def case_prod_beta)

lemma inv_class_reflection: "inv m \<Longrightarrow> post inv (add_reflection_to_class e' md c m)"
  by (auto simp: add_reflection_to_class_def Let_def case_prod_beta
      intro!: post_pure post_foldRes inv_array_add inv_any_string inv_basic inv_making inv_fold_functions split: option.split)

lemma inv_module_reflection_from:
  assumes "inv (set_internal (length (s_objects m)) (IModule md)
    (upd_mod md (\<lambda>x. x\<lparr>m_reflection := Some (length (s_objects m))\<rparr>) (snd (heap_new (Class_Module e') m))))"
  shows "post inv (add_reflection_to_module e' md m)"
  using assms
  by (auto simp: add_reflection_to_module_def Let_def case_prod_beta
      intro!: post_andThen [OF post_foldRes [where P = inv]] post_pure post_foldRes inv_class_reflection
        inv_function_reflection)

lemma inv_module_reflection: "inv m \<Longrightarrow> post inv (add_reflection_to_module e' md m)"
  by (rule inv_module_reflection_from) (auto intro!: inv_basic inv_making)

subsection \<open>Loading\<close>

lemma inv_read_module: "read_module fl n e' fn m = Some (Inr (r, m')) \<Longrightarrow> inv m \<Longrightarrow> inv m'"
  by (auto simp: read_module_def read_jl_def read_ja_def read_jb_def followed_eq_Inr
      split: if_splits option.splits dest: inv_hydrate)

lemma inv_load:
  assumes "modulemanager_load fl n name (mm, e', m) = Some (Inr (md, mm', e1, m'))" and "inv m"
    and "\<And>mi cb md m m'. kl_lookup mm name = Some mi \<Longrightarrow> native_callback mi = Some cb \<Longrightarrow> cb md e' m = Inr (e1, m') \<Longrightarrow>
      inv m \<Longrightarrow> inv m'"
  shows "inv m'"
  using assms
  by (fastforce simp: modulemanager_load_def followed_eq_Inr andThen_eq_Inr Let_def split: if_splits option.splits
      dest: inv_read_module postD [OF inv_module_reflection])

lemma inv_update_class: "inv (snd s) \<Longrightarrow> post (\<lambda>(ok, s'). inv (snd s')) (update_class e' md cref s)"
  by (cases s) (auto simp: update_class_def
      intro!: post_andThen [OF inv_hydrate_class] post_pure post_andThen [OF inv_class_reflection])

lemma inv_update_queue: "update_queue n e' md crefs q s = Some (Inr s') \<Longrightarrow> inv (snd s) \<Longrightarrow> inv (snd s')"
  by (induction n e' md crefs q s rule: update_queue.induct)
     (auto simp: followed_eq_Inr split: prod.splits dest: postD [OF inv_update_class])

lemma inv_update_pass: "inv (snd s) \<Longrightarrow> post (\<lambda>(q, s'). inv (snd s')) (update_pass e' md crefs s)"
  unfolding update_pass_def
  by (intro post_foldRes) (auto simp: case_prod_beta intro!: post_andThen [OF inv_update_class])

lemma inv_update_module:
  assumes "modulemanager_update_module n e' md s = Some (Inr s')" and "inv (snd s)"
  shows "inv (snd s')"
proof -
  let ?crefs = "tape_classes (m_tape (mod_at (snd s) md))"
  obtain q s1 where "update_pass e' md ?crefs s = Inr (q, s1)" and q: "update_queue n e' md ?crefs q s1 = Some (Inr s')"
    using assms(1) by (auto simp: modulemanager_update_module_def followed_eq_Inr Let_def)
  from postD [OF inv_update_pass [OF assms(2)] this(1)] have "inv (snd s1)" by simp
  with q show ?thesis by (rule inv_update_queue)
qed

subsection \<open>The callbacks\<close>

lemma inv_register: "inv m \<Longrightarrow> post inv (register md num fs m)"
  unfolding register_def by (rule post_foldRes) (auto intro!: post_andThen [OF inv_native_function])

lemma inv_add_methods: "inv m \<Longrightarrow> post inv (add_methods L c fs m)"
  unfolding add_methods_def by (rule post_foldRes) (auto intro!: post_andThen [OF inv_native_method])

lemma inv_add_functions: "inv m \<Longrightarrow> post inv (add_functions L md fs m)"
  unfolding add_functions_def by (rule post_foldRes) (auto intro!: post_andThen [OF inv_native_function])

lemma inv_error_add_native: "inv m \<Longrightarrow> post inv2 (error_add_native num md e' m)"
  by (auto simp: error_add_native_def case_prod_beta Let_def
      intro!: post_andThen [OF inv_native_method] inv_native_class)

lemma inv_async_add_native: "inv m \<Longrightarrow> post inv2 (async_add_native num md e' m)"
  by (auto simp: async_add_native_def case_prod_beta Let_def
      intro!: post_andThen [OF inv_register] inv_native_class)

lemma inv_give_reflection: "inv m \<Longrightarrow> inv (give_reflection c c' m)"
  by (auto simp: give_reflection_def case_prod_beta Let_def intro!: inv_basic inv_making)

lemma inv_builtin_classes: "inv m \<Longrightarrow> inv (snd (builtin_classes md e' m))"
  by (simp add: builtin_classes_def case_prod_beta Let_def inv_give_reflection inv_upd_cls inv_module_add_class)

lemma inv_builtin_add_function: "inv m \<Longrightarrow> post inv (builtin_add_function L e' m)"
  by (auto simp: builtin_add_function_def Let_def intro!: post_andThen [OF inv_add_methods] inv_add_methods)

lemma inv_builtin_add_range: "inv m \<Longrightarrow> post inv (builtin_add_range L e' md m)"
  by (auto simp: builtin_add_range_def case_prod_beta intro!: inv_add_methods inv_native_class)

lemma inv_builtin_add_native: "inv m \<Longrightarrow> post inv2 (builtin_add_native L md e' m)"
  unfolding builtin_add_native_def builtin_add_string_def case_prod_beta Let_def
  by (intro post_andThen [OF inv_add_functions] post_andThen [OF inv_builtin_add_function]
      post_andThen [OF inv_builtin_add_range] post_andThen [OF inv_add_methods] inv_native_class inv_builtin_classes)
     simp_all

end

subsection \<open>What loading leaves alone\<close>

text \<open>Modules that exist go on to exist, and those with a reflection have one.\<close>

definition keeps_modules :: "machine \<Rightarrow> machine \<Rightarrow> bool" where
  "keeps_modules m m' \<longleftrightarrow> length (s_modules m) \<le> length (s_modules m') \<and>
     (\<forall>i < length (s_modules m). m_reflection (mod_at m i) \<noteq> None \<longrightarrow> m_reflection (mod_at m' i) \<noteq> None)"

lemma keeps_modules_refl [simp]: "keeps_modules m m"
  by (simp add: keeps_modules_def)

lemma keeps_modules_trans: "keeps_modules m m' \<Longrightarrow> keeps_modules m' m'' \<Longrightarrow> keeps_modules m m''"
  by (force simp: keeps_modules_def)

lemma keeps_modules_same: "s_modules m' = s_modules m \<Longrightarrow> keeps_modules m m'"
  by (simp add: keeps_modules_def)

lemma keeps_modules_upd:
  "(\<And>x. m_reflection x \<noteq> None \<Longrightarrow> m_reflection (f x) \<noteq> None) \<Longrightarrow> keeps_modules m (upd_mod md f m)"
  by (cases "md < length (s_modules m)") (auto simp: keeps_modules_def upd_mod_def nth_list_update)

lemma keeps_modules_new: "keeps_modules m (m\<lparr>s_modules := s_modules m @ [x]\<rparr>)"
  by (auto simp: keeps_modules_def nth_append)

lemma keeps_modules_step: "keeps_modules m0 m \<Longrightarrow> keeps_modules m m' \<Longrightarrow> keeps_modules m0 m'"
  by (rule keeps_modules_trans)

interpretation loads_calm: loading e "calm m0" for e m0
  by unfold_locales (auto elim!: calm_step intro: calm_same simp: upd_mod_def)

interpretation loads_kept: loading e "kept m0" for e m0
  by unfold_locales (auto elim!: kept_step intro: kept_same simp: upd_mod_def)

interpretation loads_modules: loading e "keeps_modules m0" for e m0
  by unfold_locales (auto elim!: keeps_modules_step intro!: keeps_modules_upd keeps_modules_new
      intro: keeps_modules_same simp: set_internal_def)

text \<open>The condition on a native callback, and that those of the library meet it.\<close>

definition harmless :: "callback \<Rightarrow> bool" where
  "harmless cb \<longleftrightarrow> (\<forall>md e m e' m'. cb md e m = Inr (e', m') \<longrightarrow> calm m m' \<and> kept m m' \<and> keeps_modules m m')"

lemma library_callbacks_harmless:
  "harmless (builtin_add_native L)" "harmless (error_add_native num)" "harmless (async_add_native num)"
  "harmless (\<lambda>md e m. andThen (math_add_native num md m) (\<lambda>m'. Inr (e, m')))"
proof -
  note b = loads_calm.inv_builtin_add_native [OF calm_refl, THEN postD]
    loads_kept.inv_builtin_add_native [OF kept_refl, THEN postD]
    loads_modules.inv_builtin_add_native [OF keeps_modules_refl, THEN postD]
  show "harmless (builtin_add_native L)" unfolding harmless_def by (auto dest: b)
  note e = loads_calm.inv_error_add_native [OF calm_refl, THEN postD]
    loads_kept.inv_error_add_native [OF kept_refl, THEN postD]
    loads_modules.inv_error_add_native [OF keeps_modules_refl, THEN postD]
  show "harmless (error_add_native num)" unfolding harmless_def by (auto dest: e)
  note a = loads_calm.inv_async_add_native [OF calm_refl, THEN postD]
    loads_kept.inv_async_add_native [OF kept_refl, THEN postD]
    loads_modules.inv_async_add_native [OF keeps_modules_refl, THEN postD]
  show "harmless (async_add_native num)" unfolding harmless_def by (auto dest: a)
  note r = loads_calm.inv_register [OF calm_refl, THEN postD]
    loads_kept.inv_register [OF kept_refl, THEN postD]
    loads_modules.inv_register [OF keeps_modules_refl, THEN postD]
  show "harmless (\<lambda>md e m. andThen (math_add_native num md m) (\<lambda>m'. Inr (e, m')))"
    unfolding harmless_def by (auto simp: math_add_native_def andThen_eq_Inr dest: r)
qed

lemma load_harmless:
  assumes "modulemanager_load fl n name (mm, e, m) = Some (Inr (md, mm', e', m'))"
    and "\<And>mi cb. kl_lookup mm name = Some mi \<Longrightarrow> native_callback mi = Some cb \<Longrightarrow> harmless cb"
  shows "calm m m' \<and> kept m m' \<and> keeps_modules m m'"
  using loads_calm.inv_load [OF assms(1) calm_refl] loads_kept.inv_load [OF assms(1) kept_refl]
    loads_modules.inv_load [OF assms(1) keeps_modules_refl] assms(2)
  unfolding harmless_def by (meson calm_trans kept_trans keeps_modules_trans)

subsection \<open>Modules are loaded once\<close>

definition loaded_as :: "module_manager \<Rightarrow> string \<Rightarrow> mod_id \<Rightarrow> bool" where
  "loaded_as mm name md \<longleftrightarrow> (\<exists>mi. kl_lookup mm name = Some mi \<and> is_loaded mi \<and> mi_module mi = Some md)"

text \<open>A loaded entry has a module of its own, with a reflection; callbacks are harmless.\<close>

definition mods_ok :: "vm_state \<Rightarrow> bool" where
  "mods_ok s \<longleftrightarrow> (case s of (mm, e, m) \<Rightarrow>
     (\<forall>name mi. kl_lookup mm name = Some mi \<longrightarrow>
        (is_loaded mi \<longrightarrow> mi_module mi \<noteq> None) \<and> (\<forall>cb. native_callback mi = Some cb \<longrightarrow> harmless cb)) \<and>
     (\<forall>name md. loaded_as mm name md \<longrightarrow> md < length (s_modules m) \<and> m_reflection (mod_at m md) \<noteq> None) \<and>
     (\<forall>name name' md. loaded_as mm name md \<longrightarrow> loaded_as mm name' md \<longrightarrow> name = name'))"

text \<open>What may happen to the table: a file is registered, a module is looked up, classes are added to a
  loaded module, and programs run, which do not take modules away.\<close>

inductive module_step :: "file_lib \<Rightarrow> vm_state \<Rightarrow> vm_state \<Rightarrow> bool" for fl where
  register_module: "mm_register_module_with_callback fl fn cb mm = Inr (name, mm') \<Longrightarrow>
    (\<And>f. cb = Some f \<Longrightarrow> harmless f) \<Longrightarrow> module_step fl (mm, e, m) (mm', e, m)"
| lookup_module: "modulemanager_lookup fl n name s = Some (Inr (r, s')) \<Longrightarrow> module_step fl s s'"
| update_module: "modulemanager_update_module n e md (kl, m) = Some (Inr (kl', m')) \<Longrightarrow>
    module_step fl (mm, e, m) (mm, e, m')"
| run_program: "keeps_modules m m' \<Longrightarrow> module_step fl (mm, e, m) (mm, e, m')"

lemma loaded_as_put:
  "(\<And>k. kl_lookup mm' k = (if k = name then Some mi' else kl_lookup mm k)) \<Longrightarrow>
   loaded_as mm' k md \<longleftrightarrow> (if k = name then is_loaded mi' \<and> mi_module mi' = Some md else loaded_as mm k md)"
  by (simp add: loaded_as_def)

lemma mods_okD:
  assumes "mods_ok (mm, e, m)"
  shows "loaded_as mm name md \<Longrightarrow> md < length (s_modules m)"
    and "loaded_as mm name md \<Longrightarrow> m_reflection (mod_at m md) \<noteq> None"
    and "kl_lookup mm name = Some mi \<Longrightarrow> native_callback mi = Some cb \<Longrightarrow> harmless cb"
  using assms by (simp_all add: mods_ok_def)

lemma mods_ok_keeps: "mods_ok (mm, e, m) \<Longrightarrow> keeps_modules m m' \<Longrightarrow> mods_ok (mm, e', m')"
  unfolding mods_ok_def keeps_modules_def prod.case by (meson order_less_le_trans)

lemma mods_ok_register:
  assumes "mm_register_module_with_callback fl fn cb mm = Inr (name, mm')" and "mods_ok (mm, e, m)"
    and "\<And>f. cb = Some f \<Longrightarrow> harmless f"
  shows "mods_ok (mm', e, m)" and "loaded_as mm name' md \<Longrightarrow> loaded_as mm' name' md"
proof -
  have new: "mm' = mm \<or> kl_lookup mm name = None \<and>
      (\<exists>mi. \<not> is_loaded mi \<and> native_callback mi = cb \<and> (\<forall>k. kl_lookup mm' k = (if k = name then Some mi else kl_lookup mm k)))"
    using assms(1)
    by (auto simp: mm_register_module_with_callback_def create_moduleinfo_def andThen_eq_Inr split: option.splits prod.splits if_splits)
  have same: "loaded_as mm' name' md = loaded_as mm name' md" for name' md
    using new
  proof (elim disjE conjE exE)
    fix mi
    assume n: "kl_lookup mm name = None" "\<not> is_loaded mi"
      and l: "\<forall>k. kl_lookup mm' k = (if k = name then Some mi else kl_lookup mm k)"
    have "loaded_as mm' name' md \<longleftrightarrow> (if name' = name then is_loaded mi \<and> mi_module mi = Some md else loaded_as mm name' md)"
      by (rule loaded_as_put) (use l in blast)
    with n show ?thesis by (auto simp: loaded_as_def)
  qed simp
  show "loaded_as mm name' md \<Longrightarrow> loaded_as mm' name' md" by (simp add: same)
  show "mods_ok (mm', e, m)"
    using assms(2,3) new unfolding mods_ok_def prod.case same by (metis option.inject)
qed

lemma hydrate_new:
  assumes "modulemanager_hydrate n e t m = Some (Inr (md, m'))"
  shows "md = length (s_modules m)" and "length (s_modules m) < length (s_modules m')"
proof -
  show md: "md = length (s_modules m)"
    using assms by (auto simp: modulemanager_hydrate_def Let_def andThen_eq_Inr split: sum.splits)
  let ?m = "m\<lparr>s_modules := s_modules m @ [module_init (t_module_name t) t]\<rparr>"
  have "keeps_modules ?m m'"
    by (rule loads_modules.inv_hydrate_from [OF assms keeps_modules_refl])
  then show "length (s_modules m) < length (s_modules m')" by (simp add: keeps_modules_def)
qed

lemma module_reflected:
  assumes "add_reflection_to_module e md m = Inr m'" and "md < length (s_modules m)"
  shows "m_reflection (mod_at m' md) \<noteq> None"
proof -
  let ?m = "set_internal (length (s_objects m)) (IModule md)
    (upd_mod md (\<lambda>x. x\<lparr>m_reflection := Some (length (s_objects m))\<rparr>) (snd (heap_new (Class_Module e) m)))"
  have "keeps_modules ?m m'"
    using loads_modules.inv_module_reflection_from [OF keeps_modules_refl] assms(1) by (rule postD)
  then show ?thesis using assms(2) by (simp add: keeps_modules_def set_internal_def upd_mod_def)
qed

lemma load_cases:
  assumes "modulemanager_load fl n name (mm, e, m) = Some (Inr (md, mm', e', m'))" and "mods_ok (mm, e, m)"
  obtains (loaded) "loaded_as mm name md" "mm' = mm" "e' = e" "m' = m"
  | (new) mi mi' where "kl_lookup mm name = Some mi" "\<not> is_loaded mi" "length (s_modules m) \<le> md"
      "md < length (s_modules m')" "m_reflection (mod_at m' md) \<noteq> None" "is_loaded mi'" "mi_module mi' = Some md"
      "native_callback mi' = native_callback mi" "\<And>k. kl_lookup mm' k = (if k = name then Some mi' else kl_lookup mm k)"
proof -
  obtain mi where mi: "kl_lookup mm name = Some mi"
    using assms(1) by (auto simp: modulemanager_load_def followed_eq_Inr)
  show thesis
  proof (cases "is_loaded mi")
    case True
    with assms(1) mi have "loaded_as mm name md" "mm' = mm" "e' = e" "m' = m"
      by (auto simp: modulemanager_load_def followed_eq_Inr andThen_eq_Inr loaded_as_def)
    then show ?thesis by (rule loaded)
  next
    case False
    let ?mi' = "\<lambda>keeps. mi\<lparr>mi_module := Some md, mi_fi := (if keeps then Some (mi_file_name mi) else mi_fi mi),
      is_loaded := True\<rparr>"
    from False assms(1) mi obtain keeps m1 e1 m2 where
      r: "read_module fl n e (mi_file_name mi) m = Some (Inr ((md, keeps), m1))"
      and c: "(case native_callback mi of None \<Rightarrow> Inr (e, m1) | Some cb \<Rightarrow> cb md e m1) = Inr (e1, m2)"
      and a: "add_reflection_to_module e1 md m2 = Inr m'"
      and mm': "mm' = kl_put name (?mi' keeps) mm"
      by (auto simp: modulemanager_load_def followed_eq_Inr andThen_eq_Inr Let_def)
    have "md = length (s_modules m)" "length (s_modules m) < length (s_modules m1)"
      using r by (auto simp: read_module_def read_jl_def read_ja_def read_jb_def followed_eq_Inr
          split: if_splits option.splits dest: hydrate_new)
    moreover have "keeps_modules m1 m2"
      using c assms(2) mi by (fastforce simp: mods_ok_def harmless_def split: option.splits)
    moreover have "keeps_modules m2 m'"
      using loads_modules.inv_module_reflection [OF keeps_modules_refl] a by (rule postD)
    ultimately have h: "length (s_modules m) \<le> md" "md < length (s_modules m')" "md < length (s_modules m2)"
      by (auto simp: keeps_modules_def)
    show ?thesis
      by (rule new [OF mi False, where mi' = "?mi' keeps"]) (use a h in \<open>auto simp: mm' dest: module_reflected\<close>)
  qed
qed

lemma mods_ok_load:
  assumes "modulemanager_load fl n name (mm, e, m) = Some (Inr (md, mm', e', m'))" and ok: "mods_ok (mm, e, m)"
  shows "mods_ok (mm', e', m')" and "loaded_as mm' name md" and "loaded_as mm k md' \<Longrightarrow> loaded_as mm' k md'"
proof -
  have keeps: "keeps_modules m m'"
    using load_harmless [OF assms(1)] ok by (auto simp: mods_ok_def)
  have "mods_ok (mm', e', m') \<and> loaded_as mm' name md \<and> (loaded_as mm k md' \<longrightarrow> loaded_as mm' k md')"
    using assms
  proof (cases rule: load_cases)
    case loaded
    with ok show ?thesis by simp
  next
    case (new mi mi')
    have l: "loaded_as mm' k md' \<longleftrightarrow> (if k = name then md' = md else loaded_as mm k md')" for k md'
      using loaded_as_put [OF new(9), of k md'] new(6,7) by auto
    moreover have "\<not> loaded_as mm k md" "\<not> loaded_as mm name md'" for k md'
      using mods_okD(1) [OF ok] new(1-3) by (fastforce, simp add: loaded_as_def)
    moreover have "md'' < length (s_modules m') \<and> m_reflection (mod_at m' md'') \<noteq> None" if "loaded_as mm k md''" for k md''
      using that ok keeps unfolding mods_ok_def keeps_modules_def prod.case by (meson order_less_le_trans)
    ultimately show ?thesis
      using ok new unfolding mods_ok_def prod.case by (auto split: if_splits)
  qed
  then show "mods_ok (mm', e', m')" "loaded_as mm' name md" "loaded_as mm k md' \<Longrightarrow> loaded_as mm' k md'" by auto
qed

lemma lookup_load:
  "modulemanager_lookup fl n name s = Some (Inr (Some md, s')) \<longleftrightarrow> modulemanager_load fl n name s = Some (Inr (md, s'))"
proof (cases "kl_lookup (fst s) name")
  case None
  then show ?thesis by (auto simp: modulemanager_lookup_def modulemanager_load_def split: prod.splits)
qed (cases s', auto simp: modulemanager_lookup_def followed_eq_Inr)

lemma load_loaded: "loaded_as mm name md \<Longrightarrow> modulemanager_load fl n name (mm, e, m) = Some (Inr (md, mm, e, m))"
  by (auto simp: loaded_as_def modulemanager_load_def)

lemma mods_ok_step:
  assumes "module_step fl s s'" and "mods_ok s"
  shows "mods_ok s' \<and> (\<forall>k md. loaded_as (fst s) k md \<longrightarrow> loaded_as (fst s') k md)"
  using assms
proof (induction rule: module_step.induct)
  case (register_module fn cb mm name mm' e m)
  then show ?case using mods_ok_register [OF register_module(1)] by simp
next
  case (lookup_module n name s r s')
  show ?case
  proof (cases r)
    case None
    with lookup_module show ?thesis by (auto simp: modulemanager_lookup_def followed_eq_Inr split: if_splits)
  next
    case (Some md)
    obtain mm e m mm' e' m' where s: "s = (mm, e, m)" "s' = (mm', e', m')" by (metis surj_pair)
    from lookup_module(1) Some have "modulemanager_load fl n name (mm, e, m) = Some (Inr (md, mm', e', m'))"
      by (simp add: s lookup_load)
    from mods_ok_load [OF this] lookup_module(2) show ?thesis by (simp add: s)
  qed
next
  case (update_module n e md kl m kl' m' mm)
  from loads_modules.inv_update_module [OF this(1), of m] have "keeps_modules m m'" by simp
  with update_module(2) show ?case by (simp add: mods_ok_keeps)
next
  case (run_program m m' mm e)
  then show ?case by (simp add: mods_ok_keeps)
qed


definition demo_table :: module_manager where
  "demo_table = List.map (\<lambda>name. (name, \<lparr>mi_module = None, mi_fi = None, mi_file_name = name @ ''.jb'', is_loaded = False,
     native_callback = None\<rparr>)) [''a'', ''b'']"

text \<open>Every file is the binary form of an empty tape.\<close>

definition demo_disk :: file_lib where
  "demo_disk = \<lparr>fl_split = (\<lambda>fn. ([], fn, [])), fl_combine = (\<lambda>dir name ext. dir @ name @ ext),
     fl_exists = (\<lambda>fn. True), fl_lines = (\<lambda>fn. []), fl_bytes = (\<lambda>fn. Some [2, 0, 97, 0, 0, 0, 0, 0, 0, 0, 0]),
     fl_order = (\<lambda>fs. fs), fl_parse = std_parselib, fl_ow = False, fl_deliver = (\<lambda>x. x), fl_junk = (\<lambda>i. [])\<rparr>"

lemma case_found:
  "(case r of Some (Inr (Some md, s)) \<Rightarrow> P md s | _ \<Rightarrow> False) \<longleftrightarrow> (\<exists>md s. r = Some (Inr (Some md, s)) \<and> P md s)"
  by (auto split: option.splits sum.splits)

lemma demo_loads:
  obtains s1 s2 where "modulemanager_lookup demo_disk 1 ''a'' (demo_table, demo_env, demo_machine []) = Some (Inr (Some 2, s1))"
    and "modulemanager_lookup demo_disk 1 ''b'' s1 = Some (Inr (Some 3, s2))"
proof -
  have "case modulemanager_lookup demo_disk 1 ''a'' (demo_table, demo_env, demo_machine []) of
      Some (Inr (Some md, s1)) \<Rightarrow> md = 2 \<and> (case modulemanager_lookup demo_disk 1 ''b'' s1 of
        Some (Inr (Some md, s2)) \<Rightarrow> md = 3 | _ \<Rightarrow> False) | _ \<Rightarrow> False"
    by code_simp
  then show ?thesis unfolding case_found by (auto intro: that)
qed


end
