(* ===== verification/Spec2Isabelle.thy ===== *)
theory Spec2Isabelle
  imports ParserFacts TapeTextFacts CompileFacts Correct NativeFrames NativeFacts CopyFacts CommandLineFacts
    ModuleFacts ModuleTable
begin

text \<open>
  A verification library for the Jeff language: its lexer, its bytecode, its optimizer and its virtual
  machine, as written in C under \<open>src/\<close>.

  The program. A source file is split into tokens (\<open>lang/lexer\<close>), parsed (\<open>lang/parser\<close>), and
  turned into a tape of instructions (\<open>lang/semantics\<close>, \<open>program/tape.c\<close>). A tape can be
  optimised (\<open>program/optimization\<close>), written and read as text (\<open>program/tape.c\<close>) or in a binary
  format (\<open>program/tape_binary.c\<close>, \<open>program/serialization\<close>), and loaded as a module with classes and
  functions (\<open>vm/module_manager.c\<close>). The virtual machine (\<open>vm/virtual_machine.c\<close>) runs the tasks of a
  process: each task has a stack, a result value and a chain of contexts (\<open>vm/process\<close>); a call starts a
  new task for which the caller waits; errors climb the contexts to a handler and from a task to its
  parent; values are objects on a heap whose references are reported to a memory graph (\<open>heap\<close>,
  \<open>entity\<close>).

  \<^bold>\<open>What models what.\<close> Each definition carries the file and function it translates in a comment above it.

  \<^item> \<open>Prelude\<close>: results (\<open>'a res\<close>: a value, or an error that is a failed assertion (\<open>Fatal\<close>) or
    behaviour that C leaves undefined (\<open>UB\<close>)), \<open>andThen\<close>, \<open>foldRes\<close>, the keyed lists of the container
    library, digits and bytes.
  \<^item> \<open>Primitives\<close>: \<open>entity/primitive.c\<close>. Chars and ints are 8 and 32 bit words, a double is its 64 bits; what the
    platform computes with doubles is the record \<open>fops\<close>, an argument.
  \<^item> \<open>Tokens\<close>, \<open>Lexer\<close>, \<open>LexerFacts\<close>, \<open>StringUtil\<close>: \<open>lang/lexer\<close> and \<open>util/string_util.c\<close>.
  \<^item> \<open>Grammar\<close>, \<open>Parser\<close>, \<open>ParserFacts\<close>: \<open>lang/parser/parser.c\<close>. The macros of the grammar are the datatype
    \<open>parse_expression\<close>, each \<open>ImplSyntax\<close> a nonterminal with its rule, and \<open>parse\<close> is what the macros expand to.
  \<^item> \<open>Trees\<close>, \<open>Populate\<close>, \<open>PopulateFiles\<close>, \<open>PopulateModules\<close>: \<open>lang/semantics\<close>, from syntax trees to expressions. A
    definition for each \<open>ImplPopulate\<close>, which takes the recursive call as its argument \<open>pop\<close>; \<open>populate_expression\<close>
    ties the knot, and stops where a populator is applied to a tree that is not smaller. The parts of expressions
    (\<open>postfix\<close>, \<open>assignment\<close>, \<open>function_def\<close> and others) are polymorphic in the expressions they hold.
  \<^item> \<open>Produce\<close>, \<open>Codegen\<close>: from expressions to tapes. A \<open>gen\<close> adds instructions to a tape and counts them; a
    definition for each \<open>ImplProduce\<close> puts the generators of the parts together, and \<open>produce_instructions\<close> is the
    table of them. Operands of \<open>+\<close> run from left to right (C leaves that open, and the code depends on it).
  \<^item> \<open>Compile\<close>: \<open>_read_file\<close> of \<open>compile/compile.c\<close>, the whole way from lines to a tape.
  \<^item> \<open>CodegenFacts\<close>, \<open>JumpFacts\<close>, \<open>LoopFacts\<close>, \<open>CompileFacts\<close>: what a generator emits (\<open>emits\<close>), and that its
    jumps stay in it (\<open>closed\<close>), for each construct and then for all expressions.
  \<^item> \<open>Instructions\<close>, \<open>Tape\<close>, \<open>TapeFacts\<close>, \<open>TapeText\<close>, \<open>TapeTextFacts\<close>: opcodes, instructions, tapes and
    their text (\<open>program/op.c\<close>, \<open>program/instruction.c\<close>, \<open>program/tape.c\<close>).
  \<^item> \<open>Serialize\<close>, \<open>TapeBinary\<close>, \<open>TapeBinaryFacts\<close>: \<open>program/serialization\<close> and \<open>program/tape_binary.c\<close>.
  \<^item> \<open>Optimizer\<close>, \<open>Optimize\<close>, \<open>OptimizeFacts\<close>: \<open>program/optimization\<close>.
  \<^item> \<open>Entity\<close>: the records of \<open>entity/object.h\<close> and \<open>vm/process/processes.h\<close>. The \<open>machine\<close> holds one growing
    list per arena (objects, classes, functions, modules, contexts, tasks); a pointer is a position, \<open>NULL\<close> is
    \<open>None\<close>. The record \<open>env\<close> holds what is outside: native functions, module loading, the ends of the
    queue, the order of a set, uninitialised memory, the growth of arrays.
  \<^item> \<open>Heap\<close>, \<open>HeapFacts\<close>: \<open>heap/heap.c\<close> with arrays, tuples and strings; \<open>s_edges\<close> logs every call of the
    memory graph. The locale \<open>cell_store\<close> is the contract of objects as dictionaries, and is interpreted on
    \<open>object_get\<close> and \<open>object_set_member\<close>.
  \<^item> \<open>Classes\<close>, \<open>ClassFacts\<close>: \<open>entity/class\<close>, \<open>entity/module\<close>, \<open>entity/function\<close>, \<open>entity/native/native.c\<close>,
    and \<open>_modulemanager_hydrate\<close> with the reflections.
  \<^item> \<open>Process\<close>, \<open>Contexts\<close>, \<open>ContextFacts\<close>: \<open>vm/process\<close>, \<open>vm/vm.c\<close>: tasks, the queue and the sets of a process,
    contexts, names.
  \<^item> \<open>Errors\<close>: \<open>entity/native/error.c\<close>, \<open>entity/native/async.c\<close>.
  \<^item> \<open>Machine\<close>, \<open>Calls\<close>, \<open>MachineFacts\<close>: one definition per \<open>_execute_\<close> function of \<open>vm/virtual_machine.c\<close>.
  \<^item> \<open>Scheduler\<close>, \<open>Frames\<close>, \<open>SchedulerFacts\<close>, \<open>SchedulerProps\<close>, \<open>TypeFacts\<close>: \<open>vm_execute_task\<close>, \<open>process_run\<close> and
    the background functions. The inductive relation \<open>process_step\<close> has a step for running the next
    queued task and one for each background function that finishes, so its closure covers every
    interleaving. The locales \<open>updates\<close> and \<open>calls\<close> (\<open>Frames\<close>) prove once that a property which survives the
    elementary updates of the machine survives every instruction and \<open>vm_execute_task\<close>; they are
    interpreted with \<open>calm\<close> (what an instruction may do to the scheduler) and with \<open>kept\<close> (objects keep
    their class).
  \<^item> \<open>Evaluate\<close>, \<open>Correct\<close>: an evaluator for expressions, and that the code of an expression computes its value. The
    predicate \<open>computes\<close> speaks of a list of instructions wherever it stands in a tape, and has a lemma for
    each way to put lists together.
  \<^item> \<open>CStrings\<close>, \<open>Natives\<close>, \<open>Builtin\<close>: \<open>entity/native/builtin.c\<close>: the loops over C strings, a definition for
    each native, and the table that registers them. \<open>with_table\<close> puts a table in front of the natives of an
    \<open>env\<close>. \<open>NativeModules\<close>: those of \<open>math\<close>, \<open>error\<close> and \<open>async\<close>. The record \<open>string_lib\<close> is the container of strings and the C functions they call; the natives are proved over
    \<open>shrinks\<close>, \<open>finds\<close> and \<open>compares\<close>, what is assumed of it, and \<open>list_lib\<close> is an instance.
  \<^item> \<open>Copy\<close>, \<open>CopyFacts\<close>: \<open>entity_copy\<close> of \<open>heap/heap.c\<close> and \<open>heap/copy_fns.c\<close>.
  \<^item> \<open>StringFacts\<close>, \<open>NativeFacts\<close>, \<open>NativeFrames\<close>: the natives of strings, the rooting of the collector, and (with
    the locale \<open>native_updates\<close>, interpreted as \<open>updates\<close> is) that natives keep what the scheduler relies on.
  \<^item> \<open>CommandLine\<close>, \<open>CommandLineFacts\<close>: \<open>util/args\<close>, the arguments of the two programs.
  \<^item> \<open>Modules\<close>, \<open>ModuleFacts\<close>, \<open>ModuleTable\<close>: the table of modules and loading (\<open>vm/module_manager.c\<close>), what the compiler
    writes (\<open>compile/compile.c\<close>), and the start of a program (\<open>run/run.c\<close>). The inductive relation \<open>module_step\<close> is what may
    happen to the table. The locale \<open>loading\<close> extends \<open>updates\<close> by the updates that make modules.
  \<^item> \<open>Demo\<close>: a small closed world, on which the witnesses evaluate programs.

  \<^bold>\<open>What the lemmas show.\<close> The lexer loses nothing, stays in its buffers and never emits two line ends in a
  row; the parser ends on every file and its tree has every token of the file in order, line ends
  aside; the code of an expression does not depend on the tape it is added to, and its jumps have the lengths
  of what they jump over; the code of an expression, run by the interpreter, gives the value of the expression; escaping, instruction text and the binary format round trip within stated limits; the
  write buffer refines an append; appending tapes is associative and moves names and positions right;
  every registered optimizer pass retargets jumps and labels to the kept code, and the rewritten pairs
  compute the same on the machine. For the machine: the account of references is exact; classes are found by
  the nearest superclass, subclass tests are the reflexive transitive closure, loading terminates; variables read
  back; integer arithmetic is exact or undefined; errors go to the nearest handler; tasks are
  at one place at a time and woken exactly when what they wait for completes; objects keep their class, and
  the natives respect both; a module is loaded once, a compiled module is loaded as the tape of its source, and
  the arguments of a program are what it reads. A copy of a value is isomorphic to it; splitting, searching and trimming strings
  do what they say within stated limits; integers read back from their text, command lines from their parts.
  Some properties state what goes wrong, where the code does not do what it means to: the parser drops a
  line end it cannot give back and joins two statements, \<open>continue\<close> in a \<open>while\<close> does not test the condition, an
  empty \<open>else\<close> ends the loop around it, destructuring unbalances the stack, a default value is indexed, an error in a
  block nested in a \<open>try\<close> escapes its handler, a class whose superclass is in another module makes loading
  run forever, \<open>PSRS\<close> is emitted but not implemented, overwriting a tuple slot leaks, a loop at
  position 0 stops an optimizer pass, the text form forgets asynchrony and superclasses and cannot
  read an asynchronous label, the binary format misreads one kind of tape.

  \<^bold>\<open>Bounds and fuel.\<close> Loops that follow chains count down from the number of classes, contexts or tasks: a
  longer chain is a cycle, on which the C loop would not end, and gives the error \<open>UB\<close>;
  \<open>hydrate_keeps_superclass_order\<close>, \<open>inherits_from_is_subclass\<close> and \<open>attemp_catch_error_nearest\<close> show that the bound is enough.
  \<open>parse\<close> takes the depth of nested nonterminals: no rule is left-recursive, so 29 for every character and line
  is enough (\<open>parse_file_terminates\<close>). \<open>hydrate_queue\<close>, \<open>execute_loop\<close> and \<open>run_queue\<close> take the number of rounds and answer \<open>None\<close> when it
  does not suffice: the square of the number of classes is enough for \<open>hydrate_queue\<close> when it ends at
  all (\<open>hydrate_terminates\<close>), and a program may of course run forever; statements about runs quantify over
  all fuels or over all sequences of steps. \<open>entity_copy\<close> takes
  the depth of nested calls, and one more than the number of objects is enough (\<open>copy_isomorphic\<close>). All other recursion is
  structural or has a measure.

  \<^bold>\<open>What is not modelled.\<close> Printing of trees; opening files; the natives of the modules \<open>io\<close>, \<open>socket\<close>,
  \<open>process\<close> and \<open>classes\<close>, which are a parameter; the creation of the machine with its library, because \<open>builtin\<close> is
  loaded when its classes are still null pointers; garbage collection, which belongs to the external memory graph (its calls
  are logged); interning, because strings are compared by content;
  files, sockets and threads. Locks leave no trace: every operation they
  protect is one step. Memory is never reused, so use after free is outside the model.
\<close>

end
